(* ===== verification/Prelude.thy ===== *)
theory Prelude
  imports Main "HOL-Library.Sublist"
begin

text \<open>
  Shared material: the JavaScript values and string operations that the TypeScript
  front ends use, errors as values, calls to a remote service as a function of the
  calls made before, and the lemmas about them that the component theories share.

  A \<^typ>\<open>string\<close> is a list of \<^typ>\<open>char\<close>, standing for a JavaScript string whose
  UTF-16 code units are all below 256. A JavaScript number is an \<^typ>\<open>int\<close> where
  the source only handles whole numbers (identifiers, counts, milliseconds); the value
  \<open>NaN\<close> is a constructor of its own.
\<close>

named_theorems js_string \<open>evaluation and algebra of the JavaScript string operations\<close>
named_theorems js_value \<open>property access and conversions of JavaScript values\<close>

section \<open>Strings\<close>

text \<open>The white space and line terminators that \<open>trim\<close> and \<open>\\s\<close> recognise, below 256.\<close>

definition is_ws :: "char \<Rightarrow> bool" where
  "is_ws c = (c = CHR '' '' \<or> c = CHR 0x09 \<or> c = CHR 0x0A \<or> c = CHR 0x0B \<or>
              c = CHR 0x0C \<or> c = CHR 0x0D \<or> c = CHR 0xA0)"

definition is_digit :: "char \<Rightarrow> bool" where
  "is_digit c = (CHR ''0'' = c \<or> c \<in> set ''123456789'')"

definition trim_start :: "string \<Rightarrow> string" where
  "trim_start s = dropWhile is_ws s"

definition trim :: "string \<Rightarrow> string" where
  "trim s = rev (dropWhile is_ws (rev (dropWhile is_ws s)))"

definition starts_with :: "string \<Rightarrow> string \<Rightarrow> bool" where
  "starts_with s p = (take (length p) s = p)"

definition ends_with :: "string \<Rightarrow> string \<Rightarrow> bool" where
  "ends_with s p = (starts_with (rev s) (rev p))"

text \<open>\<open>s.split(c)\<close> for a separator of one character: never an empty list.\<close>

fun split_on :: "char \<Rightarrow> string \<Rightarrow> string list" where
  "split_on c [] = [[]]"
| "split_on c (x # xs) =
     (if x = c then [] # split_on c xs
      else (case split_on c xs of [] \<Rightarrow> [[x]] | p # ps \<Rightarrow> (x # p) # ps))"

text \<open>\<open>s.split(sep)\<close> for a longer separator; \<open>acc\<close> holds the current piece reversed.\<close>

function split_str_acc :: "string \<Rightarrow> string \<Rightarrow> string \<Rightarrow> string list" where
  "split_str_acc sep acc s =
     (case s of
        [] \<Rightarrow> [rev acc]
      | c # cs \<Rightarrow>
          if sep \<noteq> [] \<and> starts_with s sep
          then rev acc # split_str_acc sep [] (drop (length sep) s)
          else split_str_acc sep (c # acc) cs)"
  by pat_completeness auto
termination
  by (relation "measure (\<lambda>(sep, acc, s). length s)") (auto simp: starts_with_def)

declare split_str_acc.simps [simp del]

definition split_str :: "string \<Rightarrow> string \<Rightarrow> string list" where
  "split_str sep s = split_str_acc sep [] s"

fun join :: "string \<Rightarrow> string list \<Rightarrow> string" where
  "join sep [] = []"
| "join sep [x] = x"
| "join sep (x # y # ys) = x @ sep @ join sep (y # ys)"

fun str_includes :: "string \<Rightarrow> string \<Rightarrow> bool" where
  "str_includes [] p = (p = [])"
| "str_includes (c # cs) p = (starts_with (c # cs) p \<or> str_includes cs p)"

text \<open>\<open>toLowerCase\<close> on code units below 256: ASCII and Latin-1 capitals.\<close>

definition lower_char :: "char \<Rightarrow> char" where
  "lower_char c =
     (let n = of_char c :: nat
      in if 65 \<le> n \<and> n \<le> 90 \<or> 192 \<le> n \<and> n \<le> 222 \<and> n \<noteq> 215
         then char_of (n + 32) else c)"

definition to_lower :: "string \<Rightarrow> string" where
  "to_lower s = map lower_char s"

text \<open>\<open>String(n)\<close> and \<open>padStart(2, "0")\<close>.\<close>

definition digit_char :: "nat \<Rightarrow> char" where
  "digit_char n = ''0123456789'' ! (n mod 10)"

fun show_nat :: "nat \<Rightarrow> string" where
  "show_nat n = (if n < 10 then [digit_char n] else show_nat (n div 10) @ [digit_char n])"

declare show_nat.simps [simp del]

definition show_int :: "int \<Rightarrow> string" where
  "show_int i = (if i < 0 then CHR ''-'' # show_nat (nat (- i)) else show_nat (nat i))"

definition pad2 :: "string \<Rightarrow> string" where
  "pad2 s = replicate (2 - length s) (CHR ''0'') @ s"

definition digit_value :: "char \<Rightarrow> int" where
  "digit_value c = int (of_char c) - 48"

definition digits_value :: "string \<Rightarrow> int" where
  "digits_value s = foldl (\<lambda>n c. 10 * n + digit_value c) 0 s"

text \<open>
  \<open>Number(s)\<close> for the texts the forms produce: surrounding white space is dropped, the
  empty text is 0, an optional sign and decimal digits are the number they write, and
  anything else is taken to be \<open>NaN\<close> (the fractional, exponent and hexadecimal forms of
  \<open>Number\<close> are not modelled).
\<close>

definition number_of_string :: "string \<Rightarrow> int option" where
  "number_of_string s =
     (let t = trim s
      in if t = [] then Some 0
         else if list_all is_digit t then Some (digits_value t)
         else if hd t = CHR ''-'' \<and> tl t \<noteq> [] \<and> list_all is_digit (tl t)
           then Some (- digits_value (tl t))
         else if hd t = CHR ''+'' \<and> tl t \<noteq> [] \<and> list_all is_digit (tl t)
           then Some (digits_value (tl t))
         else None)"

subsection \<open>Facts about the string operations\<close>

lemma starts_with_append [simp, js_string]: "starts_with (p @ s) p"
  by (simp add: starts_with_def)

lemma starts_with_iff: "starts_with s p \<longleftrightarrow> (\<exists>t. s = p @ t)"
  unfolding starts_with_def by (metis append_take_drop_id append_eq_conv_conj)

lemma starts_with_Nil [simp, js_string]: "starts_with s []"
  by (simp add: starts_with_def)

lemma starts_with_Cons [simp, js_string]:
  "starts_with (c # cs) (d # ds) \<longleftrightarrow> c = d \<and> starts_with cs ds"
  by (simp add: starts_with_def)

lemma Nil_starts_with [simp, js_string]: "starts_with [] (d # ds) = False"
  by (simp add: starts_with_def)

lemma split_on_not_Nil [simp]: "split_on c s \<noteq> []"
  by (induction s) (auto split: list.splits)

lemma split_on_no_sep: "c \<notin> set s \<Longrightarrow> split_on c s = [s]"
  by (induction s) auto

lemma split_on_append_sep:
  "c \<notin> set s \<Longrightarrow> split_on c (s @ c # t) = s # split_on c t"
  by (induction s) auto

lemma split_on_no_sep_inside: "p \<in> set (split_on c s) \<Longrightarrow> c \<notin> set p"
  by (induction s arbitrary: p) (auto split: if_splits list.splits)

lemma split_on_hd_tl: "split_on c s = hd (split_on c s) # tl (split_on c s)"
  by simp

lemma join_split_on: "join [c] (split_on c s) = s"
proof (induction s)
  case Nil
  show ?case by simp
next
  case (Cons x xs)
  show ?case
  proof (cases "split_on c xs")
    case Nil
    then show ?thesis by simp
  next
    case (Cons p ps)
    with Cons.IH show ?thesis by (cases ps) auto
  qed
qed

lemma split_on_join:
  "xs \<noteq> [] \<Longrightarrow> (\<forall>x\<in>set xs. c \<notin> set x) \<Longrightarrow> split_on c (join [c] xs) = xs"
  by (induction "[c]" xs rule: join.induct) (auto simp: split_on_no_sep split_on_append_sep)

text \<open>Splitting a text with more behind it: only the last piece grows.\<close>

lemma split_on_append:
  "split_on c (s @ t) =
     butlast (split_on c s) @
     (last (split_on c s) @ hd (split_on c t)) # tl (split_on c t)"
proof (induction s)
  case Nil
  show ?case by simp
next
  case (Cons x xs)
  show ?case
  proof (cases "split_on c xs")
    case Nil
    then show ?thesis by simp
  next
    case (Cons p ps)
    with Cons.IH show ?thesis by (cases ps) auto
  qed
qed

lemma dropWhile_is_ws_trim: "dropWhile is_ws (trim s) = trim s"
proof -
  let ?t = "dropWhile is_ws s"
  have "?t = [] \<or> \<not> is_ws (hd ?t)"
    using hd_dropWhile by blast
  then show ?thesis
  proof
    assume "?t = []"
    then have "trim s = []" by (simp only: trim_def rev.simps dropWhile.simps)
    then show ?thesis by simp
  next
    assume nws: "\<not> is_ws (hd ?t)"
    show ?thesis
    proof (cases "trim s")
      case Nil
      then show ?thesis by simp
    next
      case (Cons a as)
      have "\<exists>zs. ?t = trim s @ zs"
        unfolding trim_def
        by (metis rev_append rev_rev_ident takeWhile_dropWhile_id)
      then have "hd (trim s) = hd ?t" using Cons by auto
      then show ?thesis using nws Cons by simp
    qed
  qed
qed

lemma trim_trim [simp, js_string]: "trim (trim s) = trim s"
proof -
  have "trim (trim s) = rev (dropWhile is_ws (rev (trim s)))"
    by (simp only: trim_def [of "trim s"] dropWhile_is_ws_trim)
  also have "dropWhile is_ws (rev (trim s)) = rev (trim s)"
    by (simp only: trim_def rev_rev_ident dropWhile_idem)
  finally show ?thesis by simp
qed

lemma trim_id: "\<forall>c\<in>set s. \<not> is_ws c \<Longrightarrow> trim s = s"
proof -
  assume nws: "\<forall>c\<in>set s. \<not> is_ws c"
  have "dropWhile is_ws t = t" if "\<forall>c\<in>set t. \<not> is_ws c" for t
    using that by (cases t) simp_all
  from this [of s] this [of "rev s"] nws
  have "dropWhile is_ws s = s" "dropWhile is_ws (rev s) = rev s" by simp_all
  then show ?thesis by (simp add: trim_def)
qed

lemma trim_eq_Nil: "trim s = [] \<longleftrightarrow> (\<forall>c\<in>set s. is_ws c)"
proof -
  let ?d = "dropWhile is_ws s"
  have "trim s = [] \<longleftrightarrow> (\<forall>c\<in>set ?d. is_ws c)"
    by (simp only: trim_def rev_is_Nil_conv dropWhile_eq_Nil_conv set_rev)
  also have "\<dots> \<longleftrightarrow> ?d = []"
  proof (cases ?d)
    case (Cons c cs)
    then have "\<not> is_ws c" using hd_dropWhile [of is_ws s] by simp
    then show ?thesis unfolding Cons by simp
  next
    case Nil
    show ?thesis unfolding Nil by simp
  qed
  also have "\<dots> \<longleftrightarrow> (\<forall>c\<in>set s. is_ws c)" by (rule dropWhile_eq_Nil_conv)
  finally show ?thesis .
qed

lemma set_trim: "set (trim s) \<subseteq> set s"
  unfolding trim_def by (auto dest!: set_dropWhileD)

lemma length_trim: "length (trim s) \<le> length s"
  unfolding trim_def by (metis length_dropWhile_le length_rev order_trans)

lemma show_nat_not_Nil [simp]: "show_nat n \<noteq> []"
  by (subst show_nat.simps) simp

lemma digit_char_less: "n < 10 \<Longrightarrow>
   is_digit (digit_char n) \<and> digit_value (digit_char n) = int n"
proof -
  assume "n < 10"
  then have "n \<in> {0, 1, 2, 3, 4, 5, 6, 7, 8, 9}" by auto
  then show ?thesis
    by (auto simp: digit_char_def is_digit_def digit_value_def)
qed

lemma digit_char_mod: "digit_char n = digit_char (n mod 10)"
  by (simp add: digit_char_def)

lemma digit_char_digit:
  "is_digit (digit_char n) \<and> digit_value (digit_char n) = int (n mod 10)"
  using digit_char_less [of "n mod 10"] by (simp add: digit_char_mod [symmetric])

lemma digits_value_snoc: "digits_value (s @ [c]) = 10 * digits_value s + digit_value c"
  by (simp add: digits_value_def)

lemma show_nat_digits: "list_all is_digit (show_nat n) \<and> digits_value (show_nat n) = int n"
proof (induction n rule: show_nat.induct)
  case (1 n)
  show ?case
  proof (cases "n < 10")
    case True
    then show ?thesis
      using digit_char_less [of n]
      by (subst (1 2) show_nat.simps) (simp add: digits_value_def)
  next
    case False
    have "10 * int (n div 10) + int (n mod 10) = int n" by presburger
    with False "1.IH" show ?thesis
      using digit_char_digit [of n]
      by (subst (1 2) show_nat.simps) (simp add: digits_value_snoc)
  qed
qed

lemma is_digit_not_ws: "is_digit c \<Longrightarrow> \<not> is_ws c"
  by (auto simp: is_digit_def is_ws_def)

lemma is_digit_not_dash: "is_digit c \<Longrightarrow> c \<noteq> CHR ''-''"
  by (auto simp: is_digit_def)

lemma number_of_digits:
  assumes "list_all is_digit s" "s \<noteq> []"
  shows "number_of_string s = Some (digits_value s)"
proof -
  have "trim s = s"
    using assms(1) by (intro trim_id) (auto simp: list_all_iff is_digit_not_ws)
  then show ?thesis using assms by (simp add: number_of_string_def)
qed

lemma number_of_show_nat [simp, js_string]: "number_of_string (show_nat n) = Some (int n)"
  by (simp add: number_of_digits show_nat_digits)

lemma digits_value_leading_zeros:
  "digits_value (replicate k (CHR ''0'') @ s) = digits_value s"
proof -
  have "foldl (\<lambda>n c. 10 * n + digit_value c) 0 (replicate k (CHR ''0'')) = 0"
    by (induction k) (simp_all add: digit_value_def)
  then show ?thesis by (simp add: digits_value_def)
qed

lemma number_of_pad2_show_nat [simp, js_string]:
  "number_of_string (pad2 (show_nat n)) = Some (int n)"
proof -
  have "list_all is_digit (replicate k (CHR ''0''))" for k
    by (induction k) (simp_all add: is_digit_def)
  then have "list_all is_digit (pad2 (show_nat n))"
    using show_nat_digits by (simp add: pad2_def)
  moreover have "pad2 (show_nat n) \<noteq> []" by (simp add: pad2_def)
  moreover have "digits_value (pad2 (show_nat n)) = int n"
    unfolding pad2_def digits_value_leading_zeros using show_nat_digits by blast
  ultimately show ?thesis
    by (simp add: number_of_digits)
qed

lemma show_nat_no_dash [simp]: "CHR ''-'' \<notin> set (show_nat n)"
  using show_nat_digits [of n] by (auto simp: list_all_iff dest: is_digit_not_dash)

lemma pad2_show_nat_no_dash [simp]: "CHR ''-'' \<notin> set (pad2 (show_nat n))"
  by (simp add: pad2_def)

section \<open>JavaScript values\<close>

datatype jsval =
    JUndef
  | JNull
  | JBool bool
  | JNum int
  | JNaN
  | JStr string
  | JArr "jsval list"
  | JObj "(string \<times> jsval) list"

fun truthy :: "jsval \<Rightarrow> bool" where
  "truthy JUndef = False"
| "truthy JNull = False"
| "truthy (JBool b) = b"
| "truthy (JNum n) = (n \<noteq> 0)"
| "truthy JNaN = False"
| "truthy (JStr s) = (s \<noteq> [])"
| "truthy (JArr xs) = True"
| "truthy (JObj ps) = True"

text \<open>\<open>v?.k\<close>: undefined on undefined, null and the primitive values.\<close>

fun jget :: "jsval \<Rightarrow> string \<Rightarrow> jsval" where
  "jget (JObj ps) k = (case map_of ps k of None \<Rightarrow> JUndef | Some v \<Rightarrow> v)"
| "jget _ k = JUndef"

text \<open>\<open>a ?? b\<close> and \<open>a || b\<close>.\<close>

definition nullish :: "jsval \<Rightarrow> bool" where
  "nullish v = (v = JUndef \<or> v = JNull)"

definition or_nullish :: "jsval \<Rightarrow> jsval \<Rightarrow> jsval" where
  "or_nullish a b = (if nullish a then b else a)"

definition or_falsy :: "jsval \<Rightarrow> jsval \<Rightarrow> jsval" where
  "or_falsy a b = (if truthy a then a else b)"

text \<open>Writing a property keeps the position of an existing key, as JavaScript objects do.\<close>

fun obj_put :: "('k \<times> 'v) list \<Rightarrow> 'k \<Rightarrow> 'v \<Rightarrow> ('k \<times> 'v) list" where
  "obj_put [] k v = [(k, v)]"
| "obj_put ((k', v') # ps) k v = (if k' = k then (k, v) # ps else (k', v') # obj_put ps k v)"

text \<open>\<open>{...a, ...v}\<close>: the own enumerable properties of \<open>v\<close> win.\<close>

definition own_entries :: "jsval \<Rightarrow> (string \<times> jsval) list" where
  "own_entries v =
     (case v of
        JObj ps \<Rightarrow> ps
      | JArr xs \<Rightarrow> zip (map show_nat [0..<length xs]) xs
      | JStr s \<Rightarrow> zip (map show_nat [0..<length s]) (map (\<lambda>c. JStr [c]) s)
      | _ \<Rightarrow> [])"

definition obj_spread :: "(string \<times> jsval) list \<Rightarrow> jsval \<Rightarrow> (string \<times> jsval) list" where
  "obj_spread a v = foldl (\<lambda>o1 (k, x). obj_put o1 k x) a (own_entries v)"

fun js_to_string :: "jsval \<Rightarrow> string" where
  "js_to_string JUndef = ''undefined''"
| "js_to_string JNull = ''null''"
| "js_to_string (JBool b) = (if b then ''true'' else ''false'')"
| "js_to_string (JNum n) = show_int n"
| "js_to_string JNaN = ''NaN''"
| "js_to_string (JStr s) = s"
| "js_to_string (JArr xs) =
     join '','' (map (\<lambda>x. if x = JUndef \<or> x = JNull then [] else js_to_string x) xs)"
| "js_to_string (JObj ps) = ''[object Object]''"

fun js_to_number :: "jsval \<Rightarrow> int option" where
  "js_to_number JUndef = None"
| "js_to_number JNull = Some 0"
| "js_to_number (JBool b) = Some (if b then 1 else 0)"
| "js_to_number (JNum n) = Some n"
| "js_to_number JNaN = None"
| "js_to_number (JStr s) = number_of_string s"
| "js_to_number (JArr xs) = number_of_string (js_to_string (JArr xs))"
| "js_to_number (JObj ps) = None"

definition is_array :: "jsval \<Rightarrow> bool" where
  "is_array v = (case v of JArr _ \<Rightarrow> True | _ \<Rightarrow> False)"

definition arr_items :: "jsval \<Rightarrow> jsval list" where
  "arr_items v = (case v of JArr xs \<Rightarrow> xs | _ \<Rightarrow> [])"

lemma map_of_obj_put [simp, js_value]: "map_of (obj_put ps k v) = (map_of ps)(k \<mapsto> v)"
  by (induction ps) auto

lemma jget_obj_put [simp, js_value]:
  "jget (JObj (obj_put ps k v)) k' = (if k' = k then v else jget (JObj ps) k')"
  by simp

lemma jget_obj_spread:
  assumes "distinct (map fst qs)"
  shows "jget (JObj (obj_spread ps (JObj qs))) k =
           (case map_of qs k of Some v \<Rightarrow> v | None \<Rightarrow> jget (JObj ps) k)"
  using assms
proof (induction qs arbitrary: ps)
  case Nil
  show ?case by (simp add: obj_spread_def own_entries_def)
next
  case (Cons q qs)
  obtain a x where q: "q = (a, x)" by (cases q)
  have "obj_spread ps (JObj (q # qs)) = obj_spread (obj_put ps a x) (JObj qs)"
    by (simp add: obj_spread_def own_entries_def q)
  moreover have "map_of qs a = None"
    using Cons.prems by (simp add: q map_of_eq_None_iff)
  ultimately show ?case
    using Cons.IH [of "obj_put ps a x"] Cons.prems
    by (auto simp: q split: option.splits simp del: jget.simps jget_obj_put) (simp_all)
qed

lemma or_falsy_simps [simp, js_value]:
  "truthy a \<Longrightarrow> or_falsy a b = a" "\<not> truthy a \<Longrightarrow> or_falsy a b = b"
  by (simp_all add: or_falsy_def)

section \<open>Errors as values, calls to a service\<close>

text \<open>
  A thrown value of the clients: the \<open>message\<close> of the error and, for a failed HTTP call,
  the body of the response (\<open>err.response?.data\<close>; undefined when there is no response).
\<close>

record exn =
  message :: string
  response_data :: jsval

definition js_error :: "string \<Rightarrow> exn" where
  "js_error m = \<lparr>message = m, response_data = JUndef\<rparr>"

text \<open>\<open>v.k\<close>: reading a property of undefined or null throws.\<close>

definition jread :: "jsval \<Rightarrow> string \<Rightarrow> exn + jsval" where
  "jread v k =
     (if nullish v
      then Inl (js_error (''Cannot read properties of '' @ js_to_string v @ '' (reading '' @ [CHR 0x27] @ k @ [CHR 0x27] @ '')''))
      else Inr (jget v k))"

text \<open>
  One POST: the path below the API root, the fields of the JSON body and the headers the
  source adds.
\<close>

datatype api_call =
  Post (call_path: string) (call_body: "(string \<times> jsval) list") (call_headers: "(string \<times> string) list")

text \<open>
  The service answers each call as a function of the calls made before it, so any
  deterministic server is an instance. A computation runs against the list of calls made
  so far and returns an error or a value with the longer list.
\<close>

type_synonym server = "api_call list \<Rightarrow> api_call \<Rightarrow> exn + jsval"
type_synonym 'a io = "api_call list \<Rightarrow> (exn + 'a) \<times> api_call list"

definition ret :: "'a \<Rightarrow> 'a io" where
  "ret x = (\<lambda>h. (Inr x, h))"

definition throw :: "exn \<Rightarrow> 'a io" where
  "throw e = (\<lambda>h. (Inl e, h))"

definition bind_io :: "'a io \<Rightarrow> ('a \<Rightarrow> 'b io) \<Rightarrow> 'b io" where
  "bind_io m f = (\<lambda>h. case m h of (Inl e, h') \<Rightarrow> (Inl e, h') | (Inr x, h') \<Rightarrow> f x h')"

definition catch_io :: "'a io \<Rightarrow> (exn \<Rightarrow> 'a io) \<Rightarrow> 'a io" where
  "catch_io m f = (\<lambda>h. case m h of (Inl e, h') \<Rightarrow> f e h' | (Inr x, h') \<Rightarrow> (Inr x, h'))"

definition post_with ::
  "server \<Rightarrow> string \<Rightarrow> (string \<times> jsval) list \<Rightarrow> (string \<times> string) list \<Rightarrow> jsval io" where
  "post_with srv p b hs = (\<lambda>h. (srv h (Post p b hs), h @ [Post p b hs]))"

definition post :: "server \<Rightarrow> string \<Rightarrow> (string \<times> jsval) list \<Rightarrow> jsval io" where
  "post srv p b = post_with srv p b []"

definition of_sum :: "exn + 'a \<Rightarrow> 'a io" where
  "of_sum r = (\<lambda>h. (r, h))"

named_theorems io_eval \<open>running the computations that call a service\<close>

lemma ret_run [simp, io_eval]: "ret x h = (Inr x, h)"
  by (simp add: ret_def)

lemma throw_run [simp, io_eval]: "throw e h = (Inl e, h)"
  by (simp add: throw_def)

lemma bind_run [io_eval]:
  "bind_io m f h = (case m h of (Inl e, h') \<Rightarrow> (Inl e, h') | (Inr x, h') \<Rightarrow> f x h')"
  by (simp add: bind_io_def)

lemma catch_run [io_eval]:
  "catch_io m f h = (case m h of (Inl e, h') \<Rightarrow> f e h' | (Inr x, h') \<Rightarrow> (Inr x, h'))"
  by (simp add: catch_io_def)

lemma post_with_run [simp, io_eval]:
  "post_with srv p b hs h = (srv h (Post p b hs), h @ [Post p b hs])"
  by (simp add: post_with_def)

lemma post_run [simp, io_eval]: "post srv p b h = (srv h (Post p b []), h @ [Post p b []])"
  by (simp add: post_def)

lemma of_sum_run [simp, io_eval]: "of_sum r h = (r, h)"
  by (simp add: of_sum_def)

lemma if_run [io_eval]: "(if b then m else m') h = (if b then m h else m' h)"
  by simp

section \<open>Lists\<close>

text \<open>A prefix of a distinct list, and filtering, as the table components use them.\<close>

lemma distinct_map_filter: "distinct (map f xs) \<Longrightarrow> distinct (map f (filter P xs))"
  by (induction xs) auto

lemma length_filter_Cons_le: "length (filter P xs) \<le> length xs"
  by simp

end
