(* ===== verification/Js_Date.thy ===== *)
theory Js_Date
  imports Prelude
begin

text \<open>
  Calendar dates as ECMAScript defines them. A \<open>Date\<close> built from year, month and day is
  a whole local day, held as the number of days since 1 January 1970; None is the
  \<open>Invalid Date\<close>. The zone of the viewer is a parameter: the time value, in milliseconds,
  at which each local day begins.
\<close>

section \<open>Days, years and months\<close>

definition leap :: "int \<Rightarrow> bool" where
  "leap y = (y mod 4 = 0 \<and> (y mod 100 \<noteq> 0 \<or> y mod 400 = 0))"

definition day_from_year :: "int \<Rightarrow> int" where
  "day_from_year y =
     365 * (y - 1970) + (y - 1969) div 4 - (y - 1901) div 100 + (y - 1601) div 400"

definition year_length :: "int \<Rightarrow> int" where
  "year_length y = (if leap y then 366 else 365)"

text \<open>The largest year that starts no later than the day.\<close>

definition year_from_day :: "int \<Rightarrow> int" where
  "year_from_day d =
     (let e = 1970 + (400 * d) div 146097
      in if day_from_year (e + 1) \<le> d then e + 1
         else if d < day_from_year e then e - 1 else e)"

text \<open>The first day of each month within its year; months are numbered from 0.\<close>

definition month_start :: "bool \<Rightarrow> int \<Rightarrow> int" where
  "month_start lp m =
     (let k = (if lp then 1 else 0)
      in if m \<le> 0 then 0 else if m = 1 then 31 else if m = 2 then 59 + k
         else if m = 3 then 90 + k else if m = 4 then 120 + k else if m = 5 then 151 + k
         else if m = 6 then 181 + k else if m = 7 then 212 + k else if m = 8 then 243 + k
         else if m = 9 then 273 + k else if m = 10 then 304 + k else if m = 11 then 334 + k
         else 365 + k)"

definition month_in_year :: "bool \<Rightarrow> int \<Rightarrow> int" where
  "month_in_year lp n =
     (if n < month_start lp 1 then 0 else if n < month_start lp 2 then 1
      else if n < month_start lp 3 then 2 else if n < month_start lp 4 then 3
      else if n < month_start lp 5 then 4 else if n < month_start lp 6 then 5
      else if n < month_start lp 7 then 6 else if n < month_start lp 8 then 7
      else if n < month_start lp 9 then 8 else if n < month_start lp 10 then 9
      else if n < month_start lp 11 then 10 else 11)"

definition month_from_day :: "int \<Rightarrow> int" where
  "month_from_day d =
     (let y = year_from_day d in month_in_year (leap y) (d - day_from_year y))"

definition date_from_day :: "int \<Rightarrow> int" where
  "date_from_day d =
     (let y = year_from_day d; n = d - day_from_year y
      in n - month_start (leap y) (month_in_year (leap y) n) + 1)"

text \<open>\<open>MakeDay\<close>: a month outside 0 to 11 moves the year, a date outside the month the month.\<close>

definition make_day :: "int \<Rightarrow> int \<Rightarrow> int \<Rightarrow> int" where
  "make_day y m d =
     (let ym = y + m div 12
      in day_from_year ym + month_start (leap ym) (m mod 12) + d - 1)"

text \<open>Days whose time value is out of range have no \<open>Date\<close>.\<close>

definition time_clip :: "(int \<Rightarrow> int) \<Rightarrow> int \<Rightarrow> int option" where
  "time_clip midnight d = (if \<bar>midnight d\<bar> \<le> 8640000000000000 then Some d else None)"

text \<open>\<open>new Date(y, m, d)\<close>; a year from 0 to 99 means 1900 and so on; \<open>NaN\<close> is None.\<close>

definition new_date ::
  "(int \<Rightarrow> int) \<Rightarrow> int option \<Rightarrow> int option \<Rightarrow> int option \<Rightarrow> int option" where
  "new_date midnight y m d =
     (case (y, m, d) of
        (Some y', Some m', Some d') \<Rightarrow>
          time_clip midnight
            (make_day (if 0 \<le> y' \<and> y' \<le> 99 then 1900 + y' else y') m' d')
      | _ \<Rightarrow> None)"

section \<open>The calendar laws\<close>

lemma div_bounds:
  assumes "0 < (k::int)"
  shows "k * (x div k) \<le> x" "x < k * (x div k) + k"
  using pos_mod_sign [OF assms, of x] pos_mod_bound [OF assms, of x] mult_div_mod_eq [of k x]
  by linarith+

lemma div_bounds4: "4 * ((x::int) div 4) \<le> x" "x < 4 * (x div 4) + 4"
  by (rule div_bounds, simp)+

lemma div_bounds100: "100 * ((x::int) div 100) \<le> x" "x < 100 * (x div 100) + 100"
  by (rule div_bounds, simp)+

lemma div_bounds400: "400 * ((x::int) div 400) \<le> x" "x < 400 * (x div 400) + 400"
  by (rule div_bounds, simp)+

lemma div_step:
  assumes "0 < (k::int)"
  shows "(x + 1) div k = x div k + (if (x + 1) mod k = 0 then 1 else 0)"
proof (cases "(x + 1) mod k = 0")
  case True
  then have "k dvd x + 1" by (simp add: mod_eq_0_iff_dvd)
  then obtain q where q: "x + 1 = k * q" ..
  have "x div k = q - 1"
    using assms q by (intro int_div_pos_eq [of x k "q - 1" "k - 1"]) (simp_all add: algebra_simps)
  then show ?thesis using True q assms by simp
next
  case False
  have "(x + 1) div k = x div k"
  proof (rule int_div_pos_eq)
    show "x + 1 = k * (x div k) + (x mod k + 1)" by (simp add: mult_div_mod_eq)
    show "0 \<le> x mod k + 1" using assms by (simp add: add_increasing)
    have "x mod k + 1 \<noteq> k"
    proof
      assume "x mod k + 1 = k"
      then have "(x + 1) mod k = 0" by (metis mod_add_left_eq mod_self)
      with False show False ..
    qed
    then show "x mod k + 1 < k" using pos_mod_bound [OF assms, of x] by linarith
  qed
  then show ?thesis using False by simp
qed

lemma div_step_cong:
  assumes "0 < (k::int)" "w = z + 1" "w mod k = y mod k"
  shows "w div k = z div k + (if y mod k = 0 then 1 else 0)"
  using div_step [OF assms(1), of z] assms(2,3) by simp

lemma mod_400_100_4:
  "(y::int) mod 400 = 0 \<Longrightarrow> y mod 100 = 0" "(y::int) mod 100 = 0 \<Longrightarrow> y mod 4 = 0"
  by (auto simp: mod_eq_0_iff_dvd elim: dvd_trans [rotated])

lemma leap_count:
  "(C \<longrightarrow> B) \<Longrightarrow> (B \<longrightarrow> A) \<Longrightarrow>
   (if A \<and> (\<not> B \<or> C) then 366 else 365) =
     (365::int) + (if A then 1 else 0) - (if B then 1 else 0) + (if C then 1 else 0)"
  by (cases A; cases B; cases C) simp_all

lemma year_shift:
  "365 * (y + 1 - 1970) + (a + p) - (b + q) + (c + r) =
     365 * (y - 1970) + a - b + c + (365 + p - q + (r::int))"
  by simp

lemma day_from_year_Suc: "day_from_year (y + 1) = day_from_year y + year_length y"
proof -
  have "(y - 1968) mod 4 = (y + 4 * (- 492)) mod 4" by simp
  also have "\<dots> = y mod 4" by (rule mod_mult_self2)
  finally have m4: "(y - 1968) mod 4 = y mod 4" .
  have "(y - 1900) mod 100 = (y + 100 * (- 19)) mod 100" by simp
  also have "\<dots> = y mod 100" by (rule mod_mult_self2)
  finally have m100: "(y - 1900) mod 100 = y mod 100" .
  have "(y - 1600) mod 400 = (y + 400 * (- 4)) mod 400" by simp
  also have "\<dots> = y mod 400" by (rule mod_mult_self2)
  finally have m400: "(y - 1600) mod 400 = y mod 400" .
  have d4: "(y - 1968) div 4 = (y - 1969) div 4 + (if y mod 4 = 0 then 1 else 0)"
    by (rule div_step_cong [OF _ _ m4]) simp_all
  have d100: "(y - 1900) div 100 = (y - 1901) div 100 + (if y mod 100 = 0 then 1 else 0)"
    by (rule div_step_cong [OF _ _ m100]) simp_all
  have d400: "(y - 1600) div 400 = (y - 1601) div 400 + (if y mod 400 = 0 then 1 else 0)"
    by (rule div_step_cong [OF _ _ m400]) simp_all
  have "year_length y = 365 + (if y mod 4 = 0 then 1 else 0) - (if y mod 100 = 0 then 1 else 0)
      + (if y mod 400 = 0 then 1 else 0)"
    unfolding year_length_def leap_def
    by (rule leap_count) (rule impI, rule mod_400_100_4, assumption)+
  moreover have "day_from_year (y + 1) =
      365 * (y + 1 - 1970) + (y - 1968) div 4 - (y - 1900) div 100 + (y - 1600) div 400"
    by (simp add: day_from_year_def)
  ultimately show ?thesis
    unfolding d4 d100 d400 by (simp only: day_from_year_def year_shift)
qed

lemma year_length_bounds: "365 \<le> year_length y" "year_length y \<le> 366"
  by (auto simp: year_length_def)

lemma day_from_year_estimate:
  assumes "e = 1970 + (400 * d) div 146097"
  shows "day_from_year (e - 1) \<le> d" "d < day_from_year (e + 2)"
proof -
  have lo: "146097 * (e - 1970) \<le> 400 * d" and hi: "400 * d < 146097 * (e - 1970) + 146097"
    using assms div_bounds [of 146097 "400 * d"] by simp_all
  have below: "365 * (e - 1 - 1970) + a - b + c \<le> d"
    if "4 * a \<le> e - 1 - 1969" "e - 1 - 1901 < 100 * b + 100" "400 * c \<le> e - 1 - 1601" for a b c
  proof -
    have "400 * (365 * (e - 1 - 1970) + a - b + c) \<le> 400 * d"
      using lo that by (simp add: algebra_simps)
    then show ?thesis by simp
  qed
  have above: "d < 365 * (e + 2 - 1970) + a - b + c"
    if "e + 2 - 1969 < 4 * a + 4" "100 * b \<le> e + 2 - 1901" "e + 2 - 1601 < 400 * c + 400" for a b c
  proof -
    have "400 * d < 400 * (365 * (e + 2 - 1970) + a - b + c)"
      using hi that by (simp add: algebra_simps)
    then show ?thesis by simp
  qed
  show "day_from_year (e - 1) \<le> d"
    unfolding day_from_year_def by (rule below) (rule div_bounds4 div_bounds100 div_bounds400)+
  show "d < day_from_year (e + 2)"
    unfolding day_from_year_def by (rule above) (rule div_bounds4 div_bounds100 div_bounds400)+
qed

lemma year_from_day_bounds:
  "day_from_year (year_from_day d) \<le> d \<and> d < day_from_year (year_from_day d + 1)"
proof -
  define e where "e = 1970 + (400 * d) div 146097"
  have "year_from_day d =
      (if day_from_year (e + 1) \<le> d then e + 1 else if d < day_from_year e then e - 1 else e)"
    by (simp add: year_from_day_def e_def Let_def)
  then show ?thesis
    using day_from_year_estimate [OF e_def] by (simp add: add.commute)
qed

lemma day_from_year_mono_nat: "day_from_year y + int n * 365 \<le> day_from_year (y + int n)"
proof (induction n)
  case 0
  show ?case by simp
next
  case (Suc n)
  have "day_from_year (y + int (Suc n)) = day_from_year (y + int n) + year_length (y + int n)"
    using day_from_year_Suc [of "y + int n"] by (simp add: algebra_simps)
  then show ?case using Suc year_length_bounds(1) [of "y + int n"] by (simp add: algebra_simps)
qed

lemma day_from_year_strict_mono: "y < y' \<Longrightarrow> day_from_year y + 365 \<le> day_from_year y'"
proof -
  assume "y < y'"
  then have "y' = y + int (nat (y' - y))" "1 \<le> int (nat (y' - y))" by simp_all
  with day_from_year_mono_nat [of y "nat (y' - y)"] show ?thesis by simp
qed

lemma year_from_day_unique:
  assumes "day_from_year y \<le> d" "d < day_from_year (y + 1)"
  shows "year_from_day d = y"
proof (rule ccontr)
  assume "year_from_day d \<noteq> y"
  then consider "year_from_day d + 1 \<le> y" | "y + 1 \<le> year_from_day d" by linarith
  then show False
  proof cases
    case 1
    then have "day_from_year (year_from_day d + 1) \<le> day_from_year y"
      using day_from_year_strict_mono [of "year_from_day d + 1" y] by (cases "year_from_day d + 1 = y") auto
    with assms year_from_day_bounds [of d] show False by linarith
  next
    case 2
    then have "day_from_year (y + 1) \<le> day_from_year (year_from_day d)"
      using day_from_year_strict_mono [of "y + 1" "year_from_day d"] by (cases "y + 1 = year_from_day d") auto
    with assms year_from_day_bounds [of d] show False by linarith
  qed
qed


lemma month_in_year_range: "0 \<le> month_in_year lp n" "month_in_year lp n \<le> 11"
  by (simp_all add: month_in_year_def)

lemma month_in_year_bounds:
  assumes "0 \<le> n" "n < month_start lp 12"
  shows "month_start lp (month_in_year lp n) \<le> n \<and> n < month_start lp (month_in_year lp n + 1)"
  using assms by (cases lp) (simp_all add: month_in_year_def month_start_def)

lemma month_number_cases:
  assumes "0 \<le> m" "m \<le> (11::int)"
  obtains "m = 0" | "m = 1" | "m = 2" | "m = 3" | "m = 4" | "m = 5" | "m = 6" | "m = 7"
    | "m = 8" | "m = 9" | "m = 10" | "m = 11"
proof -
  have "m = 0 \<or> m = 1 \<or> m = 2 \<or> m = 3 \<or> m = 4 \<or> m = 5 \<or> m = 6 \<or> m = 7 \<or> m = 8
      \<or> m = 9 \<or> m = 10 \<or> m = 11"
    using assms by presburger
  then show thesis using that by blast
qed

lemma month_in_year_unique:
  assumes "0 \<le> m" "m \<le> 11" "month_start lp m \<le> n" "n < month_start lp (m + 1)"
  shows "month_in_year lp n = m"
  using assms(1,2)
  by (rule month_number_cases; use assms in \<open>cases lp; simp add: month_in_year_def month_start_def\<close>)

lemma month_start_12 [simp]: "month_start lp 12 = (if lp then 366 else 365)"
  by (simp add: month_start_def)

lemma month_start_length:
  assumes "0 \<le> m" "m \<le> 11"
  shows "month_start lp m + 28 \<le> month_start lp (m + 1)"
    "month_start lp (m + 1) \<le> month_start lp m + 31"
  using assms
  by (rule month_number_cases; cases lp; simp add: month_start_def)+

lemma month_start_nonneg:
  assumes "0 \<le> m" "m \<le> 11" shows "0 \<le> month_start lp m" "month_start lp (m + 1) \<le> month_start lp 12"
  using assms by (rule month_number_cases; cases lp; simp add: month_start_def)+

lemma day_of_year_bounds:
  "0 \<le> d - day_from_year (year_from_day d)"
  "d - day_from_year (year_from_day d) < month_start (leap (year_from_day d)) 12"
  using year_from_day_bounds [of d] day_from_year_Suc [of "year_from_day d"]
  by (auto simp: year_length_def)

lemma month_from_day_range: "0 \<le> month_from_day d" "month_from_day d \<le> 11"
  by (simp_all add: month_from_day_def Let_def month_in_year_range)

lemma date_from_day_range: "1 \<le> date_from_day d" "date_from_day d \<le> 31"
proof -
  let ?lp = "leap (year_from_day d)" and ?n = "d - day_from_year (year_from_day d)"
  let ?m = "month_in_year ?lp ?n"
  have "month_start ?lp ?m \<le> ?n \<and> ?n < month_start ?lp (?m + 1)"
    by (rule month_in_year_bounds [OF day_of_year_bounds])
  moreover have "month_start ?lp (?m + 1) \<le> month_start ?lp ?m + 31"
    by (rule month_start_length(2) [OF month_in_year_range])
  ultimately show "1 \<le> date_from_day d" "date_from_day d \<le> 31"
    by (simp_all add: date_from_day_def Let_def)
qed

text \<open>The fields of a day name that day, and a valid triple of fields is read back.\<close>

lemma make_day_fields:
  "make_day (year_from_day d) (month_from_day d) (date_from_day d) = d"
proof -
  have "month_from_day d div 12 = 0" "month_from_day d mod 12 = month_from_day d"
    using month_from_day_range [of d] by simp_all
  then show ?thesis
    by (simp add: make_day_def Let_def date_from_day_def month_from_day_def)
qed

definition month_days :: "int \<Rightarrow> int \<Rightarrow> int" where
  "month_days y m = month_start (leap y) (m + 1) - month_start (leap y) m"

lemma fields_of_make_day:
  assumes m: "0 \<le> m" "m \<le> 11" and d: "1 \<le> d" "d \<le> month_days y m"
  shows "year_from_day (make_day y m d) = y" "month_from_day (make_day y m d) = m"
    "date_from_day (make_day y m d) = d"
proof -
  let ?n = "month_start (leap y) m + d - 1"
  have day: "make_day y m d = day_from_year y + ?n"
    using m by (simp add: make_day_def)
  have lo: "month_start (leap y) m \<le> ?n" and hi: "?n < month_start (leap y) (m + 1)"
    using d by (simp_all add: month_days_def)
  have yr: "year_from_day (make_day y m d) = y"
  proof (rule year_from_day_unique)
    show "day_from_year y \<le> make_day y m d"
      using lo month_start_nonneg(1) [OF m, of "leap y"] by (simp add: day)
    show "make_day y m d < day_from_year (y + 1)"
      using hi month_start_nonneg(2) [OF m, of "leap y"] day_from_year_Suc [of y]
      by (simp add: day year_length_def split: if_splits)
  qed
  have mo: "month_in_year (leap y) ?n = m"
    by (rule month_in_year_unique [OF m lo hi])
  show "year_from_day (make_day y m d) = y" by (rule yr)
  show "month_from_day (make_day y m d) = m"
    using mo by (simp only: month_from_day_def yr Let_def) (simp add: day)
  show "date_from_day (make_day y m d) = d"
    using mo by (simp only: date_from_day_def yr Let_def) (simp add: day)
qed

text \<open>Months follow each other without a gap.\<close>

lemma make_day_shift: "make_day y m d + k = make_day y m (d + k)"
  by (simp add: make_day_def Let_def)

lemma make_day_next_month: "make_day y (m + 1) 1 = make_day y m (month_days (y + m div 12) (m mod 12) + 1)"
proof (cases "m mod 12 = 11")
  case True
  define q where "q = m div 12"
  have m: "m = 12 * q + 11" using True mult_div_mod_eq [of 12 m] by (simp add: q_def)
  have "(m + 1) div 12 = q + 1" "(m + 1) mod 12 = 0" by (simp_all add: m)
  then show ?thesis
    using day_from_year_Suc [of "y + q"] True
    by (simp add: make_day_def month_days_def q_def [symmetric] year_length_def month_start_def add.assoc)
next
  case False
  define q r where "q = m div 12" and "r = m mod 12"
  have m: "m = 12 * q + r" by (simp add: q_def r_def)
  have r: "0 \<le> r" "r < 11" using False pos_mod_bound [of 12 m] by (simp_all add: r_def)
  have "(m + 1) div 12 = q" "(m + 1) mod 12 = r + 1"
    using r by (simp_all add: m add.assoc)
  then show ?thesis by (simp add: make_day_def month_days_def q_def [symmetric] r_def [symmetric])
qed

lemma date_from_day_month: "date_from_day d \<le> month_days (year_from_day d) (month_from_day d)"
proof -
  let ?lp = "leap (year_from_day d)" and ?n = "d - day_from_year (year_from_day d)"
  let ?m = "month_in_year ?lp ?n"
  have "month_start ?lp ?m \<le> ?n \<and> ?n < month_start ?lp (?m + 1)"
    by (rule month_in_year_bounds [OF day_of_year_bounds])
  then show ?thesis
    by (simp add: date_from_day_def month_from_day_def month_days_def Let_def)
qed

lemma month_days_bounds: "28 \<le> month_days y (m mod 12)" "month_days y (m mod 12) \<le> 31"
proof -
  have m: "0 \<le> m mod 12" "m mod 12 \<le> 11" using pos_mod_bound [of 12 m] by simp_all
  show "28 \<le> month_days y (m mod 12)" "month_days y (m mod 12) \<le> 31"
    using month_start_length [OF m, of "leap y"] by (simp_all add: month_days_def)
qed

text \<open>The days of a month are exactly those from its first to its last.\<close>

lemma month_membership:
  assumes m: "0 \<le> m" "m \<le> 11"
  shows "make_day y m 1 \<le> k \<and> k \<le> make_day y m (month_days y m) \<longleftrightarrow>
           year_from_day k = y \<and> month_from_day k = m"
proof
  assume "make_day y m 1 \<le> k \<and> k \<le> make_day y m (month_days y m)"
  then have lo: "1 \<le> k - make_day y m 1 + 1" and hi: "k - make_day y m 1 + 1 \<le> month_days y m"
    using make_day_shift [of y m 1 "month_days y m - 1"] by simp_all
  have "k = make_day y m (k - make_day y m 1 + 1)"
    using make_day_shift [of y m 1 "k - make_day y m 1"] by (simp add: add.commute)
  then show "year_from_day k = y \<and> month_from_day k = m"
    using fields_of_make_day(1,2) [OF m lo hi] by simp
next
  assume ym: "year_from_day k = y \<and> month_from_day k = m"
  then have k: "k = make_day y m (date_from_day k)" using make_day_fields [of k] by simp
  have "1 \<le> date_from_day k" "date_from_day k \<le> month_days y m"
    using date_from_day_range(1) [of k] date_from_day_month [of k] ym by simp_all
  then show "make_day y m 1 \<le> k \<and> k \<le> make_day y m (month_days y m)"
    using make_day_shift [of y m 1 "date_from_day k - 1"]
      make_day_shift [of y m "date_from_day k" "month_days y m - date_from_day k"] k by simp
qed

text \<open>The same month a year earlier starts 365 or 366 days before.\<close>

lemma make_day_year_before:
  assumes m: "0 \<le> m" "m \<le> 11"
  shows "make_day y m d - make_day (y - 1) m d = 365 \<or> make_day y m d - make_day (y - 1) m d = 366"
proof -
  have "\<not> (leap y \<and> leap (y - 1))"
    unfolding leap_def by presburger
  moreover have "month_start True m - month_start False m = 0 \<or> month_start True m - month_start False m = 1"
    using m by (rule month_number_cases; simp add: month_start_def)
  ultimately show ?thesis
    using m day_from_year_Suc [of "y - 1"]
    by (cases "leap y"; cases "leap (y - 1)") (auto simp: make_day_def year_length_def)
qed

lemma make_day_month_before:
  "make_day y m d = make_day y (m - 1) d + month_days (y + (m - 1) div 12) ((m - 1) mod 12)"
  using make_day_next_month [of y "m - 1"] make_day_shift [of y m 1 "d - 1"]
    make_day_shift [of y "m - 1" 1 "d - 1"]
    make_day_shift [of y "m - 1" 1 "month_days (y + (m - 1) div 12) ((m - 1) mod 12)"]
  by (simp add: add.commute)

end
