(* ===== verification/Report_Period.thy ===== *)
theory Report_Period
  imports Js_Date
begin

text \<open>
  The report periods of the company dashboard and the employee portal, which ship the same
  \<^verbatim>\<open>lib/report-period.ts\<close>, the picker that chooses one and the period a reports page
  starts with. The current day and the viewer's zone (the time value at which each local
  day begins) are arguments, and so is the formatting of the \<open>en-GB\<close> locale.
\<close>

section \<open>Periods\<close>

datatype period_id =
  Today | Yesterday | Days7 | Days30 | This_Month | Last_Month | Months3 | Months12 | Custom

record period =
  pid :: period_id
  pstart :: string
  pend :: string

fun period_label :: "period_id \<Rightarrow> string" where
  "period_label Today = ''Today''"
| "period_label Yesterday = ''Yesterday''"
| "period_label Days7 = ''Last 7 days''"
| "period_label Days30 = ''Last 30 days''"
| "period_label This_Month = ''This month''"
| "period_label Last_Month = ''Last month''"
| "period_label Months3 = ''Last 3 months''"
| "period_label Months12 = ''Last 12 months''"
| "period_label Custom = ''Custom range''"

definition max_range_days :: int where
  "max_range_days = 366"

text \<open>The zone the browser resolved, or the error it threw.\<close>

definition viewer_time_zone :: "exn + string \<Rightarrow> string" where
  "viewer_time_zone resolved =
     (case resolved of Inr z \<Rightarrow> (if z = [] then ''UTC'' else z) | Inl _ \<Rightarrow> ''UTC'')"

definition ymd :: "int option \<Rightarrow> string" where
  "ymd d =
     (case d of
        None \<Rightarrow> ''NaN-NaN-NaN''
      | Some k \<Rightarrow>
          show_int (year_from_day k) @ ''-'' @ pad2 (show_int (month_from_day k + 1)) @ ''-'' @
          pad2 (show_int (date_from_day k)))"

text \<open>A missing component is undefined, which is \<open>NaN\<close> as a number.\<close>

definition nth_number :: "string list \<Rightarrow> nat \<Rightarrow> int option" where
  "nth_number ps i = (if i < length ps then number_of_string (ps ! i) else None)"

definition parse_ymd :: "(int \<Rightarrow> int) \<Rightarrow> string \<Rightarrow> int option" where
  "parse_ymd midnight s =
     (let ps = split_on (CHR ''-'') s
      in new_date midnight (nth_number ps 0) (map_option (\<lambda>m. m - 1) (nth_number ps 1))
           (nth_number ps 2))"

definition add_days :: "(int \<Rightarrow> int) \<Rightarrow> int option \<Rightarrow> int \<Rightarrow> int option" where
  "add_days midnight d n =
     (case d of
        None \<Rightarrow> None
      | Some k \<Rightarrow>
          time_clip midnight
            (make_day (year_from_day k) (month_from_day k) (date_from_day k + n)))"

definition period_for ::
  "(int \<Rightarrow> int) \<Rightarrow> int \<Rightarrow> period_id \<Rightarrow> (string \<times> string) option \<Rightarrow> period" where
  "period_for midnight day ident custom =
     (let today = Some day; y = year_from_day day; m = month_from_day day; d = date_from_day day
      in case ident of
           Today \<Rightarrow> \<lparr>pid = ident, pstart = ymd today, pend = ymd today\<rparr>
         | Yesterday \<Rightarrow>
             (let z = add_days midnight today (- 1)
              in \<lparr>pid = ident, pstart = ymd z, pend = ymd z\<rparr>)
         | Days7 \<Rightarrow> \<lparr>pid = ident, pstart = ymd (add_days midnight today (- 6)), pend = ymd today\<rparr>
         | Days30 \<Rightarrow> \<lparr>pid = ident, pstart = ymd (add_days midnight today (- 29)), pend = ymd today\<rparr>
         | This_Month \<Rightarrow>
             \<lparr>pid = ident, pstart = ymd (new_date midnight (Some y) (Some m) (Some 1)), pend = ymd today\<rparr>
         | Last_Month \<Rightarrow>
             \<lparr>pid = ident, pstart = ymd (new_date midnight (Some y) (Some (m - 1)) (Some 1)),
              pend = ymd (new_date midnight (Some y) (Some m) (Some 0))\<rparr>
         | Months3 \<Rightarrow>
             \<lparr>pid = ident,
              pstart = ymd (add_days midnight (new_date midnight (Some y) (Some (m - 3)) (Some d)) 1),
              pend = ymd today\<rparr>
         | Months12 \<Rightarrow>
             \<lparr>pid = ident,
              pstart = ymd (add_days midnight (new_date midnight (Some (y - 1)) (Some m) (Some d)) 1),
              pend = ymd today\<rparr>
         | Custom \<Rightarrow>
             \<lparr>pid = ident,
              pstart = (case custom of Some c \<Rightarrow> fst c
                        | None \<Rightarrow> ymd (add_days midnight today (- 6))),
              pend = (case custom of Some c \<Rightarrow> snd c | None \<Rightarrow> ymd today)\<rparr>)"

definition period_params :: "exn + string \<Rightarrow> period \<Rightarrow> (string \<times> string) list" where
  "period_params resolved p =
     [(''start'', pstart p), (''end'', pend p), (''tz'', viewer_time_zone resolved)]"

definition period_text ::
  "(int \<Rightarrow> int) \<Rightarrow> (int option \<Rightarrow> bool \<Rightarrow> string) \<Rightarrow> period \<Rightarrow> string" where
  "period_text midnight locale_date p =
     (let fmt = (\<lambda>s with_year. locale_date (parse_ymd midnight s) with_year)
      in if pstart p = pend p then fmt (pstart p) True
         else let same_year = (take 4 (pstart p) = take 4 (pend p))
              in fmt (pstart p) (\<not> same_year) @ '' to '' @ fmt (pend p) True)"

text \<open>Comparisons with \<open>NaN\<close> are false.\<close>

definition validate_range :: "(int \<Rightarrow> int) \<Rightarrow> int \<Rightarrow> string \<Rightarrow> string \<Rightarrow> string option" where
  "validate_range midnight today st en =
     (if st = [] \<or> en = [] then Some ''Pick both dates''
      else
        let s = map_option midnight (parse_ymd midnight st);
            e = map_option midnight (parse_ymd midnight en)
        in if (case (s, e) of (Some a, Some b) \<Rightarrow> a > b | _ \<Rightarrow> False)
             then Some ''Start date is after the end date''
           else if (case e of Some b \<Rightarrow> b > midnight today | None \<Rightarrow> False)
             then Some ''End date is in the future''
           else if (case (s, e) of
                      (Some a, Some b) \<Rightarrow> (b - a) + 86400000 > max_range_days * 86400000
                    | _ \<Rightarrow> False)
             then Some ''Pick a range of one year or less''
           else None)"

section \<open>The picker and the first period of the reports page\<close>

record picker =
  picker_open :: bool
  picker_start :: string
  picker_end :: string

datatype picker_event =
    Toggle
  | Choose period_id
  | Set_Start string
  | Set_End string
  | Apply_Range
  | Escape
  | Click_Outside

text \<open>
  One event of the picker: the new state and the period handed to \<open>onChange\<close>, if any. The
  button of a custom range is disabled while \<open>validateRange\<close> reports an error, and the
  panel's controls exist only while it is open.
\<close>

definition picker_step ::
  "(int \<Rightarrow> int) \<Rightarrow> int \<Rightarrow> bool \<Rightarrow> period_id list \<Rightarrow> period \<Rightarrow> picker \<Rightarrow> picker_event \<Rightarrow>
     picker \<times> period option" where
  "picker_step midnight today allow_custom options value p ev =
     (case ev of
        Toggle \<Rightarrow>
          (p\<lparr>picker_open := \<not> picker_open p, picker_start := pstart value, picker_end := pend value\<rparr>,
           None)
      | Choose ident \<Rightarrow>
          (if picker_open p \<and> ident \<in> set options
           then (p\<lparr>picker_open := False\<rparr>, Some (period_for midnight today ident None))
           else (p, None))
      | Set_Start s \<Rightarrow>
          (if picker_open p \<and> allow_custom then (p\<lparr>picker_start := s\<rparr>, None) else (p, None))
      | Set_End s \<Rightarrow>
          (if picker_open p \<and> allow_custom then (p\<lparr>picker_end := s\<rparr>, None) else (p, None))
      | Apply_Range \<Rightarrow>
          (if picker_open p \<and> allow_custom \<and>
              validate_range midnight today (picker_start p) (picker_end p) = None
           then (p\<lparr>picker_open := False\<rparr>,
                 Some (period_for midnight today Custom (Some (picker_start p, picker_end p))))
           else (p, None))
      | Escape \<Rightarrow> (p\<lparr>picker_open := False\<rparr>, None)
      | Click_Outside \<Rightarrow> (p\<lparr>picker_open := False\<rparr>, None))"

definition period_of_string :: "string \<Rightarrow> period_id option" where
  "period_of_string s =
     map_of [(''today'', Today), (''yesterday'', Yesterday), (''7d'', Days7), (''30d'', Days30),
       (''this_month'', This_Month), (''last_month'', Last_Month), (''3m'', Months3),
       (''12m'', Months12), (''custom'', Custom)] s"

text \<open>
  The names every object inherits: an index of the labels with one of them is truthy
  although it is no period.
\<close>

definition object_prototype_names :: "string list" where
  "object_prototype_names =
     [''constructor'', ''toString'', ''toLocaleString'', ''valueOf'', ''hasOwnProperty'',
      ''isPrototypeOf'', ''propertyIsEnumerable'', ''__proto__'', ''__defineGetter__'',
      ''__defineSetter__'', ''__lookupGetter__'', ''__lookupSetter__'']"

text \<open>
  The state a reports page starts with, from the query string (None for an absent
  parameter). The result None is \<open>undefined\<close>, which the page then reads fields of.
\<close>

definition initial_period ::
  "(int \<Rightarrow> int) \<Rightarrow> int \<Rightarrow> string option \<Rightarrow> string option \<Rightarrow> string option \<Rightarrow> period option" where
  "initial_period midnight today q_period q_start q_end =
     (let ident = (case q_period of Some s \<Rightarrow> (if s = [] then ''30d'' else s) | None \<Rightarrow> ''30d'');
          st = (case q_start of Some s \<Rightarrow> s | None \<Rightarrow> []);
          en = (case q_end of Some s \<Rightarrow> s | None \<Rightarrow> [])
      in if ident = ''custom'' \<and> st \<noteq> [] \<and> en \<noteq> [] \<and> validate_range midnight today st en = None
           then Some (period_for midnight today Custom (Some (st, en)))
         else (case period_of_string ident of
                 Some i \<Rightarrow> Some (period_for midnight today i None)
               | None \<Rightarrow>
                   (if ident \<in> set object_prototype_names then None
                    else Some (period_for midnight today Days30 None))))"


section \<open>Round trip of the dates\<close>

text \<open>
  What is relied on of a zone: every local day starts within a day of the same day in UTC,
  and later days start later (no zone that dropped a whole day).
\<close>

definition zone_ok :: "(int \<Rightarrow> int) \<Rightarrow> bool" where
  "zone_ok midnight \<longleftrightarrow>
     (\<forall>d. \<bar>midnight d - 86400000 * d\<bar> \<le> 86400000) \<and> (\<forall>d. midnight d < midnight (d + 1))"

lemma zone_ok_offset: "zone_ok (\<lambda>d. 86400000 * d - k)" if "\<bar>k\<bar> \<le> 86400000"
  using that by (simp add: zone_ok_def)

lemma zone_mono:
  assumes "zone_ok midnight" "d < e" shows "midnight d < midnight e"
  using assms(2)
proof (induction e rule: int_gr_induct)
  case base
  then show ?case using assms(1) by (simp add: zone_ok_def)
next
  case (step i)
  moreover have "midnight i < midnight (i + 1)" using assms(1) by (simp add: zone_ok_def)
  ultimately show ?case by simp
qed

lemma zone_less_iff: "zone_ok midnight \<Longrightarrow> midnight d < midnight e \<longleftrightarrow> d < e"
  using zone_mono [of midnight d e] zone_mono [of midnight e d] by (cases d e rule: linorder_cases) auto

lemma time_clip_supported:
  assumes "zone_ok midnight" "\<bar>d\<bar> \<le> 99999999"
  shows "time_clip midnight d = Some d"
proof -
  have "\<bar>midnight d - 86400000 * d\<bar> \<le> 86400000" using assms(1) by (simp add: zone_ok_def)
  then show ?thesis using assms(2) by (simp add: time_clip_def abs_le_iff)
qed

lemma show_int_nonneg: "0 \<le> i \<Longrightarrow> show_int i = show_nat (nat i)"
  by (simp add: show_int_def)

lemma split_ymd:
  assumes "0 \<le> year_from_day k"
  shows "split_on (CHR ''-'') (ymd (Some k)) =
    [show_int (year_from_day k), pad2 (show_int (month_from_day k + 1)), pad2 (show_int (date_from_day k))]"
proof -
  have "0 \<le> month_from_day k + 1" "0 \<le> date_from_day k"
    using month_from_day_range [of k] date_from_day_range [of k] by simp_all
  with assms show ?thesis
    by (simp add: ymd_def show_int_nonneg split_on_append_sep split_on_no_sep)
qed

lemma parse_ymd_fields:
  assumes "0 \<le> year_from_day k"
  shows "parse_ymd midnight (ymd (Some k)) =
    new_date midnight (Some (year_from_day k)) (Some (month_from_day k)) (Some (date_from_day k))"
proof -
  have "0 \<le> month_from_day k + 1" "0 \<le> date_from_day k"
    using month_from_day_range [of k] date_from_day_range [of k] by simp_all
  with assms show ?thesis
    by (simp add: parse_ymd_def split_ymd nth_number_def show_int_nonneg)
qed

lemma new_date_fields:
  assumes "100 \<le> year_from_day k"
  shows "new_date midnight (Some (year_from_day k)) (Some (month_from_day k)) (Some (date_from_day k)) =
    time_clip midnight k"
  using assms by (simp add: new_date_def make_day_fields)

text \<open>
  a day from the year 100 on, written with \<open>ymd\<close> as the API and the address bar carry
  it, is read back by \<open>parseYmd\<close> as the same day.
\<close>

theorem parse_ymd_ymd:
  assumes "zone_ok midnight" "100 \<le> year_from_day k" "\<bar>k\<bar> \<le> 99999999"
  shows "parse_ymd midnight (ymd (Some k)) = Some k"
  using assms by (simp add: parse_ymd_fields new_date_fields time_clip_supported)

theorem parse_ymd_ymd_witness:
  "parse_ymd (\<lambda>d. 86400000 * d - 19800000) (ymd (Some 20332)) = Some 20332"
  by (rule parse_ymd_ymd [OF zone_ok_offset]) (simp_all add: year_from_day_def day_from_year_def Let_def)

section \<open>What the preset periods span\<close>

text \<open>The days on which the presets are meant to be used: from 1970 on.\<close>

definition supported_today :: "int \<Rightarrow> bool" where
  "supported_today t \<longleftrightarrow> 0 \<le> t \<and> t \<le> 99990000"

lemma day_from_year_1970 [simp]: "day_from_year 1970 = 0"
  by (simp add: day_from_year_def)

lemma day_from_year_mono: "y \<le> y' \<Longrightarrow> day_from_year y \<le> day_from_year y'"
  using day_from_year_strict_mono [of y y'] by (cases "y = y'") auto

lemma year_from_day_mono: "d \<le> d' \<Longrightarrow> year_from_day d \<le> year_from_day d'"
proof (rule ccontr)
  assume "d \<le> d'" "\<not> year_from_day d \<le> year_from_day d'"
  then have "day_from_year (year_from_day d' + 1) \<le> day_from_year (year_from_day d)"
    by (intro day_from_year_mono) simp
  with \<open>d \<le> d'\<close> year_from_day_bounds [of d] year_from_day_bounds [of d'] show False by linarith
qed

lemma year_1800: "- 62000 \<le> d \<Longrightarrow> 1800 \<le> year_from_day d"
proof -
  assume "- 62000 \<le> d"
  then have "year_from_day (- 62000) \<le> year_from_day d" by (rule year_from_day_mono)
  moreover have "year_from_day (- 62000) = 1800"
    by (simp add: year_from_day_def day_from_year_def Let_def)
  ultimately show ?thesis by simp
qed

text \<open>Days a little before or after a supported one are read back from their text.\<close>

lemma parse_near:
  assumes "zone_ok midnight" "- 62000 \<le> k" "k \<le> 99999999"
  shows "parse_ymd midnight (ymd (Some k)) = Some k"
  using assms year_1800 [of k] by (intro parse_ymd_ymd) auto

lemma add_days_near:
  assumes "zone_ok midnight" "\<bar>k + n\<bar> \<le> 99999999"
  shows "add_days midnight (Some k) n = Some (k + n)"
proof -
  have "make_day (year_from_day k) (month_from_day k) (date_from_day k + n) = k + n"
    by (simp add: make_day_shift [symmetric] make_day_fields)
  then show ?thesis using assms by (simp add: add_days_def time_clip_supported)
qed

lemma new_date_near:
  assumes "zone_ok midnight" "100 \<le> y" "\<bar>make_day y m d\<bar> \<le> 99999999"
  shows "new_date midnight (Some y) (Some m) (Some d) = Some (make_day y m d)"
  using assms by (simp add: new_date_def time_clip_supported)

text \<open>The first and last day of each preset, as day numbers.\<close>

fun preset_span :: "int \<Rightarrow> period_id \<Rightarrow> int \<times> int" where
  "preset_span t Today = (t, t)"
| "preset_span t Yesterday = (t - 1, t - 1)"
| "preset_span t Days7 = (t - 6, t)"
| "preset_span t Days30 = (t - 29, t)"
| "preset_span t This_Month = (t - date_from_day t + 1, t)"
| "preset_span t Last_Month =
     (let e = t - date_from_day t in (e - date_from_day e + 1, e))"
| "preset_span t Months3 =
     (make_day (year_from_day t) (month_from_day t - 3) (date_from_day t) + 1, t)"
| "preset_span t Months12 =
     (make_day (year_from_day t - 1) (month_from_day t) (date_from_day t) + 1, t)"
| "preset_span t Custom = (t - 6, t)"

lemma first_of_month: "make_day (year_from_day t) (month_from_day t) 1 = t - date_from_day t + 1"
  using make_day_shift [of "year_from_day t" "month_from_day t" 1 "date_from_day t - 1"]
  by (simp add: make_day_fields)

lemma end_of_previous_month:
  "make_day (year_from_day t) (month_from_day t) 0 = t - date_from_day t"
  using make_day_shift [of "year_from_day t" "month_from_day t" 0 1] first_of_month [of t] by simp

text \<open>The previous month in normal form, and its days.\<close>

definition month_before :: "int \<Rightarrow> int \<Rightarrow> int \<times> int" where
  "month_before y m = (if m = 0 then (y - 1, 11) else (y, m - 1))"

lemma make_day_month_before_norm:
  assumes "0 \<le> m" "m \<le> 11" "month_before y m = (y', m')"
  shows "0 \<le> m'" "m' \<le> 11" "make_day y (m - 1) d = make_day y' m' d"
    "make_day y m 0 = make_day y' m' (month_days y' m')"
proof -
  have m1: "(m - 1) div 12 = (if m = 0 then - 1 else 0)" "(m - 1) mod 12 = (if m = 0 then 11 else m - 1)"
    using assms(1,2) by simp_all
  show "0 \<le> m'" "m' \<le> 11" using assms by (auto simp: month_before_def split: if_splits)
  show eq: "make_day y (m - 1) d = make_day y' m' d" for d
    using assms m1 by (auto simp: make_day_def month_before_def Let_def split: if_splits)
  show "make_day y m 0 = make_day y' m' (month_days y' m')"
    using make_day_month_before [of y m 0] m1 assms eq [of 0] make_day_shift [of y' m' 0 "month_days y' m'"]
    by (auto simp: month_before_def split: if_splits)
qed

lemma first_of_previous_month:
  "make_day (year_from_day t) (month_from_day t - 1) 1 = fst (preset_span t Last_Month)"
proof -
  let ?y = "year_from_day t" and ?m = "month_from_day t"
  obtain y' m' where b: "month_before ?y ?m = (y', m')" by fastforce
  note norm = make_day_month_before_norm [OF month_from_day_range b]
  have d: "1 \<le> month_days y' m'" using month_days_bounds(1) [of y' m'] norm(1,2) by simp
  have e: "t - date_from_day t = make_day y' m' (month_days y' m')"
    using norm(4) by (simp add: end_of_previous_month)
  then have "date_from_day (t - date_from_day t) = month_days y' m'"
    using fields_of_make_day(3) [OF norm(1,2) d order_refl] by simp
  then show ?thesis
    using e norm(3) make_day_shift [of y' m' 1 "month_days y' m' - 1"] by (simp add: Let_def)
qed

lemma preset_span_bounds:
  "snd (preset_span t i) \<le> t \<and> fst (preset_span t i) \<le> snd (preset_span t i) \<and>
   snd (preset_span t i) - fst (preset_span t i) \<le> 365 \<and> t - 62 \<le> snd (preset_span t i)"
proof (cases i)
  case Months3
  let ?y = "year_from_day t" and ?m = "month_from_day t" and ?d = "date_from_day t"
  note b = make_day_month_before [of ?y ?m ?d] make_day_month_before [of ?y "?m - 1" ?d]
    make_day_month_before [of ?y "?m - 2" ?d]
  show ?thesis
    using b make_day_fields [of t]
      month_days_bounds [of "?y + (?m - 1) div 12" "?m - 1"] month_days_bounds [of "?y + (?m - 2) div 12" "?m - 2"]
      month_days_bounds [of "?y + (?m - 3) div 12" "?m - 3"]
    by (simp add: Months3)
next
  case Months12
  then show ?thesis
    using make_day_year_before [OF month_from_day_range [of t], of "year_from_day t" "date_from_day t"]
      make_day_fields [of t] by auto
qed (use date_from_day_range [of t] date_from_day_range [of "t - date_from_day t"] in \<open>auto simp: Let_def\<close>)

lemma supported_year: "supported_today t \<Longrightarrow> 1970 \<le> year_from_day t"
  using year_from_day_mono [of 0 t] year_from_day_unique [of 1970 0] day_from_year_Suc [of 1970]
    year_length_bounds(1) [of 1970]
  by (simp add: supported_today_def)

lemma preset_dates:
  assumes z: "zone_ok midnight" and t: "supported_today t" and i: "i \<noteq> Custom \<or> c = None"
  shows "pstart (period_for midnight t i c) = ymd (Some (fst (preset_span t i))) \<and>
         pend (period_for midnight t i c) = ymd (Some (snd (preset_span t i)))"
proof -
  let ?y = "year_from_day t" and ?m = "month_from_day t" and ?d = "date_from_day t"
  have t': "0 \<le> t" "t \<le> 99990000" using t by (simp_all add: supported_today_def)
  note near = add_days_near [OF z] new_date_near [OF z]
  have y: "100 \<le> ?y" "100 \<le> ?y - 1" using supported_year [OF t] by simp_all
  show ?thesis
  proof (cases i)
    case Last_Month
    have "\<bar>fst (preset_span t Last_Month)\<bar> \<le> 99999999" "\<bar>snd (preset_span t Last_Month)\<bar> \<le> 99999999"
      using preset_span_bounds [of t Last_Month] t' by (simp_all add: abs_le_iff)
    then show ?thesis
      using Last_Month y near(2) [of ?y "?m - 1" 1] near(2) [of ?y ?m 0]
      by (simp add: period_for_def Let_def first_of_previous_month end_of_previous_month
          del: preset_span.simps) (simp add: Let_def)
  next
    case This_Month
    have "\<bar>t - ?d + 1\<bar> \<le> 99999999" using date_from_day_range [of t] t' by (simp add: abs_le_iff)
    then show ?thesis
      using This_Month y near(2) [of ?y ?m 1] by (simp add: period_for_def Let_def first_of_month)
  next
    case Months3
    have "\<bar>make_day ?y (?m - 3) ?d + 1\<bar> \<le> 99999998" "\<bar>make_day ?y (?m - 3) ?d\<bar> \<le> 99999998"
      using preset_span_bounds [of t Months3] t' by (simp_all add: abs_le_iff)
    then show ?thesis
      using Months3 y near(2) [of ?y "?m - 3" ?d] near(1) by (simp add: period_for_def Let_def)
  next
    case Months12
    have "\<bar>make_day (?y - 1) ?m ?d + 1\<bar> \<le> 99999998" "\<bar>make_day (?y - 1) ?m ?d\<bar> \<le> 99999998"
      using preset_span_bounds [of t Months12] t' by (simp_all add: abs_le_iff)
    then show ?thesis
      using Months12 y near(2) [of "?y - 1" ?m ?d] near(1) by (simp add: period_for_def Let_def)
  qed (use near(1) t' i in \<open>auto simp: period_for_def Let_def\<close>)
qed

lemma preset_parse:
  assumes "zone_ok midnight" "supported_today t" "i \<noteq> Custom"
  shows "parse_ymd midnight (pstart (period_for midnight t i c)) = Some (fst (preset_span t i))"
    "parse_ymd midnight (pend (period_for midnight t i c)) = Some (snd (preset_span t i))"
proof -
  have t: "0 \<le> t" "t \<le> 99990000" using assms(2) by (simp_all add: supported_today_def)
  have "- 62000 \<le> fst (preset_span t i)" "fst (preset_span t i) \<le> 99999999"
    "- 62000 \<le> snd (preset_span t i)" "snd (preset_span t i) \<le> 99999999"
    using preset_span_bounds [of t i] t by simp_all
  then show "parse_ymd midnight (pstart (period_for midnight t i c)) = Some (fst (preset_span t i))"
    "parse_ymd midnight (pend (period_for midnight t i c)) = Some (snd (preset_span t i))"
    using preset_dates [OF assms(1,2), of i c] assms(3) parse_near [OF assms(1)] by simp_all
qed

text \<open>
  the start and end that every preset sends to the API are the days its label names:
  the last 7 and 30 days including today, the month up to today, the whole previous month,
  and the days since the same date three or twelve months ago, for every current day from
  1970 on and every zone.
\<close>

theorem preset_period_days:
  assumes "zone_ok midnight" "supported_today t" "i \<noteq> Custom"
  shows "parse_ymd midnight (pstart (period_for midnight t i c)) = Some (fst (preset_span t i)) \<and>
         parse_ymd midnight (pend (period_for midnight t i c)) = Some (snd (preset_span t i)) \<and>
         fst (preset_span t i) \<le> snd (preset_span t i) \<and> snd (preset_span t i) \<le> t \<and>
         snd (preset_span t i) - fst (preset_span t i) + 1 \<le> max_range_days"
  using preset_parse [OF assms] preset_span_bounds [of t i] by (simp add: max_range_days_def)

theorem preset_period_days_witness:
  "parse_ymd (\<lambda>d. 86400000 * d - 0) (pstart (period_for (\<lambda>d. 86400000 * d - 0) 20332 Last_Month None))
     = Some (fst (preset_span 20332 Last_Month))"
proof -
  have "zone_ok (\<lambda>d. 86400000 * d - 0)" by (rule zone_ok_offset) simp
  then show ?thesis
    using preset_period_days [of "\<lambda>d. 86400000 * d - 0" 20332 Last_Month None]
    by (simp add: supported_today_def)
qed

lemma last_month_days:
  "(fst (preset_span t Last_Month) \<le> k \<and> k \<le> snd (preset_span t Last_Month)) =
   ((year_from_day k, month_from_day k) = month_before (year_from_day t) (month_from_day t))"
proof -
  obtain y' m' where b: "month_before (year_from_day t) (month_from_day t) = (y', m')" by fastforce
  note norm = make_day_month_before_norm [OF month_from_day_range b]
  have "fst (preset_span t Last_Month) = make_day y' m' 1"
    using first_of_previous_month [of t] norm(3) by simp
  moreover have "snd (preset_span t Last_Month) = make_day y' m' (month_days y' m')"
    using norm(4) end_of_previous_month [of t] by (simp add: Let_def)
  ultimately show ?thesis
    using month_membership [OF norm(1,2), of y' k] b by (simp only: prod.inject)
qed

text \<open>
  the period "Last month" contains a day exactly when the day lies in the calendar
  month before the current one, across the turn of the year as well.
\<close>

theorem last_month_membership:
  assumes "zone_ok midnight" "supported_today t"
    "parse_ymd midnight (pstart (period_for midnight t Last_Month c)) = Some a"
    "parse_ymd midnight (pend (period_for midnight t Last_Month c)) = Some b"
  shows "(a \<le> k \<and> k \<le> b) =
    ((year_from_day k, month_from_day k) = month_before (year_from_day t) (month_from_day t))"
  using preset_parse [OF assms(1,2), of Last_Month c] assms(3,4) last_month_days [of t k]
  by (simp only: option.inject) simp

theorem last_month_membership_witness:
  "(20089 \<le> (20100::int) \<and> 20100 \<le> (20119::int)) =
    ((year_from_day 20100, month_from_day 20100) = month_before (year_from_day 20130) (month_from_day 20130))"
proof (rule last_month_membership)
  show "zone_ok (\<lambda>d. 86400000 * d - 0)" by (rule zone_ok_offset) simp
  show "supported_today 20130" by (simp add: supported_today_def)
qed (code_simp)+

section \<open>Validation of a custom range\<close>

text \<open>The offsets of the zone differ by less than a day.\<close>

definition zone_swing :: "(int \<Rightarrow> int) \<Rightarrow> bool" where
  "zone_swing midnight \<longleftrightarrow> (\<forall>d e. \<bar>midnight d - midnight e - 86400000 * (d - e)\<bar> < 86400000)"

lemma zone_swing_offset: "zone_swing (\<lambda>d. 86400000 * d - k)"
  by (simp add: zone_swing_def algebra_simps)

text \<open>
  a custom range is accepted only if it is ordered, does not reach past the current
  day and has at most 366 days; every such range of at most 365 days is accepted, and
  those of 366 days too when both ends have the same offset from UTC.
\<close>

theorem validate_range_spec:
  assumes "zone_ok midnight" "zone_swing midnight" "st \<noteq> []" "en \<noteq> []"
    "parse_ymd midnight st = Some a" "parse_ymd midnight en = Some b"
  shows "(validate_range midnight today st en = None \<longrightarrow>
            a \<le> b \<and> b \<le> today \<and> b - a + 1 \<le> 366) \<and>
         (a \<le> b \<and> b \<le> today \<and> b - a + 1 \<le> 365 \<longrightarrow> validate_range midnight today st en = None) \<and>
         (midnight b - midnight a = 86400000 * (b - a) \<longrightarrow>
            validate_range midnight today st en = None \<longleftrightarrow>
              a \<le> b \<and> b \<le> today \<and> b - a + 1 \<le> 366)"
proof -
  have swing: "\<bar>midnight b - midnight a - 86400000 * (b - a)\<bar> < 86400000"
    using assms(2) by (simp add: zone_swing_def)
  have "validate_range midnight today st en = None \<longleftrightarrow>
      a \<le> b \<and> b \<le> today \<and> midnight b - midnight a \<le> 365 * 86400000"
    using assms zone_less_iff [OF assms(1), of b a] zone_less_iff [OF assms(1), of today b]
    by (auto simp: validate_range_def max_range_days_def Let_def)
  then show ?thesis using swing by (auto simp: abs_less_iff)
qed

text \<open>The zone of a place at UTC with an hour of summer time, from one autumn to the next.\<close>

definition summer_midnight :: "int \<Rightarrow> int" where
  "summer_midnight d =
     86400000 * d - (if d \<le> 19659 \<or> 19813 < d \<and> d \<le> 20023 then 3600000 else 0)"

theorem validate_range_spec_witness:
  "validate_range (\<lambda>d. 86400000 * d - 0) 20332 ''2025-08-01'' ''2025-08-31'' = None"
  using validate_range_spec [of "\<lambda>d. 86400000 * d - 0" "''2025-08-01''" "''2025-08-31''" 20301 20331 20332,
      OF zone_ok_offset zone_swing_offset]
  by (simp, code_simp)

text \<open>
  a range of 366 days, which the limit allows, is refused when it starts before and
  ends after the end of summer time: 29 October 2023 to 28 October 2024 is 366 days long
  and is reported as longer than a year.
\<close>

theorem year_range_refused_across_summer_time:
  "parse_ymd summer_midnight ''2023-10-29'' = Some 19659 \<and>
   parse_ymd summer_midnight ''2024-10-28'' = Some 20024 \<and>
   20024 - 19659 + 1 = max_range_days \<and>
   validate_range summer_midnight 20100 ''2023-10-29'' ''2024-10-28'' =
     Some ''Pick a range of one year or less''"
  by code_simp

section \<open>What the picker and the reports page hand on\<close>

lemma pid_period_for [simp]: "pid (period_for midnight t i c) = i"
  by (cases i) (simp_all add: period_for_def Let_def)

lemma period_for_custom [simp]:
  "period_for midnight t Custom (Some (st, en)) = \<lparr>pid = Custom, pstart = st, pend = en\<rparr>"
  by (simp add: period_for_def Let_def)

lemma validate_range_filled:
  "validate_range midnight today st en = None \<Longrightarrow> st \<noteq> [] \<and> en \<noteq> []"
  by (cases st; cases en) (simp_all add: validate_range_def)

text \<open>
  whatever the user does in the picker, a custom period reaches the page only from the
  open panel, with both dates filled in and accepted by \<open>validateRange\<close>, and the panel is
  closed afterwards; every other period handed on is one of the offered presets.
\<close>

theorem picker_hands_on_valid:
  assumes "picker_step midnight today ac options value p ev = (p', Some per)" "Custom \<notin> set options"
  shows "picker_open p \<and> \<not> picker_open p' \<and>
    (if pid per = Custom
     then ac \<and> validate_range midnight today (pstart per) (pend per) = None \<and>
          pstart per \<noteq> [] \<and> pend per \<noteq> []
     else pid per \<in> set options \<and> per = period_for midnight today (pid per) None)"
  using assms
  by (cases ev) (auto simp: picker_step_def dest: validate_range_filled split: if_splits)

theorem picker_hands_on_valid_witness:
  "let p = \<lparr>picker_open = True, picker_start = ''2025-08-01'', picker_end = ''2025-08-31''\<rparr>;
       r = picker_step (\<lambda>d. 86400000 * d) 20332 True [Today, Days7]
             \<lparr>pid = Today, pstart = [], pend = []\<rparr> p Apply_Range
   in \<not> picker_open (fst r) \<and>
      validate_range (\<lambda>d. 86400000 * d) 20332 ''2025-08-01'' ''2025-08-31'' = None"
proof -
  let ?p = "\<lparr>picker_open = True, picker_start = ''2025-08-01'', picker_end = ''2025-08-31''\<rparr>"
  have "picker_step (\<lambda>d. 86400000 * d) 20332 True [Today, Days7]
      \<lparr>pid = Today, pstart = [], pend = []\<rparr> ?p Apply_Range =
    (?p\<lparr>picker_open := False\<rparr>,
     Some \<lparr>pid = Custom, pstart = ''2025-08-01'', pend = ''2025-08-31''\<rparr>)"
    by code_simp
  from picker_hands_on_valid [OF this] this show ?thesis by simp
qed

text \<open>
  the query string of the reports page always yields a period, unless the parameter
  \<open>period\<close> is a property name that every object inherits, such as \<open>constructor\<close>: then the
  lookup in the label table succeeds and the state starts out undefined. A custom range is
  taken over only when it is valid.
\<close>

theorem initial_period_defined:
  "(initial_period midnight today q st en = None \<longleftrightarrow>
      (\<exists>n. q = Some n \<and> n \<in> set object_prototype_names)) \<and>
   (case initial_period midnight today q st en of
      None \<Rightarrow> True
    | Some p \<Rightarrow>
        (if pid p = Custom
         then p = period_for midnight today Custom None \<or>
              validate_range midnight today (pstart p) (pend p) = None
         else True))"
proof -
  have "list_all (\<lambda>n. period_of_string n = None) object_prototype_names"
    by code_simp
  then have own: "period_of_string n = None" if "n \<in> set object_prototype_names" for n
    using that by (simp add: list_all_iff)
  let ?n = "case q of Some s \<Rightarrow> if s = [] then ''30d'' else s | None \<Rightarrow> ''30d''"
  let ?st = "case st of Some s \<Rightarrow> s | None \<Rightarrow> []" and ?en = "case en of Some s \<Rightarrow> s | None \<Rightarrow> []"
  have d30: "period_of_string ''30d'' = Some Days30" and cust: "period_of_string ''custom'' = Some Custom"
    by (simp_all add: period_of_string_def)
  have named: "(\<exists>n. q = Some n \<and> n \<in> set object_prototype_names) \<longleftrightarrow>
      ?n \<in> set object_prototype_names"
    using own [of "''30d''"] own [of "[]"] d30
    by (cases q) (auto, auto simp: object_prototype_names_def)
  have step: "initial_period midnight today q st en =
    (if ?n = ''custom'' \<and> ?st \<noteq> [] \<and> ?en \<noteq> [] \<and> validate_range midnight today ?st ?en = None
     then Some (period_for midnight today Custom (Some (?st, ?en)))
     else (case period_of_string ?n of
             Some i \<Rightarrow> Some (period_for midnight today i None)
           | None \<Rightarrow>
               (if ?n \<in> set object_prototype_names then None
                else Some (period_for midnight today Days30 None))))"
    by (simp only: initial_period_def Let_def)
  show ?thesis
  proof (cases "period_of_string ?n")
    case None
    then have "?n \<noteq> ''custom''" using cust by auto
    with None show ?thesis unfolding step named by auto
  next
    case (Some i)
    then have "?n \<notin> set object_prototype_names" using own by auto
    with Some show ?thesis unfolding step named by (cases i) auto
  qed
qed

end
