(* ===== verification/Authorize.thy ===== *)
theory Authorize
  imports Prelude
begin

text \<open>
  The \<open>authorize\<close> functions that the three panels hand to next-auth
  (\<^verbatim>\<open>lib/auth.ts\<close> of the company dashboard, the superadmin panel and the employee
  portal). The admin API is the argument \<open>srv\<close>, the clock is \<open>now\<close>; the result is the user
  object, null, or the thrown error, with the calls that were made.
\<close>

section \<open>Credentials\<close>

text \<open>The fields of a sign-in request; a field can be absent.\<close>

record credentials =
  cred_email :: "string option"
  cred_password :: "string option"
  cred_mfa_code :: "string option"
  cred_mfa_token :: "string option"
  cred_otp_code :: "string option"
  cred_otp_token :: "string option"
  cred_reg_code :: "string option"

definition opt_text :: "string option \<Rightarrow> string" where
  "opt_text v = (case v of None \<Rightarrow> [] | Some s \<Rightarrow> s)"

definition field :: "string option \<Rightarrow> string" where
  "field v =
     (let t = trim (opt_text v)
      in if t = ''undefined'' \<or> t = ''null'' then [] else t)"

definition opt_value :: "string option \<Rightarrow> jsval" where
  "opt_value v = (case v of None \<Rightarrow> JUndef | Some s \<Rightarrow> JStr s)"

text \<open>\<open>Date.now() + seconds * 1000\<close>.\<close>

definition expiry :: "int \<Rightarrow> jsval \<Rightarrow> jsval" where
  "expiry now secs =
     (case js_to_number secs of None \<Rightarrow> JNaN | Some n \<Rightarrow> JNum (now + n * 1000))"

text \<open>The error code of a failed call: \<open>err.response?.data?.code\<close>.\<close>

definition error_code :: "exn \<Rightarrow> jsval" where
  "error_code e = jget (response_data e) ''code''"

text \<open>\<open>throw new Error(err.response?.data?.error || fallback)\<close>.\<close>

definition api_error :: "string \<Rightarrow> exn \<Rightarrow> exn" where
  "api_error fallback e =
     js_error (js_to_string (or_falsy (jget (response_data e) ''error'') (JStr fallback)))"

section \<open>Company dashboard\<close>

definition session_of :: "int \<Rightarrow> string \<Rightarrow> jsval \<Rightarrow> exn + jsval" where
  "session_of now who d =
     (case jread d who of
        Inl e \<Rightarrow> Inl e
      | Inr u \<Rightarrow>
          (case (jread u ''id'', jread u ''email'') of
             (Inr i, Inr em) \<Rightarrow>
               Inr (JObj (obj_spread
                 [(''id'', i), (''email'', em),
                  (''accessToken'', jget d ''access_token''),
                  (''refreshToken'', jget d ''refresh_token''),
                  (''accessTokenExpires'', expiry now (jget d ''expires_in''))] u))
           | (Inl e, _) \<Rightarrow> Inl e
           | (_, Inl e) \<Rightarrow> Inl e))"

text \<open>\<open>if (r.data?.access_token) return session(r.data); return null;\<close>\<close>

definition session_or_null :: "int \<Rightarrow> jsval \<Rightarrow> jsval io" where
  "session_or_null now d =
     (if truthy (jget d ''access_token'') then of_sum (session_of now ''user'' d) else ret JNull)"

definition login_body :: "credentials \<Rightarrow> string \<Rightarrow> (string \<times> jsval) list" where
  "login_body c panel =
     [(''email'', opt_value (cred_email c)), (''password'', opt_value (cred_password c)),
      (''panel'', JStr panel)]"

definition verify_body :: "string \<Rightarrow> jsval \<Rightarrow> string \<Rightarrow> (string \<times> jsval) list" where
  "verify_body k tok code = [(k, tok), (''code'', JStr code)]"

text \<open>
  Finishing a sign-in with a code. When the challenge has lapsed, a new one is fetched with
  the password and the code is verified once more.
\<close>

definition verify_mfa :: "server \<Rightarrow> int \<Rightarrow> credentials \<Rightarrow> string \<Rightarrow> string \<Rightarrow> jsval io" where
  "verify_mfa srv now c code tok =
     catch_io
       (bind_io (post srv ''/auth/mfa/verify'' (verify_body ''mfa_token'' (JStr tok) code))
          (session_or_null now))
       (\<lambda>e. if error_code e \<noteq> JStr ''MFA_CHALLENGE_EXPIRED'' then throw e
            else bind_io (post srv ''/auth/login'' (login_body c ''company''))
              (\<lambda>d. if \<not> truthy (jget d ''mfa_token'') then throw e
                   else bind_io
                     (post srv ''/auth/mfa/verify'' (verify_body ''mfa_token'' (jget d ''mfa_token'') code))
                     (session_or_null now)))"

definition verify_otp :: "server \<Rightarrow> int \<Rightarrow> credentials \<Rightarrow> string \<Rightarrow> string \<Rightarrow> jsval io" where
  "verify_otp srv now c code tok =
     catch_io
       (bind_io (post srv ''/auth/otp/verify'' (verify_body ''otp_token'' (JStr tok) code))
          (session_or_null now))
       (\<lambda>e. if error_code e \<noteq> JStr ''OTP_CHALLENGE_EXPIRED'' then throw e
            else bind_io (post srv ''/auth/login'' (login_body c ''company''))
              (\<lambda>d. if \<not> truthy (jget d ''otp_token'') then throw e
                   else bind_io
                     (post srv ''/auth/otp/verify'' (verify_body ''otp_token'' (jget d ''otp_token'') code))
                     (session_or_null now)))"

text \<open>The signals that carry a challenge back to the login page.\<close>

definition mfa_signal :: "jsval \<Rightarrow> string" where
  "mfa_signal d =
     (if truthy (jget d ''mfa_setup_required'') then ''MFA_SETUP_REQUIRED'' else ''MFA_REQUIRED'')
       @ '':'' @ js_to_string (jget d ''mfa_token'')"

definition otp_signal :: "jsval \<Rightarrow> string" where
  "otp_signal d =
     ''OTP_REQUIRED:'' @ js_to_string (jget d ''otp_token'') @ ''|'' @
     js_to_string (or_nullish (jget d ''email'') (JStr []))"

text \<open>The password step.\<close>

definition password_login :: "server \<Rightarrow> int \<Rightarrow> credentials \<Rightarrow> jsval io" where
  "password_login srv now c =
     bind_io (post srv ''/auth/login'' (login_body c ''company''))
       (\<lambda>d. bind_io (of_sum (jread d ''mfa_required'')) (\<lambda>_.
          if truthy (jget d ''mfa_required'') \<or> truthy (jget d ''mfa_setup_required'')
            then throw (js_error (mfa_signal d))
          else if truthy (jget d ''otp_required'') then throw (js_error (otp_signal d))
          else session_or_null now d))"

definition company_attempt :: "server \<Rightarrow> int \<Rightarrow> credentials \<Rightarrow> jsval io" where
  "company_attempt srv now c =
     (if field (cred_reg_code c) \<noteq> []
        then bind_io (post srv ''/auth/register/verify''
                        [(''email'', opt_value (cred_email c)), (''code'', JStr (field (cred_reg_code c)))])
               (session_or_null now)
      else if field (cred_mfa_code c) \<noteq> [] \<and> field (cred_mfa_token c) \<noteq> []
        then verify_mfa srv now c (field (cred_mfa_code c)) (field (cred_mfa_token c))
      else if field (cred_otp_code c) \<noteq> [] \<and> field (cred_otp_token c) \<noteq> []
        then verify_otp srv now c (field (cred_otp_code c)) (field (cred_otp_token c))
      else password_login srv now c)"

definition company_error :: "exn \<Rightarrow> exn" where
  "company_error e =
     (if starts_with (message e) ''MFA_'' \<or> starts_with (message e) ''OTP_REQUIRED:'' then e
      else api_error ''Invalid email or password'' e)"

definition company_authorize :: "server \<Rightarrow> int \<Rightarrow> credentials option \<Rightarrow> jsval io" where
  "company_authorize srv now creds =
     (case creds of
        None \<Rightarrow> ret JNull
      | Some c \<Rightarrow>
          if opt_text (cred_email c) = [] \<or> opt_text (cred_password c) = [] then ret JNull
          else catch_io (company_attempt srv now c) (\<lambda>e. throw (company_error e)))"

text \<open>"View as Org": a one-time code is exchanged with the internal secret.\<close>

definition impersonate_authorize ::
  "server \<Rightarrow> int \<Rightarrow> string \<Rightarrow> string option \<Rightarrow> jsval io" where
  "impersonate_authorize srv now secret code =
     (if opt_text code = [] then ret JNull
      else catch_io
        (bind_io (post_with srv ''/auth/impersonate/consume'' [(''code'', opt_value code)]
                    [(''X-Internal-Secret'', secret)])
           (\<lambda>d. bind_io (of_sum (jread d ''access_token''))
              (\<lambda>t. if \<not> truthy t then ret JNull else of_sum (session_of now ''user'' d))))
        (\<lambda>e. throw (api_error ''This impersonation link is invalid or has expired'' e)))"

section \<open>Superadmin\<close>

definition superadmin_session :: "jsval \<Rightarrow> exn + jsval" where
  "superadmin_session d =
     (case jread d ''user'' of
        Inl e \<Rightarrow> Inl e
      | Inr u \<Rightarrow>
          (case jread u ''id'' of
             Inl e \<Rightarrow> Inl e
           | Inr i \<Rightarrow>
               Inr (JObj [(''id'', i), (''email'', jget u ''email''), (''name'', jget u ''full_name''),
                 (''role'', jget u ''role''), (''accessToken'', jget d ''access_token''),
                 (''refreshToken'', jget d ''refresh_token''), (''user'', u)])))"

definition superadmin_or_null :: "jsval \<Rightarrow> jsval io" where
  "superadmin_or_null d =
     (if truthy (jget d ''access_token'') \<and> jget (jget d ''user'') ''role'' = JStr ''superadmin''
      then of_sum (superadmin_session d) else ret JNull)"

definition superadmin_attempt :: "server \<Rightarrow> credentials \<Rightarrow> jsval io" where
  "superadmin_attempt srv c =
     (let code = field (cred_otp_code c); tok = field (cred_otp_token c)
      in if code \<noteq> [] \<and> tok \<noteq> []
           then bind_io (post srv ''/auth/otp/verify'' (verify_body ''otp_token'' (JStr tok) code))
                  superadmin_or_null
         else bind_io (post srv ''/auth/login'' (login_body c ''superadmin''))
                (\<lambda>d. bind_io (of_sum (jread d ''otp_required'')) (\<lambda>_.
                   if truthy (jget d ''otp_required'') then throw (js_error (otp_signal d))
                   else if truthy (jget d ''mfa_required'')
                     then throw (js_error (''MFA_REQUIRED:'' @ js_to_string (jget d ''mfa_token'')))
                   else superadmin_or_null d)))"

definition superadmin_error :: "exn \<Rightarrow> exn" where
  "superadmin_error e =
     (if starts_with (message e) ''OTP_REQUIRED:'' \<or> starts_with (message e) ''MFA_REQUIRED:'' then e
      else api_error ''Login failed'' e)"

definition superadmin_authorize :: "server \<Rightarrow> credentials option \<Rightarrow> jsval io" where
  "superadmin_authorize srv creds =
     (case creds of
        None \<Rightarrow> ret JNull
      | Some c \<Rightarrow>
          if opt_text (cred_email c) = [] \<or> opt_text (cred_password c) = [] then ret JNull
          else catch_io (superadmin_attempt srv c) (\<lambda>e. throw (superadmin_error e)))"

section \<open>Employee portal\<close>

definition portal_authorize :: "server \<Rightarrow> int \<Rightarrow> credentials option \<Rightarrow> jsval io" where
  "portal_authorize srv now creds =
     (case creds of
        None \<Rightarrow> ret JNull
      | Some c \<Rightarrow>
          if opt_text (cred_email c) = [] \<or> opt_text (cred_password c) = [] then ret JNull
          else catch_io
            (bind_io (post srv ''/portal/login''
                        [(''email'', opt_value (cred_email c)), (''password'', opt_value (cred_password c))])
               (\<lambda>d. bind_io (of_sum (jread d ''access_token''))
                  (\<lambda>t. if truthy t then of_sum (session_of now ''employee'' d) else ret JNull)))
            (\<lambda>e. throw (api_error ''Invalid email or password'' e)))"

text \<open>
  The callback after a Google or Apple sign-in: the user object with the tokens of the
  employee, or the address of the login page with an error.
\<close>

definition social_provider :: "string option \<Rightarrow> bool" where
  "social_provider p = (p = Some ''google'' \<or> p = Some ''apple'')"

definition portal_sign_in ::
  "server \<Rightarrow> int \<Rightarrow> string \<Rightarrow> string option \<Rightarrow> string option \<Rightarrow> (string \<times> jsval) list \<Rightarrow>
     api_call list \<Rightarrow> (string + (string \<times> jsval) list) \<times> api_call list" where
  "portal_sign_in srv now secret provider cookie user h =
     (if \<not> social_provider provider then (Inr user, h)
      else if \<not> truthy (jget (JObj user) ''email'')
        then (Inl ''/login?error=NoEmailFromProvider'', h)
      else if opt_text cookie = [] then (Inl ''/login?error=MissingCompanyCode'', h)
      else
        (case post_with srv ''/portal/social''
                [(''company_code'', JStr (opt_text cookie)), (''email'', jget (JObj user) ''email'')]
                [(''X-Internal-Secret'', secret)] h of
           (Inl e, h') \<Rightarrow> (Inl ''/login?error=NoAccountFound'', h')
         | (Inr d, h') \<Rightarrow>
             (if nullish d then (Inl ''/login?error=NoAccountFound'', h')
              else
                (let u1 = obj_put user ''accessToken'' (jget d ''access_token'');
                     u2 = obj_put u1 ''refreshToken'' (jget d ''refresh_token'');
                     u3 = obj_put u2 ''accessTokenExpires'' (expiry now (jget d ''expires_in''))
                 in (Inr (obj_spread u3 (jget d ''employee'')), h')))))"

section \<open>Which calls are made\<close>

lemma session_or_null_run [io_eval]:
  "session_or_null now d h =
     ((if truthy (jget d ''access_token'') then session_of now ''user'' d else Inr JNull), h)"
  by (simp add: session_or_null_def)

lemma session_of_object: "session_of now who d = Inr u \<Longrightarrow> \<exists>ps. u = JObj ps"
  by (auto simp: session_of_def split: sum.splits)

text \<open>
  What finishing with a code can do: its calls, and where a session comes from. \<open>V\<close> is the
  first verification.
\<close>

definition expired :: "string \<Rightarrow> server \<Rightarrow> api_call list \<Rightarrow> api_call \<Rightarrow> bool" where
  "expired code srv h x = (case srv h x of Inl e \<Rightarrow> error_code e = JStr code | Inr _ \<Rightarrow> False)"

lemma not_expired_type_error:
  "session_of now who d = Inl e \<Longrightarrow> error_code e = JUndef"
  by (auto simp: session_of_def jread_def js_error_def error_code_def split: sum.splits if_splits)

lemma verify_mfa_calls:
  fixes c tok code now
  defines "V \<equiv> Post ''/auth/mfa/verify'' (verify_body ''mfa_token'' (JStr tok) code) []"
    and "L \<equiv> Post ''/auth/login'' (login_body c ''company'') []"
  shows "\<exists>cs. snd (verify_mfa srv now c code tok h) = h @ cs \<and>
    (cs = [V] \<or> expired ''MFA_CHALLENGE_EXPIRED'' srv h V \<and>
       (cs = [V, L] \<or> (\<exists>t. cs = [V, L, Post ''/auth/mfa/verify'' (verify_body ''mfa_token'' t code) []])))"
  by (auto simp: verify_mfa_def io_eval V_def L_def expired_def
      dest: not_expired_type_error split: sum.splits)

lemma verify_otp_calls:
  fixes c tok code now
  defines "V \<equiv> Post ''/auth/otp/verify'' (verify_body ''otp_token'' (JStr tok) code) []"
    and "L \<equiv> Post ''/auth/login'' (login_body c ''company'') []"
  shows "\<exists>cs. snd (verify_otp srv now c code tok h) = h @ cs \<and>
    (cs = [V] \<or> expired ''OTP_CHALLENGE_EXPIRED'' srv h V \<and>
       (cs = [V, L] \<or> (\<exists>t. cs = [V, L, Post ''/auth/otp/verify'' (verify_body ''otp_token'' t code) []])))"
  by (auto simp: verify_otp_def io_eval V_def L_def expired_def
      dest: not_expired_type_error split: sum.splits)

lemma password_login_calls:
  "snd (password_login srv now c h) = h @ [Post ''/auth/login'' (login_body c ''company'') []]"
  by (auto simp: password_login_def io_eval split: sum.splits)

text \<open>The paths called, in order.\<close>

definition company_traces :: "string list list" where
  "company_traces =
     [[], [''/auth/register/verify''], [''/auth/login''],
      [''/auth/mfa/verify''], [''/auth/mfa/verify'', ''/auth/login''],
      [''/auth/mfa/verify'', ''/auth/login'', ''/auth/mfa/verify''],
      [''/auth/otp/verify''], [''/auth/otp/verify'', ''/auth/login''],
      [''/auth/otp/verify'', ''/auth/login'', ''/auth/otp/verify'']]"

definition sends_password :: "api_call \<Rightarrow> bool" where
  "sends_password x = (map_of (call_body x) ''password'' \<noteq> None)"

definition trace_ok :: "server \<Rightarrow> api_call list \<Rightarrow> api_call list \<Rightarrow> bool" where
  "trace_ok srv h cs \<longleftrightarrow>
     map call_path cs \<in> set company_traces \<and>
     list_all (\<lambda>x. sends_password x = (call_path x = ''/auth/login'')) cs \<and>
     (if 2 \<le> length cs
      then expired ''MFA_CHALLENGE_EXPIRED'' srv h (hd cs) \<or> expired ''OTP_CHALLENGE_EXPIRED'' srv h (hd cs)
      else True)"

lemma trace_ok_single:
  assumes "call_path x \<in> {''/auth/register/verify'', ''/auth/login'', ''/auth/mfa/verify'', ''/auth/otp/verify''}"
    "sends_password x = (call_path x = ''/auth/login'')"
  shows "trace_ok srv h [x]"
  using assms by (auto simp: trace_ok_def company_traces_def)

lemma company_attempt_calls:
  "\<exists>cs. snd (company_attempt srv now c h) = h @ cs \<and> trace_ok srv h cs"
proof -
  consider (reg) "field (cred_reg_code c) \<noteq> []"
    | (mfa) "field (cred_reg_code c) = []" "field (cred_mfa_code c) \<noteq> []" "field (cred_mfa_token c) \<noteq> []"
    | (otp) "field (cred_reg_code c) = []" "field (cred_mfa_code c) = [] \<or> field (cred_mfa_token c) = []"
        "field (cred_otp_code c) \<noteq> []" "field (cred_otp_token c) \<noteq> []"
    | (pw) "field (cred_reg_code c) = []" "field (cred_mfa_code c) = [] \<or> field (cred_mfa_token c) = []"
        "field (cred_otp_code c) = [] \<or> field (cred_otp_token c) = []"
    by blast
  then show ?thesis
  proof cases
    case reg
    then show ?thesis
      by (auto simp: company_attempt_def io_eval trace_ok_def company_traces_def sends_password_def
          split: sum.splits)
  next
    case mfa
    then show ?thesis
      using verify_mfa_calls [of srv now c "field (cred_mfa_code c)" "field (cred_mfa_token c)" h]
      by (auto simp: company_attempt_def trace_ok_def company_traces_def sends_password_def
          verify_body_def login_body_def)
  next
    case otp
    then show ?thesis
      using verify_otp_calls [of srv now c "field (cred_otp_code c)" "field (cred_otp_token c)" h]
      by (auto simp: company_attempt_def trace_ok_def company_traces_def sends_password_def
          verify_body_def login_body_def)
  next
    case pw
    then show ?thesis
      using password_login_calls [of srv now c h]
      by (auto simp: company_attempt_def trace_ok_def company_traces_def sends_password_def
          login_body_def)
  qed
qed

text \<open>
  one sign-in of the company dashboard makes at most three calls, in one of nine
  orders; it goes back to the password step, and verifies a second time, only when the
  first verification was answered with the code for a lapsed challenge; and the password
  is sent to the login endpoint and nowhere else.
\<close>

theorem company_authorize_calls:
  "\<exists>cs. snd (company_authorize srv now creds h) = h @ cs \<and> length cs \<le> 3 \<and> trace_ok srv h cs"
proof -
  have len: "length cs \<le> 3" if "trace_ok srv h cs" for cs
  proof -
    have "map call_path cs \<in> set company_traces" using that by (simp add: trace_ok_def)
    then have "length (map call_path cs) \<le> 3" by (auto simp: company_traces_def simp del: length_map)
    then show ?thesis by simp
  qed
  have none: "trace_ok srv h []" by (simp add: trace_ok_def company_traces_def)
  show ?thesis
  proof (cases creds)
    case None
    with none show ?thesis by (auto simp: company_authorize_def)
  next
    case (Some c)
    obtain cs where "snd (company_attempt srv now c h) = h @ cs" "trace_ok srv h cs"
      using company_attempt_calls by blast
    with Some none len show ?thesis
      by (auto simp: company_authorize_def io_eval split: prod.splits sum.splits)
  qed
qed

section \<open>Where a session comes from\<close>

text \<open>The last call made was answered with the access token of this very session.\<close>

definition issued :: "server \<Rightarrow> int \<Rightarrow> api_call list \<Rightarrow> api_call list \<Rightarrow> jsval \<Rightarrow> bool" where
  "issued srv now h h' u \<longleftrightarrow>
     (\<exists>ys x d. h' = h @ ys @ [x] \<and> srv (h @ ys) x = Inr d \<and>
        truthy (jget d ''access_token'') \<and> session_of now ''user'' d = Inr u \<and>
        (call_path x = ''/auth/login'' \<longrightarrow>
           \<not> truthy (jget d ''mfa_required'') \<and> \<not> truthy (jget d ''mfa_setup_required'') \<and>
           \<not> truthy (jget d ''otp_required'')))"

lemma issuedI:
  "srv h x = Inr d \<Longrightarrow> truthy (jget d ''access_token'') \<Longrightarrow> session_of now ''user'' d = Inr u \<Longrightarrow>
   call_path x \<noteq> ''/auth/login'' \<Longrightarrow> issued srv now h (h @ [x]) u"
  by (fastforce simp: issued_def)

lemma issued_laterI:
  "h' = h @ ys @ [x] \<Longrightarrow> srv (h @ ys) x = Inr d \<Longrightarrow> truthy (jget d ''access_token'') \<Longrightarrow>
   session_of now ''user'' d = Inr u \<Longrightarrow> call_path x \<noteq> ''/auth/login'' \<Longrightarrow> issued srv now h h' u"
  by (auto simp: issued_def)

lemma verify_mfa_issued:
  assumes "verify_mfa srv now c code tok h = (Inr u, h')" "u \<noteq> JNull"
  shows "issued srv now h h' u"
  using assms
  by (auto simp: verify_mfa_def io_eval split: sum.splits if_splits
      intro: issuedI issued_laterI [where ys = "[_, _]"])

lemma verify_otp_issued:
  assumes "verify_otp srv now c code tok h = (Inr u, h')" "u \<noteq> JNull"
  shows "issued srv now h h' u"
  using assms
  by (auto simp: verify_otp_def io_eval split: sum.splits if_splits
      intro: issuedI issued_laterI [where ys = "[_, _]"])

lemma password_login_issued:
  assumes "password_login srv now c h = (Inr u, h')" "u \<noteq> JNull"
  shows "issued srv now h h' u"
proof -
  let ?x = "Post ''/auth/login'' (login_body c ''company'') []"
  obtain d where "srv h ?x = Inr d" "truthy (jget d ''access_token'')" "session_of now ''user'' d = Inr u"
    "\<not> truthy (jget d ''mfa_required'')" "\<not> truthy (jget d ''mfa_setup_required'')"
    "\<not> truthy (jget d ''otp_required'')" "h' = h @ [?x]"
    using assms by (auto simp: password_login_def io_eval split: sum.splits if_splits)
  then show ?thesis unfolding issued_def by (intro exI [of _ "[]"] exI [of _ ?x] exI [of _ d]) simp
qed

text \<open>
  the company dashboard opens a session only with the answer to its last call, which
  carried an access token, and a session from the password step alone only when the answer
  asks for no authenticator code, no authenticator enrolment and no emailed code.
\<close>

theorem company_session_issued:
  assumes "company_authorize srv now creds h = (Inr u, h')" "u \<noteq> JNull"
  shows "issued srv now h h' u"
proof -
  obtain c where c: "creds = Some c" "company_attempt srv now c h = (Inr u, h')"
    using assms
    by (auto simp: company_authorize_def io_eval split: option.splits if_splits sum.splits prod.splits)
  show ?thesis
  proof (cases "field (cred_reg_code c) \<noteq> []")
    case True
    then show ?thesis
      using c assms(2)
      by (auto simp: company_attempt_def io_eval split: sum.splits if_splits intro!: issuedI)
  next
    case False
    then show ?thesis
      using c assms(2)
      by (auto simp: company_attempt_def intro: verify_mfa_issued verify_otp_issued
          password_login_issued split: if_splits)
  qed
qed

text \<open>A server that answers every call with a session, for the concrete instances.\<close>

definition granting_answer :: jsval where
  "granting_answer =
     JObj [(''access_token'', JStr ''t1''), (''refresh_token'', JStr ''r1''), (''expires_in'', JNum 900),
       (''user'', JObj [(''id'', JNum 7), (''email'', JStr ''a@b.in''), (''role'', JStr ''superadmin'')])]"

definition sample_credentials :: credentials where
  "sample_credentials =
     \<lparr>cred_email = Some ''a@b.in'', cred_password = Some ''pw'', cred_mfa_code = None,
      cred_mfa_token = Some ''undefined'', cred_otp_code = None, cred_otp_token = None,
      cred_reg_code = None\<rparr>"

theorem company_session_issued_witness:
  "\<exists>u h'. company_authorize (\<lambda>h x. Inr granting_answer) 1000 (Some sample_credentials) [] = (Inr u, h') \<and>
     issued (\<lambda>h x. Inr granting_answer) 1000 [] h' u"
proof -
  let ?r = "company_authorize (\<lambda>h x. Inr granting_answer) 1000 (Some sample_credentials) []"
  have "fst ?r = Inr (JObj [(''id'', JNum 7), (''email'', JStr ''a@b.in''), (''accessToken'', JStr ''t1''),
      (''refreshToken'', JStr ''r1''), (''accessTokenExpires'', JNum 901000), (''role'', JStr ''superadmin'')])"
    by code_simp
  then obtain u h' where r: "?r = (Inr u, h')" "u \<noteq> JNull" by (cases ?r) auto
  with company_session_issued [OF r] show ?thesis by blast
qed

text \<open>
  a lapsed challenge is recovered: when the first verification of an authenticator code
  fails only because its challenge expired, the password still mints a new challenge and the
  code is right for it, the sign-in succeeds with the answer to the second verification.
\<close>

theorem expired_challenge_recovered:
  fixes c code tok
  defines "V \<equiv> Post ''/auth/mfa/verify'' (verify_body ''mfa_token'' (JStr tok) code) []"
    and "L \<equiv> Post ''/auth/login'' (login_body c ''company'') []"
    and "V2 \<equiv> (\<lambda>t. Post ''/auth/mfa/verify'' (verify_body ''mfa_token'' t code) [])"
  assumes "opt_text (cred_email c) \<noteq> []" "opt_text (cred_password c) \<noteq> []"
    "field (cred_reg_code c) = []" "field (cred_mfa_code c) = code" "field (cred_mfa_token c) = tok"
    "code \<noteq> []" "tok \<noteq> []"
    "srv h V = Inl e" "error_code e = JStr ''MFA_CHALLENGE_EXPIRED''"
    "srv (h @ [V]) L = Inr d" "truthy (jget d ''mfa_token'')"
    "srv (h @ [V, L]) (V2 (jget d ''mfa_token'')) = Inr final" "truthy (jget final ''access_token'')"
    "session_of now ''user'' final = Inr u"
  shows "company_authorize srv now (Some c) h = (Inr u, h @ [V, L, V2 (jget d ''mfa_token'')])"
  using assms(4-)
  unfolding V_def L_def V2_def
  by (simp add: company_authorize_def company_attempt_def verify_mfa_def io_eval)

definition lapsed_server :: server where
  "lapsed_server h x =
     (if h = [] then Inl \<lparr>message = ''Request failed with status code 401'',
                         response_data = JObj [(''code'', JStr ''MFA_CHALLENGE_EXPIRED'')]\<rparr>
      else if call_path x = ''/auth/login'' then Inr (JObj [(''mfa_token'', JStr ''m2'')])
      else Inr granting_answer)"

theorem expired_challenge_recovered_witness:
  "\<exists>u. fst (company_authorize lapsed_server 1000
      (Some (sample_credentials\<lparr>cred_mfa_code := Some ''123456'', cred_mfa_token := Some ''m1''\<rparr>)) []) = Inr u"
proof -
  let ?c = "sample_credentials\<lparr>cred_mfa_code := Some ''123456'', cred_mfa_token := Some ''m1''\<rparr>"
  let ?d = "JObj [(''mfa_token'', JStr ''m2'')]"
  have f: "field (Some ''123456'') = ''123456''" "field (Some ''m1'') = ''m1''" "field None = []"
    by code_simp+
  show ?thesis
    by (rule exI, subst expired_challenge_recovered [where c = ?c and code = "''123456''" and tok = "''m1''"
          and d = ?d and final = granting_answer])
       (simp_all add: sample_credentials_def opt_text_def f lapsed_server_def error_code_def
          granting_answer_def session_of_def jread_def nullish_def, simp)
qed

section \<open>Superadmin and employee portal\<close>

lemma superadmin_or_null_role:
  assumes "superadmin_or_null d h = (Inr u, h')" "u \<noteq> JNull"
  shows "jget u ''role'' = JStr ''superadmin'' \<and> jget u ''user'' = jget d ''user'' \<and>
         jget u ''accessToken'' = jget d ''access_token'' \<and> truthy (jget d ''access_token'') \<and> h' = h"
  using assms
  by (auto simp: superadmin_or_null_def superadmin_session_def jread_def nullish_def
      split: sum.splits if_splits)

text \<open>
  the superadmin panel opens a session only for a user whose role the answer of the
  API gives as \<open>superadmin\<close>, with a truthy access token of that answer, after exactly one
  call; in particular an answer that still asks for a code never opens one.
\<close>

theorem superadmin_session_role:
  assumes "superadmin_authorize srv creds h = (Inr u, h')" "u \<noteq> JNull"
  shows "\<exists>x d. h' = h @ [x] \<and> srv h x = Inr d \<and>
    jget (jget d ''user'') ''role'' = JStr ''superadmin'' \<and> jget u ''role'' = JStr ''superadmin'' \<and>
    jget u ''accessToken'' = jget d ''access_token'' \<and> truthy (jget u ''accessToken'') \<and>
    (call_path x = ''/auth/login'' \<longrightarrow> \<not> truthy (jget d ''otp_required'') \<and> \<not> truthy (jget d ''mfa_required''))"
proof -
  obtain c where c: "superadmin_attempt srv c h = (Inr u, h')"
    using assms
    by (auto simp: superadmin_authorize_def io_eval split: option.splits if_splits sum.splits prod.splits)
  then obtain x d where x: "srv h x = Inr d" "superadmin_or_null d (h @ [x]) = (Inr u, h')"
    "call_path x = ''/auth/login'' \<longrightarrow> \<not> truthy (jget d ''otp_required'') \<and> \<not> truthy (jget d ''mfa_required'')"
    using assms(2)
    by (fastforce simp: superadmin_attempt_def io_eval Let_def split: sum.splits if_splits)
  moreover have "jget (jget d ''user'') ''role'' = JStr ''superadmin''"
    using x(2) assms(2) by (auto simp: superadmin_or_null_def split: if_splits)
  ultimately show ?thesis
    using superadmin_or_null_role [OF x(2) assms(2)] by auto
qed

theorem superadmin_session_role_witness:
  "jget granting_answer ''access_token'' = JStr ''t1'' \<and>
   (\<exists>u h'. superadmin_authorize (\<lambda>h x. Inr granting_answer) (Some sample_credentials) [] = (Inr u, h') \<and>
      jget u ''role'' = JStr ''superadmin'')"
proof -
  let ?r = "superadmin_authorize (\<lambda>h x. Inr granting_answer) (Some sample_credentials) []"
  have "(case fst ?r of Inr u \<Rightarrow> u \<noteq> JNull | Inl e \<Rightarrow> False)" by code_simp
  then obtain u h' where r: "?r = (Inr u, h')" "u \<noteq> JNull" by (cases ?r) (auto split: sum.splits)
  with superadmin_session_role [OF r] show ?thesis by (auto simp: granting_answer_def)
qed

text \<open>
  the internal secret leaves the portal only in the one call that exchanges a Google
  or Apple sign-in, which is made only when the provider gave an email address and the
  company code is known; without a call nobody is signed in through those providers.
\<close>

theorem portal_social_guarded:
  "(case portal_sign_in srv now secret provider cookie user h of
      (r, h') \<Rightarrow>
        (if social_provider provider \<and> truthy (jget (JObj user) ''email'') \<and> opt_text cookie \<noteq> []
         then h' = h @ [Post ''/portal/social''
                          [(''company_code'', JStr (opt_text cookie)), (''email'', jget (JObj user) ''email'')]
                          [(''X-Internal-Secret'', secret)]]
         else h' = h \<and> (if social_provider provider then \<exists>to. r = Inl to else r = Inr user)))"
  by (auto simp: portal_sign_in_def Let_def split: sum.splits)

end
