(* ===== verification/Session_Refresh.thy ===== *)
theory Session_Refresh
  imports Authorize
begin

text \<open>
  Keeping a session alive (\<^verbatim>\<open>lib/auth.ts\<close> of the three panels): the map of refreshes in
  flight, the \<open>jwt\<close> callback that runs on every request and the \<open>session\<close> callback. A
  promise is a number; its state tells whether the POST behind it is outstanding.
\<close>

section \<open>Refreshes in flight\<close>

record refresh_result =
  res_access :: jsval
  res_refresh :: jsval
  res_expires :: jsval

datatype promise = Pending string | Settled "exn + refresh_result"

record refresh_state =
  in_flight :: "string \<Rightarrow> nat option"
  promises :: "promise list"
  posts :: "(string \<times> string) list"

definition no_refresh :: refresh_state where
  "no_refresh = \<lparr>in_flight = (\<lambda>_. None), promises = [], posts = []\<rparr>"

text \<open>
  Asking for a refresh: the pending promise of this refresh token, or a new POST (path and
  token) whose promise is entered in the map.
\<close>

definition refresh_access_token ::
  "string \<Rightarrow> string \<Rightarrow> refresh_state \<Rightarrow> nat \<times> refresh_state" where
  "refresh_access_token path tok st =
     (case in_flight st tok of
        Some p \<Rightarrow> (p, st)
      | None \<Rightarrow>
          (let p = length (promises st)
           in (p, st\<lparr>promises := promises st @ [Pending tok],
                      posts := posts st @ [(path, tok)],
                      in_flight := (in_flight st)(tok \<mapsto> p)\<rparr>)))"

text \<open>What the answer of the API is turned into; a body that is null or absent throws.\<close>

definition refresh_answer ::
  "int \<Rightarrow> string \<Rightarrow> int \<Rightarrow> exn + jsval \<Rightarrow> exn + refresh_result" where
  "refresh_answer default_secs tok now ans =
     (case ans of
        Inl e \<Rightarrow> Inl e
      | Inr d \<Rightarrow>
          (case jread d ''access_token'' of
             Inl e \<Rightarrow> Inl e
           | Inr a \<Rightarrow>
               Inr \<lparr>res_access = a,
                    res_refresh = or_nullish (jget d ''refresh_token'') (JStr tok),
                    res_expires = expiry now (or_nullish (jget d ''expires_in'') (JNum default_secs))\<rparr>))"

text \<open>The answer to the POST of promise \<open>p\<close> arrives: the promise settles, its entry goes.\<close>

definition settle ::
  "int \<Rightarrow> nat \<Rightarrow> int \<Rightarrow> exn + jsval \<Rightarrow> refresh_state \<Rightarrow> refresh_state" where
  "settle default_secs p now ans st =
     (if p < length (promises st)
      then (case promises st ! p of
              Pending tok \<Rightarrow>
                st\<lparr>promises := (promises st)[p := Settled (refresh_answer default_secs tok now ans)],
                   in_flight := (in_flight st)(tok := None)\<rparr>
            | Settled _ \<Rightarrow> st)
      else st)"

text \<open>The three panels.\<close>

definition company_refresh :: "string \<Rightarrow> refresh_state \<Rightarrow> nat \<times> refresh_state" where
  "company_refresh = refresh_access_token ''/auth/refresh''"

definition company_settle :: "nat \<Rightarrow> int \<Rightarrow> exn + jsval \<Rightarrow> refresh_state \<Rightarrow> refresh_state" where
  "company_settle = settle 900"

definition superadmin_refresh :: "string \<Rightarrow> refresh_state \<Rightarrow> nat \<times> refresh_state" where
  "superadmin_refresh = refresh_access_token ''/auth/refresh''"

definition superadmin_settle :: "nat \<Rightarrow> int \<Rightarrow> exn + jsval \<Rightarrow> refresh_state \<Rightarrow> refresh_state" where
  "superadmin_settle = settle 900"

definition portal_refresh :: "string \<Rightarrow> refresh_state \<Rightarrow> nat \<times> refresh_state" where
  "portal_refresh = refresh_access_token ''/portal/refresh''"

definition portal_settle :: "nat \<Rightarrow> int \<Rightarrow> exn + jsval \<Rightarrow> refresh_state \<Rightarrow> refresh_state" where
  "portal_settle = settle (8 * 3600)"

text \<open>The token of the POST behind a promise that waits for its answer.\<close>

definition waiting_token :: "refresh_state \<Rightarrow> nat \<Rightarrow> string option" where
  "waiting_token st p =
     (if p < length (promises st)
      then (case promises st ! p of Pending tok \<Rightarrow> Some tok | Settled _ \<Rightarrow> None)
      else None)"

section \<open>The interface that the callers rely on\<close>

datatype refresh_event = Ask string | Answer nat int "exn + jsval"

locale shared_refresh =
  fixes ask :: "string \<Rightarrow> 's \<Rightarrow> nat \<times> 's"
    and answer :: "nat \<Rightarrow> int \<Rightarrow> exn + jsval \<Rightarrow> 's \<Rightarrow> 's"
    and waiting :: "'s \<Rightarrow> nat \<Rightarrow> string option"
    and start :: 's
    and inv :: "'s \<Rightarrow> bool"
  assumes start_inv: "inv start"
    and start_waiting: "waiting start p = None"
    and ask_inv: "inv s \<Longrightarrow> inv (snd (ask t s))"
    and answer_inv: "inv s \<Longrightarrow> inv (answer p now a s)"
    and ask_waiting: "inv s \<Longrightarrow> waiting s p = Some t \<Longrightarrow> ask t s = (p, s)"
    and ask_new: "inv s \<Longrightarrow> (\<forall>p. waiting s p \<noteq> Some t) \<Longrightarrow>
      waiting s (fst (ask t s)) = None \<and>
      waiting (snd (ask t s)) = (waiting s)(fst (ask t s) \<mapsto> t)"
    and answer_waiting: "inv s \<Longrightarrow> waiting (answer p now a s) = (waiting s)(p := None)"
begin

fun run :: "refresh_event list \<Rightarrow> 's \<Rightarrow> 's" where
  "run [] s = s"
| "run (Ask t # es) s = run es (snd (ask t s))"
| "run (Answer p now a # es) s = run es (answer p now a s)"

lemma run_inv: "inv s \<Longrightarrow> inv (run es s)"
  by (induction es s rule: run.induct) (simp_all add: ask_inv answer_inv)

text \<open>No two requests for the same token wait at the same time.\<close>

lemma one_waiting:
  assumes "inv s" "\<forall>p q t. waiting s p = Some t \<longrightarrow> waiting s q = Some t \<longrightarrow> p = q"
  shows "waiting (run es s) p = Some t \<Longrightarrow> waiting (run es s) q = Some t \<Longrightarrow> p = q"
  using assms
proof (induction es s arbitrary: p q t rule: run.induct)
  case (1 s)
  from 1(1,2) have "waiting s p = Some t" "waiting s q = Some t" by simp_all
  with 1(4) show ?case by blast
next
  case (2 u es s)
  show ?case
  proof (rule "2.IH" [OF _ _ ask_inv])
    show "waiting (run es (snd (ask u s))) p = Some t" "waiting (run es (snd (ask u s))) q = Some t"
      using "2.prems" by simp_all
    show "inv s" by fact
    show "\<forall>p q t. waiting (snd (ask u s)) p = Some t \<longrightarrow> waiting (snd (ask u s)) q = Some t \<longrightarrow> p = q"
    proof (cases "\<exists>p. waiting s p = Some u")
      case True
      then show ?thesis using ask_waiting [OF \<open>inv s\<close>] "2.prems"(4) by auto
    next
      case False
      then show ?thesis using ask_new [OF \<open>inv s\<close>, of u] "2.prems"(4) by (auto split: if_splits)
    qed
  qed
next
  case (3 r now a es s)
  show ?case
  proof (rule "3.IH" [OF _ _ answer_inv])
    show "waiting (run es (answer r now a s)) p = Some t" "waiting (run es (answer r now a s)) q = Some t"
      using "3.prems" by simp_all
    show "inv s" by fact
    show "\<forall>p q t. waiting (answer r now a s) p = Some t \<longrightarrow> waiting (answer r now a s) q = Some t \<longrightarrow> p = q"
      using answer_waiting [OF \<open>inv s\<close>] "3.prems"(4) by (auto split: if_splits)
  qed
qed

lemma one_waiting_from_start:
  "waiting (run es start) p = Some t \<Longrightarrow> waiting (run es start) q = Some t \<Longrightarrow> p = q"
  by (rule one_waiting) (auto simp: start_inv start_waiting)

text \<open>Everyone who asks while a request waits gets its promise and sends nothing.\<close>

lemma ask_shares:
  "waiting (run es start) p = Some t \<Longrightarrow> ask t (run es start) = (p, run es start)"
  by (rule ask_waiting) (simp_all add: run_inv start_inv)

end

section \<open>The panels provide it\<close>

text \<open>The map holds exactly the promises that wait, under their tokens.\<close>

definition refresh_inv :: "refresh_state \<Rightarrow> bool" where
  "refresh_inv st \<longleftrightarrow> (\<forall>tok p. in_flight st tok = Some p \<longleftrightarrow> waiting_token st p = Some tok)"

lemma waiting_token_Some:
  "waiting_token st p = Some tok \<longleftrightarrow> p < length (promises st) \<and> promises st ! p = Pending tok"
  by (auto simp: waiting_token_def split: promise.splits)

lemma refresh_inv_none:
  "refresh_inv st \<Longrightarrow> in_flight st tok = None \<longleftrightarrow> (\<forall>p. waiting_token st p \<noteq> Some tok)"
  unfolding refresh_inv_def by (metis not_None_eq)

lemma ask_state:
  "waiting_token (snd (refresh_access_token path tok st)) =
     (case in_flight st tok of
        Some p \<Rightarrow> waiting_token st
      | None \<Rightarrow> (waiting_token st)(length (promises st) \<mapsto> tok))"
  by (auto simp: refresh_access_token_def Let_def waiting_token_def nth_append fun_eq_iff
      split: option.splits)

lemma settle_state:
  "waiting_token (settle d p now ans st) = (waiting_token st)(p := None)"
  by (auto simp: settle_def waiting_token_def fun_eq_iff nth_list_update split: promise.splits)

lemma refresh_inv_ask: "refresh_inv st \<Longrightarrow> refresh_inv (snd (refresh_access_token path tok st))"
proof (cases "in_flight st tok")
  case (Some p)
  then show "refresh_inv st \<Longrightarrow> ?thesis" by (simp add: refresh_access_token_def)
next
  case None
  assume inv: "refresh_inv st"
  let ?st = "snd (refresh_access_token path tok st)"
  have fresh: "waiting_token st (length (promises st)) = None" by (simp add: waiting_token_def)
  have w: "waiting_token ?st = (waiting_token st)(length (promises st) \<mapsto> tok)"
    using None by (simp add: ask_state)
  have f: "in_flight ?st = (in_flight st)(tok \<mapsto> length (promises st))"
    using None by (simp add: refresh_access_token_def Let_def)
  show ?thesis
    using inv refresh_inv_none [OF inv, of tok] None fresh
    unfolding refresh_inv_def w f by (auto split: if_splits)
qed

lemma refresh_inv_settle: "refresh_inv st \<Longrightarrow> refresh_inv (settle d p now ans st)"
proof (cases "waiting_token st p")
  case None
  then have "settle d p now ans st = st"
    by (auto simp: settle_def waiting_token_def split: promise.splits if_splits)
  then show "refresh_inv st \<Longrightarrow> ?thesis" by simp
next
  case (Some tok)
  assume inv: "refresh_inv st"
  have f: "in_flight (settle d p now ans st) = (in_flight st)(tok := None)"
    using Some by (simp add: settle_def waiting_token_Some)
  have "in_flight st tok = Some p" using inv Some by (simp add: refresh_inv_def)
  then show ?thesis
    using inv unfolding refresh_inv_def settle_state f by (metis fun_upd_apply option.inject option.distinct(1))
qed

lemma shared_refresh_panel:
  "shared_refresh (refresh_access_token path) (settle d) waiting_token no_refresh refresh_inv"
proof
  show "refresh_inv no_refresh" by (simp add: refresh_inv_def no_refresh_def waiting_token_def)
  show "waiting_token no_refresh p = None" for p by (simp add: no_refresh_def waiting_token_def)
  fix s t p now a assume inv: "refresh_inv s"
  show "refresh_inv (snd (refresh_access_token path t s))" by (rule refresh_inv_ask [OF inv])
  show "refresh_inv (settle d p now a s)" by (rule refresh_inv_settle [OF inv])
  show "waiting_token (settle d p now a s) = (waiting_token s)(p := None)" by (rule settle_state)
  show "refresh_access_token path t s = (p, s)" if "waiting_token s p = Some t"
  proof -
    have "in_flight s t = Some p" using inv that by (simp add: refresh_inv_def)
    then show ?thesis by (simp add: refresh_access_token_def)
  qed
  assume "\<forall>p. waiting_token s p \<noteq> Some t"
  then have none: "in_flight s t = None" using refresh_inv_none [OF inv, of t] by blast
  then have "fst (refresh_access_token path t s) = length (promises s)"
    by (simp add: refresh_access_token_def Let_def)
  then show "waiting_token s (fst (refresh_access_token path t s)) = None \<and>
      waiting_token (snd (refresh_access_token path t s)) =
        (waiting_token s)(fst (refresh_access_token path t s) \<mapsto> t)"
    using none ask_state [of path t s] by (simp add: waiting_token_def)
qed

interpretation company_panel:
  shared_refresh company_refresh company_settle waiting_token no_refresh refresh_inv
  unfolding company_refresh_def company_settle_def by (rule shared_refresh_panel)

interpretation superadmin_panel:
  shared_refresh superadmin_refresh superadmin_settle waiting_token no_refresh refresh_inv
  unfolding superadmin_refresh_def superadmin_settle_def by (rule shared_refresh_panel)

interpretation portal_panel:
  shared_refresh portal_refresh portal_settle waiting_token no_refresh refresh_inv
  unfolding portal_refresh_def portal_settle_def by (rule shared_refresh_panel)

text \<open>
  C2: in every interleaving of requests that ask for a refresh and answers that arrive, at
  most one POST per refresh token waits for its answer, in each of the three panels, so a
  token that the API rotates on use is never presented twice at a time.
\<close>

theorem one_refresh_per_token:
  assumes "f \<in> {company_panel.run es, superadmin_panel.run es, portal_panel.run es}"
    "waiting_token (f no_refresh) p = Some tok" "waiting_token (f no_refresh) q = Some tok"
  shows "p = q"
  using assms company_panel.one_waiting_from_start [of es p tok q]
    superadmin_panel.one_waiting_from_start [of es p tok q]
    portal_panel.one_waiting_from_start [of es p tok q]
  by auto

theorem one_refresh_per_token_witness:
  "let st = company_panel.run [Ask ''r1'', Ask ''r1'', Ask ''r2''] no_refresh
   in waiting_token st 0 = Some ''r1'' \<and> waiting_token st 1 = Some ''r2'' \<and>
      posts st = [(''/auth/refresh'', ''r1''), (''/auth/refresh'', ''r2'')] \<and> (0::nat) = 0"
proof -
  have w: "waiting_token (company_panel.run [Ask ''r1'', Ask ''r1'', Ask ''r2''] no_refresh) 0 = Some ''r1''"
    "waiting_token (company_panel.run [Ask ''r1'', Ask ''r1'', Ask ''r2''] no_refresh) 1 = Some ''r2''"
    "posts (company_panel.run [Ask ''r1'', Ask ''r1'', Ask ''r2''] no_refresh) =
       [(''/auth/refresh'', ''r1''), (''/auth/refresh'', ''r2'')]"
    unfolding company_panel.run.simps
    by (simp_all add: company_refresh_def refresh_access_token_def no_refresh_def waiting_token_def Let_def)
  have "(0::nat) = 0"
    by (rule one_refresh_per_token [OF insertI1 w(1) w(1)])
  with w show ?thesis by (simp add: Let_def)
qed

text \<open>
  whoever asks while a request for the same token waits is given its promise and sends
  nothing; when the answer arrives the promise holds what the answer is turned into and the
  token can be asked for anew.
\<close>

theorem refresh_shared_and_released:
  assumes "waiting_token (company_panel.run es no_refresh) p = Some tok"
  shows "company_refresh tok (company_panel.run es no_refresh) = (p, company_panel.run es no_refresh) \<and>
    (let st = company_settle p now ans (company_panel.run es no_refresh)
     in promises st ! p = Settled (refresh_answer 900 tok now ans) \<and>
        in_flight st tok = None \<and>
        fst (company_refresh tok st) \<noteq> p \<and>
        posts (snd (company_refresh tok st)) = posts st @ [(''/auth/refresh'', tok)])"
proof -
  let ?s = "company_panel.run es no_refresh"
  have p: "p < length (promises ?s)" "promises ?s ! p = Pending tok"
    using assms by (simp_all add: waiting_token_Some)
  have "company_refresh tok ?s = (p, ?s)" by (rule company_panel.ask_shares [OF assms])
  with p show ?thesis
    by (simp add: company_settle_def settle_def Let_def company_refresh_def refresh_access_token_def)
qed

theorem refresh_shared_and_released_witness:
  "company_refresh ''r1'' (company_panel.run [Ask ''r1''] no_refresh) =
     (0, company_panel.run [Ask ''r1''] no_refresh)"
proof -
  have "waiting_token (company_panel.run [Ask ''r1''] no_refresh) 0 = Some ''r1''"
    unfolding company_panel.run.simps
    by (simp add: company_refresh_def refresh_access_token_def no_refresh_def waiting_token_def Let_def)
  from conjunct1 [OF refresh_shared_and_released [OF this, of 0 "Inr JNull"]] show ?thesis .
qed

section \<open>The jwt callback\<close>

type_synonym claims = "(string \<times> jsval) list"

text \<open>The claims after a sign-in, per panel; \<open>user\<close> is what \<open>authorize\<close> returned.\<close>

definition company_user_claims :: "jsval \<Rightarrow> jsval" where
  "company_user_claims u =
     JObj [(''id'', jget u ''id''), (''email'', jget u ''email''),
       (''first_name'', jget u ''first_name''), (''last_name'', jget u ''last_name''),
       (''full_name'', jget u ''full_name''), (''role'', jget u ''role''),
       (''org_id'', jget u ''org_id''),
       (''org_name'', or_nullish (jget (jget u ''org'') ''name'') JNull),
       (''permissions'', or_nullish (jget u ''permissions'') (JArr [])),
       (''team_ids'', or_nullish (jget u ''team_ids'') (JArr []))]"

definition company_sign_in_claims :: "claims \<Rightarrow> jsval \<Rightarrow> claims" where
  "company_sign_in_claims token u =
     obj_spread token (JObj
       [(''accessToken'', jget u ''accessToken''), (''refreshToken'', jget u ''refreshToken''),
        (''accessTokenExpires'', jget u ''accessTokenExpires''), (''user'', company_user_claims u)])"

definition superadmin_sign_in_claims :: "int \<Rightarrow> claims \<Rightarrow> jsval \<Rightarrow> claims" where
  "superadmin_sign_in_claims now token u =
     obj_put (obj_spread token u) ''accessTokenExpires'' (JNum (now + 15 * 60 * 1000))"

definition portal_user_claims :: "jsval \<Rightarrow> jsval" where
  "portal_user_claims u =
     JObj [(''id'', jget u ''id''), (''email'', jget u ''email''),
       (''first_name'', jget u ''first_name''), (''last_name'', jget u ''last_name''),
       (''full_name'', jget u ''full_name''), (''department'', jget u ''department''),
       (''job_title'', jget u ''job_title''), (''org_id'', jget u ''org_id''),
       (''device_count'', jget u ''device_count'')]"

definition portal_sign_in_claims :: "claims \<Rightarrow> jsval \<Rightarrow> claims" where
  "portal_sign_in_claims token u =
     obj_spread token (JObj
       [(''accessToken'', jget u ''accessToken''), (''refreshToken'', jget u ''refreshToken''),
        (''accessTokenExpires'', jget u ''accessTokenExpires''), (''user'', portal_user_claims u)])"

text \<open>On every later request: keep the claims, fail, or refresh with the token named.\<close>

datatype jwt_decision = Keep | Fail | Refresh jsval

definition jwt_decide :: "int \<Rightarrow> claims \<Rightarrow> jwt_decision" where
  "jwt_decide now token =
     (let expires_at = js_to_number (or_nullish (jget (JObj token) ''accessTokenExpires'') (JNum 0))
      in if (case expires_at of Some e \<Rightarrow> e > 0 \<and> now < e - 60000 | None \<Rightarrow> False) then Keep
         else if \<not> truthy (jget (JObj token) ''refreshToken'') then Fail
         else Refresh (jget (JObj token) ''refreshToken''))"

definition refresh_failed :: "claims \<Rightarrow> claims" where
  "refresh_failed token = obj_put token ''error'' (JStr ''RefreshTokenError'')"

definition refresh_done :: "claims \<Rightarrow> refresh_result \<Rightarrow> claims" where
  "refresh_done token r =
     obj_spread token (JObj
       [(''accessToken'', res_access r), (''refreshToken'', res_refresh r),
        (''accessTokenExpires'', res_expires r), (''error'', JUndef)])"

text \<open>
  A run of the callback without a user: \<open>now\<close> is the time of the decision, and
  \<open>reply\<close> what the shared promise for the refresh token settles to.
\<close>

definition jwt_request ::
  "int \<Rightarrow> (string \<Rightarrow> exn + refresh_result) \<Rightarrow> claims \<Rightarrow> claims" where
  "jwt_request now reply token =
     (case jwt_decide now token of
        Keep \<Rightarrow> token
      | Fail \<Rightarrow> refresh_failed token
      | Refresh t \<Rightarrow>
          (case reply (js_to_string t) of
             Inr r \<Rightarrow> refresh_done token r
           | Inl e \<Rightarrow> refresh_failed token))"

definition company_session :: "claims \<Rightarrow> claims \<Rightarrow> claims" where
  "company_session session token =
     obj_spread session (JObj
       [(''accessToken'', jget (JObj token) ''accessToken''),
        (''refreshToken'', jget (JObj token) ''refreshToken''),
        (''error'', jget (JObj token) ''error''), (''user'', jget (JObj token) ''user'')])"

definition superadmin_session_view :: "claims \<Rightarrow> claims \<Rightarrow> claims" where
  "superadmin_session_view session token =
     obj_spread session (JObj
       [(''accessToken'', jget (JObj token) ''accessToken''),
        (''refreshToken'', jget (JObj token) ''refreshToken''),
        (''user'', or_falsy (jget (JObj token) ''user'') (jget (JObj session) ''user'')),
        (''role'', jget (JObj token) ''role''), (''error'', jget (JObj token) ''error'')])"

definition portal_session :: "claims \<Rightarrow> claims \<Rightarrow> claims" where
  "portal_session session token =
     obj_spread session (JObj
       [(''accessToken'', jget (JObj token) ''accessToken''),
        (''error'', jget (JObj token) ''error''), (''user'', jget (JObj token) ''user'')])"

lemma jget_spread_literal [simp]:
  "distinct (map fst qs) \<Longrightarrow>
   jget (JObj (obj_spread ps (JObj qs))) k =
     (case map_of qs k of Some v \<Rightarrow> v | None \<Rightarrow> jget (JObj ps) k)"
  by (rule jget_obj_spread)

text \<open>
  one run of the \<open>jwt\<close> callback on every branch. More than a minute before the access
  token expires nothing changes and nothing is sent. Otherwise, without a refresh token or
  when the refresh fails, only the claim \<open>error\<close> changes, to \<open>RefreshTokenError\<close>; when it
  succeeds the two tokens and the expiry are those of the answer and \<open>error\<close> is cleared.
\<close>

theorem jwt_request_branches:
  "jget (JObj (jwt_request now reply token)) k =
     (let old = jget (JObj token) k;
          failed = (if k = ''error'' then JStr ''RefreshTokenError'' else old)
      in if (case js_to_number (or_nullish (jget (JObj token) ''accessTokenExpires'') (JNum 0)) of
               Some e \<Rightarrow> e > 0 \<and> now < e - 60000 | None \<Rightarrow> False) then old
         else if \<not> truthy (jget (JObj token) ''refreshToken'') then failed
         else (case reply (js_to_string (jget (JObj token) ''refreshToken'')) of
                 Inl e \<Rightarrow> failed
               | Inr r \<Rightarrow>
                   if k = ''accessToken'' then res_access r
                   else if k = ''refreshToken'' then res_refresh r
                   else if k = ''accessTokenExpires'' then res_expires r
                   else if k = ''error'' then JUndef
                   else old))"
  by (simp add: jwt_request_def jwt_decide_def Let_def refresh_failed_def refresh_done_def
      del: jget.simps split: sum.split option.split)

lemma jwt_request_other:
  "k \<notin> {''error'', ''accessToken'', ''refreshToken'', ''accessTokenExpires''} \<Longrightarrow>
   jget (JObj (jwt_request now reply token)) k = jget (JObj token) k"
  by (simp add: jwt_request_def refresh_failed_def refresh_done_def
      del: jget.simps split: jwt_decision.split sum.split)

definition jwt_requests ::
  "(int \<times> (string \<Rightarrow> exn + refresh_result)) list \<Rightarrow> claims \<Rightarrow> claims" where
  "jwt_requests rs token = foldl (\<lambda>t (now, reply). jwt_request now reply t) token rs"

lemma jwt_requests_other:
  "k \<notin> {''error'', ''accessToken'', ''refreshToken'', ''accessTokenExpires''} \<Longrightarrow>
   jget (JObj (jwt_requests rs token)) k = jget (JObj token) k"
  by (induction rs arbitrary: token)
     (auto simp: jwt_requests_def jwt_request_other simp del: jget.simps)

text \<open>
  the identity shown to the pages is the one of the sign-in: after any sequence of
  requests, at any times and with any outcomes of their refreshes, the session of the
  company dashboard and of the portal carries the user (with the role, permissions and
  teams) that signed in.
\<close>

theorem session_user_fixed:
  "jget (JObj (company_session s (jwt_requests rs (company_sign_in_claims token u)))) ''user'' =
     company_user_claims u \<and>
   jget (JObj (portal_session s (jwt_requests rs (portal_sign_in_claims token u)))) ''user'' =
     portal_user_claims u"
  by (simp add: company_session_def portal_session_def jwt_requests_other
      company_sign_in_claims_def portal_sign_in_claims_def del: jget.simps)

text \<open>
  end to end, a session of the superadmin panel always shows the role \<open>superadmin\<close>:
  whatever the API answers at sign-in and to every later refresh, if the sign-in yields a
  user at all then each session derived from it has that role.
\<close>

theorem superadmin_panel_role:
  assumes "superadmin_authorize srv creds h = (Inr u, h')" "u \<noteq> JNull"
  shows "jget (JObj (superadmin_session_view s
      (jwt_requests rs (superadmin_sign_in_claims now token u)))) ''role'' = JStr ''superadmin''"
proof -
  obtain c where c: "superadmin_attempt srv c h = (Inr u, h')"
    using assms
    by (auto simp: superadmin_authorize_def io_eval split: option.splits if_splits sum.splits prod.splits)
  then obtain d h1 where d: "superadmin_or_null d h1 = (Inr u, h')"
    using assms(2)
    by (fastforce simp: superadmin_attempt_def io_eval Let_def split: sum.splits if_splits)
  then have role: "jget u ''role'' = JStr ''superadmin''"
    using superadmin_or_null_role [OF d assms(2)] by simp
  obtain ps where ps: "u = JObj ps" "distinct (map fst ps)"
    using d assms(2)
    by (auto simp: superadmin_or_null_def superadmin_session_def split: sum.splits if_splits)
  have "jget (JObj (superadmin_sign_in_claims now token u)) ''role'' = JStr ''superadmin''"
    using role ps
    by (auto simp: superadmin_sign_in_claims_def jget_obj_spread simp del: jget.simps
        split: option.splits) (simp_all split: option.splits)
  then show ?thesis
    by (simp add: superadmin_session_view_def jwt_requests_other del: jget.simps)
qed

theorem superadmin_panel_role_witness:
  "\<exists>u h'. superadmin_authorize (\<lambda>h x. Inr granting_answer) (Some sample_credentials) [] = (Inr u, h') \<and>
     jget (JObj (superadmin_session_view [] (jwt_requests [(5000000, \<lambda>_. Inl (js_error []))]
       (superadmin_sign_in_claims 0 [] u)))) ''role'' = JStr ''superadmin''"
proof -
  let ?r = "superadmin_authorize (\<lambda>h x. Inr granting_answer) (Some sample_credentials) []"
  have "(case fst ?r of Inr u \<Rightarrow> u \<noteq> JNull | Inl e \<Rightarrow> False)" by code_simp
  then obtain u h' where r: "?r = (Inr u, h')" "u \<noteq> JNull" by (cases ?r) (auto split: sum.splits)
  with superadmin_panel_role [OF r] show ?thesis by blast
qed

end
