(* ===== verification/Api_Client.thy ===== *)
theory Api_Client
  imports Prelude
begin

text \<open>
  The axios clients of the three panels (\<^verbatim>\<open>createApiClient\<close> in each \<^verbatim>\<open>lib/api.ts\<close>): the
  request interceptor that adds the session's token and the response interceptor that
  retries a request refused with 401 or signs the user out. The network and next-auth are
  functions of everything that happened before.
\<close>

record request =
  req_method :: string
  req_url :: string
  req_body :: jsval
  req_headers :: "(string \<times> string) list"
  req_retry :: bool

text \<open>
  A failed request: the status and body of the response, if there was one, and whether the
  error carries the configuration of its request.
\<close>

record failure =
  f_status :: "int option"
  f_data :: jsval
  f_config :: bool

type_synonym outcome = "failure + jsval"

datatype effect = Read_Session | Sent request | Sign_Out | Banner

text \<open>What the browser provides: a session and an answer for each moment.\<close>

record world =
  w_session :: "effect list \<Rightarrow> jsval"
  w_net :: "effect list \<Rightarrow> request \<Rightarrow> outcome"
  w_browser :: bool
  w_demo :: bool
  w_resolve_demo :: "request \<Rightarrow> jsval"

definition header :: "request \<Rightarrow> string \<Rightarrow> string" where
  "header rq k = (case map_of (req_headers rq) k of None \<Rightarrow> [] | Some v \<Rightarrow> v)"

definition set_header :: "request \<Rightarrow> string \<Rightarrow> string \<Rightarrow> request" where
  "set_header rq k v = rq\<lparr>req_headers := obj_put (req_headers rq) k v\<rparr>"

definition bearer :: "jsval \<Rightarrow> string" where
  "bearer token = ''Bearer '' @ js_to_string token"

section \<open>Company dashboard\<close>

definition company_attach :: "world \<Rightarrow> request \<Rightarrow> effect list \<Rightarrow> request \<times> effect list" where
  "company_attach w rq h =
     (if header rq ''Authorization'' = []
      then
        (let session = w_session w h;
             token = jget session ''accessToken'';
             org = jget (jget session ''user'') ''org_id'';
             rq1 = (if truthy token then set_header rq ''Authorization'' (bearer token) else rq);
             rq2 = (if truthy org then set_header rq1 ''x-org-id'' (js_to_string org) else rq1)
         in (rq2, h @ [Read_Session]))
      else (rq, h))"

text \<open>One pass through the request interceptor and the network.\<close>

definition company_once :: "world \<Rightarrow> request \<Rightarrow> effect list \<Rightarrow> outcome \<times> effect list" where
  "company_once w rq h =
     (if w_demo w then (Inr (w_resolve_demo w rq), h)
      else
        (let (rq', h1) = company_attach w rq h
         in (case w_net w h1 rq' of
               Inr d \<Rightarrow> (Inr d, h1 @ [Sent rq'])
             | Inl f \<Rightarrow>
                 (Inl f, h1 @ [Sent rq'] @
                    (if f_status f = Some 503 \<and> jget (f_data f) ''code'' = JStr ''data_store_unavailable'' \<and>
                        w_browser w
                     then [Banner] else [])))))"

text \<open>The request that failed, as the interceptor sees it: with the headers that were added.\<close>

definition company_original :: "world \<Rightarrow> request \<Rightarrow> effect list \<Rightarrow> request" where
  "company_original w rq h = fst (company_attach w rq h)"

text \<open>
  After a 401: the request to send again with the session's token, or none after signing
  out.
\<close>

definition renew :: "world \<Rightarrow> request \<Rightarrow> effect list \<Rightarrow> request option \<times> effect list" where
  "renew w rq h =
     (let session = w_session w h; token = jget session ''accessToken''
      in if truthy token \<and> \<not> truthy (jget session ''error'')
           then (Some (set_header (rq\<lparr>req_retry := True\<rparr>) ''Authorization'' (bearer token)),
                 h @ [Read_Session])
         else (None, h @ [Read_Session, Sign_Out]))"

definition retryable :: "request \<Rightarrow> outcome \<Rightarrow> bool" where
  "retryable rq r =
     (case r of Inl f \<Rightarrow> f_status f = Some 401 \<and> f_config f \<and> \<not> req_retry rq | Inr _ \<Rightarrow> False)"

function company_client :: "world \<Rightarrow> request \<Rightarrow> effect list \<Rightarrow> outcome \<times> effect list" where
  "company_client w rq h =
     (case company_once w rq h of
        (r, h1) \<Rightarrow>
          if retryable rq r
          then (case renew w (company_original w rq h) h1 of
                  (Some rq', h2) \<Rightarrow> company_client w rq' h2
                | (None, h2) \<Rightarrow> (r, h2))
          else (r, h1))"
  by pat_completeness auto
termination
  by (relation "measure (\<lambda>(w, rq, h). if req_retry rq then 0 else 1)")
     (auto simp: retryable_def renew_def set_header_def Let_def split: sum.splits if_splits)

declare company_client.simps [simp del]

section \<open>Superadmin and employee portal\<close>

definition superadmin_attach :: "world \<Rightarrow> request \<Rightarrow> effect list \<Rightarrow> request \<times> effect list" where
  "superadmin_attach w rq h =
     (if header rq ''Authorization'' = []
      then
        (let token = jget (w_session w h) ''accessToken''
         in (if truthy token then set_header rq ''Authorization'' (bearer token) else rq,
             h @ [Read_Session]))
      else (rq, h))"

definition superadmin_once :: "world \<Rightarrow> request \<Rightarrow> effect list \<Rightarrow> outcome \<times> effect list" where
  "superadmin_once w rq h =
     (let (rq', h1) = superadmin_attach w rq h in (w_net w h1 rq', h1 @ [Sent rq']))"

definition superadmin_original :: "world \<Rightarrow> request \<Rightarrow> effect list \<Rightarrow> request" where
  "superadmin_original w rq h = fst (superadmin_attach w rq h)"

function superadmin_client :: "world \<Rightarrow> request \<Rightarrow> effect list \<Rightarrow> outcome \<times> effect list" where
  "superadmin_client w rq h =
     (case superadmin_once w rq h of
        (r, h1) \<Rightarrow>
          if retryable rq r
          then (case renew w (superadmin_original w rq h) h1 of
                  (Some rq', h2) \<Rightarrow> superadmin_client w rq' h2
                | (None, h2) \<Rightarrow> (r, h2))
          else (r, h1))"
  by pat_completeness auto
termination
  by (relation "measure (\<lambda>(w, rq, h). if req_retry rq then 0 else 1)")
     (auto simp: retryable_def renew_def set_header_def Let_def split: sum.splits if_splits)

declare superadmin_client.simps [simp del]

text \<open>The client created for a given token starts with its header in place.\<close>

definition superadmin_request :: "string option \<Rightarrow> request \<Rightarrow> request" where
  "superadmin_request token rq =
     (case token of
        Some t \<Rightarrow> (if t = [] then rq else set_header rq ''Authorization'' (''Bearer '' @ t))
      | None \<Rightarrow> rq)"

definition portal_attach :: "world \<Rightarrow> request \<Rightarrow> effect list \<Rightarrow> request \<times> effect list" where
  "portal_attach w rq h =
     (if header rq ''Authorization'' = []
      then
        (let token = jget (w_session w h) ''accessToken''
         in (if truthy token then set_header rq ''Authorization'' (bearer token) else rq,
             h @ [Read_Session]))
      else (rq, h))"

definition portal_client :: "world \<Rightarrow> request \<Rightarrow> effect list \<Rightarrow> outcome \<times> effect list" where
  "portal_client w rq h =
     (if w_demo w then (Inr (w_resolve_demo w rq), h)
      else
        (let (rq', h1) = portal_attach w rq h; r = w_net w h1 rq'
         in (r, h1 @ [Sent rq'] @
               (case r of Inl f \<Rightarrow> (if f_status f = Some 401 then [Sign_Out] else []) | Inr _ \<Rightarrow> []))))"

section \<open>A client that retries once\<close>

definition is_sent :: "effect \<Rightarrow> bool" where
  "is_sent e = (case e of Sent _ \<Rightarrow> True | _ \<Rightarrow> False)"

definition sent_requests :: "effect list \<Rightarrow> request list" where
  "sent_requests h = concat (map (\<lambda>e. case e of Sent rq \<Rightarrow> [rq] | _ \<Rightarrow> []) h)"

definition sign_outs :: "effect list \<Rightarrow> nat" where
  "sign_outs h = length (filter (\<lambda>e. e = Sign_Out) h)"

lemma sent_requests_simps [simp]:
  "sent_requests [] = []" "sent_requests (a @ b) = sent_requests a @ sent_requests b"
  "sent_requests (Sent rq # h) = rq # sent_requests h"
  "sent_requests (Read_Session # h) = sent_requests h"
  "sent_requests (Sign_Out # h) = sent_requests h"
  "sent_requests (Banner # h) = sent_requests h"
  by (simp_all add: sent_requests_def)

lemma sign_outs_simps [simp]:
  "sign_outs [] = 0" "sign_outs (a @ b) = sign_outs a + sign_outs b"
  "sign_outs (Sent rq # h) = sign_outs h" "sign_outs (Read_Session # h) = sign_outs h"
  "sign_outs (Sign_Out # h) = Suc (sign_outs h)" "sign_outs (Banner # h) = sign_outs h"
  by (simp_all add: sign_outs_def)

text \<open>
  What the two retrying clients share: one pass sends at most one request and signs nobody
  out, and the client is one pass, followed after a 401 by a renewal of the request.
\<close>

locale retry_once =
  fixes client :: "world \<Rightarrow> request \<Rightarrow> effect list \<Rightarrow> outcome \<times> effect list"
    and once :: "world \<Rightarrow> request \<Rightarrow> effect list \<Rightarrow> outcome \<times> effect list"
    and original :: "world \<Rightarrow> request \<Rightarrow> effect list \<Rightarrow> request"
  assumes once_effects:
      "\<exists>es. snd (once w rq h) = h @ es \<and> length (sent_requests es) \<le> 1 \<and> sign_outs es = 0"
    and client_step:
      "client w rq h =
         (case once w rq h of
            (r, h1) \<Rightarrow>
              if retryable rq r
              then (case renew w (original w rq h) h1 of
                      (Some rq', h2) \<Rightarrow> client w rq' h2 | (None, h2) \<Rightarrow> (r, h2))
              else (r, h1))"
begin

lemma renew_retry: "renew w rq h = (Some rq', h') \<Longrightarrow> req_retry rq' \<and> h' = h @ [Read_Session]"
  by (auto simp: renew_def Let_def set_header_def split: if_splits)

lemma renew_out: "renew w rq h = (None, h') \<Longrightarrow> h' = h @ [Read_Session, Sign_Out]"
  by (auto simp: renew_def Let_def split: if_splits)

lemma client_retried: "req_retry rq \<Longrightarrow> client w rq h = once w rq h"
  by (subst client_step) (auto simp: retryable_def split: prod.splits sum.splits)

text \<open>At most two sends; signed out at most once, and then nothing is sent again.\<close>

lemma client_bounded:
  "\<exists>es. snd (client w rq h) = h @ es \<and> length (sent_requests es) \<le> 2 \<and> sign_outs es \<le> 1 \<and>
     (if sign_outs es = 1 then length (sent_requests es) \<le> 1 else True)"
proof -
  obtain es where es: "snd (once w rq h) = h @ es" "length (sent_requests es) \<le> 1" "sign_outs es = 0"
    using once_effects by blast
  obtain r where once: "once w rq h = (r, h @ es)" using es by (cases "once w rq h") auto
  show ?thesis
  proof (cases "retryable rq r")
    case False
    with once es show ?thesis by (subst client_step) auto
  next
    case True
    obtain o1 h2 where rn: "renew w (original w rq h) (h @ es) = (o1, h2)" by fastforce
    show ?thesis
    proof (cases o1)
      case None
      then have "h2 = h @ es @ [Read_Session, Sign_Out]" using renew_out rn by fastforce
      with once True es rn None show ?thesis by (subst client_step) auto
    next
      case (Some rq')
      have h2: "h2 = h @ es @ [Read_Session]" "req_retry rq'"
        using renew_retry [of w "original w rq h" "h @ es" rq' h2] rn Some by simp_all
      obtain es2 where es2: "snd (once w rq' h2) = h2 @ es2" "length (sent_requests es2) \<le> 1"
          "sign_outs es2 = 0" using once_effects by blast
      have "client w rq h = once w rq' h2"
        using once True rn Some by (subst client_step) (simp add: client_retried h2(2))
      then show ?thesis using es es2 h2 by auto
    qed
  qed
qed

text \<open>A refused request is answered by a second one exactly when the session is still good.\<close>

lemma client_refused:
  assumes "once w rq h = (Inl f, h1)" "f_status f = Some 401" "f_config f" "\<not> req_retry rq"
  shows "client w rq h =
    (let session = w_session w h1; token = jget session ''accessToken''
     in if truthy token \<and> \<not> truthy (jget session ''error'')
        then once w (set_header ((original w rq h)\<lparr>req_retry := True\<rparr>) ''Authorization'' (bearer token))
               (h1 @ [Read_Session])
        else (Inl f, h1 @ [Read_Session, Sign_Out]))"
  using assms
  by (subst client_step) (simp add: retryable_def renew_def Let_def client_retried set_header_def)

end

lemma company_once_effects:
  "\<exists>es. snd (company_once w rq h) = h @ es \<and> length (sent_requests es) \<le> 1 \<and> sign_outs es = 0"
  by (cases "w_net w (snd (company_attach w rq h)) (fst (company_attach w rq h))")
     (auto simp: company_once_def company_attach_def Let_def split: if_splits)

lemma superadmin_once_effects:
  "\<exists>es. snd (superadmin_once w rq h) = h @ es \<and> length (sent_requests es) \<le> 1 \<and> sign_outs es = 0"
  by (auto simp: superadmin_once_def superadmin_attach_def Let_def)

interpretation company_api: retry_once company_client company_once company_original
  by unfold_locales (rule company_once_effects, rule company_client.simps)

interpretation superadmin_api: retry_once superadmin_client superadmin_once superadmin_original
  by unfold_locales (rule superadmin_once_effects, rule superadmin_client.simps)

text \<open>
  C24: one call through the client of the company dashboard or the superadmin panel sends at
  most two requests and signs the user out at most once, and after signing out nothing more
  is sent for the call; this holds for every network and however the session changes.
\<close>

theorem api_call_bounded:
  "(\<exists>es. snd (company_client w rq h) = h @ es \<and> length (sent_requests es) \<le> 2 \<and> sign_outs es \<le> 1 \<and>
      (if sign_outs es = 1 then length (sent_requests es) \<le> 1 else True)) \<and>
   (\<exists>es. snd (superadmin_client w rq h) = h @ es \<and> length (sent_requests es) \<le> 2 \<and> sign_outs es \<le> 1 \<and>
      (if sign_outs es = 1 then length (sent_requests es) \<le> 1 else True))"
  using company_api.client_bounded superadmin_api.client_bounded by blast

text \<open>
  a request of the company dashboard that is refused with 401 is sent again with the
  bearer token of the session read after the refusal, and otherwise unchanged, exactly when
  that session has a token and no error; if not, the user is signed out and the call fails
  with the refusal.
\<close>

theorem company_retry_uses_new_token:
  assumes "\<not> w_demo w" "\<not> req_retry rq" "w_net w (snd (company_attach w rq h)) (fst (company_attach w rq h)) = Inl f"
    "f_status f = Some 401" "f_config f"
  shows "company_client w rq h =
    (let (rq', h') = company_attach w rq h; h1 = h' @ [Sent rq'];
         session = w_session w h1; token = jget session ''accessToken''
     in if truthy token \<and> \<not> truthy (jget session ''error'')
        then company_once w (set_header (rq'\<lparr>req_retry := True\<rparr>) ''Authorization'' (bearer token))
               (h1 @ [Read_Session])
        else (Inl f, h1 @ [Read_Session, Sign_Out]))"
proof -
  have "company_once w rq h = (Inl f, snd (company_attach w rq h) @ [Sent (fst (company_attach w rq h))])"
    using assms by (simp add: company_once_def split_beta Let_def)
  from company_api.client_refused [OF this assms(4,5,2)] show ?thesis
    by (simp add: company_original_def split_beta Let_def)
qed

text \<open>A world whose session is renewed between the first send and the second.\<close>

definition renewing_world :: world where
  "renewing_world =
     \<lparr>w_session = (\<lambda>h. JObj [(''accessToken'', if sent_requests h = [] then JStr ''old'' else JStr ''new'')]),
      w_net = (\<lambda>h rq. if header rq ''Authorization'' = ''Bearer new'' then Inr (JStr ''ok'')
                      else Inl \<lparr>f_status = Some 401, f_data = JUndef, f_config = True\<rparr>),
      w_browser = True, w_demo = False, w_resolve_demo = (\<lambda>_. JNull)\<rparr>"

definition sample_request :: request where
  "sample_request =
     \<lparr>req_method = ''get'', req_url = ''/api/v1/users'', req_body = JUndef, req_headers = [], req_retry = False\<rparr>"

theorem company_retry_uses_new_token_witness:
  "fst (company_client renewing_world sample_request []) = Inr (JStr ''ok'')"
proof -
  let ?f = "\<lparr>f_status = Some 401, f_data = JUndef, f_config = True\<rparr>"
  have "w_net renewing_world (snd (company_attach renewing_world sample_request []))
      (fst (company_attach renewing_world sample_request [])) = Inl ?f"
    by (simp add: renewing_world_def sample_request_def company_attach_def header_def set_header_def
        bearer_def Let_def)
  from company_retry_uses_new_token [OF _ _ this] show ?thesis
    by (simp add: renewing_world_def sample_request_def company_attach_def company_once_def header_def
        set_header_def bearer_def Let_def)
qed

text \<open>
  in a demonstration build a call of the company dashboard or the portal never reads
  the session, never reaches the network and always succeeds with the canned answer; outside
  it the portal sends exactly one request and signs out exactly when that is refused with 401.
\<close>

theorem demo_and_portal_calls:
  "(if w_demo w
    then company_client w rq h = (Inr (w_resolve_demo w rq), h) \<and>
         portal_client w rq h = (Inr (w_resolve_demo w rq), h)
    else (\<exists>es. snd (portal_client w rq h) = h @ es \<and> length (sent_requests es) = 1 \<and>
            sign_outs es = (case fst (portal_client w rq h) of
                              Inl f \<Rightarrow> (if f_status f = Some 401 then 1 else 0) | Inr _ \<Rightarrow> 0)))"
proof (cases "w_demo w")
  case True
  have "company_once w rq h = (Inr (w_resolve_demo w rq), h)" using True by (simp add: company_once_def)
  then show ?thesis
    using True by (subst company_client.simps) (simp add: retryable_def portal_client_def)
next
  case False
  then show ?thesis
    by (auto simp: portal_client_def portal_attach_def Let_def split: sum.splits)
qed

text \<open>
  when the request is refused again after its retry, the superadmin client fails
  without signing out, although the comment on the interceptor says that it then signs out.
\<close>

theorem superadmin_second_refusal_keeps_session:
  assumes "\<And>hist rq. w_net w hist rq = Inl \<lparr>f_status = Some 401, f_data = d, f_config = True\<rparr>"
    "\<And>hist. w_session w hist = JObj [(''accessToken'', JStr (CHR ''t'' # t))]" "\<not> req_retry rq"
  shows "\<exists>es. superadmin_client w rq h = (Inl \<lparr>f_status = Some 401, f_data = d, f_config = True\<rparr>, h @ es) \<and>
    length (sent_requests es) = 2 \<and> sign_outs es = 0"
proof -
  obtain rq' h' where a: "superadmin_attach w rq h = (rq', h')" by fastforce
  have "superadmin_once w rq h = (Inl \<lparr>f_status = Some 401, f_data = d, f_config = True\<rparr>, h' @ [Sent rq'])"
    using a assms(1) by (simp add: superadmin_once_def)
  from superadmin_api.client_refused [OF this _ _ assms(3)] show ?thesis
    using a assms(1,2)
    by (auto simp: Let_def superadmin_once_def superadmin_attach_def superadmin_original_def
        split: if_splits)
qed

theorem superadmin_second_refusal_witness:
  "\<exists>es. superadmin_client
      \<lparr>w_session = (\<lambda>_. JObj [(''accessToken'', JStr ''t1'')]),
       w_net = (\<lambda>_ _. Inl \<lparr>f_status = Some 401, f_data = JUndef, f_config = True\<rparr>),
       w_browser = True, w_demo = False, w_resolve_demo = (\<lambda>_. JNull)\<rparr> sample_request [] =
     (Inl \<lparr>f_status = Some 401, f_data = JUndef, f_config = True\<rparr>, [] @ es) \<and>
    length (sent_requests es) = 2 \<and> sign_outs es = 0"
  by (rule superadmin_second_refusal_keeps_session [where t = "''1''"]) (simp_all add: sample_request_def)

end
