(* ===== verification/Stream_Chat.thy ===== *)
theory Stream_Chat
  imports Prelude
begin

text \<open>
  The streamed replies of the AI service (\<^verbatim>\<open>streamChat\<close> in the company dashboard's
  \<^verbatim>\<open>lib/api.ts\<close>): the request that is sent, the failures reported before the stream starts,
  and the loop that cuts the decoded chunks into lines and yields the values of the data
  lines. \<open>json\<close> is \<open>JSON.parse\<close>, None where it throws; a chunk is the text the decoder
  returns for it.
\<close>

section \<open>The request\<close>

record chat_turn =
  turn_role :: string
  turn_content :: string

record chat_opts =
  opt_access_token :: string
  opt_org_id :: string
  opt_org_name :: "string option"
  opt_tz :: "string option"

definition or_empty :: "string option \<Rightarrow> string \<Rightarrow> string" where
  "or_empty v d = (case v of None \<Rightarrow> d | Some s \<Rightarrow> if s = [] then d else s)"

definition turn_value :: "chat_turn \<Rightarrow> jsval" where
  "turn_value t = JObj [(''role'', JStr (turn_role t)), (''content'', JStr (turn_content t))]"

definition chat_headers :: "chat_opts \<Rightarrow> (string \<times> string) list" where
  "chat_headers o1 =
     [(''Content-Type'', ''application/json''),
      (''Authorization'', ''Bearer '' @ opt_access_token o1), (''x-org-id'', opt_org_id o1)]"

definition chat_body :: "chat_turn list \<Rightarrow> chat_opts \<Rightarrow> (string \<times> jsval) list" where
  "chat_body ms o1 =
     [(''messages'', JArr (map turn_value ms)), (''agent_mode'', JBool True),
      (''org_name'', JStr (or_empty (opt_org_name o1) ''Your organization'')),
      (''tz'', JStr (or_empty (opt_tz o1) ''UTC''))]"

section \<open>The stream\<close>

definition line_feed :: char where
  "line_feed = CHR 0x0A"

text \<open>The lines of one chunk: the values yielded and whether \<open>[DONE]\<close> was met.\<close>

fun chat_lines :: "(string \<Rightarrow> jsval option) \<Rightarrow> string list \<Rightarrow> jsval list \<times> bool" where
  "chat_lines json [] = ([], False)"
| "chat_lines json (l # ls) =
     (if starts_with l ''data: ''
      then
        (let raw = trim (drop 6 l)
         in if raw = ''[DONE]'' then ([], True)
            else
              (case json raw of
                 Some v \<Rightarrow> (let (vs, d) = chat_lines json ls in (v # vs, d))
               | None \<Rightarrow> chat_lines json ls))
      else chat_lines json ls)"

text \<open>How the generator ends: the stream was done, \<open>[DONE]\<close> came, or reading failed.\<close>

datatype chat_end = Stream_Done | Done_Marker | Stream_Failed exn

text \<open>\<open>rest\<close> is the buffer; after the chunks, reading reports \<open>fin\<close>.\<close>

fun chat_loop ::
  "(string \<Rightarrow> jsval option) \<Rightarrow> string \<Rightarrow> string list \<Rightarrow> chat_end \<Rightarrow> jsval list \<times> chat_end" where
  "chat_loop json rest [] fin = ([], fin)"
| "chat_loop json rest (c # cs) fin =
     (let parts = split_on line_feed (rest @ c);
          (vs, d) = chat_lines json (butlast parts)
      in if d then (vs, Done_Marker)
         else (let (ws, e) = chat_loop json (last parts) cs fin in (vs @ ws, e)))"

record chat_response =
  resp_ok :: bool
  resp_status :: nat
  resp_text :: "string option"
  resp_body :: "(string list \<times> chat_end) option"

definition stream_chat :: "(string \<Rightarrow> jsval option) \<Rightarrow> chat_response \<Rightarrow> jsval list \<times> chat_end" where
  "stream_chat json r =
     (if \<not> resp_ok r
      then ([], Stream_Failed (js_error
             (''AI request failed ('' @ show_nat (resp_status r) @ ''): '' @
              take 200 (case resp_text r of None \<Rightarrow> [] | Some t \<Rightarrow> t))))
      else
        (case resp_body r of
           None \<Rightarrow> ([], Stream_Failed (js_error ''No response body''))
         | Some (chunks, fin) \<Rightarrow> chat_loop json [] chunks fin))"

section \<open>Chunks do not matter\<close>

lemma chat_lines_append:
  "chat_lines json (as @ bs) =
     (let (vs, d) = chat_lines json as
      in if d then (vs, True) else (let (ws, e) = chat_lines json bs in (vs @ ws, e)))"
  by (induction as) (auto simp: Let_def split: prod.splits option.splits)

lemma butlast_split_append:
  "butlast (split_on c (s @ t)) =
     butlast (split_on c s) @ butlast (split_on c (last (split_on c s) @ t))"
proof -
  have no: "c \<notin> set (last (split_on c s))" by (rule split_on_no_sep_inside [of _ c s]) simp
  have one: "split_on c (last (split_on c s)) = [last (split_on c s)]" by (rule split_on_no_sep [OF no])
  let ?m = "(last (split_on c s) @ hd (split_on c t)) # tl (split_on c t)"
  have st: "split_on c (s @ t) = butlast (split_on c s) @ ?m" by (rule split_on_append)
  moreover have "split_on c (last (split_on c s) @ t) = ?m"
    using split_on_append [of c "last (split_on c s)" t] one by simp
  ultimately show ?thesis by (simp add: butlast_append)
qed

lemma last_split_append:
  "last (split_on c (last (split_on c s) @ t)) = last (split_on c (s @ t))"
proof -
  have no: "c \<notin> set (last (split_on c s))" by (rule split_on_no_sep_inside [of _ c s]) simp
  have one: "split_on c (last (split_on c s)) = [last (split_on c s)]" by (rule split_on_no_sep [OF no])
  show ?thesis
    using split_on_append [of c s t] split_on_append [of c "last (split_on c s)" t] one by simp
qed

lemma chat_loop_text:
  "line_feed \<notin> set rest \<Longrightarrow>
   chat_loop json rest chunks fin =
     (let (vs, d) = chat_lines json (butlast (split_on line_feed (rest @ concat chunks)))
      in (vs, if d then Done_Marker else fin))"
proof (induction chunks arbitrary: rest)
  case Nil
  then show ?case by (simp add: split_on_no_sep)
next
  case (Cons c cs)
  let ?parts = "split_on line_feed (rest @ c)"
  have no: "line_feed \<notin> set (last ?parts)" by (rule split_on_no_sep_inside [of _ line_feed "rest @ c"]) simp
  have "butlast (split_on line_feed (rest @ concat (c # cs))) =
      butlast ?parts @ butlast (split_on line_feed (last ?parts @ concat cs))"
    using butlast_split_append [of line_feed "rest @ c" "concat cs"] by simp
  then show ?case
    by (simp add: Cons.IH [OF no] chat_lines_append Let_def split: prod.splits)
qed

text \<open>
  C28: the values yielded and the way the stream ends depend only on the text received, not
  on how the network cut it into chunks: they are those of the complete lines of the whole
  text, up to the first \<open>[DONE]\<close>.
\<close>

theorem stream_chat_chunking:
  "chat_loop json [] chunks fin =
     (let (vs, d) = chat_lines json (butlast (split_on line_feed (concat chunks)))
      in (vs, if d then Done_Marker else fin))"
  using chat_loop_text [of "[]" json chunks fin] by simp

text \<open>What the service writes for a list of values, given as their JSON texts.\<close>

definition sse_text :: "string list \<Rightarrow> string" where
  "sse_text js = concat (map (\<lambda>j. ''data: '' @ j @ [line_feed, line_feed]) (js @ [''[DONE]'']))"

definition sse_payload :: "(string \<Rightarrow> jsval option) \<Rightarrow> string \<Rightarrow> bool" where
  "sse_payload json j \<longleftrightarrow> line_feed \<notin> set j \<and> trim j = j \<and> j \<noteq> ''[DONE]'' \<and> json j \<noteq> None"

lemma split_sse_item:
  "line_feed \<notin> set j \<Longrightarrow>
   split_on line_feed (''data: '' @ j @ [line_feed, line_feed] @ t) =
     (''data: '' @ j) # [] # split_on line_feed t"
  using split_on_append_sep [of line_feed "''data: '' @ j" "line_feed # t"]
  by (simp add: line_feed_def)

text \<open>
  round trip with the service: when it writes values as data lines separated by blank
  lines and closes with \<open>[DONE]\<close>, the dashboard yields exactly those values, in order, and
  ends at the marker, for every way of cutting the text into chunks.
\<close>

theorem stream_chat_roundtrip:
  assumes "list_all (sse_payload json) js" "concat chunks = sse_text js"
  shows "chat_loop json [] chunks fin = (map (\<lambda>j. the (json j)) js, Done_Marker)"
proof -
  have "chat_lines json (butlast (split_on line_feed (sse_text js))) = (map (\<lambda>j. the (json j)) js, True)"
    using assms(1)
  proof (induction js)
    case Nil
    have "split_on line_feed (sse_text []) = [''data: [DONE]'', [], []]"
      using split_sse_item [of "''[DONE]''" "[]"] by (simp add: sse_text_def line_feed_def)
    then show ?case by (simp add: trim_def is_ws_def)
  next
    case (Cons j js)
    have j: "line_feed \<notin> set j" "trim j = j" "j \<noteq> ''[DONE]''" "json j \<noteq> None"
      using Cons.prems by (simp_all add: sse_payload_def)
    have "sse_text (j # js) = ''data: '' @ j @ [line_feed, line_feed] @ sse_text js"
      by (simp add: sse_text_def)
    then have "split_on line_feed (sse_text (j # js)) =
        (''data: '' @ j) # [] # split_on line_feed (sse_text js)"
      using split_sse_item [OF j(1)] by simp
    then show ?case using j Cons by auto
  qed
  then show ?thesis using stream_chat_chunking [of json chunks fin] assms(2) by simp
qed

theorem stream_chat_roundtrip_witness:
  "chat_loop (\<lambda>s. Some (JStr s)) [] [''data: {}'' @ [line_feed], line_feed # ''data: [DO'', ''NE]'' @ [line_feed, line_feed]]
     Stream_Done = ([JStr ''{}''], Done_Marker)"
proof -
  have "list_all (sse_payload (\<lambda>s. Some (JStr s))) [''{}'']"
    by (simp add: sse_payload_def line_feed_def trim_def is_ws_def)
  from stream_chat_roundtrip [OF this, of "[''data: {}'' @ [line_feed], line_feed # ''data: [DO'', ''NE]'' @ [line_feed, line_feed]]"]
  show ?thesis by (simp add: sse_text_def line_feed_def)
qed

end
