(* ===== verification/Login_Pages.thy ===== *)
theory Login_Pages
  imports Authorize
begin

text \<open>
  The sign-in pages as step functions: the state of the component, one event per handler and
  the effects it has (\<^verbatim>\<open>app/login/page.tsx\<close> of the company dashboard, the superadmin panel
  and the employee portal, \<^verbatim>\<open>app/register/page.tsx\<close>). A handler that awaits an answer is two
  events, and the values its closure captured are kept until the answer arrives.
\<close>

section \<open>Events and effects\<close>

text \<open>What next-auth's \<open>signIn\<close> resolves to.\<close>

record sign_in_result =
  sr_ok :: bool
  sr_error :: "string option"
  sr_url :: "string option"

datatype page_effect =
    Sign_In "(string \<times> string) list"
  | Start_Registration "(string \<times> string) list"
  | Resend string
  | Goto string
  | Toast_Ok string
  | Toast_Error string

datatype page_event =
    Edit_Email string
  | Edit_Password string
  | Edit_Mfa_Code string
  | Edit_Otp_Code string
  | Accept_Privacy bool
  | Submit
  | Signed_In "sign_in_result option"
  | Back
  | Click_Resend
  | Resent "exn + unit"
  | Tick

definition result_ok :: "sign_in_result option \<Rightarrow> bool" where
  "result_ok r = (case r of Some x \<Rightarrow> sr_ok x | None \<Rightarrow> False)"

definition result_error :: "sign_in_result option \<Rightarrow> string" where
  "result_error r = (case r of Some x \<Rightarrow> opt_text (sr_error x) | None \<Rightarrow> [])"

definition result_url :: "sign_in_result option \<Rightarrow> string \<Rightarrow> string" where
  "result_url r d =
     (let u = (case r of Some x \<Rightarrow> opt_text (sr_url x) | None \<Rightarrow> []) in if u = [] then d else u)"

text \<open>\<open>a || b\<close> on strings.\<close>

definition or_text :: "string \<Rightarrow> string \<Rightarrow> string" where
  "or_text a b = (if a = [] then b else a)"

definition api_message :: "exn \<Rightarrow> string \<Rightarrow> string" where
  "api_message e fallback = js_to_string (or_falsy (jget (response_data e) ''error'') (JStr fallback))"

text \<open>The challenge and the masked address in a signal for an emailed code.\<close>

definition part :: "string list \<Rightarrow> nat \<Rightarrow> string" where
  "part ps i = (if i < length ps then ps ! i else [])"

definition decode_otp :: "string \<Rightarrow> string \<times> string" where
  "decode_otp raw =
     (let rest = part (split_str ''OTP_REQUIRED:'' raw) 1; ps = split_on (CHR ''|'') rest
      in (part ps 0, part ps 1))"

definition decode_mfa :: "string \<Rightarrow> string \<times> string" where
  "decode_mfa raw = (let ps = split_on (CHR '':'') raw in (part ps 0, part ps 1))"

section \<open>Company dashboard\<close>

record login =
  l_email :: string
  l_password :: string
  l_privacy :: bool
  l_loading :: bool
  l_error :: string
  l_mfa_token :: string
  l_mfa_code :: string
  l_setup :: bool
  l_otp_token :: string
  l_otp_code :: string
  l_otp_email :: string
  l_resend_in :: nat
  l_resending :: bool
  l_search :: string
  l_pending :: "(string \<times> string) option"

text \<open>The state after the first effect ran: an error in the address is shown at once.\<close>

definition login_start :: "string \<Rightarrow> string \<Rightarrow> login" where
  "login_start search err =
     \<lparr>l_email = [], l_password = [], l_privacy = False, l_loading = False, l_error = err,
      l_mfa_token = [], l_mfa_code = [], l_setup = False, l_otp_token = [], l_otp_code = [],
      l_otp_email = [], l_resend_in = 0, l_resending = False, l_search = search, l_pending = None\<rparr>"

definition verifying :: "login \<Rightarrow> bool" where
  "verifying s = (l_mfa_token s \<noteq> [] \<or> l_otp_token s \<noteq> [])"

definition submit_enabled :: "login \<Rightarrow> bool" where
  "submit_enabled s =
     (\<not> l_setup s \<and> \<not> l_loading s \<and> (verifying s \<or> l_privacy s) \<and>
      (l_mfa_token s = [] \<or> trim (l_mfa_code s) \<noteq> []) \<and>
      (l_otp_token s = [] \<or> 6 \<le> length (trim (l_otp_code s))))"

definition login_credentials :: "login \<Rightarrow> (string \<times> string) list" where
  "login_credentials s =
     [(''email'', l_email s), (''password'', l_password s)] @
     (if l_mfa_token s \<noteq> [] \<and> l_mfa_code s \<noteq> []
      then [(''mfaToken'', l_mfa_token s), (''mfaCode'', l_mfa_code s)] else []) @
     (if l_otp_token s \<noteq> [] \<and> l_otp_code s \<noteq> []
      then [(''otpToken'', l_otp_token s), (''otpCode'', l_otp_code s)] else [])"

definition privacy_message :: string where
  "privacy_message = ''Please accept the Privacy Policy to continue.''"

definition login_submit :: "login \<Rightarrow> login \<times> page_effect list" where
  "login_submit s =
     (if \<not> l_privacy s
      then (s\<lparr>l_error := privacy_message\<rparr>, [Toast_Error privacy_message])
      else
        (s\<lparr>l_loading := True, l_error := [],
           l_search := (if str_includes (l_search s) ''error='' then [] else l_search s),
           l_pending := Some (l_mfa_token s, l_otp_token s)\<rparr>,
         [Sign_In (login_credentials s)]))"

text \<open>The advice on enrolment; the source writes a dash where a hyphen stands here.\<close>

definition enrol_message :: string where
  "enrol_message =
     ''Your organization requires two-factor authentication - ask an administrator to help you enrol.''"

text \<open>The rest of the handler, with the tokens its closure saw.\<close>

definition login_answer ::
  "string \<times> string \<Rightarrow> sign_in_result option \<Rightarrow> login \<Rightarrow> login \<times> page_effect list" where
  "login_answer seen r s0 =
     (let s = s0\<lparr>l_loading := False, l_pending := None\<rparr>; raw = result_error r
      in if result_ok r
           then (s, [Toast_Ok ''Signed in successfully'', Goto (result_url r ''/dashboard'')])
         else if starts_with raw ''MFA_REQUIRED:'' \<or> starts_with raw ''MFA_SETUP_REQUIRED:''
           then
             (let (kind, token) = decode_mfa raw; setup = (kind = ''MFA_SETUP_REQUIRED'')
              in (s\<lparr>l_mfa_token := token, l_setup := setup, l_mfa_code := [], l_error := []\<rparr>,
                  if setup then [Toast_Error enrol_message] else []))
         else if starts_with raw ''OTP_REQUIRED:''
           then
             (let (token, masked) = decode_otp raw
              in (s\<lparr>l_otp_token := token, l_otp_email := masked, l_otp_code := [],
                    l_resend_in := 45, l_error := []\<rparr>,
                  [Toast_Ok (''We emailed a 6-digit code to '' @ or_text masked ''your address'' @ ''.'')]))
         else
           (let message = or_text raw
                  (if snd seen \<noteq> [] then ''That code is not valid or has expired.''
                   else if fst seen \<noteq> []
                     then ''That code is not valid. Check your authenticator app and try again.''
                   else ''Invalid credentials. Please check your email and password.'')
            in (s\<lparr>l_error := message\<rparr>, [Toast_Error message])))"

definition back_to_password :: "login \<Rightarrow> login" where
  "back_to_password s =
     s\<lparr>l_mfa_token := [], l_mfa_code := [], l_setup := False, l_otp_token := [], l_otp_code := [],
       l_otp_email := [], l_resend_in := 0, l_error := []\<rparr>"

definition login_resend :: "login \<Rightarrow> login \<times> page_effect list" where
  "login_resend s =
     (if l_resend_in s > 0 \<or> l_resending s then (s, [])
      else (s\<lparr>l_resending := True\<rparr>, [Resend (l_otp_token s)]))"

definition login_resent :: "exn + unit \<Rightarrow> login \<Rightarrow> login \<times> page_effect list" where
  "login_resent r s0 =
     (let s = s0\<lparr>l_resending := False\<rparr>
      in case r of
           Inr _ \<Rightarrow> (s\<lparr>l_resend_in := 45\<rparr>, [Toast_Ok ''A new code is on its way.''])
         | Inl e \<Rightarrow>
             (if error_code e = JStr ''OTP_CHALLENGE_EXPIRED'' then back_to_password s else s,
              [Toast_Error (api_message e ''Could not send a new code.'')]))"

text \<open>
  One event. A control that the form does not show in this state does nothing: the email,
  password and privacy fields belong to the password step, the resend button to the emailed
  code, and the submit button obeys its \<open>disabled\<close> rule.
\<close>

definition login_step :: "login \<Rightarrow> page_event \<Rightarrow> login \<times> page_effect list" where
  "login_step s ev =
     (case ev of
        Edit_Email v \<Rightarrow> (if verifying s then s else s\<lparr>l_email := v, l_error := []\<rparr>, [])
      | Edit_Password v \<Rightarrow> (if verifying s then s else s\<lparr>l_password := v, l_error := []\<rparr>, [])
      | Accept_Privacy b \<Rightarrow> (if verifying s then s else s\<lparr>l_privacy := b\<rparr>, [])
      | Edit_Otp_Code v \<Rightarrow>
          (if l_otp_token s = [] then s
           else s\<lparr>l_otp_code := filter is_digit (take 6 v), l_error := []\<rparr>, [])
      | Edit_Mfa_Code v \<Rightarrow>
          (if l_otp_token s \<noteq> [] \<or> l_mfa_token s = [] \<or> l_setup s then s
           else s\<lparr>l_mfa_code := v, l_error := []\<rparr>, [])
      | Submit \<Rightarrow> (if submit_enabled s then login_submit s else (s, []))
      | Signed_In r \<Rightarrow>
          (case l_pending s of Some seen \<Rightarrow> login_answer seen r s | None \<Rightarrow> (s, []))
      | Back \<Rightarrow> (if verifying s then back_to_password s else s, [])
      | Click_Resend \<Rightarrow> (if l_otp_token s = [] then (s, []) else login_resend s)
      | Resent r \<Rightarrow> (if l_resending s then login_resent r s else (s, []))
      | Tick \<Rightarrow> (s\<lparr>l_resend_in := l_resend_in s - 1\<rparr>, []))"

section \<open>Superadmin panel\<close>

record admin_login =
  a_email :: string
  a_password :: string
  a_loading :: bool
  a_error :: string
  a_otp_token :: string
  a_otp_code :: string
  a_otp_email :: string
  a_resend_in :: nat
  a_resending :: bool
  a_pending :: "string option"

definition admin_start :: "string \<Rightarrow> admin_login" where
  "admin_start err =
     \<lparr>a_email = [], a_password = [], a_loading = False, a_error = err, a_otp_token = [],
      a_otp_code = [], a_otp_email = [], a_resend_in = 0, a_resending = False, a_pending = None\<rparr>"

definition admin_back :: "admin_login \<Rightarrow> admin_login" where
  "admin_back s =
     s\<lparr>a_otp_token := [], a_otp_code := [], a_otp_email := [], a_resend_in := 0, a_error := []\<rparr>"

definition admin_submit :: "admin_login \<Rightarrow> admin_login \<times> page_effect list" where
  "admin_submit s =
     (s\<lparr>a_loading := True, a_error := [], a_pending := Some (a_otp_token s)\<rparr>,
      [Sign_In ([(''email'', a_email s), (''password'', a_password s)] @
         (if a_otp_token s \<noteq> [] \<and> a_otp_code s \<noteq> []
          then [(''otpToken'', a_otp_token s), (''otpCode'', a_otp_code s)] else []))])"

definition authenticator_message :: string where
  "authenticator_message =
     ''This account has an authenticator app enrolled, which the superadmin console '' @
     ''doesn'' @ [CHR 0x27] @ ''t support signing in with yet. Disable it on the account or sign in '' @
     ''from the company dashboard instead.''"

definition admin_answer ::
  "string \<Rightarrow> sign_in_result option \<Rightarrow> admin_login \<Rightarrow> admin_login \<times> page_effect list" where
  "admin_answer seen r s0 =
     (let s = s0\<lparr>a_loading := False, a_pending := None\<rparr>; raw = result_error r
      in if result_ok r then (s, [Goto (result_url r ''/dashboard'')])
         else if starts_with raw ''OTP_REQUIRED:''
           then
             (let (token, masked) = decode_otp raw
              in (s\<lparr>a_otp_token := token, a_otp_email := masked, a_otp_code := [],
                    a_resend_in := 45, a_error := []\<rparr>, []))
         else if starts_with raw ''MFA_REQUIRED:'' then (s\<lparr>a_error := authenticator_message\<rparr>, [])
         else if seen \<noteq> []
           then (s\<lparr>a_error := or_text raw ''That code is not valid or has expired.''\<rparr>, [])
         else (s\<lparr>a_error := or_text raw ''Invalid credentials''\<rparr>, []))"

definition admin_resend :: "admin_login \<Rightarrow> admin_login \<times> page_effect list" where
  "admin_resend s =
     (if a_resend_in s > 0 \<or> a_resending s then (s, [])
      else (s\<lparr>a_resending := True\<rparr>, [Resend (a_otp_token s)]))"

definition admin_resent :: "exn + unit \<Rightarrow> admin_login \<Rightarrow> admin_login" where
  "admin_resent r s0 =
     (let s = s0\<lparr>a_resending := False\<rparr>
      in case r of
           Inr _ \<Rightarrow> s\<lparr>a_resend_in := 45\<rparr>
         | Inl e \<Rightarrow>
             (let s1 = s\<lparr>a_error := api_message e ''Could not send a new code.''\<rparr>
              in if error_code e = JStr ''OTP_CHALLENGE_EXPIRED'' then admin_back s1 else s1))"

definition admin_step :: "admin_login \<Rightarrow> page_event \<Rightarrow> admin_login \<times> page_effect list" where
  "admin_step s ev =
     (case ev of
        Edit_Email v \<Rightarrow> (if a_otp_token s \<noteq> [] then s else s\<lparr>a_email := v, a_error := []\<rparr>, [])
      | Edit_Password v \<Rightarrow> (if a_otp_token s \<noteq> [] then s else s\<lparr>a_password := v, a_error := []\<rparr>, [])
      | Edit_Otp_Code v \<Rightarrow>
          (if a_otp_token s = [] then s
           else s\<lparr>a_otp_code := filter is_digit (take 6 v), a_error := []\<rparr>, [])
      | Submit \<Rightarrow>
          (if a_loading s \<or> a_otp_token s \<noteq> [] \<and> length (trim (a_otp_code s)) < 6 then (s, [])
           else admin_submit s)
      | Signed_In r \<Rightarrow>
          (case a_pending s of Some seen \<Rightarrow> admin_answer seen r s | None \<Rightarrow> (s, []))
      | Back \<Rightarrow> (if a_otp_token s \<noteq> [] then admin_back s else s, [])
      | Click_Resend \<Rightarrow> (if a_otp_token s = [] then (s, []) else admin_resend s)
      | Resent r \<Rightarrow> (if a_resending s then admin_resent r s else s, [])
      | Tick \<Rightarrow> (s\<lparr>a_resend_in := a_resend_in s - 1\<rparr>, [])
      | _ \<Rightarrow> (s, []))"

section \<open>Registration\<close>

record register =
  r_company :: string
  r_first :: string
  r_last :: string
  r_email :: string
  r_password :: string
  r_confirm :: string
  r_privacy :: bool
  r_loading :: bool
  r_error :: string
  r_code_sent :: bool
  r_code :: string
  r_resend_in :: nat
  r_resending :: bool

datatype register_event =
    Edit_Field string string
  | Reg_Privacy bool
  | Reg_Submit
  | Started "string" "exn + unit"
  | Edit_Code string
  | Verify
  | Verified "sign_in_result option"
  | Reg_Resend
  | Reg_Resent "exn + unit"
  | Back_To_Details
  | Reg_Tick

definition register_start :: "string \<Rightarrow> register" where
  "register_start err =
     \<lparr>r_company = [], r_first = [], r_last = [], r_email = [], r_password = [], r_confirm = [],
      r_privacy = False, r_loading = False, r_error = err, r_code_sent = False, r_code = [],
      r_resend_in = 0, r_resending = False\<rparr>"

definition register_field :: "string \<Rightarrow> string \<Rightarrow> register \<Rightarrow> register" where
  "register_field k v s =
     (let s1 = (if k = ''companyName'' then s\<lparr>r_company := v\<rparr>
                else if k = ''firstName'' then s\<lparr>r_first := v\<rparr>
                else if k = ''lastName'' then s\<lparr>r_last := v\<rparr>
                else if k = ''email'' then s\<lparr>r_email := v\<rparr>
                else if k = ''password'' then s\<lparr>r_password := v\<rparr>
                else if k = ''confirmPassword'' then s\<lparr>r_confirm := v\<rparr> else s)
      in s1\<lparr>r_error := []\<rparr>)"

definition register_submit :: "register \<Rightarrow> register \<times> page_effect list" where
  "register_submit s0 =
     (let s = s0\<lparr>r_error := []\<rparr>;
          refuse = (\<lambda>m. (s\<lparr>r_error := m\<rparr>, [Toast_Error m]))
      in if \<not> r_privacy s then refuse privacy_message
         else if r_password s \<noteq> r_confirm s then refuse ''Passwords do not match''
         else if length (r_password s) < 8 then refuse ''Password must be at least 8 characters''
         else (s\<lparr>r_loading := True\<rparr>,
               [Start_Registration
                  [(''company_name'', r_company s), (''first_name'', r_first s),
                   (''last_name'', r_last s), (''email'', r_email s), (''password'', r_password s)]]))"

text \<open>The answer to the registration; \<open>addr\<close> is the address the handler sent.\<close>

definition register_started :: "string \<Rightarrow> exn + unit \<Rightarrow> register \<Rightarrow> register \<times> page_effect list" where
  "register_started addr r s0 =
     (let s = s0\<lparr>r_loading := False\<rparr>
      in case r of
           Inr _ \<Rightarrow>
             (s\<lparr>r_code_sent := True, r_code := [], r_resend_in := 45\<rparr>,
              [Toast_Ok (''We emailed a 6-digit code to '' @ addr @ ''.'')])
         | Inl e \<Rightarrow>
             (let m = api_message e ''Could not start registration. Please try again.''
              in (s\<lparr>r_error := m\<rparr>, [Toast_Error m])))"

definition register_verify :: "register \<Rightarrow> register \<times> page_effect list" where
  "register_verify s =
     (s\<lparr>r_error := [], r_loading := True\<rparr>,
      [Sign_In [(''email'', r_email s), (''password'', r_password s), (''regCode'', r_code s)]])"

definition register_verified ::
  "sign_in_result option \<Rightarrow> register \<Rightarrow> register \<times> page_effect list" where
  "register_verified r s0 =
     (let s = s0\<lparr>r_loading := False\<rparr>
      in if result_ok r
           then (s, [Toast_Ok ''Your organization is ready'', Goto (result_url r ''/dashboard'')])
         else (let m = or_text (result_error r) ''That code is not valid or has expired.''
               in (s\<lparr>r_error := m\<rparr>, [Toast_Error m])))"

definition register_resend :: "register \<Rightarrow> register \<times> page_effect list" where
  "register_resend s =
     (if r_resend_in s > 0 \<or> r_resending s then (s, [])
      else (s\<lparr>r_resending := True\<rparr>, [Resend (r_email s)]))"

definition register_resent :: "exn + unit \<Rightarrow> register \<Rightarrow> register \<times> page_effect list" where
  "register_resent r s0 =
     (let s = s0\<lparr>r_resending := False\<rparr>
      in case r of
           Inr _ \<Rightarrow> (s\<lparr>r_resend_in := 45\<rparr>, [Toast_Ok ''A new code is on its way.''])
         | Inl e \<Rightarrow> (s, [Toast_Error (api_message e ''Could not send a new code.'')]))"

definition back_to_details :: "register \<Rightarrow> register" where
  "back_to_details s = s\<lparr>r_code_sent := False, r_code := [], r_resend_in := 0, r_error := []\<rparr>"

text \<open>
  One event; \<open>Started\<close> and \<open>Verified\<close> are the answers to the two calls, of which at
  most one is under way (\<open>r_loading\<close>).
\<close>

definition register_step :: "register \<Rightarrow> register_event \<Rightarrow> register \<times> page_effect list" where
  "register_step s ev =
     (case ev of
        Edit_Field k v \<Rightarrow> (if r_code_sent s then s else register_field k v s, [])
      | Reg_Privacy b \<Rightarrow> (if r_code_sent s then s else s\<lparr>r_privacy := b\<rparr>, [])
      | Reg_Submit \<Rightarrow>
          (if r_code_sent s \<or> r_loading s \<or> \<not> r_privacy s then (s, []) else register_submit s)
      | Started addr r \<Rightarrow> (if r_loading s then register_started addr r s else (s, []))
      | Edit_Code v \<Rightarrow>
          (if r_code_sent s then s\<lparr>r_code := filter is_digit (take 6 v), r_error := []\<rparr> else s, [])
      | Verify \<Rightarrow>
          (if \<not> r_code_sent s \<or> r_loading s \<or> length (trim (r_code s)) < 6 then (s, [])
           else register_verify s)
      | Verified r \<Rightarrow> (if r_loading s then register_verified r s else (s, []))
      | Reg_Resend \<Rightarrow> (if r_code_sent s then register_resend s else (s, []))
      | Reg_Resent r \<Rightarrow> (if r_resending s then register_resent r s else (s, []))
      | Back_To_Details \<Rightarrow> (if r_code_sent s then back_to_details s else s, [])
      | Reg_Tick \<Rightarrow> (s\<lparr>r_resend_in := r_resend_in s - 1\<rparr>, []))"

section \<open>Employee portal and impersonation\<close>

record portal_login =
  p_email :: string
  p_password :: string
  p_privacy :: bool
  p_loading :: bool
  p_error :: string
  p_next :: string

text \<open>The target of \<open>callbackUrl\<close> is taken over when it looks like a path of this site.\<close>

definition portal_next :: "string option \<Rightarrow> string" where
  "portal_next target =
     (let t = opt_text target
      in if t \<noteq> [] \<and> starts_with t ''/'' \<and> \<not> starts_with t ''//'' then t else ''/dashboard'')"

definition portal_start :: "string option \<Rightarrow> string \<Rightarrow> portal_login" where
  "portal_start target err =
     \<lparr>p_email = [], p_password = [], p_privacy = False, p_loading = False, p_error = err,
      p_next = portal_next target\<rparr>"

definition portal_submit :: "portal_login \<Rightarrow> portal_login \<times> page_effect list" where
  "portal_submit s =
     (if \<not> p_privacy s then (s\<lparr>p_error := privacy_message\<rparr>, [Toast_Error privacy_message])
      else (s\<lparr>p_loading := True, p_error := []\<rparr>,
            [Sign_In [(''email'', p_email s), (''password'', p_password s), (''callbackUrl'', p_next s)]]))"

definition portal_answer ::
  "sign_in_result option \<Rightarrow> portal_login \<Rightarrow> portal_login \<times> page_effect list" where
  "portal_answer r s0 =
     (let s = s0\<lparr>p_loading := False\<rparr>
      in if result_ok r
           then (s, [Toast_Ok ''Signed in successfully'', Goto (result_url r (p_next s))])
         else (let m = or_text (result_error r) ''Invalid credentials. Contact your IT administrator.''
               in (s\<lparr>p_error := m\<rparr>, [Toast_Error m])))"

text \<open>Opening an impersonation link: the call made, or the error shown.\<close>

definition impersonate_open :: "string option \<Rightarrow> string + page_effect" where
  "impersonate_open code =
     (if opt_text code = [] then Inl ''No impersonation code was provided.''
      else Inr (Sign_In [(''code'', opt_text code)]))"

definition impersonate_answer :: "sign_in_result option \<Rightarrow> string + page_effect" where
  "impersonate_answer r =
     (if result_error r \<noteq> [] then Inl (result_error r) else Inr (Goto ''/dashboard''))"

section \<open>The cooldown of the resend buttons\<close>

text \<open>
  What the three pages with a resend button share: a request to resend goes out only when
  the countdown is over, a tick takes at most one second off it, and besides ticks only the
  events that leave the code step lower it.
\<close>

locale resend_cooldown =
  fixes step :: "'s \<Rightarrow> 'e \<Rightarrow> 's \<times> page_effect list"
    and left :: "'s \<Rightarrow> nat"
    and tick :: "'e \<Rightarrow> bool"
    and leaves :: "'e \<Rightarrow> bool"
  assumes sends_when_over: "Resend a \<in> set (snd (step s e)) \<Longrightarrow> left s = 0"
    and tick_slow: "tick e \<Longrightarrow> left s \<le> Suc (left (fst (step s e)))"
    and others_keep: "\<not> tick e \<Longrightarrow> \<not> leaves e \<Longrightarrow> min 45 (left s) \<le> left (fst (step s e))"
begin

fun steps :: "'s \<Rightarrow> 'e list \<Rightarrow> 's \<times> page_effect list" where
  "steps s [] = (s, [])"
| "steps s (e # es) =
     (let (s1, o1) = step s e; (s2, o2) = steps s1 es in (s2, o1 @ o2))"

lemma no_resend_before:
  assumes "list_all (\<lambda>e. \<not> leaves e) es" "length (filter tick es) < min 45 (left s)"
  shows "Resend a \<notin> set (snd (steps s es))"
  using assms
proof (induction es arbitrary: s)
  case Nil
  then show ?case by simp
next
  case (Cons e es)
  obtain s1 o1 where st: "step s e = (s1, o1)" by fastforce
  have "left s \<noteq> 0" using Cons.prems(2) by linarith
  then have here: "Resend a \<notin> set o1" using sends_when_over [of a s e] st by auto
  have "length (filter tick es) < min 45 (left s1)"
    using Cons.prems tick_slow [of e s] others_keep [of e s] st by (cases "tick e") auto
  then have "Resend a \<notin> set (snd (steps s1 es))" using Cons by simp
  with here st show ?case by (simp add: split_beta Let_def)
qed

end

definition leaves_code :: "page_event \<Rightarrow> bool" where
  "leaves_code e =
     (case e of Back \<Rightarrow> True
      | Resent (Inl x) \<Rightarrow> error_code x = JStr ''OTP_CHALLENGE_EXPIRED''
      | _ \<Rightarrow> False)"

definition leaves_registration :: "register_event \<Rightarrow> bool" where
  "leaves_registration e = (e = Back_To_Details)"

lemmas company_page_defs =
  login_step_def login_submit_def login_answer_def login_resend_def login_resent_def back_to_password_def

lemmas admin_page_defs =
  admin_step_def admin_submit_def admin_answer_def admin_resend_def admin_resent_def admin_back_def

lemmas register_page_defs =
  register_step_def register_submit_def register_started_def register_verify_def
  register_verified_def register_resend_def register_resent_def back_to_details_def register_field_def

interpretation company_resend: resend_cooldown login_step l_resend_in "\<lambda>e. e = Tick" leaves_code
proof
  show "l_resend_in s = 0" if "Resend a \<in> set (snd (login_step s e))" for a s e
    using that
    by (cases e) (auto simp: company_page_defs Let_def split: if_splits option.splits sum.splits prod.splits)
  show "l_resend_in s \<le> Suc (l_resend_in (fst (login_step s e)))" if "e = Tick" for e s
    using that by (simp add: login_step_def)
  show "min 45 (l_resend_in s) \<le> l_resend_in (fst (login_step s e))" if "e \<noteq> Tick" "\<not> leaves_code e" for e s
    using that
    by (cases e) (auto simp: company_page_defs leaves_code_def Let_def
        split: if_splits option.splits sum.splits prod.splits)
qed

interpretation admin_resend: resend_cooldown admin_step a_resend_in "\<lambda>e. e = Tick" leaves_code
proof
  show "a_resend_in s = 0" if "Resend a \<in> set (snd (admin_step s e))" for a s e
    using that
    by (cases e) (auto simp: admin_page_defs Let_def split: if_splits option.splits sum.splits prod.splits)
  show "a_resend_in s \<le> Suc (a_resend_in (fst (admin_step s e)))" if "e = Tick" for e s
    using that by (simp add: admin_step_def)
  show "min 45 (a_resend_in s) \<le> a_resend_in (fst (admin_step s e))" if "e \<noteq> Tick" "\<not> leaves_code e" for e s
    using that
    by (cases e) (auto simp: admin_page_defs leaves_code_def Let_def
        split: if_splits option.splits sum.splits prod.splits)
qed

interpretation register_resend: resend_cooldown register_step r_resend_in "\<lambda>e. e = Reg_Tick" leaves_registration
proof
  show "r_resend_in s = 0" if "Resend a \<in> set (snd (register_step s e))" for a s e
    using that
    by (cases e) (auto simp: register_page_defs Let_def split: if_splits option.splits sum.splits prod.splits)
  show "r_resend_in s \<le> Suc (r_resend_in (fst (register_step s e)))" if "e = Reg_Tick" for e s
    using that by (simp add: register_step_def)
  show "min 45 (r_resend_in s) \<le> r_resend_in (fst (register_step s e))"
    if "e \<noteq> Reg_Tick" "\<not> leaves_registration e" for e s
    using that
    by (cases e) (auto simp: register_page_defs leaves_registration_def Let_def
        split: if_splits option.splits sum.splits prod.splits)
qed

text \<open>
  after a code went out (the countdown stands at 45), none of the three pages asks for
  another one before 45 seconds have been counted down, whatever the user does and whatever
  answers arrive meanwhile, as long as the user does not leave the code step.
\<close>

theorem resend_after_cooldown:
  assumes "length (filter (\<lambda>e. e = Tick) es) < 45" "length (filter (\<lambda>e. e = Reg_Tick) rs) < 45"
    "list_all (\<lambda>e. \<not> leaves_code e) es" "list_all (\<lambda>e. \<not> leaves_registration e) rs"
    "l_resend_in s = 45" "a_resend_in t = 45" "r_resend_in u = 45"
  shows "Resend a \<notin> set (snd (company_resend.steps s es)) \<and>
         Resend a \<notin> set (snd (admin_resend.steps t es)) \<and>
         Resend a \<notin> set (snd (register_resend.steps u rs))"
  using assms company_resend.no_resend_before [of es s a] admin_resend.no_resend_before [of es t a]
    register_resend.no_resend_before [of rs u a]
  by simp

theorem resend_after_cooldown_witness:
  "Resend ''t1'' \<notin> set (snd (company_resend.steps
     ((login_start [] [])\<lparr>l_otp_token := ''t1'', l_resend_in := 45\<rparr>) [Tick, Click_Resend]))"
  using resend_after_cooldown [of "[Tick, Click_Resend]" "[]"
      "(login_start [] [])\<lparr>l_otp_token := ''t1'', l_resend_in := 45\<rparr>"
      "(admin_start [])\<lparr>a_resend_in := 45\<rparr>" "(register_start [])\<lparr>r_resend_in := 45\<rparr>" "''t1''"]
  by (simp add: leaves_code_def)

section \<open>The signals come through\<close>

lemma split_str_acc_last_char:
  assumes "sep \<noteq> []" "last sep \<notin> set s"
  shows "split_str_acc sep acc s = [rev acc @ s]"
  using assms(2)
proof (induction s arbitrary: acc)
  case Nil
  show ?case by (simp add: split_str_acc.simps)
next
  case (Cons c cs)
  have "\<not> starts_with (c # cs) sep"
  proof
    assume "starts_with (c # cs) sep"
    then obtain t where "c # cs = sep @ t" by (auto simp: starts_with_iff)
    then have "last sep \<in> set (c # cs)" using assms(1) by simp
    with Cons.prems show False by blast
  qed
  then show ?case using Cons by (subst split_str_acc.simps) simp
qed

lemma split_otp_required:
  assumes "CHR '':'' \<notin> set rest"
  shows "split_str ''OTP_REQUIRED:'' (''OTP_REQUIRED:'' @ rest) = [[], rest]"
  using split_str_acc_last_char [of "''OTP_REQUIRED:''" rest "[]"] assms
  by (simp add: split_str_def split_str_acc.simps [of _ _ "_ # _"] starts_with_def)

lemma decode_otp_signal:
  assumes "CHR '':'' \<notin> set t" "CHR ''|'' \<notin> set t" "CHR '':'' \<notin> set m" "CHR ''|'' \<notin> set m"
  shows "decode_otp (''OTP_REQUIRED:'' @ t @ ''|'' @ m) = (t, m)"
  using assms split_otp_required [of "t @ ''|'' @ m"]
  by (simp add: decode_otp_def part_def split_on_append_sep split_on_no_sep)

lemma decode_mfa_signal:
  assumes "CHR '':'' \<notin> set t" "CHR '':'' \<notin> set kind"
  shows "decode_mfa (kind @ '':'' @ t) = (kind, t)"
  using assms by (simp add: decode_mfa_def part_def split_on_append_sep split_on_no_sep)

text \<open>
  the challenge reaches the page: when \<open>authorize\<close> throws the signal for an emailed
  code or for an authenticator, the login page switches to that step with exactly the token
  (and masked address) that the API issued, provided these contain no separator.
\<close>

theorem signal_reaches_page:
  assumes "jget d ''otp_token'' = JStr t" "jget d ''email'' = JStr m" "jget d ''mfa_token'' = JStr t"
    "CHR '':'' \<notin> set t" "CHR ''|'' \<notin> set t" "CHR '':'' \<notin> set m" "CHR ''|'' \<notin> set m"
    "sr_ok r = False" "sr_ok q = False" "sr_error r = Some (otp_signal d)" "sr_error q = Some (mfa_signal d)"
  shows "(let s1 = fst (login_answer seen (Some r) s) in
            l_otp_token s1 = t \<and> l_otp_email s1 = m \<and> l_otp_code s1 = [] \<and> l_resend_in s1 = 45 \<and>
            l_mfa_token s1 = l_mfa_token s \<and> l_error s1 = []) \<and>
         (let s1 = fst (login_answer seen (Some q) s) in
            l_mfa_token s1 = t \<and> l_mfa_code s1 = [] \<and>
            l_setup s1 = truthy (jget d ''mfa_setup_required'') \<and>
            l_otp_token s1 = l_otp_token s \<and> l_error s1 = []) \<and>
         (let s1 = fst (admin_answer who (Some r) a) in
            a_otp_token s1 = t \<and> a_otp_email s1 = m \<and> a_resend_in s1 = 45 \<and> a_error s1 = [])"
proof -
  have otp: "otp_signal d = ''OTP_REQUIRED:'' @ t @ ''|'' @ m"
    using assms(1,2) by (simp add: otp_signal_def or_nullish_def nullish_def)
  have mfa: "mfa_signal d =
      (if truthy (jget d ''mfa_setup_required'') then ''MFA_SETUP_REQUIRED'' else ''MFA_REQUIRED'') @ '':'' @ t"
    using assms(3) by (simp add: mfa_signal_def)
  have d: "decode_otp (otp_signal d) = (t, m)"
    unfolding otp by (rule decode_otp_signal [OF assms(4-7)])
  have m: "decode_mfa (mfa_signal d) =
      (if truthy (jget d ''mfa_setup_required'') then ''MFA_SETUP_REQUIRED'' else ''MFA_REQUIRED'', t)"
    unfolding mfa by (rule decode_mfa_signal [OF assms(4)]) simp
  have starts: "starts_with (otp_signal d) ''OTP_REQUIRED:''"
    "\<not> starts_with (otp_signal d) ''MFA_REQUIRED:''" "\<not> starts_with (otp_signal d) ''MFA_SETUP_REQUIRED:''"
    "starts_with (mfa_signal d) ''MFA_REQUIRED:'' \<or> starts_with (mfa_signal d) ''MFA_SETUP_REQUIRED:''"
    unfolding otp mfa by (simp_all add: starts_with_def)
  have err: "result_error (Some r) = otp_signal d" "result_error (Some q) = mfa_signal d"
    "\<not> result_ok (Some r)" "\<not> result_ok (Some q)"
    using assms(8-11) by (simp_all add: result_error_def result_ok_def opt_text_def)
  show ?thesis
    using starts err d m by (simp add: login_answer_def admin_answer_def Let_def)
qed

theorem signal_reaches_page_witness:
  "let d = JObj [(''otp_token'', JStr ''t1''), (''mfa_token'', JStr ''t1''), (''email'', JStr ''a***@b.in'')];
       r = \<lparr>sr_ok = False, sr_error = Some (otp_signal d), sr_url = None\<rparr>
   in l_otp_token (fst (login_answer ([], []) (Some r) (login_start [] []))) = ''t1''"
proof -
  let ?d = "JObj [(''otp_token'', JStr ''t1''), (''mfa_token'', JStr ''t1''), (''email'', JStr ''a***@b.in'')]"
  show ?thesis
    using signal_reaches_page [of ?d "''t1''" "''a***@b.in''"
        "\<lparr>sr_ok = False, sr_error = Some (otp_signal ?d), sr_url = None\<rparr>"
        "\<lparr>sr_ok = False, sr_error = Some (mfa_signal ?d), sr_url = None\<rparr>"
        "([], [])" "login_start [] []" "[]" "admin_start []"]
    by (simp add: Let_def)
qed

section \<open>What the pages submit\<close>

text \<open>An emailed code in the state has at most six characters, all of them digits.\<close>

definition code_shape :: "string \<Rightarrow> bool" where
  "code_shape v = (list_all is_digit v \<and> length v \<le> 6)"

lemma code_shape_typed: "code_shape (filter is_digit (take 6 v))"
  using length_filter_le [of is_digit "take 6 v"] by (auto simp: code_shape_def list_all_iff)

lemma code_shape_Nil: "code_shape []"
  by (simp add: code_shape_def)

lemma login_step_code: "code_shape (l_otp_code s) \<Longrightarrow> code_shape (l_otp_code (fst (login_step s e)))"
  by (cases e) (auto simp: company_page_defs Let_def code_shape_typed code_shape_Nil
      split: if_splits option.splits sum.splits prod.splits)

lemma admin_step_code: "code_shape (a_otp_code s) \<Longrightarrow> code_shape (a_otp_code (fst (admin_step s e)))"
  by (cases e) (auto simp: admin_page_defs Let_def code_shape_typed code_shape_Nil
      split: if_splits option.splits sum.splits prod.splits)

lemma company_steps_code:
  "code_shape (l_otp_code s) \<Longrightarrow> code_shape (l_otp_code (fst (company_resend.steps s es)))"
proof (induction es arbitrary: s)
  case (Cons e es)
  then show ?case
    using login_step_code [OF Cons.prems, of e] by (simp add: Let_def split_beta)
qed simp

lemma admin_steps_code:
  "code_shape (a_otp_code s) \<Longrightarrow> code_shape (a_otp_code (fst (admin_resend.steps s es)))"
proof (induction es arbitrary: s)
  case (Cons e es)
  then show ?case
    using admin_step_code [OF Cons.prems, of e] by (simp add: Let_def split_beta)
qed simp

lemma trim_code: "code_shape v \<Longrightarrow> trim v = v"
  by (intro trim_id) (auto simp: code_shape_def list_all_iff is_digit_not_ws)

text \<open>
  after any sequence of events, a sign-in that either login page sends from the
  emailed-code step carries the challenge token with a code of exactly six digits; nothing
  else the page sends a sign-in for carries a code of this kind.
\<close>

theorem submitted_code_shape:
  "(case snd (login_step (fst (company_resend.steps (login_start search err) es)) e) of
      [Sign_In cs] \<Rightarrow>
        (let s = fst (company_resend.steps (login_start search err) es)
         in if l_otp_token s = [] then map_of cs ''otpCode'' = None
            else map_of cs ''otpToken'' = Some (l_otp_token s) \<and>
                 (\<exists>v. map_of cs ''otpCode'' = Some v \<and> length v = 6 \<and> list_all is_digit v))
    | _ \<Rightarrow> True) \<and>
   (case snd (admin_step (fst (admin_resend.steps (admin_start err) es)) e) of
      [Sign_In cs] \<Rightarrow>
        (let s = fst (admin_resend.steps (admin_start err) es)
         in if a_otp_token s = [] then map_of cs ''otpCode'' = None
            else map_of cs ''otpToken'' = Some (a_otp_token s) \<and>
                 (\<exists>v. map_of cs ''otpCode'' = Some v \<and> length v = 6 \<and> list_all is_digit v))
    | _ \<Rightarrow> True)"
proof -
  let ?s = "fst (company_resend.steps (login_start search err) es)"
  let ?t = "fst (admin_resend.steps (admin_start err) es)"
  have s: "code_shape (l_otp_code ?s)"
    by (rule company_steps_code) (simp add: login_start_def code_shape_Nil)
  have t: "code_shape (a_otp_code ?t)"
    by (rule admin_steps_code) (simp add: admin_start_def code_shape_Nil)
  have six: "6 \<le> length v \<Longrightarrow> code_shape v \<Longrightarrow> length v = 6 \<and> list_all is_digit v \<and> v \<noteq> []" for v
    by (auto simp: code_shape_def)
  have company: "snd (login_step ?s e) = [Sign_In cs] \<Longrightarrow>
      e = Submit \<and> submit_enabled ?s \<and> cs = login_credentials ?s" for cs
    by (cases e) (auto simp: company_page_defs Let_def split: if_splits option.splits sum.splits prod.splits)
  have admin: "snd (admin_step ?t e) = [Sign_In cs] \<Longrightarrow>
      \<not> (a_otp_token ?t \<noteq> [] \<and> length (trim (a_otp_code ?t)) < 6) \<and>
      cs = [(''email'', a_email ?t), (''password'', a_password ?t)] @
         (if a_otp_token ?t \<noteq> [] \<and> a_otp_code ?t \<noteq> []
          then [(''otpToken'', a_otp_token ?t), (''otpCode'', a_otp_code ?t)] else [])" for cs
    by (cases e) (auto simp: admin_page_defs Let_def split: if_splits option.splits sum.splits prod.splits)
  show ?thesis
  proof (rule conjI, goal_cases)
    case 1
    show ?case
    proof (cases "\<exists>cs. snd (login_step ?s e) = [Sign_In cs]")
      case True
      then obtain cs where cs: "snd (login_step ?s e) = [Sign_In cs]" by blast
      show ?thesis
        unfolding cs using company [OF cs] six [OF _ s] trim_code [OF s]
        by (auto simp: login_credentials_def submit_enabled_def Let_def)
    next
      case False
      then show ?thesis by (auto split: list.split page_effect.split)
    qed
  next
    case 2
    show ?case
    proof (cases "\<exists>cs. snd (admin_step ?t e) = [Sign_In cs]")
      case True
      then obtain cs where cs: "snd (admin_step ?t e) = [Sign_In cs]" by blast
      show ?thesis
        unfolding cs using admin [OF cs] six [OF _ t] trim_code [OF t]
        by (auto simp: Let_def)
    next
      case False
      then show ?thesis by (auto split: list.split page_effect.split)
    qed
  qed
qed

text \<open>
  when a resend fails because the challenge lapsed, the superadmin page returns to the
  password step and drops the error it has just set, so the user is not told why; the
  company page returns in the same way and tells the reason in a toast.
\<close>

theorem lapsed_challenge_message:
  assumes "error_code e = JStr ''OTP_CHALLENGE_EXPIRED''"
  shows "a_error (admin_resent (Inl e) s) = [] \<and> a_otp_token (admin_resent (Inl e) s) = [] \<and>
         l_otp_token (fst (login_resent (Inl e) t)) = [] \<and>
         snd (login_resent (Inl e) t) = [Toast_Error (api_message e ''Could not send a new code.'')]"
  using assms
  by (simp add: admin_resent_def admin_back_def login_resent_def back_to_password_def Let_def)

theorem lapsed_challenge_message_witness:
  "a_error (admin_resent (Inl \<lparr>message = [], response_data = JObj
     [(''code'', JStr ''OTP_CHALLENGE_EXPIRED''), (''error'', JStr ''Sign in again'')]\<rparr>) (admin_start [])) = []"
  using lapsed_challenge_message [of "\<lparr>message = [], response_data = JObj
     [(''code'', JStr ''OTP_CHALLENGE_EXPIRED''), (''error'', JStr ''Sign in again'')]\<rparr>" "admin_start []"
     "login_start [] []"]
  by (simp add: error_code_def)

text \<open>
  clearing the privacy checkbox while the password step is being answered leads to a
  code step whose submit button is enabled but only reports that the policy must be
  accepted, on a form that does not show the checkbox.
\<close>

theorem privacy_dead_end:
  "let r = \<lparr>sr_ok = False, sr_error = Some ''OTP_REQUIRED:t1|a@b.in'', sr_url = None\<rparr>;
       s = fst (company_resend.steps (login_start [] [])
             [Accept_Privacy True, Edit_Email ''a@b.in'', Edit_Password ''pw'', Submit,
              Accept_Privacy False, Signed_In (Some r), Edit_Otp_Code ''123456''])
   in submit_enabled s \<and> l_otp_token s = ''t1'' \<and>
      login_step s Submit = (s\<lparr>l_error := privacy_message\<rparr>, [Toast_Error privacy_message]) \<and>
      login_step s (Accept_Privacy True) = (s, [])"
  unfolding Let_def company_resend.steps.simps by code_simp

end
