(* ===== verification/Schedule.thy ===== *)
theory Schedule
  imports Prelude "HOL-Library.List_Lexorder" "HOL-Library.Char_ord"
begin

text \<open>
  The working-hours editor (\<^verbatim>\<open>components/enforcement/ScheduleEditor.tsx\<close>) and the settings
  panel around it (\<^verbatim>\<open>WorkingHoursPanel\<close> in \<^verbatim>\<open>app/dashboard/settings/page.tsx\<close>) of the
  company dashboard. The editor compares windows by object identity, so a window carries
  the identity of its object, and every object the code creates takes a fresh one.
\<close>

section \<open>The schedule and its editor\<close>

record window =
  wid :: nat
  wday :: nat
  wstart :: string
  wend :: string

record schedule =
  timezone :: string
  windows :: "window list"
  holidays :: "string list"
  off_hours_mode :: string
  sched_enabled :: bool

text \<open>A schedule with the identity that the next object gets.\<close>

record editor =
  sched :: schedule
  next_id :: nat

definition day_names :: "string list" where
  "day_names = [''Sun'', ''Mon'', ''Tue'', ''Wed'', ''Thu'', ''Fri'', ''Sat'']"

definition weekdays :: "nat list" where
  "weekdays = [1, 2, 3, 4, 5]"

definition default_schedule :: "string \<Rightarrow> editor" where
  "default_schedule tz =
     \<lparr>sched = \<lparr>timezone = (if tz = [] then ''UTC'' else tz),
        windows = map (\<lambda>d. \<lparr>wid = d, wday = d, wstart = ''10:00'', wend = ''19:00''\<rparr>) weekdays,
        holidays = [], off_hours_mode = ''full_pause'', sched_enabled = True\<rparr>,
      next_id = 6\<rparr>"

text \<open>The windows of a day, in their order; a day is switched on when it has one.\<close>

definition day_windows :: "window list \<Rightarrow> nat \<Rightarrow> window list" where
  "day_windows ws d = filter (\<lambda>w. wday w = d) ws"

definition has_day :: "window list \<Rightarrow> nat \<Rightarrow> bool" where
  "has_day ws d = (day_windows ws d \<noteq> [])"

definition set_windows :: "window list \<Rightarrow> editor \<Rightarrow> editor" where
  "set_windows ws e = e\<lparr>sched := (sched e)\<lparr>windows := ws\<rparr>\<rparr>"

definition toggle_day :: "nat \<Rightarrow> editor \<Rightarrow> editor" where
  "toggle_day d e =
     (let ws = windows (sched e)
      in if has_day ws d then set_windows (filter (\<lambda>w. wday w \<noteq> d) ws) e
         else
           (let (s, t) = (case ws of [] \<Rightarrow> (''10:00'', ''19:00'') | w # _ \<Rightarrow> (wstart w, wend w))
            in (set_windows (ws @ [\<lparr>wid = next_id e, wday = d, wstart = s, wend = t\<rparr>]) e)
                 \<lparr>next_id := next_id e + 1\<rparr>))"

text \<open>\<open>{ ...w, ...patch }\<close> makes a new object in the place of the one edited.\<close>

definition update_window :: "nat \<Rightarrow> (window \<Rightarrow> window) \<Rightarrow> editor \<Rightarrow> editor" where
  "update_window i patch e =
     (set_windows (map (\<lambda>w. if wid w = i then (patch w)\<lparr>wid := next_id e\<rparr> else w) (windows (sched e))) e)
       \<lparr>next_id := next_id e + 1\<rparr>"

definition add_window :: "nat \<Rightarrow> editor \<Rightarrow> editor" where
  "add_window d e =
     (set_windows (windows (sched e) @
        [\<lparr>wid = next_id e, wday = d, wstart = ''09:00'', wend = ''13:00''\<rparr>]) e)
       \<lparr>next_id := next_id e + 1\<rparr>"

definition remove_window :: "nat \<Rightarrow> editor \<Rightarrow> editor" where
  "remove_window i e = set_windows (filter (\<lambda>w. wid w \<noteq> i) (windows (sched e))) e"

text \<open>Copies for one day, numbered from \<open>n\<close>, and for the five weekdays in turn.\<close>

fun copy_to_day :: "nat \<Rightarrow> nat \<Rightarrow> window list \<Rightarrow> window list" where
  "copy_to_day n d [] = []"
| "copy_to_day n d (w # ws) = w\<lparr>wid := n, wday := d\<rparr> # copy_to_day (Suc n) d ws"

fun copy_to_days :: "nat \<Rightarrow> nat list \<Rightarrow> window list \<Rightarrow> window list" where
  "copy_to_days n [] ws = []"
| "copy_to_days n (d # ds) ws = copy_to_day n d ws @ copy_to_days (n + length ws) ds ws"

definition apply_to_all_days :: "editor \<Rightarrow> editor" where
  "apply_to_all_days e =
     (let ws = windows (sched e);
          source = (if has_day ws 1 then day_windows ws 1 else take 1 ws)
      in if source = [] then e
         else (set_windows (copy_to_days (next_id e) weekdays source) e)
                \<lparr>next_id := next_id e + 5 * length source\<rparr>)"

text \<open>The end of a window that is not after its start belongs to the next day.\<close>

definition overnight :: "window \<Rightarrow> bool" where
  "overnight w = (wend w \<le> wstart w)"

definition can_remove :: "editor \<Rightarrow> window \<Rightarrow> bool" where
  "can_remove e w = (1 < length (day_windows (windows (sched e)) (wday w)))"

text \<open>Holidays: the draft of the date field is kept by the editor.\<close>

definition add_holiday :: "string \<Rightarrow> string list \<Rightarrow> (string list \<times> string)" where
  "add_holiday d hs =
     (let v = trim d in if v = [] \<or> v \<in> set hs then (hs, d) else (sort (hs @ [v]), []))"

definition remove_holiday :: "string \<Rightarrow> string list \<Rightarrow> string list" where
  "remove_holiday h hs = filter (\<lambda>x. x \<noteq> h) hs"

section \<open>The badge and the time zones\<close>

definition badge_mode :: "jsval \<Rightarrow> jsval" where
  "badge_mode state =
     or_nullish (jget state ''mode'') (JStr (if truthy (jget state ''active'') then ''full'' else ''paused''))"

text \<open>The text of the badge, none without a state.\<close>

definition badge_label :: "jsval \<Rightarrow> string option" where
  "badge_label state =
     (if \<not> truthy state then None
      else
        (let m = js_to_string (badge_mode state)
         in Some (if m = ''full'' then ''Monitoring'' else if m = ''security_only'' then ''Protection only''
                  else if m = ''paused'' then ''Paused'' else ''Monitoring'')))"

definition timezones_of :: "jsval \<Rightarrow> jsval list" where
  "timezones_of res =
     (let l = or_nullish (jget (jget res ''data'') ''timezones'') (or_nullish (jget res ''data'') (JArr []))
      in arr_items l)"

section \<open>The settings panel\<close>

record saved_schedule =
  sv_timezone :: string
  sv_windows :: "window list option"
  sv_holidays :: "string list option"
  sv_mode :: "string option"
  sv_enabled :: "bool option"

record hours_panel =
  hp_draft :: "editor option"
  hp_saved :: "saved_schedule option"
  hp_org_timezone :: string
  hp_saving :: bool
  hp_removing :: bool

definition draft_of_saved :: "saved_schedule \<Rightarrow> editor" where
  "draft_of_saved s =
     (let ws = (case sv_windows s of None \<Rightarrow> [] | Some w \<Rightarrow> w)
      in \<lparr>sched = \<lparr>timezone = sv_timezone s,
           windows = map2 (\<lambda>i w. w\<lparr>wid := i\<rparr>) [0..<length ws] ws,
           holidays = (case sv_holidays s of None \<Rightarrow> [] | Some h \<Rightarrow> h),
           off_hours_mode = (case sv_mode s of None \<Rightarrow> ''full_pause'' | Some m \<Rightarrow> m),
           sched_enabled = (case sv_enabled s of None \<Rightarrow> True | Some b \<Rightarrow> b)\<rparr>,
         next_id = length ws\<rparr>)"

text \<open>The effect that runs after every change of the saved schedule or the draft.\<close>

definition fill_draft :: "hours_panel \<Rightarrow> hours_panel" where
  "fill_draft p =
     (case (hp_draft p, hp_saved p) of
        (None, Some s) \<Rightarrow> p\<lparr>hp_draft := Some (draft_of_saved s)\<rparr>
      | _ \<Rightarrow> p)"

definition shown :: "hours_panel \<Rightarrow> editor" where
  "shown p = (case hp_draft p of Some e \<Rightarrow> e | None \<Rightarrow> default_schedule (hp_org_timezone p))"

datatype panel_event =
    Toggle_Day nat
  | Set_Time nat bool string
  | Add_Window nat
  | Remove_Window nat
  | Copy_Monday
  | Set_Timezone string
  | Set_Mode string
  | Set_Holidays "string list"
  | Save
  | Saved bool
  | Remove
  | Removed bool
  | Loaded "saved_schedule option"

definition editor_event :: "panel_event \<Rightarrow> editor \<Rightarrow> editor option" where
  "editor_event ev e =
     (case ev of
        Toggle_Day d \<Rightarrow> Some (toggle_day d e)
      | Set_Time i is_start t \<Rightarrow>
          Some (update_window i (\<lambda>w. if is_start then w\<lparr>wstart := t\<rparr> else w\<lparr>wend := t\<rparr>) e)
      | Add_Window d \<Rightarrow> Some (add_window d e)
      | Remove_Window i \<Rightarrow>
          (case filter (\<lambda>w. wid w = i) (windows (sched e)) of
             w # _ \<Rightarrow> (if can_remove e w then Some (remove_window i e) else None)
           | [] \<Rightarrow> None)
      | Copy_Monday \<Rightarrow> Some (apply_to_all_days e)
      | Set_Timezone z \<Rightarrow> Some (e\<lparr>sched := (sched e)\<lparr>timezone := z\<rparr>\<rparr>)
      | Set_Mode m \<Rightarrow> Some (e\<lparr>sched := (sched e)\<lparr>off_hours_mode := m\<rparr>\<rparr>)
      | Set_Holidays hs \<Rightarrow> Some (e\<lparr>sched := (sched e)\<lparr>holidays := hs\<rparr>\<rparr>)
      | _ \<Rightarrow> None)"

text \<open>
  One event of the panel and the schedule it sends, if any. Without the permission to write
  the editor only ignores the pointer, so its controls still work from the keyboard; a
  successful removal drops the draft, after which the effect runs.
\<close>

definition panel_step :: "bool \<Rightarrow> hours_panel \<Rightarrow> panel_event \<Rightarrow> hours_panel \<times> schedule option" where
  "panel_step can_write p ev =
     (case ev of
        Save \<Rightarrow>
          (case hp_draft p of
             Some e \<Rightarrow>
               (if can_write \<and> windows (sched e) \<noteq> [] \<and> \<not> hp_saving p
                then (p\<lparr>hp_saving := True\<rparr>, Some (sched e)) else (p, None))
           | None \<Rightarrow> (p, None))
      | Saved ok \<Rightarrow> (p\<lparr>hp_saving := False\<rparr>, None)
      | Remove \<Rightarrow>
          (if can_write \<and> hp_saved p \<noteq> None \<and> \<not> hp_removing p
           then (p\<lparr>hp_removing := True\<rparr>, None) else (p, None))
      | Removed ok \<Rightarrow>
          (if ok then (fill_draft (p\<lparr>hp_removing := False, hp_draft := None\<rparr>), None)
           else (p\<lparr>hp_removing := False\<rparr>, None))
      | Loaded s \<Rightarrow> (fill_draft (p\<lparr>hp_saved := s\<rparr>), None)
      | _ \<Rightarrow>
          (case editor_event ev (shown p) of
             Some e \<Rightarrow> (p\<lparr>hp_draft := Some e\<rparr>, None)
           | None \<Rightarrow> (p, None)))"

section \<open>Editing keeps the windows apart\<close>

text \<open>No two windows are the same object, and the next identity is unused.\<close>

definition editor_ok :: "editor \<Rightarrow> bool" where
  "editor_ok e \<longleftrightarrow>
     distinct (map wid (windows (sched e))) \<and> (\<forall>w\<in>set (windows (sched e)). wid w < next_id e)"

lemma windows_set_windows [simp]: "windows (sched (set_windows ws e)) = ws"
  by (simp add: set_windows_def)

lemma next_id_set_windows [simp]: "next_id (set_windows ws e) = next_id e"
  by (simp add: set_windows_def)

lemma copy_to_day_ids: "map wid (copy_to_day n d ws) = [n..<n + length ws]"
  by (induction n d ws rule: copy_to_day.induct) (simp_all add: upt_rec)

lemma copy_to_days_ids: "map wid (copy_to_days n ds ws) = [n..<n + length ds * length ws]"
proof (induction n ds ws rule: copy_to_days.induct)
  case (2 n d ds ws)
  have "[n..<n + (length ws + length ds * length ws)] =
      [n..<n + length ws] @ [n + length ws..<n + length ws + length ds * length ws]"
    using upt_add_eq_append [of n "n + length ws" "length ds * length ws"] by (simp add: add.assoc)
  with 2 show ?case by (simp add: copy_to_day_ids add.assoc)
qed simp

lemma editor_ok_ids:
  assumes "map wid (windows (sched e)) = [n..<m]" "m \<le> next_id e"
  shows "editor_ok e"
proof -
  have "wid w < next_id e" if "w \<in> set (windows (sched e))" for w
  proof -
    have "wid w \<in> set (map wid (windows (sched e)))" using that by simp
    then have "wid w < m" unfolding assms(1) by simp
    with assms(2) show ?thesis by simp
  qed
  then show ?thesis using assms(1) by (simp add: editor_ok_def)
qed

lemma toggle_day_ok: "editor_ok e \<Longrightarrow> editor_ok (toggle_day d e)"
  by (auto simp: editor_ok_def toggle_day_def Let_def distinct_map_filter less_Suc_eq
      split: list.splits)

lemma distinct_rename:
  "distinct xs \<Longrightarrow> \<forall>j\<in>set xs. j < (n::nat) \<Longrightarrow> distinct (map (\<lambda>j. if j = i then n else j) xs)"
  by (induction xs) auto

lemma rename_less:
  "\<forall>j\<in>set xs. j < (n::nat) \<Longrightarrow> \<forall>j\<in>set (map (\<lambda>j. if j = i then n else j) xs). j < Suc n"
  by (auto simp: less_Suc_eq)

lemma map_wid_update:
  "map wid (map (\<lambda>w. if wid w = i then (patch w)\<lparr>wid := n\<rparr> else w) ws) =
     map (\<lambda>j. if j = i then n else j) (map wid ws)"
  by (induction ws) simp_all

lemma update_window_ok: "editor_ok e \<Longrightarrow> editor_ok (update_window i patch e)"
proof -
  assume ok: "editor_ok e"
  let ?ws = "windows (sched e)" and ?n = "next_id e"
  have ids: "distinct (map wid ?ws)" "\<forall>j\<in>set (map wid ?ws). j < ?n"
    using ok by (simp_all add: editor_ok_def)
  have m: "map wid (windows (sched (update_window i patch e))) =
      map (\<lambda>j. if j = i then ?n else j) (map wid ?ws)"
  proof -
    have "windows (sched (update_window i patch e)) =
        map (\<lambda>w. if wid w = i then (patch w)\<lparr>wid := ?n\<rparr> else w) ?ws"
      by (simp add: update_window_def)
    then show ?thesis by (simp only: map_wid_update)
  qed
  have "distinct (map wid (windows (sched (update_window i patch e))))"
    unfolding m by (rule distinct_rename [OF ids])
  moreover have "\<forall>j\<in>set (map wid (windows (sched (update_window i patch e)))). j < Suc ?n"
    unfolding m by (rule rename_less [OF ids(2)])
  moreover have "next_id (update_window i patch e) = Suc ?n" by (simp add: update_window_def)
  ultimately show ?thesis by (simp only: editor_ok_def ball_simps set_map)
qed

lemma add_window_ok: "editor_ok e \<Longrightarrow> editor_ok (add_window d e)"
  by (auto simp: editor_ok_def add_window_def less_Suc_eq)

lemma remove_window_ok: "editor_ok e \<Longrightarrow> editor_ok (remove_window i e)"
  by (auto simp: editor_ok_def remove_window_def distinct_map_filter)

lemma apply_to_all_days_ok: "editor_ok e \<Longrightarrow> editor_ok (apply_to_all_days e)"
proof -
  assume ok: "editor_ok e"
  define source where "source = (if has_day (windows (sched e)) 1 then day_windows (windows (sched e)) 1
    else take 1 (windows (sched e)))"
  show ?thesis
  proof (cases "source = []")
    case True
    then have "apply_to_all_days e = e"
      unfolding apply_to_all_days_def Let_def source_def [symmetric] by simp
    with ok show ?thesis by simp
  next
    case False
    then have "apply_to_all_days e = (set_windows (copy_to_days (next_id e) weekdays source) e)
        \<lparr>next_id := next_id e + 5 * length source\<rparr>"
      unfolding apply_to_all_days_def Let_def source_def [symmetric] by simp
    moreover have "map wid (copy_to_days (next_id e) weekdays source) =
        [next_id e..<next_id e + 5 * length source]"
    proof -
      have "length weekdays = 5" by (simp add: weekdays_def)
      then show ?thesis by (simp only: copy_to_days_ids)
    qed
    ultimately show ?thesis
      by (intro editor_ok_ids [where m = "next_id e + 5 * length source"]) simp_all
  qed
qed

lemma editor_event_ok: "editor_ok e \<Longrightarrow> editor_event ev e = Some e' \<Longrightarrow> editor_ok e'"
  by (cases ev)
     (auto simp: editor_event_def toggle_day_ok update_window_ok add_window_ok remove_window_ok
        apply_to_all_days_ok split: list.splits if_splits, simp_all add: editor_ok_def)

lemma default_schedule_ok: "editor_ok (default_schedule tz)"
  by (simp add: editor_ok_def default_schedule_def weekdays_def)

lemma draft_of_saved_ok: "editor_ok (draft_of_saved s)"
proof (rule editor_ok_ids)
  let ?ws = "case sv_windows s of None \<Rightarrow> [] | Some w \<Rightarrow> w"
  have "map wid (map2 (\<lambda>i w. w\<lparr>wid := i\<rparr>) [0..<length ?ws] ?ws) = [0..<length ?ws]"
    by (rule nth_equalityI) auto
  then show "map wid (windows (sched (draft_of_saved s))) = [0..<length ?ws]"
    by (simp add: draft_of_saved_def Let_def)
  show "length ?ws \<le> next_id (draft_of_saved s)" by (simp add: draft_of_saved_def Let_def)
qed

definition panel_run :: "bool \<Rightarrow> panel_event list \<Rightarrow> hours_panel \<Rightarrow> hours_panel" where
  "panel_run can_write evs p = foldl (\<lambda>q ev. fst (panel_step can_write q ev)) p evs"

definition panel_start :: "string \<Rightarrow> hours_panel" where
  "panel_start tz =
     \<lparr>hp_draft = None, hp_saved = None, hp_org_timezone = tz, hp_saving = False, hp_removing = False\<rparr>"

lemma fill_draft_ok: "editor_ok (shown p) \<Longrightarrow> editor_ok (shown (fill_draft p))"
  by (auto simp: fill_draft_def shown_def draft_of_saved_ok split: option.splits)

lemma panel_step_ok:
  assumes "editor_ok (shown p)"
  shows "editor_ok (shown (fst (panel_step cw p ev)))"
proof -
  have edit: "editor_ok (shown (fst (case editor_event ev (shown p) of
      Some e \<Rightarrow> (p\<lparr>hp_draft := Some e\<rparr>, None) | None \<Rightarrow> (p, None))))"
    using assms editor_event_ok [OF assms] by (auto simp: shown_def split: option.splits)
  have saved: "editor_ok (shown (fill_draft (p\<lparr>hp_removing := False, hp_draft := None\<rparr>)))"
    by (intro fill_draft_ok) (simp add: shown_def default_schedule_ok)
  have loaded: "editor_ok (shown (fill_draft (p\<lparr>hp_saved := s\<rparr>)))" for s
  proof -
    have "shown (p\<lparr>hp_saved := s\<rparr>) = shown p" by (simp add: shown_def split: option.split)
    then show ?thesis using assms by (intro fill_draft_ok) simp
  qed
  show ?thesis
    using assms edit saved loaded by (cases ev) (auto simp: panel_step_def shown_def split: option.splits)
qed

lemma panel_run_ok: "editor_ok (shown (panel_run cw evs (panel_start tz)))"
proof -
  have "editor_ok (shown p) \<Longrightarrow> editor_ok (shown (panel_run cw evs p))" for p
    by (induction evs arbitrary: p) (simp_all add: panel_run_def panel_step_ok)
  then show ?thesis by (simp add: panel_start_def shown_def default_schedule_ok)
qed

section \<open>Properties of the editor\<close>

text \<open>What the user sees of a window: day, start and end.\<close>

definition hours :: "window \<Rightarrow> nat \<times> string \<times> string" where
  "hours w = (wday w, wstart w, wend w)"

text \<open>
  in every state that the panel can reach, editing the time of a window that is shown
  changes that window and no other: exactly its place in the list has the new time, although
  the editor finds the window by the identity of its object.
\<close>

theorem edit_changes_one_window:
  fixes cw evs tz
  defines "e \<equiv> shown (panel_run cw evs (panel_start tz))"
  assumes "k < length (windows (sched e))"
  shows "map hours (windows (sched (update_window (wid (windows (sched e) ! k)) (\<lambda>w. w\<lparr>wstart := t\<rparr>) e))) =
    (map hours (windows (sched e)))[k := (wday (windows (sched e) ! k), t, wend (windows (sched e) ! k))]"
proof -
  have ok: "editor_ok e" unfolding e_def by (rule panel_run_ok)
  then have dist: "distinct (map wid (windows (sched e)))" by (simp add: editor_ok_def)
  show ?thesis
  proof (rule nth_equalityI)
    fix j
    assume "j < length (map hours (windows (sched
      (update_window (wid (windows (sched e) ! k)) (\<lambda>w. w\<lparr>wstart := t\<rparr>) e))))"
    then have j: "j < length (windows (sched e))" by (simp add: update_window_def)
    have "wid (windows (sched e) ! j) = wid (windows (sched e) ! k) \<longleftrightarrow> j = k"
      using dist j assms(2) by (metis length_map nth_eq_iff_index_eq nth_map)
    then show "map hours (windows (sched
        (update_window (wid (windows (sched e) ! k)) (\<lambda>w. w\<lparr>wstart := t\<rparr>) e))) ! j =
      (map hours (windows (sched e)))[k := (wday (windows (sched e) ! k), t, wend (windows (sched e) ! k))] ! j"
      using j assms(2) by (auto simp: update_window_def hours_def nth_list_update)
  qed (simp add: update_window_def)
qed

theorem edit_changes_one_window_witness:
  "map hours (windows (sched (update_window 3 (\<lambda>w. w\<lparr>wstart := ''08:00''\<rparr>)
     (shown (panel_run True [] (panel_start ''UTC'')))))) =
   [(1, ''10:00'', ''19:00''), (2, ''10:00'', ''19:00''), (3, ''08:00'', ''19:00''),
    (4, ''10:00'', ''19:00''), (5, ''10:00'', ''19:00'')]"
  using edit_changes_one_window [of 2 True "[]" "''UTC''" "''08:00''"]
  by (simp add: panel_run_def panel_start_def shown_def default_schedule_def weekdays_def hours_def)

text \<open>
  switching a day on or off changes that day and leaves the windows of every other day
  as they are; switching an idle day on and off again gives back the list of windows.
\<close>

theorem toggle_day_spec:
  "has_day (windows (sched (toggle_day d e))) d = (\<not> has_day (windows (sched e)) d) \<and>
   (if c = d then True
    else day_windows (windows (sched (toggle_day d e))) c = day_windows (windows (sched e)) c) \<and>
   (if has_day (windows (sched e)) d then True
    else windows (sched (toggle_day d (toggle_day d e))) = windows (sched e))"
proof -
  have idle: "filter (\<lambda>w. wday w \<noteq> d) ws = ws" if "\<not> has_day ws d" for ws
    using that by (auto simp: has_day_def day_windows_def filter_empty_conv intro: filter_True)
  have other: "filter (\<lambda>w. wday w = c) (filter (\<lambda>w. wday w \<noteq> d) ws) = filter (\<lambda>w. wday w = c) ws"
    if "c \<noteq> d" for ws using that by (induction ws) auto
  show ?thesis
    using idle [of "windows (sched e)"] other
    by (auto simp: toggle_day_def Let_def has_day_def day_windows_def split: prod.splits list.splits)
qed

lemma day_windows_copy_to_day:
  "day_windows (copy_to_day n d ws) c = (if c = d then copy_to_day n d ws else [])"
  by (induction n d ws rule: copy_to_day.induct) (auto simp: day_windows_def)

lemma day_windows_append: "day_windows (a @ b) d = day_windows a d @ day_windows b d"
  by (simp add: day_windows_def)

lemma copy_to_day_times:
  "map (\<lambda>w. (wstart w, wend w)) (copy_to_day n d ws) = map (\<lambda>w. (wstart w, wend w)) ws"
  by (induction n d ws rule: copy_to_day.induct) simp_all

text \<open>
  "Copy Monday to weekdays" gives each of the five weekdays the hours of Monday and
  leaves no window on any other day: the hours of a Saturday or Sunday that was switched on
  are lost.
\<close>

theorem copy_monday_spec:
  assumes "has_day (windows (sched e)) 1"
  shows "map (\<lambda>w. (wstart w, wend w)) (day_windows (windows (sched (apply_to_all_days e))) d) =
    (if d \<in> set weekdays then map (\<lambda>w. (wstart w, wend w)) (day_windows (windows (sched e)) 1) else [])"
proof -
  have "day_windows (windows (sched e)) 1 \<noteq> []" using assms by (simp add: has_day_def)
  then have "windows (sched (apply_to_all_days e)) =
      copy_to_days (next_id e) weekdays (day_windows (windows (sched e)) 1)"
    using assms by (simp add: apply_to_all_days_def Let_def)
  then show ?thesis
    by (auto simp: weekdays_def day_windows_append day_windows_copy_to_day copy_to_day_times)
qed

theorem copy_monday_spec_witness:
  "map (\<lambda>w. (wstart w, wend w)) (day_windows (windows (sched (apply_to_all_days
     (toggle_day 6 (default_schedule ''UTC''))))) 6) = []"
proof -
  have "has_day (windows (sched (toggle_day 6 (default_schedule ''UTC'')))) 1" by code_simp
  from copy_monday_spec [OF this, of 6] show ?thesis by (simp add: weekdays_def)
qed

lemma unique_window:
  assumes "editor_ok e" "w \<in> set (windows (sched e))"
  shows "filter (\<lambda>v. wid v = wid w) (windows (sched e)) = [w]"
proof -
  have "distinct (map wid ws) \<Longrightarrow> w \<in> set ws \<Longrightarrow> filter (\<lambda>v. wid v = wid w) ws = [w]" for ws
    by (induction ws) (auto simp: filter_empty_conv intro: rev_image_eqI)
  then show ?thesis using assms by (simp add: editor_ok_def)
qed

lemma remove_keeps_day:
  assumes "editor_ok e" "w \<in> set (windows (sched e))" "can_remove e w"
  shows "has_day (windows (sched (remove_window (wid w) e))) (wday w)"
proof (rule ccontr)
  let ?ws = "windows (sched e)"
  assume "\<not> has_day (windows (sched (remove_window (wid w) e))) (wday w)"
  then have "\<forall>v\<in>set ?ws. wday v = wday w \<longrightarrow> wid v = wid w"
    by (auto simp: has_day_def day_windows_def remove_window_def filter_empty_conv)
  then have "day_windows ?ws (wday w) = filter (\<lambda>v. wday v = wday w) (filter (\<lambda>v. wid v = wid w) ?ws)"
    by (auto simp: day_windows_def intro: filter_cong)
  then have "length (day_windows ?ws (wday w)) \<le> 1"
    using unique_window [OF assms(1,2)] by simp
  with assms(3) show False by (simp add: can_remove_def)
qed

text \<open>
  a schedule leaves the panel only on a click by someone who may write, with at least
  one window, and only when no other save is under way; and in every state that the panel
  can reach, removing a window never removes the last one of its day.
\<close>

theorem saved_schedule_guard:
  "(case panel_step cw p ev of
      (p', Some s) \<Rightarrow> ev = Save \<and> cw \<and> windows s \<noteq> [] \<and> \<not> hp_saving p \<and> hp_saving p' \<and>
        sched (shown p) = s
    | (p', None) \<Rightarrow> True) \<and>
   (let e = shown (panel_run cw evs (panel_start tz))
    in list_all (\<lambda>w. case editor_event (Remove_Window (wid w)) e of
         Some e' \<Rightarrow> has_day (windows (sched e')) (wday w) | None \<Rightarrow> True) (windows (sched e)))"
proof (intro conjI)
  show "case panel_step cw p ev of
      (p', Some s) \<Rightarrow> ev = Save \<and> cw \<and> windows s \<noteq> [] \<and> \<not> hp_saving p \<and> hp_saving p' \<and>
        sched (shown p) = s
    | (p', None) \<Rightarrow> True"
    by (cases ev) (auto simp: panel_step_def shown_def split: option.splits)
  have ok: "editor_ok (shown (panel_run cw evs (panel_start tz)))" by (rule panel_run_ok)
  show "let e = shown (panel_run cw evs (panel_start tz))
    in list_all (\<lambda>w. case editor_event (Remove_Window (wid w)) e of
         Some e' \<Rightarrow> has_day (windows (sched e')) (wday w) | None \<Rightarrow> True) (windows (sched e))"
    using remove_keeps_day [OF ok] unique_window [OF ok]
    by (auto simp: Let_def list_all_iff editor_event_def)
qed

text \<open>
  after "Remove schedule" succeeds the editor still holds the schedule that was
  removed, because the effect that fills an empty draft runs before the saved schedule is
  fetched again, and it keeps it when the answer says there is none.
\<close>

theorem removed_schedule_stays:
  assumes "hp_saved p = Some s"
  shows "hp_draft (fst (panel_step cw (fst (panel_step cw p (Removed True))) (Loaded None))) =
    Some (draft_of_saved s)"
  using assms by (simp add: panel_step_def fill_draft_def)

theorem removed_schedule_stays_witness:
  "hp_draft (fst (panel_step True (fst (panel_step True
     ((panel_start ''UTC'')\<lparr>hp_saved := Some \<lparr>sv_timezone = ''UTC'', sv_windows = None, sv_holidays = None,
        sv_mode = None, sv_enabled = None\<rparr>\<rparr>) (Removed True))) (Loaded None))) \<noteq> None"
  using removed_schedule_stays [of "(panel_start ''UTC'')\<lparr>hp_saved := Some \<lparr>sv_timezone = ''UTC'',
      sv_windows = None, sv_holidays = None, sv_mode = None, sv_enabled = None\<rparr>\<rparr>"]
  by simp

text \<open>The list of holidays stays sorted and without repetition.\<close>

lemma holidays_sorted:
  "sorted hs \<Longrightarrow> distinct hs \<Longrightarrow>
   sorted (fst (add_holiday d hs)) \<and> distinct (fst (add_holiday d hs)) \<and>
   sorted (remove_holiday h hs) \<and> distinct (remove_holiday h hs)"
  by (auto simp: add_holiday_def remove_holiday_def Let_def sorted_wrt_filter)

end
