(* ===== verification/Website_Forms.thy ===== *)
theory Website_Forms
  imports Prelude
begin

text \<open>
  The public forms of the website (\<^verbatim>\<open>app/api/contact/route.ts\<close> and
  \<^verbatim>\<open>app/api/waitlist/route.ts\<close>): validation, the honeypot, the limit per visitor and the
  forwarding to the admin API, and the proxy that keeps the prelaunch domain to the
  waitlist page (\<^verbatim>\<open>proxy.ts\<close>).
\<close>

section \<open>The limit per visitor\<close>

type_synonym hits = "(string \<times> int list) list"

definition window_ms :: int where
  "window_ms = 10 * 60 * 1000"

definition hit_limit :: nat where
  "hit_limit = 5"

definition hit_times :: "hits \<Rightarrow> string \<Rightarrow> int list" where
  "hit_times h ip = (case map_of h ip of None \<Rightarrow> [] | Some ts \<Rightarrow> ts)"

definition limited :: "string \<Rightarrow> int \<Rightarrow> hits \<Rightarrow> bool \<times> hits" where
  "limited ip now h =
     (let recent = filter (\<lambda>t. now - t < window_ms) (hit_times h ip) @ [now];
          h1 = obj_put h ip recent;
          h2 = (if length h1 > 5000 then [] else h1)
      in (length recent > hit_limit, h2))"

section \<open>The requests\<close>

text \<open>
  A request as the handler reads it: the parsed body (None when it is not JSON) and the
  headers it looks at.
\<close>

record form_request =
  fr_body :: "jsval option"
  fr_cf_ip :: "string option"
  fr_forwarded :: "string option"
  fr_agent :: "string option"

record form_response =
  fs_status :: nat
  fs_error :: string

definition form_ok :: form_response where
  "form_ok = \<lparr>fs_status = 200, fs_error = []\<rparr>"

definition form_error :: "nat \<Rightarrow> string \<Rightarrow> form_response" where
  "form_error st e = \<lparr>fs_status = st, fs_error = e\<rparr>"

definition text_of :: "string option \<Rightarrow> string" where
  "text_of v = (case v of None \<Rightarrow> [] | Some s \<Rightarrow> s)"

text \<open>The address of the visitor: Cloudflare's header, or the first of the forwarded ones.\<close>

definition visitor_ip :: "form_request \<Rightarrow> string" where
  "visitor_ip r =
     trim (if text_of (fr_cf_ip r) \<noteq> [] then text_of (fr_cf_ip r)
           else (case fr_forwarded r of None \<Rightarrow> [] | Some f \<Rightarrow> hd (split_on (CHR '','') f)))"

definition pick :: "nat \<Rightarrow> jsval \<Rightarrow> string \<Rightarrow> string" where
  "pick mx body k = take mx (trim (js_to_string (or_nullish (jget body k) (JStr []))))"

text \<open>\<open>/^[^\s@]+@[^\s@]+\.[^\s@]+$/\<close>: one at sign, and a dot inside what follows it.\<close>

definition email_ok :: "string \<Rightarrow> bool" where
  "email_ok e =
     (case split_on (CHR ''@'') e of
        [a, b] \<Rightarrow>
          a \<noteq> [] \<and> list_all (\<lambda>c. \<not> is_ws c) a \<and> list_all (\<lambda>c. \<not> is_ws c) b \<and>
          3 \<le> length b \<and> CHR ''.'' \<in> set (butlast (tl b))
      | _ \<Rightarrow> False)"

definition honeypot :: "jsval \<Rightarrow> bool" where
  "honeypot body = (trim (js_to_string (or_nullish (jget body ''website'') (JStr []))) \<noteq> [])"

definition contact_lead :: "form_request \<Rightarrow> jsval \<Rightarrow> (string \<times> string) list" where
  "contact_lead r body =
     [(''name'', pick 4000 body ''name''), (''email'', pick 4000 body ''email''),
      (''company'', pick 4000 body ''company''), (''devices'', pick 4000 body ''devices''),
      (''message'', pick 4000 body ''message''),
      (''source'', (let s = pick 4000 body ''source'' in if s = [] then ''/contact'' else s)),
      (''ip_address'', visitor_ip r), (''user_agent'', take 500 (text_of (fr_agent r)))]"

definition waitlist_entry :: "form_request \<Rightarrow> jsval \<Rightarrow> (string \<times> string) list" where
  "waitlist_entry r body =
     [(''name'', pick 300 body ''name''), (''email'', pick 300 body ''email''),
      (''company'', pick 300 body ''company''), (''team_size'', pick 300 body ''team_size''),
      (''role'', pick 300 body ''role''),
      (''source'', (let s = pick 300 body ''source'' in if s = [] then ''/waitlist'' else s)),
      (''ip_address'', visitor_ip r), (''user_agent'', take 500 (text_of (fr_agent r)))]"

definition lead_field :: "(string \<times> string) list \<Rightarrow> string \<Rightarrow> string" where
  "lead_field l k = (case map_of l k of None \<Rightarrow> [] | Some v \<Rightarrow> v)"

text \<open>
  A handler. The admin API answers a forwarded lead with a status, or the connection fails
  (None). The result is the response, or the error of a body that is null, whose property is
  read outside every \<open>try\<close>; then the table of hits and the lead that was sent.
\<close>

type_synonym handler_result = "(exn + form_response) \<times> hits \<times> (string \<times> string) list option"

definition contact_post ::
  "((string \<times> string) list \<Rightarrow> nat option) \<Rightarrow> int \<Rightarrow> form_request \<Rightarrow> hits \<Rightarrow> handler_result" where
  "contact_post forward now r h =
     (case fr_body r of
        None \<Rightarrow> (Inr (form_error 400 ''invalid json''), h, None)
      | Some body \<Rightarrow>
          (case jread body ''website'' of
             Inl e \<Rightarrow> (Inl e, h, None)
           | Inr _ \<Rightarrow>
               if honeypot body then (Inr form_ok, h, None)
               else
                 (let ip = visitor_ip r;
                      (over, h') = limited (if ip = [] then ''unknown'' else ip) now h;
                      lead = contact_lead r body
                  in if over
                       then (Inr (form_error 429 ''Too many requests. Please try again in a few minutes.''), h', None)
                     else if lead_field lead ''name'' = [] \<or> lead_field lead ''company'' = [] \<or>
                             \<not> email_ok (lead_field lead ''email'')
                       then (Inr (form_error 422 ''missing fields''), h', None)
                     else
                       (case forward lead of
                          Some st \<Rightarrow>
                            (if st < 200 \<or> 300 \<le> st
                             then (Inr (form_error 500 ''Could not send your request. Please try again.''), h', Some lead)
                             else (Inr form_ok, h', Some lead))
                        | None \<Rightarrow>
                            (Inr (form_error 500 ''Could not send your request. Please try again.''), h', Some lead)))))"

definition waitlist_post ::
  "((string \<times> string) list \<Rightarrow> nat option) \<Rightarrow> int \<Rightarrow> form_request \<Rightarrow> hits \<Rightarrow> handler_result" where
  "waitlist_post forward now r h =
     (case fr_body r of
        None \<Rightarrow> (Inr (form_error 400 ''invalid json''), h, None)
      | Some body \<Rightarrow>
          (case jread body ''website'' of
             Inl e \<Rightarrow> (Inl e, h, None)
           | Inr _ \<Rightarrow>
               if honeypot body then (Inr form_ok, h, None)
               else
                 (let ip = visitor_ip r;
                      (over, h') = limited (if ip = [] then ''unknown'' else ip) now h;
                      entry = waitlist_entry r body
                  in if over
                       then (Inr (form_error 429 ''Too many sign-ups from here. Please try again in a few minutes.''), h', None)
                     else if lead_field entry ''name'' = [] \<or> lead_field entry ''company'' = [] \<or>
                             \<not> email_ok (lead_field entry ''email'')
                       then (Inr (form_error 422 ''Please fill in your name, work email and company.''), h', None)
                     else
                       (case forward entry of
                          Some st \<Rightarrow>
                            (if st < 200 \<or> 300 \<le> st
                             then (Inr (form_error 500 ''Could not add you to the list. Please try again.''), h', Some entry)
                             else (Inr form_ok, h', Some entry))
                        | None \<Rightarrow>
                            (Inr (form_error 500 ''Could not add you to the list. Please try again.''), h', Some entry)))))"

section \<open>The proxy of the prelaunch domain\<close>

datatype proxy_result = Next | Redirect string

text \<open>\<open>/^\/[^/]+\.(png|svg|ico|webmanifest|txt|xml)$/\<close>: a file at the root.\<close>

definition root_file :: "string \<Rightarrow> bool" where
  "root_file p =
     (starts_with p ''/'' \<and> CHR ''/'' \<notin> set (tl p) \<and>
      list_ex (\<lambda>x. ends_with p (CHR ''.'' # x) \<and> length x + 2 < length p)
        [''png'', ''svg'', ''ico'', ''webmanifest'', ''txt'', ''xml''])"

definition allowed_path :: "string \<Rightarrow> bool" where
  "allowed_path p =
     (p = ''/waitlist'' \<or> p = ''/waitlist/'' \<or> p = ''/api/waitlist'' \<or> p = ''/api/waitlist/'' \<or>
      starts_with p ''/_next/'' \<or> starts_with p ''/brand/'' \<or> starts_with p ''/images/'' \<or>
      root_file p \<or> starts_with p ''/opengraph-image'')"

definition legal_paths :: "string list" where
  "legal_paths =
     [''/privacy-policy'', ''/terms-and-conditions'', ''/cookie-policy'', ''/acceptable-use-policy'']"

definition proxy :: "string option \<Rightarrow> string \<Rightarrow> proxy_result" where
  "proxy host_header path =
     (let host = to_lower (hd (split_on (CHR '':'') (text_of host_header)))
      in if \<not> (host = ''aavishield.com'' \<or> host = ''www.aavishield.com'') then Next
         else if allowed_path path then Next
         else if path \<in> set legal_paths then Redirect (''https://website.aavishield.com'' @ path)
         else Redirect (''https://'' @ host @ ''/waitlist''))"

section \<open>A limiter over a sliding window\<close>

text \<open>
  What a limiter promises: for the visitor it serves, it remembers the times still inside
  the window and the present one, refuses when they are too many, and leaves the times of
  the others alone. A step that throws the table away does not \<open>keep\<close> it.
\<close>

locale rate_limiter =
  fixes hit :: "string \<Rightarrow> int \<Rightarrow> 's \<Rightarrow> bool \<times> 's"
    and seen :: "'s \<Rightarrow> string \<Rightarrow> int list"
    and keeps :: "string \<Rightarrow> int \<Rightarrow> 's \<Rightarrow> bool"
    and width :: int
    and most :: nat
  assumes refused: "fst (hit ip now s) = (most < Suc (length (filter (\<lambda>t. now - t < width) (seen s ip))))"
    and seen_hit: "keeps ip now s \<Longrightarrow>
      seen (snd (hit ip now s)) =
        (seen s)(ip := filter (\<lambda>t. now - t < width) (seen s ip) @ [now])"
    and width_pos: "0 < width"
begin

text \<open>The times at which requests of a visitor were let through, over a list of requests.\<close>

fun admitted :: "string \<Rightarrow> (string \<times> int) list \<Rightarrow> 's \<Rightarrow> int list" where
  "admitted who [] s = []"
| "admitted who ((ip, now) # rs) s =
     (let (over, s') = hit ip now s
      in (if ip = who \<and> \<not> over then now # admitted who rs s' else admitted who rs s'))"

fun all_kept :: "(string \<times> int) list \<Rightarrow> 's \<Rightarrow> bool" where
  "all_kept [] s = True"
| "all_kept ((ip, now) # rs) s = (keeps ip now s \<and> all_kept rs (snd (hit ip now s)))"

lemma recent_mono:
  "a \<le> b \<Longrightarrow> filter (\<lambda>t. b - t < width) (filter (\<lambda>t. a - t < width) xs) = filter (\<lambda>t. b - t < width) xs"
  by (induction xs) auto

text \<open>
  The general form: \<open>past\<close> are the times already admitted, of which those in the window are
  remembered; then among all admitted times any \<open>most\<close> + 1 in a row span the width.
\<close>

definition spaced :: "int list \<Rightarrow> bool" where
  "spaced xs \<longleftrightarrow> (\<forall>k. k + most < length xs \<longrightarrow> width \<le> xs ! (k + most) - xs ! k)"

lemma spaced_snoc:
  assumes "spaced xs" "sorted (xs @ [x])" "length (filter (\<lambda>t. x - t < width) xs) < most"
  shows "spaced (xs @ [x])"
  unfolding spaced_def
proof (intro allI impI)
  fix k
  assume k: "k + most < length (xs @ [x])"
  show "width \<le> (xs @ [x]) ! (k + most) - (xs @ [x]) ! k"
  proof (cases "k + most < length xs")
    case True
    then show ?thesis using assms(1) by (simp add: spaced_def nth_append)
  next
    case False
    then have km: "k + most = length xs" using k by simp
    have mp: "0 < most" using assms(3) by linarith
    show ?thesis
    proof (rule ccontr)
      assume "\<not> ?thesis"
      then have close: "x - xs ! k < width" using km mp by (simp add: nth_append)
      have srt: "sorted xs" using assms(2) by (simp add: sorted_append)
      have "\<forall>t\<in>set (drop k xs). x - t < width"
      proof
        fix t assume "t \<in> set (drop k xs)"
        then obtain j where j: "j < length (drop k xs)" "t = drop k xs ! j" by (metis in_set_conv_nth)
        have "xs ! k \<le> xs ! (k + j)" using srt j(1) by (intro sorted_nth_mono) auto
        then show "x - t < width" using close j by simp
      qed
      then have "length (drop k xs) \<le> length (filter (\<lambda>t. x - t < width) xs)"
        by (metis append_take_drop_id filter_True filter_append le_add2 length_append)
      then show False using assms(3) km by simp
    qed
  qed
qed

lemma admitted_spaced:
  assumes "sorted (map snd rs)" "all_kept rs s" "spaced past" "sorted past"
    "\<forall>t\<in>set past. \<forall>r\<in>set rs. t \<le> snd r"
    "\<forall>r\<in>set rs. subseq (filter (\<lambda>t. snd r - t < width) past) (filter (\<lambda>t. snd r - t < width) (seen s who))"
  shows "spaced (past @ admitted who rs s)"
  using assms
proof (induction rs arbitrary: s past)
  case Nil
  then show ?case by simp
next
  case (Cons r rs)
  obtain ip now where r: "r = (ip, now)" by fastforce
  let ?s = "snd (hit ip now s)"
  have kept: "keeps ip now s" "all_kept rs ?s" using Cons.prems(2) r by simp_all
  have later: "\<forall>q\<in>set rs. now \<le> snd q" using Cons.prems(1) r by simp
  have srt: "sorted (map snd rs)" using Cons.prems(1) r by simp
  have sub: "subseq (filter (\<lambda>t. now - t < width) past) (filter (\<lambda>t. now - t < width) (seen s who))"
    using Cons.prems(6) r by simp
  have seen: "seen ?s = (seen s)(ip := filter (\<lambda>t. now - t < width) (seen s ip) @ [now])"
    by (rule seen_hit [OF kept(1)])
  have keep: "\<forall>q\<in>set rs. subseq (filter (\<lambda>t. snd q - t < width) past)
      (filter (\<lambda>t. snd q - t < width) (seen ?s who))"
  proof
    fix q assume q: "q \<in> set rs"
    have base: "subseq (filter (\<lambda>t. snd q - t < width) past) (filter (\<lambda>t. snd q - t < width) (seen s who))"
      using Cons.prems(6) q by simp
    show "subseq (filter (\<lambda>t. snd q - t < width) past) (filter (\<lambda>t. snd q - t < width) (seen ?s who))"
    proof (cases "ip = who")
      case True
      then show ?thesis
        using base recent_mono [of now "snd q" "seen s who"] later q
        unfolding seen by (auto intro: list_emb_append2 subseq_order.trans)
    next
      case False
      then show ?thesis using base unfolding seen by simp
    qed
  qed
  show ?case
  proof (cases "ip = who \<and> \<not> fst (hit ip now s)")
    case False
    then have "admitted who (r # rs) s = admitted who rs ?s"
      using r by (auto simp: Let_def split_beta)
    then show ?thesis
      using Cons.IH [OF srt kept(2) Cons.prems(3,4)] Cons.prems(5) keep by simp
  next
    case True
    then have adm: "admitted who (r # rs) s = now # admitted who rs ?s"
      using r by (auto simp: Let_def split_beta)
    have few: "Suc (length (filter (\<lambda>t. now - t < width) (seen s who))) \<le> most"
      using True refused [of ip now s] by (metis not_less)
    have "length (filter (\<lambda>t. now - t < width) past) < most"
      using list_emb_length [OF sub] few by linarith
    moreover have sp: "sorted (past @ [now])" using Cons.prems(4,5) r by (simp add: sorted_append)
    ultimately have spaced: "spaced (past @ [now])" by (intro spaced_snoc Cons.prems(3))
    have "\<forall>q\<in>set rs. subseq (filter (\<lambda>t. snd q - t < width) (past @ [now]))
        (filter (\<lambda>t. snd q - t < width) (seen ?s who))"
    proof
      fix q assume q: "q \<in> set rs"
      have le: "now \<le> snd q" using later q by simp
      have "subseq (filter (\<lambda>t. snd q - t < width) past) (filter (\<lambda>t. snd q - t < width) (seen s who))"
        using Cons.prems(6) q by simp
      then show "subseq (filter (\<lambda>t. snd q - t < width) (past @ [now]))
          (filter (\<lambda>t. snd q - t < width) (seen ?s who))"
        using True recent_mono [OF le, of "seen s who"] unfolding seen
        by (simp add: list_emb_append_mono)
    qed
    then have "spaced ((past @ [now]) @ admitted who rs ?s)"
      using Cons.IH [OF srt kept(2) spaced sp] Cons.prems(5) later by auto
    then show ?thesis using adm by simp
  qed
qed

end

lemma length_obj_put: "length (obj_put ps k v) = (if k \<in> fst ` set ps then length ps else Suc (length ps))"
  by (induction ps k v rule: obj_put.induct) simp_all

lemma keys_obj_put: "fst ` set (obj_put ps k v) = insert k (fst ` set ps)"
  by (induction ps k v rule: obj_put.induct) (simp_all add: insert_commute)

lemma distinct_obj_put: "distinct (map fst ps) \<Longrightarrow> distinct (map fst (obj_put ps k v))"
  by (induction ps) (auto simp: keys_obj_put)

definition table_kept :: "string \<Rightarrow> int \<Rightarrow> hits \<Rightarrow> bool" where
  "table_kept ip now h = (length (obj_put h ip [now]) \<le> 5000)"

interpretation form_limit: rate_limiter limited hit_times table_kept window_ms hit_limit
proof
  show "fst (limited ip now s) =
      (hit_limit < Suc (length (filter (\<lambda>t. now - t < window_ms) (hit_times s ip))))" for ip now s
    by (simp add: limited_def Let_def)
  show "hit_times (snd (limited ip now s)) =
      (hit_times s)(ip := filter (\<lambda>t. now - t < window_ms) (hit_times s ip) @ [now])"
    if "table_kept ip now s" for ip now s
    using that
    by (auto simp: limited_def Let_def table_kept_def length_obj_put hit_times_def fun_eq_iff split: if_splits)
  show "0 < window_ms" by (simp add: window_ms_def)
qed

lemma limited_keys:
  assumes "table_kept ip now h"
  shows "fst ` set (snd (limited ip now h)) = insert ip (fst ` set h)"
    "distinct (map fst h) \<Longrightarrow> distinct (map fst (snd (limited ip now h)))"
  using assms by (auto simp: limited_def Let_def table_kept_def length_obj_put keys_obj_put
      distinct_obj_put split: if_splits)

text \<open>With at most 5000 visitors the table is never thrown away.\<close>

lemma few_visitors_kept:
  "distinct (map fst h) \<Longrightarrow> finite V \<Longrightarrow> card V \<le> 5000 \<Longrightarrow> fst ` set h \<subseteq> V \<Longrightarrow> fst ` set rs \<subseteq> V \<Longrightarrow>
   form_limit.all_kept rs h"
proof (induction rs arbitrary: h)
  case Nil
  then show ?case by simp
next
  case (Cons r rs)
  obtain ip now where r: "r = (ip, now)" by fastforce
  have d: "distinct (map fst (obj_put h ip [now]))" by (rule distinct_obj_put [OF Cons.prems(1)])
  have "length (obj_put h ip [now]) = card (fst ` set (obj_put h ip [now]))"
    using distinct_card [OF d] by simp
  also have "\<dots> \<le> card V"
    using Cons.prems r by (intro card_mono) (auto simp: keys_obj_put)
  finally have kept: "table_kept ip now h" using Cons.prems(3) by (simp add: table_kept_def)
  have "form_limit.all_kept rs (snd (limited ip now h))"
  proof (rule Cons.IH)
    show "distinct (map fst (snd (limited ip now h)))" by (rule limited_keys(2) [OF kept Cons.prems(1)])
    show "fst ` set (snd (limited ip now h)) \<subseteq> V"
      unfolding limited_keys(1) [OF kept] using Cons.prems(4,5) r by simp
  qed (use Cons.prems in auto)
  with kept r show ?case by simp
qed

text \<open>
  The times at which one visitor's submissions get through, when the requests of all visitors
  come in this order.
\<close>

fun accepted_times :: "string \<Rightarrow> (string \<times> int) list \<Rightarrow> hits \<Rightarrow> int list" where
  "accepted_times who [] h = []"
| "accepted_times who ((ip, now) # rs) h =
     (let (over, h') = limited ip now h
      in (if ip = who \<and> \<not> over then now # accepted_times who rs h' else accepted_times who rs h'))"

lemma accepted_admitted: "form_limit.admitted who rs h = accepted_times who rs h"
  by (induction rs arbitrary: h) (auto simp: Let_def split_beta)

text \<open>
  C37: the limit of the two public forms: as long as no more than 5000 visitors are known,
  any six submissions that one visitor gets through span at least ten minutes, for every
  sequence of requests of all visitors in the order of time.
\<close>

theorem six_submissions_span_window:
  assumes "sorted (map snd rs)" "card (fst ` set rs) \<le> 5000"
    "k + 5 < length (accepted_times who rs [])"
  shows "10 * 60 * 1000 \<le> accepted_times who rs [] ! (k + 5) - accepted_times who rs [] ! k"
proof -
  have "form_limit.all_kept rs []"
    using assms(2) by (intro few_visitors_kept [where V = "fst ` set rs"]) auto
  then have "form_limit.spaced ([] @ form_limit.admitted who rs [])"
    using assms(1) by (intro form_limit.admitted_spaced) (auto simp: form_limit.spaced_def)
  then have "window_ms \<le> accepted_times who rs [] ! (k + hit_limit) - accepted_times who rs [] ! k"
    using assms(3) unfolding form_limit.spaced_def by (simp add: hit_limit_def accepted_admitted)
  then show ?thesis by (simp add: hit_limit_def window_ms_def)
qed

text \<open>Twenty attempts, a minute apart.\<close>

definition minute_attempts :: "(string \<times> int) list" where
  "minute_attempts = map (\<lambda>i. (''198.51.100.7'', 60000 * int i)) [0..<20]"

theorem six_submissions_span_window_witness:
  "(let A = accepted_times ''a'' [(''a'', 0), (''a'', 1), (''a'', 2), (''a'', 3), (''a'', 4), (''a'', 600000)] []
    in 10 * 60 * 1000 \<le> A ! (0 + 5) - A ! 0)"
proof -
  let ?rs = "[(''a'', 0), (''a'', 1), (''a'', 2), (''a'', 3), (''a'', 4), (''a'', 600000::int)]"
  have "length (accepted_times ''a'' ?rs []) = 6"
    by (simp add: limited_def hit_times_def window_ms_def hit_limit_def Let_def)
  then show ?thesis
    using six_submissions_span_window [of ?rs 0 "''a''"] by (simp add: Let_def)
qed

text \<open>
  attempts that are refused count as well: a visitor who tries once a minute for twenty
  minutes gets the first five through and none after, although the limit is documented as
  five submissions per ten minutes.
\<close>

theorem refused_attempts_count:
  "accepted_times ''198.51.100.7'' minute_attempts [] = [0, 60000, 120000, 180000, 240000]"
  by (simp add: minute_attempts_def upt_rec limited_def hit_times_def window_ms_def hit_limit_def Let_def)

section \<open>What the handlers forward\<close>

lemma length_pick: "length (pick mx b k) \<le> mx"
  by (simp add: pick_def)

text \<open>
  The shape that both handlers share: parse, honeypot, limit, validation, forwarding.
\<close>

definition forwarded_ok ::
  "nat \<Rightarrow> ((string \<times> string) list \<Rightarrow> nat option) \<Rightarrow> int \<Rightarrow> form_request \<Rightarrow> hits \<Rightarrow> handler_result \<Rightarrow> bool" where
  "forwarded_ok mx forward now r h result \<longleftrightarrow>
     (case result of (res, h', sent) \<Rightarrow>
       (case sent of
          None \<Rightarrow> (if res = Inr form_ok then \<exists>b. fr_body r = Some b \<and> honeypot b else True)
        | Some l \<Rightarrow>
            lead_field l ''name'' \<noteq> [] \<and> lead_field l ''company'' \<noteq> [] \<and> email_ok (lead_field l ''email'') \<and>
            length (lead_field l ''name'') \<le> mx \<and> length (lead_field l ''email'') \<le> mx \<and>
            length (lead_field l ''user_agent'') \<le> 500 \<and>
            (\<exists>b. fr_body r = Some b \<and> \<not> honeypot b) \<and>
            \<not> fst (limited (if visitor_ip r = [] then ''unknown'' else visitor_ip r) now h) \<and>
            (if res = Inr form_ok then \<exists>st. forward l = Some st \<and> 200 \<le> st \<and> st < 300 else True)))"

lemma form_error_not_ok [simp]: "st \<noteq> 200 \<Longrightarrow> form_error st e \<noteq> form_ok"
  by (simp add: form_error_def form_ok_def)

lemma forwarded_ok_None:
  "res \<noteq> Inr form_ok \<Longrightarrow> forwarded_ok mx forward now r h (res, h', None)"
  by (simp add: forwarded_ok_def)

lemma forwarded_ok_Some:
  assumes "fr_body r = Some b" "\<not> honeypot b"
    "\<not> fst (limited (if visitor_ip r = [] then ''unknown'' else visitor_ip r) now h)"
    "lead_field l ''name'' \<noteq> []" "lead_field l ''company'' \<noteq> []" "email_ok (lead_field l ''email'')"
    "length (lead_field l ''name'') \<le> mx" "length (lead_field l ''email'') \<le> mx"
    "length (lead_field l ''user_agent'') \<le> 500"
    "res = Inr form_ok \<Longrightarrow> \<exists>st. forward l = Some st \<and> 200 \<le> st \<and> st < 300"
  shows "forwarded_ok mx forward now r h (res, h', Some l)"
  using assms by (simp add: forwarded_ok_def)

lemma contact_lead_fields:
  "length (lead_field (contact_lead r b) ''name'') \<le> 4000"
  "length (lead_field (contact_lead r b) ''email'') \<le> 4000"
  "length (lead_field (contact_lead r b) ''user_agent'') \<le> 500"
  by (simp_all add: contact_lead_def lead_field_def length_pick)

lemma waitlist_entry_fields:
  "length (lead_field (waitlist_entry r b) ''name'') \<le> 300"
  "length (lead_field (waitlist_entry r b) ''email'') \<le> 300"
  "length (lead_field (waitlist_entry r b) ''user_agent'') \<le> 500"
  by (simp_all add: waitlist_entry_def lead_field_def length_pick)

lemma honeypot_ok:
  "fr_body r = Some b \<Longrightarrow> honeypot b \<Longrightarrow> forwarded_ok mx forward now r h (Inr form_ok, h', None)"
  by (simp add: forwarded_ok_def)

lemma contact_post_ok: "forwarded_ok 4000 forward now r h (contact_post forward now r h)"
proof (cases "fr_body r")
  case None
  then show ?thesis by (simp add: contact_post_def forwarded_ok_None)
next
  case (Some b)
  let ?lim = "limited (if visitor_ip r = [] then ''unknown'' else visitor_ip r) now h"
  let ?l = "contact_lead r b"
  let ?bad = "lead_field ?l ''name'' = [] \<or> lead_field ?l ''company'' = [] \<or> \<not> email_ok (lead_field ?l ''email'')"
  show ?thesis
  proof (cases "jread b ''website''")
    case (Inl e)
    then show ?thesis using Some by (simp add: contact_post_def forwarded_ok_None)
  next
    case (Inr w)
    consider "honeypot b" | "\<not> honeypot b" "fst ?lim" | "\<not> honeypot b" "\<not> fst ?lim" ?bad
      | "\<not> honeypot b" "\<not> fst ?lim" "\<not> ?bad" by blast
    then show ?thesis
    proof cases
      case 4
      then show ?thesis
        using Some Inr contact_lead_fields
        by (auto simp: contact_post_def Let_def split_beta split: option.split intro!: forwarded_ok_Some)
    qed (use Some Inr in \<open>simp_all add: contact_post_def Let_def split_beta forwarded_ok_None honeypot_ok\<close>)
  qed
qed

lemma waitlist_post_ok: "forwarded_ok 300 forward now r h (waitlist_post forward now r h)"
proof (cases "fr_body r")
  case None
  then show ?thesis by (simp add: waitlist_post_def forwarded_ok_None)
next
  case (Some b)
  let ?lim = "limited (if visitor_ip r = [] then ''unknown'' else visitor_ip r) now h"
  let ?l = "waitlist_entry r b"
  let ?bad = "lead_field ?l ''name'' = [] \<or> lead_field ?l ''company'' = [] \<or> \<not> email_ok (lead_field ?l ''email'')"
  show ?thesis
  proof (cases "jread b ''website''")
    case (Inl e)
    then show ?thesis using Some by (simp add: waitlist_post_def forwarded_ok_None)
  next
    case (Inr w)
    consider "honeypot b" | "\<not> honeypot b" "fst ?lim" | "\<not> honeypot b" "\<not> fst ?lim" ?bad
      | "\<not> honeypot b" "\<not> fst ?lim" "\<not> ?bad" by blast
    then show ?thesis
    proof cases
      case 4
      then show ?thesis
        using Some Inr waitlist_entry_fields
        by (auto simp: waitlist_post_def Let_def split_beta split: option.split intro!: forwarded_ok_Some)
    qed (use Some Inr in \<open>simp_all add: waitlist_post_def Let_def split_beta forwarded_ok_None honeypot_ok\<close>)
  qed
qed

text \<open>
  a lead reaches the admin API only from a request that is not caught by the honeypot
  and not over the limit, with a name, a company and an address of the shape
  \<open>x@y.z\<close>, every typed field cut to the bound of its route; and the visitor is told "ok"
  only when the API accepted it or the honeypot was filled.
\<close>

theorem forwarded_lead_valid:
  "forwarded_ok 4000 forward now r h (contact_post forward now r h) \<and>
   forwarded_ok 300 forward now r h (waitlist_post forward now r h)"
  by (simp add: contact_post_ok waitlist_post_ok)

text \<open>
  a body that is the JSON text \<open>null\<close> is parsed without an error, and reading the
  honeypot field of it throws outside every handler of errors: the routes fail instead of
  answering 400 or 422.
\<close>

theorem null_body_throws:
  assumes "fr_body r = Some JNull"
  shows "\<exists>e. contact_post forward now r h = (Inl e, h, None) \<and> waitlist_post forward now r h = (Inl e, h, None)"
  using assms by (simp add: contact_post_def waitlist_post_def jread_def nullish_def)

theorem null_body_throws_witness:
  "\<exists>e. contact_post (\<lambda>_. None) 0
     \<lparr>fr_body = Some JNull, fr_cf_ip = None, fr_forwarded = None, fr_agent = None\<rparr> [] = (Inl e, [], None)"
  using null_body_throws [of "\<lparr>fr_body = Some JNull, fr_cf_ip = None, fr_forwarded = None, fr_agent = None\<rparr>"
      "\<lambda>_. None" 0 "[]"] by auto

section \<open>What the prelaunch domain serves\<close>

text \<open>
  a redirect of the proxy is final: on the two prelaunch hosts, written in any case and
  with any port, it leads to the waitlist page of the same host, which is then served, or to
  the full website, which the proxy does not touch.
\<close>

theorem proxy_redirects_settle:
  "(case proxy host path of
      Next \<Rightarrow> True
    | Redirect to \<Rightarrow>
        (let name = to_lower (hd (split_on (CHR '':'') (text_of host)))
         in (to = ''https://'' @ name @ ''/waitlist'' \<and> proxy (Some name) ''/waitlist'' = Next) \<or>
            (to = ''https://website.aavishield.com'' @ path \<and>
             proxy (Some ''website.aavishield.com'') path = Next)))"
proof -
  have hosts: "to_lower (hd (split_on (CHR '':'') ''website.aavishield.com'')) = ''website.aavishield.com''"
    by code_simp
  show ?thesis
    using hosts by (auto simp: proxy_def Let_def text_of_def allowed_path_def)
qed

end
