(* ===== verification/Markdown.thy ===== *)
theory Markdown
  imports Prelude
begin

text \<open>
  The Markdown renderer of the website's articles (\<^verbatim>\<open>website/src/lib/markdown.tsx\<close>, copied
  into the superadmin panel for the preview): parsing into blocks and rendering of the inline
  text to a tree. The regular expressions are written out as functions on strings.
\<close>

section \<open>Blocks\<close>

datatype block =
    Heading (h_level: nat) (h_text: string) (h_id: string)
  | Paragraph string
  | Listing bool "string list"
  | Quote string
  | Code_Block string
  | Table "string list" "string list list"
  | Rule

subsection \<open>Identifiers of headings\<close>

text \<open>Matches \<open>[^\]]*\]\([^)]*\)\<close> after an opening bracket: the label and what follows.\<close>

definition link_tail :: "string \<Rightarrow> (string \<times> string) option" where
  "link_tail s =
     (case dropWhile (\<lambda>c. c \<noteq> CHR '']'') s of
        a # b # r \<Rightarrow>
          (if b = CHR ''(''
           then (case dropWhile (\<lambda>c. c \<noteq> CHR '')'') r of
                   [] \<Rightarrow> None
                 | _ # rest \<Rightarrow> Some (takeWhile (\<lambda>c. c \<noteq> CHR '']'') s, rest))
           else None)
      | _ \<Rightarrow> None)"

lemma link_tail_shorter: "link_tail s = Some (l, r) \<Longrightarrow> length r < length s"
proof -
  assume "link_tail s = Some (l, r)"
  then obtain a b q c where q: "dropWhile (\<lambda>c. c \<noteq> CHR '']'') s = a # b # q"
    "dropWhile (\<lambda>c. c \<noteq> CHR '')'') q = c # r"
    by (auto simp: link_tail_def split: list.splits if_splits)
  have "length (a # b # q) \<le> length s" using length_dropWhile_le [of "\<lambda>c. c \<noteq> CHR '']''" s] q by simp
  moreover have "length (c # r) \<le> length q" using length_dropWhile_le [of "\<lambda>c. c \<noteq> CHR '')''" q] q by simp
  ultimately show ?thesis by simp
qed

function strip_links :: "string \<Rightarrow> string" where
  "strip_links [] = []"
| "strip_links (c # cs) =
     (if c = CHR ''[''
      then (case link_tail cs of
              Some (label, rest) \<Rightarrow> label @ strip_links rest
            | None \<Rightarrow> c # strip_links cs)
      else c # strip_links cs)"
  by pat_completeness auto
termination
  by (relation "measure length") (auto dest!: link_tail_shorter [rotated] link_tail_shorter)

definition id_char :: "char \<Rightarrow> bool" where
  "id_char c = (c \<in> set ''abcdefghijklmnopqrstuvwxyz0123456789'')"

text \<open>\<open>.replace(/[^a-z0-9]+/g, "-")\<close>; the flag tells that a dash was just written.\<close>

fun dash_runs :: "bool \<Rightarrow> string \<Rightarrow> string" where
  "dash_runs b [] = []"
| "dash_runs b (c # cs) =
     (if id_char c then c # dash_runs False cs
      else if b then dash_runs True cs else CHR ''-'' # dash_runs True cs)"

definition strip_dashes :: "string \<Rightarrow> string" where
  "strip_dashes s =
     rev (dropWhile (\<lambda>c. c = CHR ''-'') (rev (dropWhile (\<lambda>c. c = CHR ''-'') s)))"

definition heading_id :: "string \<Rightarrow> string" where
  "heading_id t =
     strip_dashes (dash_runs False (strip_links
       (filter (\<lambda>c. c \<noteq> CHR 0x60 \<and> c \<noteq> CHR ''*'' \<and> c \<noteq> CHR ''_'') (to_lower t))))"

subsection \<open>The shapes of lines\<close>

text \<open>A list marker: the rest of the line after it.\<close>

definition bullet :: "string \<Rightarrow> string option" where
  "bullet l =
     (case dropWhile is_ws l of
        c # d # r \<Rightarrow>
          (if c \<in> set ''-*+'' \<and> is_ws d then Some (dropWhile is_ws r) else None)
      | _ \<Rightarrow> None)"

definition numbered :: "string \<Rightarrow> string option" where
  "numbered l =
     (let t = dropWhile is_ws l
      in if takeWhile is_digit t = [] then None
         else
           (case dropWhile is_digit t of
              c # d # r \<Rightarrow>
                (if (c = CHR ''.'' \<or> c = CHR '')'') \<and> is_ws d then Some (dropWhile is_ws r) else None)
            | _ \<Rightarrow> None))"

definition bar :: char where
  "bar = CHR ''|''"

definition drop_lead :: "char \<Rightarrow> string \<Rightarrow> string" where
  "drop_lead c s = (case s of [] \<Rightarrow> [] | x # xs \<Rightarrow> if x = c then xs else s)"

text \<open>\<open>.replace(/^\||\|$/g, "")\<close>.\<close>

definition strip_bars :: "string \<Rightarrow> string" where
  "strip_bars s = rev (drop_lead bar (rev (drop_lead bar s)))"

definition cells :: "string \<Rightarrow> string list" where
  "cells row = map trim (split_on bar (strip_bars (trim row)))"

text \<open>One column of the line under a table's head: \<open>:?-{3,}:?\<close> in white space.\<close>

definition rule_cell :: "string \<Rightarrow> bool" where
  "rule_cell c =
     (let t = rev (drop_lead (CHR '':'') (rev (drop_lead (CHR '':'') (trim c))))
      in 3 \<le> length t \<and> list_all (\<lambda>x. x = CHR ''-'') t)"

definition table_rule :: "string \<Rightarrow> bool" where
  "table_rule l = list_all rule_cell (split_on bar (strip_bars (trim l)))"

text \<open>\<open>/^(-{3,}|\*{3,})\s*$/\<close>.\<close>

definition thematic :: "string \<Rightarrow> bool" where
  "thematic l =
     list_ex (\<lambda>m. 3 \<le> length (takeWhile (\<lambda>x. x = m) l) \<and>
                  list_all is_ws (dropWhile (\<lambda>x. x = m) l)) [CHR ''-'', CHR ''*'']"

definition hashes :: "string \<Rightarrow> nat" where
  "hashes l = length (takeWhile (\<lambda>c. c = CHR ''#'') l)"

definition hash_space :: "string \<Rightarrow> bool" where
  "hash_space l =
     (1 \<le> hashes l \<and> hashes l \<le> 4 \<and>
      (case drop (hashes l) l of [] \<Rightarrow> False | c # _ \<Rightarrow> is_ws c))"

definition fence :: string where
  "fence = replicate 3 (CHR 0x60)"

definition starts_block :: "string \<Rightarrow> string option \<Rightarrow> bool" where
  "starts_block l nxt =
     (hash_space l \<or> starts_with l fence \<or> starts_with l ''>'' \<or> bullet l \<noteq> None \<or>
      numbered l \<noteq> None \<or> thematic l \<or>
      (starts_with (trim l) ''|'' \<and> (case nxt of None \<Rightarrow> False | Some n \<Rightarrow> table_rule n)))"

text \<open>A heading: its number of hashes and its text. The dot does not match a carriage return.\<close>

definition heading_of :: "string \<Rightarrow> (nat \<times> string) option" where
  "heading_of l =
     (let r = dropWhile is_ws (drop (hashes l) l)
      in if hash_space l \<and> CHR 0x0D \<notin> set r then Some (hashes l, trim r) else None)"

definition blank :: "string \<Rightarrow> bool" where
  "blank l = (trim l = [])"

definition next_line :: "string list \<Rightarrow> string option" where
  "next_line ls = (case ls of [] \<Rightarrow> None | n # _ \<Rightarrow> Some n)"

subsection \<open>The parser\<close>

fun crlf :: "string \<Rightarrow> string" where
  "crlf [] = []"
| "crlf [c] = [c]"
| "crlf (c # d # cs) =
     (if c = CHR 0x0D \<and> d = CHR 0x0A then d # crlf cs else c # crlf (d # cs))"

text \<open>\<open>items[items.length - 1] += " " + t\<close>, on the items in reverse.\<close>

fun extend_last :: "string list \<Rightarrow> string \<Rightarrow> string list" where
  "extend_last [] t = []"
| "extend_last (x # xs) t = (x @ '' '' @ t) # xs"

text \<open>The loop over the lines of a list: the items in order and the lines left.\<close>

fun list_items ::
  "(string \<Rightarrow> string option) \<Rightarrow> string list \<Rightarrow> string list \<Rightarrow> string list \<times> string list" where
  "list_items marker acc [] = (rev acc, [])"
| "list_items marker acc (l # ls) =
     (if blank l then (rev acc, l # ls)
      else
        (case marker l of
           Some r \<Rightarrow> list_items marker (r # acc) ls
         | None \<Rightarrow>
             if starts_block l (next_line ls) then (rev acc, l # ls)
             else list_items marker (extend_last acc (trim l)) ls))"

text \<open>The lines of a paragraph after its first one.\<close>

fun paragraph_lines :: "string list \<Rightarrow> string list \<times> string list" where
  "paragraph_lines [] = ([], [])"
| "paragraph_lines (l # ls) =
     (if blank l \<or> starts_block l (next_line ls) then ([], l # ls)
      else (let (t, r) = paragraph_lines ls in (trim l # t, r)))"

text \<open>\<open>/^>\s?/\<close> taken off a line of a quotation.\<close>

definition unquote :: "string \<Rightarrow> string" where
  "unquote l =
     (case l of
        c # d # r \<Rightarrow> (if c = CHR ''>'' then (if is_ws d then r else d # r) else l)
      | [c] \<Rightarrow> (if c = CHR ''>'' then [] else l)
      | [] \<Rightarrow> [])"

definition used_count :: "(string \<times> nat) list \<Rightarrow> string \<Rightarrow> nat" where
  "used_count used k = (case map_of used k of None \<Rightarrow> 0 | Some n \<Rightarrow> n)"

definition numbered_id :: "string \<Rightarrow> nat \<Rightarrow> string" where
  "numbered_id base n = (if n = 0 then base else base @ ''-'' @ show_nat n)"

text \<open>
  The block that starts at a line that is not blank, the lines after it, and the counts of
  the identifiers used so far.
\<close>

definition next_block ::
  "(string \<times> nat) list \<Rightarrow> string \<Rightarrow> string list \<Rightarrow> block \<times> string list \<times> (string \<times> nat) list" where
  "next_block used l ls =
     (if starts_with l fence
        then
          (let code = takeWhile (\<lambda>x. \<not> starts_with x fence) ls;
               rest = dropWhile (\<lambda>x. \<not> starts_with x fence) ls
           in (Code_Block (join [CHR 0x0A] code), tl rest, used))
      else
        (case heading_of l of
           Some (k, t) \<Rightarrow>
             (let base = (if heading_id t = [] then ''section'' else heading_id t);
                  n = used_count used base
              in (Heading (max 2 k) t (numbered_id base n), ls, obj_put used base (n + 1)))
         | None \<Rightarrow>
             if thematic l then (Rule, ls, used)
             else if starts_with l ''>''
               then
                 (let qs = takeWhile (\<lambda>x. starts_with x ''>'') (l # ls);
                      rest = dropWhile (\<lambda>x. starts_with x ''>'') (l # ls)
                  in (Quote (trim (join '' '' (map unquote qs))), rest, used))
             else if numbered l \<noteq> None
               then (let (items, rest) = list_items numbered [] (l # ls) in (Listing True items, rest, used))
             else if bullet l \<noteq> None
               then (let (items, rest) = list_items bullet [] (l # ls) in (Listing False items, rest, used))
             else if starts_with (trim l) ''|'' \<and> ls \<noteq> [] \<and> table_rule (hd ls)
               then
                 (Table (cells l) (map cells (takeWhile (\<lambda>x. starts_with (trim x) ''|'') (tl ls))),
                  dropWhile (\<lambda>x. starts_with (trim x) ''|'') (tl ls), used)
             else
               (let (extra, rest) = paragraph_lines ls
                in (Paragraph (join '' '' (trim l # extra)), rest, used))))"

text \<open>Every block leaves no more lines than came after its first.\<close>

lemma list_items_length: "length (snd (list_items marker acc ls)) \<le> length ls"
  by (induction marker acc ls rule: list_items.induct) (auto split: option.split)

lemma list_items_progress:
  "\<not> blank l \<Longrightarrow> marker l \<noteq> None \<Longrightarrow> length (snd (list_items marker acc (l # ls))) \<le> length ls"
  by (auto intro: list_items_length)

lemma paragraph_lines_length: "length (snd (paragraph_lines ls)) \<le> length ls"
  by (induction ls) (auto split: prod.splits)

lemma next_block_progress:
  "\<not> blank l \<Longrightarrow> length (fst (snd (next_block used l ls))) \<le> length ls"
proof -
  assume nb: "\<not> blank l"
  have drop1: "length (tl (dropWhile P ls)) \<le> length ls" for P
    using length_dropWhile_le [of P ls] by simp
  have drop2: "length (dropWhile P (tl ls)) \<le> length ls" for P
    using length_dropWhile_le [of P "tl ls"] by simp
  show ?thesis
    using nb drop1 drop2 list_items_progress [OF nb, of numbered "[]" ls]
      list_items_progress [OF nb, of bullet "[]" ls] paragraph_lines_length [of ls]
    by (auto simp: next_block_def Let_def length_dropWhile_le split: option.splits prod.splits
        simp del: list_items.simps)
qed

function parse_blocks :: "(string \<times> nat) list \<Rightarrow> string list \<Rightarrow> block list" where
  "parse_blocks used [] = []"
| "parse_blocks used (l # ls) =
     (if blank l then parse_blocks used ls
      else (case next_block used l ls of
              (b, rest, used') \<Rightarrow> b # parse_blocks used' rest))"
  by pat_completeness auto
termination
proof (relation "measure (length \<circ> snd)")
  fix used l ls b p rest used'
  assume "\<not> blank l" "(b, p) = next_block used l ls" "(rest, used') = p"
  then show "((used', rest), (used, l # ls)) \<in> measure (length \<circ> snd)"
    using next_block_progress [of l used ls] by (auto dest: sym)
qed auto

definition parse_markdown :: "string \<Rightarrow> block list" where
  "parse_markdown source = parse_blocks [] (split_on (CHR 0x0A) (crlf source))"

definition outline :: "block list \<Rightarrow> block list" where
  "outline bs = filter (\<lambda>b. case b of Heading k _ _ \<Rightarrow> k = 2 | _ \<Rightarrow> False) bs"

section \<open>Inline text\<close>

datatype inline =
    Nothing
  | Plain string
  | Strong "inline list"
  | Code string
  | Link string "inline list"
  | Span "inline list"
  | Em "inline list"

text \<open>\<open>/^(https?:\/\/|mailto:|\/(?!\/)|#)/i\<close>.\<close>

definition safe_href :: "string \<Rightarrow> bool" where
  "safe_href h =
     (let t = to_lower h
      in starts_with t ''http://'' \<or> starts_with t ''https://'' \<or> starts_with t ''mailto:'' \<or>
         (starts_with t ''/'' \<and> \<not> starts_with t ''//'') \<or> starts_with t ''#'')"

definition external_link :: "string \<Rightarrow> bool" where
  "external_link h =
     (starts_with (to_lower h) ''http:'' \<or> starts_with (to_lower h) ''https:'')"

text \<open>
  One match of the inline pattern at the front: the matched text and the rest. The
  alternatives are strong text, code, a link, and two kinds of emphasis, in this order.
\<close>

definition run_until :: "char \<Rightarrow> string \<Rightarrow> string" where
  "run_until c s = takeWhile (\<lambda>x. x \<noteq> c) s"

definition match_strong :: "string \<Rightarrow> (string \<times> string) option" where
  "match_strong s =
     (if starts_with s ''**''
      then (let b = run_until (CHR ''*'') (drop 2 s); r = drop (length b) (drop 2 s)
            in if b \<noteq> [] \<and> starts_with r ''**'' then Some (''**'' @ b @ ''**'', drop 2 r) else None)
      else None)"

definition tick :: char where
  "tick = CHR 0x60"

definition match_code :: "string \<Rightarrow> (string \<times> string) option" where
  "match_code s =
     (if starts_with s [tick]
      then (let b = run_until tick (tl s); r = drop (length b) (tl s)
            in if b \<noteq> [] \<and> r \<noteq> [] then Some (tick # b @ [tick], tl r) else None)
      else None)"

definition match_link :: "string \<Rightarrow> (string \<times> string) option" where
  "match_link s =
     (if starts_with s ''[''
      then (let b = run_until (CHR '']'') (tl s); r = drop (length b) (tl s)
            in if b \<noteq> [] \<and> starts_with r ''](''
               then (let u = takeWhile (\<lambda>x. x \<noteq> CHR '')'' \<and> \<not> is_ws x) (drop 2 r);
                         q = drop (length u) (drop 2 r)
                     in if u \<noteq> [] \<and> starts_with q '')''
                        then Some (''['' @ b @ ''](''  @ u @ '')'', tl q) else None)
               else None)
      else None)"

definition match_em :: "char \<Rightarrow> string \<Rightarrow> (string \<times> string) option" where
  "match_em m s =
     (if starts_with s [m]
      then (let b = run_until m (tl s); r = drop (length b) (tl s)
            in if b \<noteq> [] \<and> \<not> is_ws (hd b) \<and> r \<noteq> [] then Some (m # b @ [m], tl r) else None)
      else None)"

definition match_inline :: "string \<Rightarrow> (string \<times> string) option" where
  "match_inline s =
     (case match_strong s of Some x \<Rightarrow> Some x | None \<Rightarrow>
      (case match_code s of Some x \<Rightarrow> Some x | None \<Rightarrow>
       (case match_link s of Some x \<Rightarrow> Some x | None \<Rightarrow>
        (case match_em (CHR ''*'') s of Some x \<Rightarrow> Some x | None \<Rightarrow> match_em (CHR ''_'') s))))"

lemma starts_with2: "starts_with t [x, y] \<Longrightarrow> t = [x, y] @ drop 2 t"
  by (auto simp: starts_with_iff)

lemma starts_with_split: "starts_with s p \<Longrightarrow> s = p @ drop (length p) s"
  unfolding starts_with_def by (metis append_take_drop_id)

lemma run_until_split: "s = run_until c s @ drop (length (run_until c s)) s"
  by (simp add: run_until_def flip: dropWhile_eq_drop)

lemma run_until_stop: "drop (length (run_until c s)) s = x # xs \<Longrightarrow> x = c"
  using hd_dropWhile [of "\<lambda>x. x \<noteq> c" s]
  by (simp add: run_until_def flip: dropWhile_eq_drop)

lemma takeWhile_split: "s = takeWhile P s @ drop (length (takeWhile P s)) s"
  by (simp flip: dropWhile_eq_drop)

lemma match_em_split:
  assumes "match_em m s = Some (a, r)" shows "s = a @ r" "a \<noteq> []"
proof -
  let ?b = "run_until m (tl s)" and ?r = "drop (length (run_until m (tl s))) (tl s)"
  have st: "starts_with s [m]" and a: "a = m # ?b @ [m]" "r = tl ?r" "?r \<noteq> []"
    using assms by (auto simp: match_em_def Let_def split: if_splits)
  then obtain q where q: "?r = m # q" using run_until_stop [of m "tl s"] by (cases ?r) auto
  have "s = m # tl s" using st by (cases s) auto
  then show "s = a @ r" using a q run_until_split [of "tl s" m] by simp
  show "a \<noteq> []" using a by simp
qed

lemma match_code_split:
  assumes "match_code s = Some (a, r)" shows "s = a @ r" "a \<noteq> []"
proof -
  let ?b = "run_until tick (tl s)" and ?r = "drop (length (run_until tick (tl s))) (tl s)"
  have st: "starts_with s [tick]" and a: "a = tick # ?b @ [tick]" "r = tl ?r" "?r \<noteq> []"
    using assms by (auto simp: match_code_def Let_def split: if_splits)
  then obtain q where q: "?r = tick # q" using run_until_stop [of tick "tl s"] by (cases ?r) auto
  have "s = tick # tl s" using st by (cases s) auto
  then show "s = a @ r" using a q run_until_split [of "tl s" tick] by simp
  show "a \<noteq> []" using a by simp
qed

lemma match_strong_split:
  assumes "match_strong s = Some (a, r)" shows "s = a @ r" "a \<noteq> []"
proof -
  let ?t = "drop 2 s"
  let ?b = "run_until (CHR ''*'') ?t"
  let ?r = "drop (length ?b) ?t"
  have st: "starts_with s ''**''" "starts_with ?r ''**''" and a: "a = ''**'' @ ?b @ ''**''" "r = drop 2 ?r"
    using assms by (auto simp: match_strong_def Let_def split: if_splits)
  have "s = ''**'' @ ?t" using st(1) by (rule starts_with2)
  also have "?t = ?b @ ?r" by (rule run_until_split)
  also have "?r = ''**'' @ drop 2 ?r" using st(2) by (rule starts_with2)
  finally show "s = a @ r" using a by simp
  show "a \<noteq> []" using a by simp
qed

lemma match_link_split:
  assumes "match_link s = Some (a, r)" shows "s = a @ r" "a \<noteq> []"
proof -
  let ?b = "run_until (CHR '']'') (tl s)"
  let ?r = "drop (length ?b) (tl s)"
  let ?u = "takeWhile (\<lambda>x. x \<noteq> CHR '')'' \<and> \<not> is_ws x) (drop 2 ?r)"
  let ?q = "drop (length ?u) (drop 2 ?r)"
  have st: "starts_with s ''[''" "starts_with ?r ''](''" "starts_with ?q '')''"
    and a: "a = ''['' @ ?b @ ''](''  @ ?u @ '')''" "r = tl ?q"
    using assms by (auto simp: match_link_def Let_def split: if_splits)
  have "s = ''['' @ tl s" using st(1) by (cases s) auto
  also have "tl s = ?b @ ?r" by (rule run_until_split)
  also have "?r = ''](''  @ drop 2 ?r" using st(2) by (rule starts_with2)
  also have "drop 2 ?r = ?u @ ?q" by (rule takeWhile_split)
  also have "?q = '')'' @ tl ?q" using st(3) by (cases ?q) auto
  finally show "s = a @ r" using a by simp
  show "a \<noteq> []" using a by simp
qed

lemma match_inline_split:
  assumes "match_inline s = Some (a, r)" shows "s = a @ r \<and> a \<noteq> []"
proof -
  have "match_strong s = Some (a, r) \<or> match_code s = Some (a, r) \<or> match_link s = Some (a, r) \<or>
      match_em (CHR ''*'') s = Some (a, r) \<or> match_em (CHR ''_'') s = Some (a, r)"
    using assms by (auto simp: match_inline_def split: option.splits)
  then show ?thesis
    by (elim disjE)
       (rule conjI; erule match_strong_split match_code_split match_link_split match_em_split)+
qed

lemma match_inline_less: "match_inline s = Some (a, r) \<Longrightarrow> length r < length s"
  using match_inline_split [of s a r] by auto

text \<open>\<open>text.split(INLINE)\<close>: the text between the matches and the matches, in turn.\<close>

function split_inline :: "string \<Rightarrow> string \<Rightarrow> string list" where
  "split_inline acc s =
     (case s of
        [] \<Rightarrow> [rev acc]
      | c # cs \<Rightarrow>
          (case match_inline s of
             Some (m, r) \<Rightarrow> rev acc # m # split_inline [] r
           | None \<Rightarrow> split_inline (c # acc) cs))"
  by pat_completeness auto
termination
  by (relation "measure (\<lambda>(acc, s). length s)") (auto dest!: match_inline_less)

declare split_inline.simps [simp del]

lemma split_inline_concat: "concat (split_inline acc s) = rev acc @ s"
proof (induction acc s rule: split_inline.induct)
  case (1 acc s)
  show ?case
  proof (cases s)
    case Nil
    then show ?thesis by (simp add: split_inline.simps)
  next
    case (Cons c cs)
    show ?thesis
    proof (cases "match_inline s")
      case None
      then show ?thesis using 1(1) [OF Cons None] None Cons by (subst split_inline.simps) simp
    next
      case (Some p)
      obtain m r where p: "p = (m, r)" by fastforce
      have s: "s = m @ r" using match_inline_split [of s m r] Some p by simp
      have "split_inline acc s = rev acc # m # split_inline [] r"
        using Some Cons p by (subst split_inline.simps) simp
      moreover have "concat (split_inline [] r) = r"
        using 1(2) [OF Cons Some, of m r] p by simp
      ultimately show ?thesis using s by simp
    qed
  qed
qed

lemma split_inline_part: "p \<in> set (split_inline [] s) \<Longrightarrow> length p \<le> length s"
proof -
  assume "p \<in> set (split_inline [] s)"
  then obtain xs ys where "split_inline [] s = xs @ p # ys" by (meson split_list)
  then have "s = concat xs @ p @ concat ys" using split_inline_concat [of "[]" s] by simp
  then show ?thesis by (metis length_append le_add1 le_add2 order_trans)
qed

text \<open>A part that is a link as a whole: its label and its address.\<close>

definition whole_link :: "string \<Rightarrow> (string \<times> string) option" where
  "whole_link p =
     (case match_link p of
        Some (m, []) \<Rightarrow>
          (let b = run_until (CHR '']'') (tl p)
           in Some (b, butlast (drop (length b + 3) p)))
      | _ \<Rightarrow> None)"

definition slice :: "nat \<Rightarrow> string \<Rightarrow> string" where
  "slice k s = take (length s - 2 * k) (drop k s)"

definition wrapped :: "string \<Rightarrow> string \<Rightarrow> bool" where
  "wrapped m s = (starts_with s m \<and> ends_with s m)"

lemma length_slice: "2 * k \<le> length s \<Longrightarrow> length (slice k s) = length s - 2 * k"
  by (simp add: slice_def)

lemma slice_shorter: "s \<noteq> [] \<Longrightarrow> 0 < k \<Longrightarrow> length (slice k s) < length s"
  by (cases s) (auto simp: slice_def)

lemma whole_link_shorter:
  assumes "whole_link p = Some (b, u)" shows "length b < length p"
proof -
  have "b = run_until (CHR '']'') (tl p)" "p \<noteq> []"
    using assms by (auto simp: whole_link_def match_link_def Let_def split: option.splits list.splits prod.splits if_splits)
  then show ?thesis
    using length_takeWhile_le [of "\<lambda>x. x \<noteq> CHR '']''" "tl p"] by (cases p) (auto simp: run_until_def less_Suc_eq_le)
qed

function render_inline :: "string \<Rightarrow> inline list" where
  "render_inline s =
     map (\<lambda>p.
       if p = [] then Nothing
       else if wrapped ''**'' p \<and> 4 < length p then Strong (render_inline (slice 2 p))
       else if wrapped [tick] p \<and> 2 < length p then Code (slice 1 p)
       else
         (case whole_link p of
            Some (b, u) \<Rightarrow> (if safe_href u then Link u (render_inline b) else Span (render_inline b))
          | None \<Rightarrow>
              if (wrapped ''*'' p \<or> wrapped ''_'' p) \<and> 2 < length p then Em (render_inline (slice 1 p))
              else Plain p))
       (split_inline [] s)"
  by pat_completeness auto
termination
proof (relation "measure length")
  fix s p assume p: "p \<in> set (split_inline [] s)" "p \<noteq> []"
  then have le: "length p \<le> length s" by (simp add: split_inline_part)
  show "(slice 2 p, s) \<in> measure length" using slice_shorter [OF p(2), of 2] le by simp
  show "(slice 1 p, s) \<in> measure length" using slice_shorter [OF p(2), of 1] le by simp
  fix q b u assume "whole_link p = Some q" "(b, u) = q"
  then show "(b, s) \<in> measure length" "(b, s) \<in> measure length"
    using whole_link_shorter [of p b u] le by auto
qed auto

declare render_inline.simps [simp del]

section \<open>Rendering blocks\<close>

datatype node =
    H nat string "inline list"
  | P "inline list"
  | L bool "inline list list"
  | Blockquote "inline list"
  | Pre string
  | Tab "inline list list" "inline list list list"
  | Hr

fun render_block :: "block \<Rightarrow> node" where
  "render_block (Heading k t i) = H k i (render_inline t)"
| "render_block (Paragraph t) = P (render_inline t)"
| "render_block (Listing ord items) = L ord (map render_inline items)"
| "render_block (Quote t) = Blockquote (render_inline t)"
| "render_block (Code_Block c) = Pre c"
| "render_block (Table hs rows) = Tab (map render_inline hs) (map (map render_inline) rows)"
| "render_block Rule = Hr"

definition render_markdown :: "block list \<Rightarrow> node list" where
  "render_markdown bs = map render_block bs"

text \<open>The addresses of the links in a rendered tree.\<close>

fun inline_hrefs :: "inline \<Rightarrow> string list" where
  "inline_hrefs Nothing = []"
| "inline_hrefs (Plain s) = []"
| "inline_hrefs (Strong xs) = concat (map inline_hrefs xs)"
| "inline_hrefs (Code s) = []"
| "inline_hrefs (Link u xs) = u # concat (map inline_hrefs xs)"
| "inline_hrefs (Span xs) = concat (map inline_hrefs xs)"
| "inline_hrefs (Em xs) = concat (map inline_hrefs xs)"

definition all_hrefs :: "inline list \<Rightarrow> string list" where
  "all_hrefs xs = concat (map inline_hrefs xs)"

fun node_hrefs :: "node \<Rightarrow> string list" where
  "node_hrefs (H k i xs) = all_hrefs xs"
| "node_hrefs (P xs) = all_hrefs xs"
| "node_hrefs (L ord xss) = concat (map all_hrefs xss)"
| "node_hrefs (Blockquote xs) = all_hrefs xs"
| "node_hrefs (Pre c) = []"
| "node_hrefs (Tab hs rows) = concat (map all_hrefs hs) @ concat (map all_hrefs (concat rows))"
| "node_hrefs Hr = []"

section \<open>Properties\<close>

lemma render_inline_safe: "list_all safe_href (all_hrefs (render_inline s))"
proof (induction s rule: render_inline.induct)
  case (1 s)
  define f where "f = (\<lambda>p.
       if p = [] then Nothing
       else if wrapped ''**'' p \<and> 4 < length p then Strong (render_inline (slice 2 p))
       else if wrapped [tick] p \<and> 2 < length p then Code (slice 1 p)
       else
         (case whole_link p of
            Some (b, u) \<Rightarrow> (if safe_href u then Link u (render_inline b) else Span (render_inline b))
          | None \<Rightarrow>
              if (wrapped ''*'' p \<or> wrapped ''_'' p) \<and> 2 < length p then Em (render_inline (slice 1 p))
              else Plain p))"
  have r: "render_inline s = map f (split_inline [] s)"
    unfolding f_def by (rule render_inline.simps)
  have "list_all safe_href (inline_hrefs (f p))" if "p \<in> set (split_inline [] s)" for p
    using 1 [OF that] by (auto simp: f_def all_hrefs_def split: option.splits)
  then have "\<forall>x\<in>set (render_inline s). list_all safe_href (inline_hrefs x)"
    unfolding r by simp
  then show ?case by (auto simp: all_hrefs_def list_all_iff)
qed

text \<open>
  An address that runs no script: a path on the site, a fragment, or a scheme of three, in
  capitals or not.
\<close>

definition scheme_of :: "string \<Rightarrow> string" where
  "scheme_of h = to_lower (takeWhile (\<lambda>c. c \<noteq> CHR '':'') h)"

definition harmless_address :: "string \<Rightarrow> bool" where
  "harmless_address h =
     (starts_with h ''/'' \<or> starts_with h ''#'' \<or>
      CHR '':'' \<in> set h \<and> scheme_of h \<in> {''http'', ''https'', ''mailto''})"

lemma lower_char_low: "(of_char (lower_char c) :: nat) < 65 \<Longrightarrow> lower_char c = c"
  by (auto simp: lower_char_def Let_def of_char_mod_256 split: if_splits)

lemma lower_char_sign:
  assumes "(of_char d :: nat) < 65"
  shows "lower_char c = d \<longleftrightarrow> c = d"
proof
  assume "lower_char c = d"
  then show "c = d" using lower_char_low [of c] assms by simp
next
  assume "c = d"
  then show "lower_char c = d" using assms by (simp add: lower_char_def Let_def)
qed

lemma to_lower_signs:
  "lower_char c = CHR '':'' \<longleftrightarrow> c = CHR '':''" "lower_char c = CHR ''/'' \<longleftrightarrow> c = CHR ''/''"
  "lower_char c = CHR ''#'' \<longleftrightarrow> c = CHR ''#''"
  by (rule lower_char_sign, simp)+

lemma scheme_of_starts:
  assumes "starts_with (to_lower h) (s @ '':'')" "CHR '':'' \<notin> set s"
  shows "scheme_of h = s" "CHR '':'' \<in> set h"
proof -
  obtain r where r: "to_lower h = s @ CHR '':'' # r"
    using assms(1) by (metis append.assoc append_Cons append_Nil append_take_drop_id starts_with_def)
  have "scheme_of h = takeWhile (\<lambda>c. c \<noteq> CHR '':'') (to_lower h)"
    by (simp add: scheme_of_def to_lower_def takeWhile_map o_def to_lower_signs)
  also have "\<dots> = s" unfolding r using assms(2) by (simp add: takeWhile_append)
  finally show "scheme_of h = s" .
  have "CHR '':'' \<in> set (to_lower h)" unfolding r by simp
  then obtain c where "c \<in> set h" "lower_char c = CHR '':''" by (auto simp: to_lower_def)
  then show "CHR '':'' \<in> set h" by (simp add: to_lower_signs)
qed

lemma starts_with_weaken: "starts_with s (p @ q) \<Longrightarrow> starts_with s p"
  by (auto simp: starts_with_iff)

lemma starts_with_first:
  "starts_with (to_lower (c # h)) ''/'' \<longleftrightarrow> c = CHR ''/''" "starts_with (to_lower (c # h)) ''#'' \<longleftrightarrow> c = CHR ''#''"
  "starts_with (c # h) ''/'' \<longleftrightarrow> c = CHR ''/''" "starts_with (c # h) ''#'' \<longleftrightarrow> c = CHR ''#''"
  by (auto simp: to_lower_def to_lower_signs)

lemma starts_with_empty: "\<not> starts_with (to_lower []) (c # p)"
  by (simp add: to_lower_def)

lemma safe_href_harmless: "safe_href h \<Longrightarrow> harmless_address h"
proof -
  assume "safe_href h"
  then consider "starts_with (to_lower h) (''http'' @ '':'')" | "starts_with (to_lower h) (''https'' @ '':'')"
    | "starts_with (to_lower h) (''mailto'' @ '':'')" | "starts_with h ''/''" | "starts_with h ''#''"
    unfolding safe_href_def Let_def
    using starts_with_weaken [of "to_lower h" "''http:''" "''//''"] starts_with_weaken [of "to_lower h" "''https:''" "''//''"]
    by (cases h) (auto simp del: starts_with_Cons simp: to_lower_signs starts_with_first starts_with_empty)
  then show ?thesis
    using scheme_of_starts [of h "''http''"] scheme_of_starts [of h "''https''"] scheme_of_starts [of h "''mailto''"]
    by cases (simp_all add: harmless_address_def)
qed

text \<open>
  C39: whatever an editor types, every link in the rendered article is a path on the site or a
  fragment, or has one of the schemes http, https and mailto, in headings, paragraphs, lists,
  quotations and tables and at every depth of nesting; so no script address is rendered.
\<close>

theorem rendered_links_safe:
  "list_all harmless_address (concat (map node_hrefs (render_markdown (parse_markdown source))))"
proof -
  have "list_all safe_href (node_hrefs (render_block b))" for b
    using render_inline_safe by (cases b) (auto simp: list_all_iff)
  then show ?thesis using safe_href_harmless by (auto simp: render_markdown_def list_all_iff)
qed

text \<open>What holds of every block of a parse.\<close>

definition id_ok :: "string \<Rightarrow> bool" where
  "id_ok i = (i \<noteq> [] \<and> list_all (\<lambda>c. id_char c \<or> c = CHR ''-'') i)"

fun block_ok :: "block \<Rightarrow> bool" where
  "block_ok (Heading k t i) = (2 \<le> k \<and> k \<le> 4 \<and> id_ok i)"
| "block_ok (Listing ord items) = (items \<noteq> [])"
| "block_ok (Table hs rows) = (hs \<noteq> [] \<and> list_all (\<lambda>r. r \<noteq> []) rows)"
| "block_ok (Paragraph t) = (trim t \<noteq> [])"
| "block_ok b = True"

lemma dash_runs_chars: "list_all (\<lambda>c. id_char c \<or> c = CHR ''-'') (dash_runs b s)"
  by (induction b s rule: dash_runs.induct) auto

lemma set_strip_dashes: "set (strip_dashes s) \<subseteq> set s"
  by (auto simp: strip_dashes_def dest!: set_dropWhileD)

lemma heading_id_chars: "list_all (\<lambda>c. id_char c \<or> c = CHR ''-'') (heading_id t)"
proof -
  have "set (heading_id t) \<subseteq> set (dash_runs False (strip_links
       (filter (\<lambda>c. c \<noteq> CHR 0x60 \<and> c \<noteq> CHR ''*'' \<and> c \<noteq> CHR ''_'') (to_lower t))))"
    unfolding heading_id_def by (rule set_strip_dashes)
  then show ?thesis using dash_runs_chars by (fastforce simp: list_all_iff)
qed

lemma digit_id_char: "is_digit c \<Longrightarrow> id_char c"
  by (auto simp: is_digit_def id_char_def)

lemma show_nat_id: "list_all id_char (show_nat n)"
  using show_nat_digits [of n] by (simp add: list_all_iff digit_id_char)

lemma numbered_id_ok:
  assumes "id_ok i" shows "id_ok (numbered_id i n)"
  using assms show_nat_id [of n] by (auto simp: id_ok_def numbered_id_def list_all_iff)

lemma list_items_nonempty:
  "acc \<noteq> [] \<Longrightarrow> fst (list_items marker acc ls) \<noteq> []"
proof (induction marker acc ls rule: list_items.induct)
  case (2 marker acc l ls)
  have "extend_last acc (trim l) \<noteq> []" using 2(3) by (cases acc) auto
  with 2 show ?case by (auto split: option.split)
qed auto

lemma list_items_first:
  "\<not> blank l \<Longrightarrow> marker l \<noteq> None \<Longrightarrow> fst (list_items marker [] (l # ls)) \<noteq> []"
  using list_items_nonempty by auto

lemma cells_nonempty [simp]: "cells r \<noteq> []"
  by (simp add: cells_def)

lemma trim_nonempty_append:
  assumes "trim l \<noteq> []" shows "trim (trim l @ t) \<noteq> []"
proof -
  have "\<not> is_ws (hd (trim l))"
    using hd_dropWhile [of is_ws "trim l"] assms by (simp add: dropWhile_is_ws_trim)
  moreover have "hd (trim l) \<in> set (trim l @ t)" using hd_in_set [OF assms] by simp
  ultimately show ?thesis unfolding trim_eq_Nil by blast
qed

lemma next_block_ok: "\<not> blank l \<Longrightarrow> block_ok (fst (next_block used l ls))"
proof -
  assume nb: "\<not> blank l"
  have para: "trim (join '' '' (trim l # ms)) \<noteq> []" for ms
    using trim_nonempty_append [of l] nb by (cases ms) (auto simp: blank_def)
  have hid: "id_ok (if heading_id t = [] then ''section'' else heading_id t)" for t
    using heading_id_chars [of t] by (simp add: id_ok_def id_char_def)
  have lvl: "hashes l \<le> 4" if "heading_of l = Some (k, t)" for k t
    using that by (auto simp: heading_of_def hash_space_def Let_def split: if_splits)
  have num: "heading_of l = Some (k, t) \<Longrightarrow> k = hashes l" for k t
    by (auto simp: heading_of_def Let_def split: if_splits)
  show ?thesis
    using nb para lvl num numbered_id_ok [OF hid] list_items_first [OF nb, of numbered ls]
      list_items_first [OF nb, of bullet ls]
    by (auto simp: next_block_def Let_def list_all_iff split: option.splits prod.splits
        simp del: list_items.simps join.simps)
qed

text \<open>
  every block of a parsed article is well formed: headings have level 2 to 4 and an
  identifier of lower-case letters, digits and dashes that is not empty, lists have an item,
  tables a head and no empty row, and paragraphs some text; the parser returns for every
  source.
\<close>

theorem parsed_blocks_ok: "list_all block_ok (parse_markdown source)"
proof -
  have "list_all block_ok (parse_blocks used ls)" for used ls
  proof (induction used ls rule: parse_blocks.induct)
    case (2 used l ls)
    show ?case
    proof (cases "blank l")
      case False
      obtain b rest used' where nb: "next_block used l ls = (b, rest, used')" by (metis prod_cases3)
      then have "block_ok b" using next_block_ok [OF False, of used ls] by simp
      then show ?thesis using 2(2) [OF False, of b "(rest, used')" rest used'] nb False by simp
    qed (use 2(1) in simp)
  qed simp
  then show ?thesis by (simp add: parse_markdown_def)
qed

text \<open>
  the identifiers of headings are not unique: the headings "a", "a" and "a-1" get
  \<open>a\<close>, \<open>a-1\<close> and \<open>a-1\<close>, so two entries of "On this page" lead to the same heading.
\<close>

theorem heading_ids_collide:
  "map h_id (parse_markdown (''## a'' @ [CHR 0x0A] @ ''## a'' @ [CHR 0x0A] @ ''## a-1'')) =
     [''a'', ''a-1'', ''a-1'']"
  by code_simp

lemma crlf_id: "CHR 0x0D \<notin> set s \<Longrightarrow> crlf s = s"
  by (induction s rule: crlf.induct) auto

lemma takeWhile_fence:
  "list_all (\<lambda>l. \<not> starts_with l fence) ls \<Longrightarrow> starts_with f fence \<Longrightarrow>
   takeWhile (\<lambda>x. \<not> starts_with x fence) (ls @ f # extra) = ls \<and>
   dropWhile (\<lambda>x. \<not> starts_with x fence) (ls @ f # extra) = f # extra"
  by (induction ls) auto

text \<open>
  code is taken over as it is: a fenced block whose lines do not start with a fence is
  parsed into exactly those lines, whatever markup they contain, and what follows the
  closing fence is parsed as if it stood alone.
\<close>

theorem fenced_code_verbatim:
  assumes "list_all (\<lambda>l. \<not> starts_with l fence \<and> CHR 0x0A \<notin> set l \<and> CHR 0x0D \<notin> set l) ls"
    "CHR 0x0D \<notin> set rest"
  shows "parse_markdown (join [CHR 0x0A] (fence # ls @ [fence, rest])) =
    Code_Block (join [CHR 0x0A] ls) # parse_markdown rest"
proof -
  let ?ps = "fence # ls @ fence # split_on (CHR 0x0A) rest"
  have f: "CHR 0x0A \<notin> set fence" "CHR 0x0D \<notin> set fence" "starts_with fence fence" "\<not> blank fence"
    by (simp_all add: fence_def starts_with_def blank_def trim_def is_ws_def numeral_3_eq_3)
  have set_join: "set (join [CHR 0x0A] xs) \<subseteq> insert (CHR 0x0A) (\<Union>x\<in>set xs. set x)" for xs
    by (induction "[CHR 0x0A]" xs rule: join.induct) auto
  have "join [CHR 0x0A] ?ps = join [CHR 0x0A] (fence # ls @ [fence, rest])"
  proof -
    have app: "join [CHR 0x0A] (xs @ y # ys) =
        (if xs = [] then join [CHR 0x0A] (y # ys) else join [CHR 0x0A] xs @ [CHR 0x0A] @ join [CHR 0x0A] (y # ys))"
      for xs y ys by (induction "[CHR 0x0A]" xs rule: join.induct) (auto split: if_splits)
    have "join [CHR 0x0A] (fence # split_on (CHR 0x0A) rest) = fence @ [CHR 0x0A] @ rest"
      using join_split_on [of "CHR 0x0A" rest] by (cases "split_on (CHR 0x0A) rest") auto
    then show ?thesis
      using app [of "fence # ls" fence "split_on (CHR 0x0A) rest"] app [of "fence # ls" fence "[rest]"] by simp
  qed
  moreover have "split_on (CHR 0x0A) (join [CHR 0x0A] ?ps) = ?ps"
    using assms(1) f by (intro split_on_join) (auto simp: list_all_iff dest: split_on_no_sep_inside)
  moreover have "crlf (join [CHR 0x0A] (fence # ls @ [fence, rest])) = join [CHR 0x0A] (fence # ls @ [fence, rest])"
  proof (rule crlf_id)
    have "CHR 0x0D \<notin> (\<Union>x\<in>set (fence # ls @ [fence, rest]). set x)"
      using assms f by (auto simp: list_all_iff)
    then show "CHR 0x0D \<notin> set (join [CHR 0x0A] (fence # ls @ [fence, rest]))"
      using set_join [of "fence # ls @ [fence, rest]"] by auto
  qed
  ultimately have "parse_markdown (join [CHR 0x0A] (fence # ls @ [fence, rest])) = parse_blocks [] ?ps"
    unfolding parse_markdown_def by metis
  moreover have "next_block [] fence (ls @ fence # split_on (CHR 0x0A) rest) =
      (Code_Block (join [CHR 0x0A] ls), split_on (CHR 0x0A) rest, [])"
    using takeWhile_fence [of ls fence "split_on (CHR 0x0A) rest"] assms(1) f
    by (simp add: next_block_def list_all_iff)
  ultimately show ?thesis
    using f(4) by (simp add: parse_markdown_def crlf_id [OF assms(2)])
qed

theorem fenced_code_verbatim_witness:
  "parse_markdown (join [CHR 0x0A] (fence # [''# not a heading'', ''- nor a list''] @ [fence, ''text''])) =
     [Code_Block (''# not a heading'' @ [CHR 0x0A] @ ''- nor a list''), Paragraph ''text'']"
proof -
  have p: "parse_markdown ''text'' = [Paragraph ''text'']" by code_simp
  show ?thesis
    by (subst fenced_code_verbatim) (simp_all add: p starts_with_def fence_def numeral_3_eq_3)
qed

end
