(* ===== verification/Js_Sort.thy ===== *)
theory Js_Sort
  imports Main "HOL-Library.Multiset"
begin

text \<open>
  \<open>Array.prototype.sort\<close> with a comparison, which is stable, and removing the repetitions of a
  list as the pages do it. The order is determined by the comparison alone when that is
  consistent; the laws are a locale, which the components interpret for the comparisons they use.
\<close>

section \<open>Sorting\<close>

fun insert_by :: "('a \<Rightarrow> 'a \<Rightarrow> int) \<Rightarrow> 'a \<Rightarrow> 'a list \<Rightarrow> 'a list" where
  "insert_by cmp x [] = [x]"
| "insert_by cmp x (y # ys) = (if cmp x y \<le> 0 then x # y # ys else y # insert_by cmp x ys)"

definition sort_by :: "('a \<Rightarrow> 'a \<Rightarrow> int) \<Rightarrow> 'a list \<Rightarrow> 'a list" where
  "sort_by cmp xs = foldr (insert_by cmp) xs []"

lemma sort_by_simps [simp]: "sort_by cmp [] = []" "sort_by cmp (x # xs) = insert_by cmp x (sort_by cmp xs)"
  by (simp_all add: sort_by_def)

lemma mset_insert_by [simp]: "mset (insert_by cmp x xs) = add_mset x (mset xs)"
  by (induction xs) auto

lemma mset_sort_by [simp]: "mset (sort_by cmp xs) = mset xs"
  by (induction xs) auto

lemma set_insert_by [simp]: "set (insert_by cmp x xs) = insert x (set xs)"
  by (induction xs) auto

lemma set_sort_by [simp]: "set (sort_by cmp xs) = set xs"
  by (induction xs) auto

lemma length_sort_by [simp]: "length (sort_by cmp xs) = length xs"
  using mset_sort_by [of cmp xs] by (metis size_mset)

lemma distinct_map_sort_by [simp]: "distinct (map f (sort_by cmp xs)) = distinct (map f xs)"
  by (metis mset_sort_by mset_map mset_eq_imp_distinct_iff)

text \<open>Filtering a list by each of a set of distinct keys gives its elements back.\<close>

lemma mset_concat_filters:
  assumes "distinct ns" "set (map f xs) \<subseteq> set ns"
  shows "mset (concat (map (\<lambda>n. filter (\<lambda>x. f x = n) xs) ns)) = mset xs"
  using assms
proof (induction ns arbitrary: xs)
  case (Cons n ns)
  let ?r = "filter (\<lambda>x. f x \<noteq> n) xs"
  have "map (\<lambda>m. filter (\<lambda>x. f x = m) ?r) ns = map (\<lambda>m. filter (\<lambda>x. f x = m) xs) ns"
    using Cons.prems(1) by (auto intro!: filter_cong)
  moreover have "mset (concat (map (\<lambda>m. filter (\<lambda>x. f x = m) ?r) ns)) = mset ?r"
    using Cons.prems by (intro Cons.IH) auto
  ultimately have "mset (concat (map (\<lambda>m. filter (\<lambda>x. f x = m) xs) ns)) = mset ?r"
    by (simp only:)
  moreover have "mset (filter (\<lambda>x. f x = n) xs) + mset ?r = mset xs"
    using multiset_partition [of "mset xs" "\<lambda>x. f x = n"] by simp
  ultimately show ?case by simp
qed simp

text \<open>The laws of a consistent comparison (those of ECMAScript's \<open>CompareArrayElements\<close>).\<close>

locale comparison =
  fixes cmp :: "'a \<Rightarrow> 'a \<Rightarrow> int"
  assumes total: "cmp a b > 0 \<Longrightarrow> cmp b a \<le> 0"
    and compare_trans: "cmp a b \<le> 0 \<Longrightarrow> cmp b c \<le> 0 \<Longrightarrow> cmp a c \<le> 0"
begin

abbreviation before :: "'a \<Rightarrow> 'a \<Rightarrow> bool" where
  "before a b \<equiv> cmp a b \<le> 0"

lemma before_refl: "before a a"
  using total [of a a] by linarith

lemma sorted_insert_by: "sorted_wrt before xs \<Longrightarrow> sorted_wrt before (insert_by cmp x xs)"
proof (induction xs)
  case (Cons y ys)
  show ?case
  proof (cases "cmp x y \<le> 0")
    case True
    then show ?thesis using Cons.prems by (auto intro: compare_trans)
  next
    case False
    then show ?thesis using Cons total [of x y] by auto
  qed
qed simp

lemma sorted_sort_by: "sorted_wrt before (sort_by cmp xs)"
  by (induction xs) (auto intro: sorted_insert_by)

lemma stable_insert_by:
  assumes "sorted_wrt before xs"
  shows "filter (\<lambda>y. before y z \<and> before z y) (insert_by cmp x xs) =
    filter (\<lambda>y. before y z \<and> before z y) (x # xs)"
  using assms
proof (induction xs)
  case (Cons y ys)
  then show ?case
    by (auto dest: total intro: compare_trans)
qed simp

text \<open>Entries that compare as equal keep their order.\<close>

lemma stable_sort_by:
  "filter (\<lambda>y. before y z \<and> before z y) (sort_by cmp xs) = filter (\<lambda>y. before y z \<and> before z y) xs"
  by (induction xs) (simp_all add: stable_insert_by [OF sorted_sort_by])

text \<open>Sorting what a filter lets through gives what the filter lets through of the sorted list.\<close>

lemma filter_insert_by:
  "sorted_wrt before xs \<Longrightarrow>
    filter P (insert_by cmp x xs) = (if P x then insert_by cmp x (filter P xs) else filter P xs)"
proof (induction xs)
  case (Cons y ys)
  have "insert_by cmp x (filter P ys) = x # filter P ys" if "before x y"
    using that Cons.prems by (cases "filter P ys") (auto dest!: filter_eq_ConsD intro: compare_trans)
  then show ?case using Cons by auto
qed simp

lemma filter_sort_by: "filter P (sort_by cmp xs) = sort_by cmp (filter P xs)"
  by (induction xs) (simp_all add: filter_insert_by sorted_sort_by)

text \<open>What a cut leaves out comes after everything it keeps.\<close>

lemma cut_sort_by:
  assumes "a \<in> set (take n (sort_by cmp xs))" "b \<in> set (drop n (sort_by cmp xs))"
  shows "before a b"
  using sorted_sort_by [of xs] assms
  by (metis append_take_drop_id sorted_wrt_append)

end

section \<open>Removing repetitions\<close>

text \<open>The first entry of each key is kept.\<close>

fun first_of_each :: "('a \<Rightarrow> 'k) \<Rightarrow> 'k list \<Rightarrow> 'a list \<Rightarrow> 'a list" where
  "first_of_each key seen [] = []"
| "first_of_each key seen (x # xs) =
     (if key x \<in> set seen then first_of_each key seen xs else x # first_of_each key (key x # seen) xs)"

lemma first_of_each_keys:
  "key ` set (first_of_each key seen xs) = key ` set xs - set seen \<and> distinct (map key (first_of_each key seen xs))"
  by (induction xs arbitrary: seen) (auto simp: image_iff)

lemma first_of_each_subset: "set (first_of_each key seen xs) \<subseteq> set xs"
  by (induction xs arbitrary: seen) auto

lemma first_of_each_append:
  "first_of_each key seen (xs @ [x]) =
     first_of_each key seen xs @ (if key x \<in> set seen \<union> key ` set xs then [] else [x])"
  by (induction xs arbitrary: seen) auto

text \<open>The same by position: an entry stays when \<open>findIndex\<close> finds it as the first with its key.\<close>

fun find_index :: "('a \<Rightarrow> bool) \<Rightarrow> 'a list \<Rightarrow> nat" where
  "find_index P [] = 0"
| "find_index P (x # xs) = (if P x then 0 else Suc (find_index P xs))"

definition first_by_index :: "('a \<Rightarrow> 'k) \<Rightarrow> 'a list \<Rightarrow> 'a list" where
  "first_by_index key xs =
     map (nth xs) (filter (\<lambda>i. find_index (\<lambda>y. key y = key (xs ! i)) xs = i) [0..<length xs])"

lemma find_index_iff:
  "i < length xs \<Longrightarrow> P (xs ! i) \<Longrightarrow> find_index P xs = i \<longleftrightarrow> (\<forall>j < i. \<not> P (xs ! j))"
proof (induction xs arbitrary: i)
  case (Cons x xs)
  then show ?case
    by (cases i) (auto simp: less_Suc_eq_0_disj)
qed simp

lemma first_by_index_alt:
  "first_by_index key xs = map (nth xs) (filter (\<lambda>i. key (xs ! i) \<notin> key ` set (take i xs)) [0..<length xs])"
proof -
  have "find_index (\<lambda>y. key y = key (xs ! i)) xs = i \<longleftrightarrow> key (xs ! i) \<notin> key ` set (take i xs)"
    if "i < length xs" for i
  proof -
    have "set (take i xs) = nth xs ` {0..<i}"
      using that nth_image [of i xs] by simp
    then show ?thesis
      using find_index_iff [of i xs "\<lambda>y. key y = key (xs ! i)"] that
      by (simp only: image_image image_iff) (metis atLeast0LessThan lessThan_iff)
  qed
  then show ?thesis
    unfolding first_by_index_def by (intro arg_cong [of _ _ "map (nth xs)"] filter_cong refl) simp
qed

lemma first_by_index_eq: "first_by_index key xs = first_of_each key [] xs"
proof (induction xs rule: rev_induct)
  case (snoc x xs)
  have "map (nth (xs @ [x])) (filter (\<lambda>i. key ((xs @ [x]) ! i) \<notin> key ` set (take i (xs @ [x]))) [0..<length xs]) =
      map (nth xs) (filter (\<lambda>i. key (xs ! i) \<notin> key ` set (take i xs)) [0..<length xs])"
    by (intro map_cong filter_cong refl) (auto simp: nth_append)
  then show ?case
    using snoc by (simp add: first_by_index_alt first_of_each_append nth_append)
qed (simp add: first_by_index_def)

end
