(* ===== verification/Cms.thy ===== *)
theory Cms
  imports Markdown Js_Sort
begin

text \<open>
  The articles of the website (\<^verbatim>\<open>website/src/lib/cms.ts\<close>): parsing of the seed files, order
  and grouping of posts, art of the starter posts, and the lists and single posts served
  from the admin API or from the seed. The comparison of titles in the reader's locale, the
  conversion of a date and the clock are arguments.
\<close>

section \<open>Posts\<close>

record post =
  post_id :: string
  post_kind :: string
  slug :: string
  title :: string
  excerpt :: string
  category :: string
  tags :: "string list"
  author_name :: string
  cover_image :: string
  thumbnail_image :: "string option"
  featured :: bool
  sort_order :: int
  published_at :: "string option"
  updated_at :: string
  reading_minutes :: nat
  body :: string
  seo_title :: string
  seo_description :: string

definition base_path :: "string \<Rightarrow> string" where
  "base_path kind = (if kind = ''blog'' then ''/blog'' else ''/knowledge-hub'')"

text \<open>Sections of the knowledge hub with the sentence under their names.\<close>

definition guide_categories :: "(string \<times> string) list" where
  "guide_categories =
     [(''Getting started'', ''Set up your organisation, install the agent and plan a rollout.''),
      (''Policies and controls'', ''Web filtering, app blocking, VPNs and malware scanning.''),
      (''Data protection'', ''How DLP works and what it detects.''),
      (''Devices and agent'', ''Posture checks, updates and offline devices.''),
      (''Privacy and monitoring'', ''Activity monitoring and telling employees.''),
      (''Security and trust'', ''How Aavishield protects your data and sign-ins.''),
      (''Account and billing'', ''Plans, pricing and cancellation.'')]"

section \<open>Seed files\<close>

text \<open>The text before and after the first occurrence of a separator.\<close>

fun find_sep :: "string \<Rightarrow> string \<Rightarrow> (string \<times> string) option" where
  "find_sep sep [] = (if sep = [] then Some ([], []) else None)"
| "find_sep sep (c # cs) =
     (if starts_with (c # cs) sep then Some ([], drop (length sep) (c # cs))
      else map_option (\<lambda>(a, b). (c # a, b)) (find_sep sep cs))"

definition lf :: string where
  "lf = [CHR 0x0A]"

text \<open>The front matter and the rest: \<open>/^---\n([\s\S]*?)\n---\n([\s\S]*)$/\<close>.\<close>

definition front_matter :: "string \<Rightarrow> (string \<times> string) option" where
  "front_matter text =
     (if starts_with text (''---'' @ lf)
      then find_sep (lf @ ''---'' @ lf) (drop 4 text) else None)"

definition meta_line :: "string \<Rightarrow> (string \<times> string) option" where
  "meta_line l =
     (case find_sep '':'' l of
        Some (k, v) \<Rightarrow> (if k \<noteq> [] then Some (trim k, trim v) else None)
      | None \<Rightarrow> None)"

definition meta_of :: "string \<Rightarrow> (string \<times> string) list" where
  "meta_of block =
     foldl (\<lambda>m l. case meta_line l of Some (k, v) \<Rightarrow> obj_put m k v | None \<Rightarrow> m) []
       (split_on (CHR 0x0A) block)"

definition meta_get :: "(string \<times> string) list \<Rightarrow> string \<Rightarrow> string" where
  "meta_get m k = (case map_of m k of None \<Rightarrow> [] | Some v \<Rightarrow> v)"

text \<open>\<open>body.split(/\s+/).filter(Boolean).length\<close>.\<close>

fun count_words :: "bool \<Rightarrow> string \<Rightarrow> nat" where
  "count_words inside [] = 0"
| "count_words inside (c # cs) =
     (if is_ws c then count_words False cs
      else (if inside then 0 else 1) + count_words True cs)"

definition minutes :: "string \<Rightarrow> nat" where
  "minutes b = max 1 ((count_words False b + 219) div 220)"

text \<open>
  A seed file: null when it has no front matter or lacks a field, an error when its date is
  not one (\<open>toISOString\<close> throws), else the post.
\<close>

definition parse_seed ::
  "(string \<Rightarrow> string option) \<Rightarrow> string \<Rightarrow> string \<Rightarrow> string \<Rightarrow> exn + post option" where
  "parse_seed to_iso now file raw =
     (case front_matter (crlf raw) of
        None \<Rightarrow> Inr None
      | Some (block, rest) \<Rightarrow>
          (let m = meta_of block; g = meta_get m; b = trim rest
           in if (g ''kind'' \<noteq> ''blog'' \<and> g ''kind'' \<noteq> ''guide'') \<or> g ''slug'' = [] \<or> g ''title'' = []
                then Inr None
              else
                (case (if g ''published'' = [] then Some now else to_iso (g ''published'' @ ''T00:00:00Z'')) of
                   None \<Rightarrow> Inl (js_error ''Invalid time value'')
                 | Some date \<Rightarrow>
                     Inr (Some
                       \<lparr>post_id = file, post_kind = g ''kind'', slug = g ''slug'', title = g ''title'',
                        excerpt = g ''excerpt'', category = g ''category'',
                        tags = filter (\<lambda>t. t \<noteq> []) (map trim (split_on (CHR '','') (g ''tags''))),
                        author_name = g ''author'', cover_image = g ''cover'',
                        thumbnail_image = Some (g ''thumbnail''), featured = (g ''featured'' = ''true''),
                        sort_order = (case map_of m ''order'' of
                                        None \<Rightarrow> 0
                                      | Some v \<Rightarrow> (case number_of_string v of None \<Rightarrow> 0 | Some n \<Rightarrow> n)),
                        published_at = Some date, updated_at = date, reading_minutes = minutes b,
                        body = b, seo_title = g ''seo_title'', seo_description = g ''seo_description''\<rparr>))))"

text \<open>
  The posts of the seed folder, from its files and their contents; None when it cannot be
  read. An error anywhere gives no posts.
\<close>

definition seed_posts ::
  "(string \<Rightarrow> string option) \<Rightarrow> string \<Rightarrow> (string \<times> string) list option \<Rightarrow> post list" where
  "seed_posts to_iso now files =
     (case files of
        None \<Rightarrow> []
      | Some fs \<Rightarrow>
          (let rs = map (\<lambda>(f, raw). parse_seed to_iso now f raw) (filter (\<lambda>(f, _). ends_with f ''.md'') fs)
           in if list_ex (\<lambda>r. case r of Inl _ \<Rightarrow> True | Inr _ \<Rightarrow> False) rs then []
              else concat (map (\<lambda>r. case r of Inr (Some p) \<Rightarrow> [p] | _ \<Rightarrow> []) rs)))"

section \<open>Order, art and grouping\<close>

text \<open>\<open>byOrder(kind)(a, b)\<close>, with \<open>localeCompare\<close> as an argument.\<close>

definition by_order :: "(string \<Rightarrow> string \<Rightarrow> int) \<Rightarrow> string \<Rightarrow> post \<Rightarrow> post \<Rightarrow> int" where
  "by_order cmp kind a b =
     (if kind = ''guide''
      then (if sort_order a \<noteq> sort_order b then sort_order a - sort_order b else cmp (title a) (title b))
      else cmp (case published_at b of None \<Rightarrow> [] | Some d \<Rightarrow> d)
               (case published_at a of None \<Rightarrow> [] | Some d \<Rightarrow> d))"

definition sort_posts :: "(string \<Rightarrow> string \<Rightarrow> int) \<Rightarrow> string \<Rightarrow> post list \<Rightarrow> post list" where
  "sort_posts cmp kind ps = sort_by (by_order cmp kind) ps"

definition blog_art :: "(string \<times> string \<times> string) list" where
  "blog_art =
     [(''what-your-team-pastes-into-ai-tools'',
       ''/images/blog/ai-tools-thumb.jpg'', ''/images/blog/ai-tools-hero.jpg''),
      (''personal-vpns-bypass-web-filtering'',
       ''/images/blog/personal-vpns-thumb.jpg'', ''/images/blog/personal-vpns-hero.jpg''),
      (''roll-out-endpoint-security-without-losing-trust'',
       ''/images/blog/rollout-trust-thumb.jpg'', ''/images/blog/rollout-trust-hero.jpg'')]"

definition with_art :: "post \<Rightarrow> post" where
  "with_art p =
     (case map_of blog_art (slug p) of
        None \<Rightarrow> p\<lparr>thumbnail_image := Some (case thumbnail_image p of None \<Rightarrow> [] | Some t \<Rightarrow> t)\<rparr>
      | Some (thumb, hero) \<Rightarrow>
          p\<lparr>cover_image := (if cover_image p = [] then hero else cover_image p),
            thumbnail_image := Some (case thumbnail_image p of
               None \<Rightarrow> thumb | Some t \<Rightarrow> (if t = [] then thumb else t))\<rparr>)"

text \<open>
  Where posts come from: the admin API, whose answers are None when the call failed, or the
  seed.
\<close>

datatype source =
    Api "string \<Rightarrow> post list option" "string \<Rightarrow> string \<Rightarrow> (post \<times> post list) option"
  | Seed "post list"

definition without_body :: "post \<Rightarrow> post" where
  "without_body p = p\<lparr>body := [], seo_title := [], seo_description := []\<rparr>"

definition list_posts :: "(string \<Rightarrow> string \<Rightarrow> int) \<Rightarrow> source \<Rightarrow> string \<Rightarrow> post list" where
  "list_posts cmp src kind =
     map with_art
       (case src of
          Api l _ \<Rightarrow> (case l kind of None \<Rightarrow> [] | Some ps \<Rightarrow> ps)
        | Seed all \<Rightarrow> map without_body (sort_posts cmp kind (filter (\<lambda>p. post_kind p = kind) all)))"

definition get_post ::
  "(string \<Rightarrow> string \<Rightarrow> int) \<Rightarrow> source \<Rightarrow> string \<Rightarrow> string \<Rightarrow> (post \<times> post list) option" where
  "get_post cmp src kind s =
     (case src of
        Api _ g \<Rightarrow> map_option (\<lambda>(p, rel). (with_art p, map with_art rel)) (g kind s)
      | Seed seeds \<Rightarrow>
          (let all = filter (\<lambda>p. post_kind p = kind) seeds
           in case filter (\<lambda>p. slug p = s) all of
                [] \<Rightarrow> None
              | p # _ \<Rightarrow>
                  (let rel = take 3 (sort_posts cmp kind
                         (filter (\<lambda>q. post_id q \<noteq> post_id p \<and> category q = category p) all))
                   in Some (with_art p, map with_art rel))))"

record guide_group =
  group_name :: string
  group_body :: string
  group_posts :: "post list"

text \<open>\<open>Array.from(new Set(xs))\<close>: first occurrences, in order.\<close>

fun unique :: "'a list \<Rightarrow> 'a list" where
  "unique [] = []"
| "unique (x # xs) = x # filter (\<lambda>y. y \<noteq> x) (unique xs)"

definition group_guides :: "post list \<Rightarrow> guide_group list" where
  "group_guides ps =
     (let known = map fst guide_categories;
          names = known @ filter (\<lambda>c. c \<notin> set known) (unique (map category ps))
      in filter (\<lambda>g. group_posts g \<noteq> [])
           (map (\<lambda>n. \<lparr>group_name = n,
                       group_body = (case map_of guide_categories n of None \<Rightarrow> [] | Some b \<Rightarrow> b),
                       group_posts = filter (\<lambda>p. category p = n) ps\<rparr>) names))"

definition category_id :: "string \<Rightarrow> string" where
  "category_id name =
     (let s = strip_dashes (dash_runs False (to_lower name)) in if s = [] then ''general'' else s)"

section \<open>What the lists keep\<close>

lemma set_unique [simp]: "set (unique xs) = set xs"
  by (induction xs) auto

lemma distinct_unique [simp]: "distinct (unique xs)"
  by (induction xs) auto

lemma with_art_keeps [simp]:
  "slug (with_art p) = slug p" "category (with_art p) = category p" "post_id (with_art p) = post_id p"
  "post_kind (with_art p) = post_kind p" "title (with_art p) = title p"
  "sort_order (with_art p) = sort_order p" "published_at (with_art p) = published_at p"
  by (simp_all add: with_art_def split: option.split prod.split)

lemma without_body_keeps [simp]:
  "slug (without_body p) = slug p" "category (without_body p) = category p"
  "post_id (without_body p) = post_id p" "post_kind (without_body p) = post_kind p"
  "title (without_body p) = title p" "sort_order (without_body p) = sort_order p"
  "published_at (without_body p) = published_at p"
  by (simp_all add: without_body_def)

definition group_names :: "post list \<Rightarrow> string list" where
  "group_names ps =
     map fst guide_categories @
     filter (\<lambda>c. c \<notin> set (map fst guide_categories)) (unique (map category ps))"

definition group_of :: "post list \<Rightarrow> string \<Rightarrow> guide_group" where
  "group_of ps n =
     \<lparr>group_name = n,
      group_body = (case map_of guide_categories n of None \<Rightarrow> [] | Some b \<Rightarrow> b),
      group_posts = filter (\<lambda>p. category p = n) ps\<rparr>"

lemma group_guides_alt:
  "group_guides ps = filter (\<lambda>g. group_posts g \<noteq> []) (map (group_of ps) (group_names ps))"
  unfolding group_guides_def group_names_def group_of_def Let_def ..

lemma distinct_known: "distinct (map fst guide_categories)"
  by code_simp

lemma distinct_group_names: "distinct (group_names ps)"
  using distinct_known by (auto simp: group_names_def)

lemma concat_filter_nonempty:
  "concat (map group_posts (filter (\<lambda>g. group_posts g \<noteq> []) gs)) = concat (map group_posts gs)"
  by (induction gs) auto

lemma group_posts_of: "group_posts \<circ> group_of ps = (\<lambda>n. filter (\<lambda>p. category p = n) ps)"
  by (rule ext) (simp add: group_of_def)

lemma names_of_groups:
  "map group_name (group_guides ps) = filter (\<lambda>n. \<exists>p\<in>set ps. category p = n) (group_names ps)"
proof -
  have "map group_name (filter (\<lambda>g. group_posts g \<noteq> []) (map (group_of ps) ns)) =
      filter (\<lambda>n. \<exists>p\<in>set ps. category p = n) ns" for ns
    by (induction ns) (auto simp: group_of_def filter_empty_conv)
  then show ?thesis by (simp add: group_guides_alt)
qed

text \<open>
  grouping the articles into sections loses and repeats none: together the sections
  hold exactly the given articles, each section holds the articles of its category in their
  order and at least one, no two sections have the same name, and the known sections stand
  first, in reading order.
\<close>

theorem group_guides_partition:
  "mset (concat (map group_posts (group_guides ps))) = mset ps \<and>
   list_all (\<lambda>g. group_posts g \<noteq> [] \<and> group_posts g = filter (\<lambda>p. category p = group_name g) ps)
     (group_guides ps) \<and>
   distinct (map group_name (group_guides ps)) \<and>
   (\<exists>others. map group_name (group_guides ps) =
      filter (\<lambda>n. \<exists>p\<in>set ps. category p = n) (map fst guide_categories) @ others \<and>
      set others \<inter> set (map fst guide_categories) = {})"
proof (intro conjI)
  have "set (map category ps) \<subseteq> set (group_names ps)"
    by (auto simp: group_names_def)
  then show "mset (concat (map group_posts (group_guides ps))) = mset ps"
    using mset_concat_filters [OF distinct_group_names, of category ps]
    unfolding group_guides_alt concat_filter_nonempty map_map group_posts_of by simp
  show "list_all (\<lambda>g. group_posts g \<noteq> [] \<and> group_posts g = filter (\<lambda>p. category p = group_name g) ps)
     (group_guides ps)"
    by (auto simp: group_guides_alt list_all_iff group_of_def)
  show "distinct (map group_name (group_guides ps))"
    unfolding names_of_groups using distinct_group_names by (rule distinct_filter)
  show "\<exists>others. map group_name (group_guides ps) =
      filter (\<lambda>n. \<exists>p\<in>set ps. category p = n) (map fst guide_categories) @ others \<and>
      set others \<inter> set (map fst guide_categories) = {}"
    unfolding names_of_groups group_names_def by auto
qed

lemma in_take_sorted: "q \<in> set (take n (sort_posts cmp kind ps)) \<Longrightarrow> q \<in> set ps"
  by (drule in_set_takeD) (simp add: sort_posts_def)

text \<open>
  a seeded article comes with at most three related ones, each of the same kind and
  category and none of them the article itself; the article found is one with the slug asked
  for.
\<close>

theorem get_post_related:
  "case get_post cmp (Seed seeds) kind s of
     None \<Rightarrow> list_all (\<lambda>p. post_kind p \<noteq> kind \<or> slug p \<noteq> s) seeds
   | Some (p, rel) \<Rightarrow>
       p \<in> with_art ` set seeds \<and> post_kind p = kind \<and> slug p = s \<and> length rel \<le> 3 \<and>
       list_all (\<lambda>q. post_kind q = kind \<and> category q = category p \<and> post_id q \<noteq> post_id p) rel"
proof (cases "filter (\<lambda>p. slug p = s) (filter (\<lambda>p. post_kind p = kind) seeds)")
  case Nil
  then show ?thesis by (auto simp: get_post_def filter_empty_conv list_all_iff)
next
  case (Cons p ps)
  have "p \<in> set (filter (\<lambda>p. slug p = s) (filter (\<lambda>p. post_kind p = kind) seeds))"
    unfolding Cons by simp
  then have p: "p \<in> set seeds" "post_kind p = kind" "slug p = s" by auto
  let ?f = "filter (\<lambda>q. post_id q \<noteq> post_id p \<and> category q = category p)
    (filter (\<lambda>p. post_kind p = kind) seeds)"
  have rel: "list_all (\<lambda>q. post_kind q = kind \<and> category q = category p \<and> post_id q \<noteq> post_id p)
      (map with_art (take 3 (sort_posts cmp kind ?f)))"
    by (auto simp: list_all_iff dest!: in_take_sorted)
  have "get_post cmp (Seed seeds) kind s =
      Some (with_art p, map with_art (take 3 (sort_posts cmp kind ?f)))"
    unfolding get_post_def Let_def source.case Cons list.case ..
  with p rel show ?thesis by simp
qed

lemma by_order_total:
  assumes "\<And>a b. sgn (cmp a b) = - sgn (cmp b a)"
  shows "by_order cmp kind a b \<le> 0 \<or> by_order cmp kind b a \<le> 0"
proof -
  have "cmp x y \<le> 0 \<or> cmp y x \<le> 0" for x y
    using assms [of x y] by (auto simp: sgn_if split: if_splits)
  then show ?thesis by (auto simp: by_order_def)
qed

lemma by_order_trans:
  assumes "\<And>a b c. cmp a b \<le> 0 \<Longrightarrow> cmp b c \<le> 0 \<Longrightarrow> cmp a c \<le> 0"
  shows "by_order cmp kind a b \<le> 0 \<Longrightarrow> by_order cmp kind b c \<le> 0 \<Longrightarrow> by_order cmp kind a c \<le> 0"
  using assms by (auto simp: by_order_def split: if_splits)

lemma by_order_comparison:
  assumes "\<And>a b. sgn (cmp a b) = - sgn (cmp b a)"
    and "\<And>a b c. cmp a b \<le> 0 \<Longrightarrow> cmp b c \<le> 0 \<Longrightarrow> cmp a c \<le> 0"
  shows "comparison (by_order cmp kind)"
  using by_order_total [where cmp = cmp] by_order_trans [where cmp = cmp] assms
  by unfold_locales (meson not_le)+

text \<open>
  the list of a kind holds exactly the seeded posts of that kind, without their bodies,
  in order: of any two posts the earlier one is not after the later one in the order of the
  kind. It takes a comparison of titles and dates that is antisymmetric and transitive, as
  \<open>localeCompare\<close> is.
\<close>

theorem list_posts_sorted:
  assumes "\<And>a b. sgn (cmp a b) = - sgn (cmp b a)"
    and "\<And>a b c. cmp a b \<le> 0 \<Longrightarrow> cmp b c \<le> 0 \<Longrightarrow> cmp a c \<le> 0"
  shows "mset (map slug (list_posts cmp (Seed seeds) kind)) =
      image_mset slug (mset (filter (\<lambda>p. post_kind p = kind) seeds)) \<and>
    sorted_wrt (\<lambda>a b. by_order cmp kind a b \<le> 0) (list_posts cmp (Seed seeds) kind) \<and>
    list_all (\<lambda>p. body p = [] \<and> post_kind p = kind) (list_posts cmp (Seed seeds) kind)"
proof (intro conjI)
  let ?fs = "filter (\<lambda>p. post_kind p = kind) seeds"
  show "mset (map slug (list_posts cmp (Seed seeds) kind)) = image_mset slug (mset ?fs)"
    by (simp add: list_posts_def sort_posts_def multiset.map_comp comp_def flip: mset_map)
       (simp add: mset_map image_mset.compositionality comp_def)
  have "sorted_wrt (\<lambda>a b. by_order cmp kind a b \<le> 0) (sort_posts cmp kind ?fs)"
    unfolding sort_posts_def by (rule comparison.sorted_sort_by, rule by_order_comparison) (fact assms)+
  moreover have "by_order cmp kind (with_art (without_body a)) (with_art (without_body b)) =
      by_order cmp kind a b" for a b by (simp add: by_order_def)
  ultimately show "sorted_wrt (\<lambda>a b. by_order cmp kind a b \<le> 0) (list_posts cmp (Seed seeds) kind)"
    by (simp add: list_posts_def sorted_wrt_map)
  show "list_all (\<lambda>p. body p = [] \<and> post_kind p = kind) (list_posts cmp (Seed seeds) kind)"
    by (auto simp: list_posts_def list_all_iff with_art_def without_body_def sort_posts_def
        split: option.split)
qed

text \<open>A comparison to try the order on: by length.\<close>

definition by_length :: "string \<Rightarrow> string \<Rightarrow> int" where
  "by_length a b = int (length a) - int (length b)"

definition sample_post :: "string \<Rightarrow> string \<Rightarrow> int \<Rightarrow> post" where
  "sample_post s t n =
     \<lparr>post_id = s, post_kind = ''guide'', slug = s, title = t, excerpt = [], category = ''c'', tags = [],
      author_name = [], cover_image = [], thumbnail_image = None, featured = False, sort_order = n,
      published_at = None, updated_at = [], reading_minutes = 1, body = ''text'', seo_title = [],
      seo_description = []\<rparr>"

theorem list_posts_sorted_witness:
  "map slug (list_posts by_length
     (Seed [sample_post ''x'' ''long'' 1, sample_post ''y'' ''ab'' 1, sample_post ''z'' ''q'' 0]) ''guide'') =
     [''z'', ''y'', ''x''] \<and>
   sorted_wrt (\<lambda>a b. by_order by_length ''guide'' a b \<le> 0) (list_posts by_length
     (Seed [sample_post ''x'' ''long'' 1, sample_post ''y'' ''ab'' 1, sample_post ''z'' ''q'' 0]) ''guide'')"
proof
  show "map slug (list_posts by_length
     (Seed [sample_post ''x'' ''long'' 1, sample_post ''y'' ''ab'' 1, sample_post ''z'' ''q'' 0]) ''guide'') =
     [''z'', ''y'', ''x'']" by code_simp
  have "sgn (by_length a b) = - sgn (by_length b a)" for a b
    by (simp add: by_length_def sgn_if)
  moreover have "by_length a b \<le> 0 \<Longrightarrow> by_length b c \<le> 0 \<Longrightarrow> by_length a c \<le> 0" for a b c
    by (simp add: by_length_def)
  ultimately show "sorted_wrt (\<lambda>a b. by_order by_length ''guide'' a b \<le> 0) (list_posts by_length
     (Seed [sample_post ''x'' ''long'' 1, sample_post ''y'' ''ab'' 1, sample_post ''z'' ''q'' 0]) ''guide'')"
    by (intro list_posts_sorted [THEN conjunct2, THEN conjunct1])
qed

section \<open>Seed files that are read\<close>

definition seed_post_ok :: "post \<Rightarrow> bool" where
  "seed_post_ok p =
     ((post_kind p = ''blog'' \<or> post_kind p = ''guide'') \<and> slug p \<noteq> [] \<and> title p \<noteq> [] \<and>
      1 \<le> reading_minutes p \<and> published_at p = Some (updated_at p) \<and>
      list_all (\<lambda>t. t \<noteq> [] \<and> trim t = t) (tags p) \<and> trim (body p) = body p)"

lemma parse_seed_ok:
  "parse_seed to_iso now f raw = Inr (Some p) \<Longrightarrow> seed_post_ok p \<and> post_id p = f"
proof -
  assume p: "parse_seed to_iso now f raw = Inr (Some p)"
  obtain block rest where fm: "front_matter (crlf raw) = Some (block, rest)"
    using p by (cases "front_matter (crlf raw)") (auto simp: parse_seed_def)
  define g where "g = meta_get (meta_of block)"
  have c: "(g ''kind'' = ''blog'' \<or> g ''kind'' = ''guide'') \<and> g ''slug'' \<noteq> [] \<and> g ''title'' \<noteq> []"
    using p by (simp add: parse_seed_def fm Let_def g_def split: if_splits)
  obtain date where
    d: "(if g ''published'' = [] then Some now else to_iso (g ''published'' @ ''T00:00:00Z'')) = Some date"
    using p c by (cases "if g ''published'' = [] then Some now else to_iso (g ''published'' @ ''T00:00:00Z'')")
      (simp_all only: parse_seed_def fm Let_def option.case prod.case g_def [symmetric], auto split: if_splits)
  from p c show ?thesis
    unfolding parse_seed_def fm Let_def option.case prod.case g_def [symmetric] d
    by (simp only: sum.inject option.inject if_False simp_thms)
      (auto simp: seed_post_ok_def minutes_def list_all_iff)
qed

text \<open>
  every starter post is complete, whatever the files of the seed folder hold: of one of
  the two kinds, with a slug, a title, a date, at least a minute to read, tags that are
  trimmed and not empty, and it comes from a file of the folder whose name ends in
  \<open>.md\<close>.
\<close>

theorem seed_posts_complete:
  "list_all (\<lambda>p. seed_post_ok p \<and> ends_with (post_id p) ''.md'' \<and> post_id p \<in> fst ` set files)
     (seed_posts to_iso now (Some files))"
proof -
  have "seed_post_ok p \<and> ends_with (post_id p) ''.md'' \<and> post_id p \<in> fst ` set files"
    if p: "p \<in> set (seed_posts to_iso now (Some files))" for p
  proof -
    from p obtain f raw where "(f, raw) \<in> set files" "ends_with f ''.md''"
      "parse_seed to_iso now f raw = Inr (Some p)"
      by (auto simp: seed_posts_def Let_def split: if_splits sum.splits option.splits)
    then show ?thesis using parse_seed_ok by (metis fst_conv image_eqI)
  qed
  then show ?thesis by (simp add: list_all_iff)
qed

text \<open>A seed file with a given date.\<close>

definition dated_seed :: "string \<Rightarrow> string" where
  "dated_seed d = join lf [''---'', ''kind: blog'', ''slug: s'', ''title: T'', ''published: '' @ d, ''---'', ''Text'']"

text \<open>
  One file with an impossible date hides every other starter post: the conversion of its
  date throws and the error of one file is the error of all of them, which is caught as "no
  posts".
\<close>

theorem one_bad_date_hides_all:
  assumes "to_iso ''2026-13-01T00:00:00Z'' = None"
  shows "seed_posts to_iso now (Some (files @ [(''x.md'', dated_seed ''2026-13-01'')])) = []"
proof -
  have front: "front_matter (crlf (dated_seed ''2026-13-01'')) =
      Some (join lf [''kind: blog'', ''slug: s'', ''title: T'', ''published: 2026-13-01''], ''Text'')"
    by code_simp
  have meta: "meta_of (join lf [''kind: blog'', ''slug: s'', ''title: T'', ''published: 2026-13-01'']) =
      [(''kind'', ''blog''), (''slug'', ''s''), (''title'', ''T''), (''published'', ''2026-13-01'')]"
    by code_simp
  have "parse_seed to_iso now ''x.md'' (dated_seed ''2026-13-01'') = Inl (js_error ''Invalid time value'')"
    unfolding parse_seed_def front option.case prod.case Let_def meta
    by (simp add: meta_get_def assms)
  moreover have "ends_with ''x.md'' ''.md''" by code_simp
  ultimately show ?thesis by (simp add: seed_posts_def)
qed

theorem one_bad_date_hides_all_witness:
  "seed_posts (\<lambda>_. None) [] (Some ([] @ [(''x.md'', dated_seed ''2026-13-01'')])) = []"
  by (rule one_bad_date_hides_all) (rule refl)

end
