(* ===== verification/Endpoints.thy ===== *)
theory Endpoints
  imports Prelude
begin

text \<open>
  The calls of the three panels to the admin API: one datatype per object of each
  \<^verbatim>\<open>lib/api.ts\<close> with a constructor per method of it, and the function that gives the HTTP
  call it makes. A \<open>File\<close> is its content, a \<open>FormData\<close> the list of its parts, an omitted
  optional argument is undefined. The paths of the superadmin panel are below its base URL,
  which ends in \<^verbatim>\<open>/api/v1\<close>.
\<close>

datatype http_method = GET | POST | PUT | PATCH | DELETE

type_synonym parts = "(string \<times> string) list"

datatype payload = No_Body | Json jsval | Multipart parts

record endpoint =
  ep_method :: http_method
  ep_path :: string
  ep_payload :: payload
  ep_params :: jsval
  ep_blob :: bool
  ep_timeout :: nat

definition call :: "http_method \<Rightarrow> string \<Rightarrow> payload \<Rightarrow> endpoint" where
  "call m p b =
     \<lparr>ep_method = m, ep_path = p, ep_payload = b, ep_params = JUndef, ep_blob = False, ep_timeout = 30000\<rparr>"

lemma call_sel [simp]:
  "ep_method (call m p b) = m" "ep_path (call m p b) = p" "ep_payload (call m p b) = b"
  by (simp_all add: call_def)

section \<open>Company dashboard\<close>

datatype auth_call =
    Auth_Me
  | Auth_Register jsval
  | Auth_Forgot_Password string
  | Auth_Reset_Password jsval
  | Auth_Change_Password jsval
  | Auth_Update_Profile jsval
  | Auth_Logout jsval

fun auth_api :: "auth_call \<Rightarrow> endpoint" where
  "auth_api Auth_Me = call GET ''/api/v1/auth/me'' No_Body"
| "auth_api (Auth_Register d) = call POST ''/api/v1/auth/register'' (Json d)"
| "auth_api (Auth_Forgot_Password mail) =
     call POST ''/api/v1/auth/forgot-password'' (Json (JObj [(''email'', JStr mail)]))"
| "auth_api (Auth_Reset_Password d) = call POST ''/api/v1/auth/reset-password'' (Json d)"
| "auth_api (Auth_Change_Password d) = call POST ''/api/v1/auth/change-password'' (Json d)"
| "auth_api (Auth_Update_Profile d) = call PUT ''/api/v1/auth/profile'' (Json d)"
| "auth_api (Auth_Logout tok) =
     call POST ''/api/v1/auth/logout'' (Json (JObj [(''refresh_token'', tok)]))"

datatype otp_call =
    Otp_Resend_Login string
  | Otp_Start_Registration jsval
  | Otp_Resend_Registration string
  | Otp_Verify_Registration string string

fun otp_api :: "otp_call \<Rightarrow> endpoint" where
  "otp_api (Otp_Resend_Login tok) =
     call POST ''/api/v1/auth/otp/resend'' (Json (JObj [(''otp_token'', JStr tok)]))"
| "otp_api (Otp_Start_Registration d) = call POST ''/api/v1/auth/register/start'' (Json d)"
| "otp_api (Otp_Resend_Registration mail) =
     call POST ''/api/v1/auth/register/resend'' (Json (JObj [(''email'', JStr mail)]))"
| "otp_api (Otp_Verify_Registration mail c) =
     call POST ''/api/v1/auth/register/verify'' (Json (JObj [(''email'', JStr mail), (''code'', JStr c)]))"

datatype employee_call =
    Employee_List jsval
  | Employee_Get string
  | Employee_Create jsval
  | Employee_Update string jsval
  | Employee_Delete string
  | Employee_Bulk_Delete "string list"
  | Employee_Import_Csv string
  | Employee_Export_Csv
  | Employee_Activity string jsval
  | Employee_Reset_Portal_Password string
  | Employee_Departments

fun employee_api :: "employee_call \<Rightarrow> endpoint" where
  "employee_api (Employee_List ps) =
     (call GET ''/api/v1/employees'' No_Body)\<lparr>ep_params := ps\<rparr>"
| "employee_api (Employee_Get i) = call GET (''/api/v1/employees/'' @ i) No_Body"
| "employee_api (Employee_Create d) = call POST ''/api/v1/employees'' (Json d)"
| "employee_api (Employee_Update i d) = call PUT (''/api/v1/employees/'' @ i) (Json d)"
| "employee_api (Employee_Delete i) = call DELETE (''/api/v1/employees/'' @ i) No_Body"
| "employee_api (Employee_Bulk_Delete xs) =
     call POST ''/api/v1/employees/bulk-delete'' (Json (JObj [(''ids'', JArr (map JStr xs))]))"
| "employee_api (Employee_Import_Csv f) =
     call POST ''/api/v1/employees/import'' (Multipart [(''file'', f)])"
| "employee_api Employee_Export_Csv =
     (call GET ''/api/v1/employees/export'' No_Body)\<lparr>ep_blob := True\<rparr>"
| "employee_api (Employee_Activity i ps) =
     (call GET (''/api/v1/employees/'' @ i @ ''/activity'') No_Body)\<lparr>ep_params := ps\<rparr>"
| "employee_api (Employee_Reset_Portal_Password i) =
     call POST (''/api/v1/employees/'' @ i @ ''/portal-password'') No_Body"
| "employee_api Employee_Departments = call GET ''/api/v1/employees/departments'' No_Body"

datatype team_call =
    Team_List jsval
  | Team_Get string
  | Team_Create jsval
  | Team_Update string jsval
  | Team_Delete string
  | Team_Assign_Employees string jsval
  | Team_Remove_Employee string string
  | Team_Members string

fun team_api :: "team_call \<Rightarrow> endpoint" where
  "team_api (Team_List ps) =
     (call GET ''/api/v1/teams'' No_Body)\<lparr>ep_params := ps\<rparr>"
| "team_api (Team_Get i) = call GET (''/api/v1/teams/'' @ i) No_Body"
| "team_api (Team_Create d) = call POST ''/api/v1/teams'' (Json d)"
| "team_api (Team_Update i d) = call PUT (''/api/v1/teams/'' @ i) (Json d)"
| "team_api (Team_Delete i) = call DELETE (''/api/v1/teams/'' @ i) No_Body"
| "team_api (Team_Assign_Employees i d) =
     call POST (''/api/v1/teams/'' @ i @ ''/employees'') (Json d)"
| "team_api (Team_Remove_Employee t e) =
     call DELETE (''/api/v1/teams/'' @ t @ ''/employees/'' @ e) No_Body"
| "team_api (Team_Members i) = call GET (''/api/v1/teams/'' @ i @ ''/members'') No_Body"

datatype policy_call =
    Policy_List jsval
  | Policy_Get string
  | Policy_Create jsval
  | Policy_Update string jsval
  | Policy_Delete string
  | Policy_Toggle string
  | Policy_Duplicate string
  | Policy_Assign string jsval
  | Policy_Export_Json string
  | Policy_Import_Json jsval
  | Policy_Types
  | Policy_Resolved_Domains string
  | Policy_Blocked_Employees string

fun policy_api :: "policy_call \<Rightarrow> endpoint" where
  "policy_api (Policy_List ps) =
     (call GET ''/api/v1/policies'' No_Body)\<lparr>ep_params := ps\<rparr>"
| "policy_api (Policy_Get i) = call GET (''/api/v1/policies/'' @ i) No_Body"
| "policy_api (Policy_Create d) = call POST ''/api/v1/policies'' (Json d)"
| "policy_api (Policy_Update i d) = call PUT (''/api/v1/policies/'' @ i) (Json d)"
| "policy_api (Policy_Delete i) = call DELETE (''/api/v1/policies/'' @ i) No_Body"
| "policy_api (Policy_Toggle i) = call PATCH (''/api/v1/policies/'' @ i @ ''/toggle'') No_Body"
| "policy_api (Policy_Duplicate i) =
     call POST (''/api/v1/policies/'' @ i @ ''/duplicate'') No_Body"
| "policy_api (Policy_Assign i d) =
     call POST (''/api/v1/policies/'' @ i @ ''/assign'') (Json d)"
| "policy_api (Policy_Export_Json i) =
     call GET (''/api/v1/policies/'' @ i @ ''/export'') No_Body"
| "policy_api (Policy_Import_Json d) = call POST ''/api/v1/policies/import'' (Json d)"
| "policy_api Policy_Types = call GET ''/api/v1/policies/types'' No_Body"
| "policy_api (Policy_Resolved_Domains i) =
     call GET (''/api/v1/policies/'' @ i @ ''/resolved-domains'') No_Body"
| "policy_api (Policy_Blocked_Employees i) =
     call GET (''/api/v1/policies/'' @ i @ ''/blocked-employees'') No_Body"

datatype dlp_call =
    Dlp_Test jsval

fun dlp_api :: "dlp_call \<Rightarrow> endpoint" where
  "dlp_api (Dlp_Test d) = call POST ''/api/v1/dlp/test'' (Json d)"

datatype access_request_call =
    Access_Request_List jsval
  | Access_Request_Approve string jsval
  | Access_Request_Deny string jsval
  | Access_Request_Revoke string jsval

fun access_request_api :: "access_request_call \<Rightarrow> endpoint" where
  "access_request_api (Access_Request_List ps) =
     (call GET ''/api/v1/access-requests'' No_Body)\<lparr>ep_params := ps\<rparr>"
| "access_request_api (Access_Request_Approve i n) =
     call POST (''/api/v1/access-requests/'' @ i @ ''/approve'') (Json (JObj [(''note'', n)]))"
| "access_request_api (Access_Request_Deny i n) =
     call POST (''/api/v1/access-requests/'' @ i @ ''/deny'') (Json (JObj [(''note'', n)]))"
| "access_request_api (Access_Request_Revoke i n) =
     call POST (''/api/v1/access-requests/'' @ i @ ''/revoke'') (Json (JObj [(''note'', n)]))"

datatype activity_call =
    Activity_List jsval
  | Activity_Stats jsval

fun activity_api :: "activity_call \<Rightarrow> endpoint" where
  "activity_api (Activity_List ps) =
     (call GET ''/api/v1/activity'' No_Body)\<lparr>ep_params := ps\<rparr>"
| "activity_api (Activity_Stats ps) =
     (call GET ''/api/v1/activity/stats'' No_Body)\<lparr>ep_params := ps\<rparr>"

datatype device_call =
    Device_List jsval
  | Device_Get string
  | Device_Revoke string
  | Device_Set_Ownership string string
  | Device_Enforcement string
  | Device_Activity jsval
  | Device_Put_Schedule string jsval
  | Device_Delete_Schedule string

fun device_api :: "device_call \<Rightarrow> endpoint" where
  "device_api (Device_List ps) =
     (call GET ''/api/v1/devices'' No_Body)\<lparr>ep_params := ps\<rparr>"
| "device_api (Device_Get i) = call GET (''/api/v1/devices/'' @ i) No_Body"
| "device_api (Device_Revoke i) = call DELETE (''/api/v1/devices/'' @ i) No_Body"
| "device_api (Device_Set_Ownership i own) =
     call PATCH (''/api/v1/devices/'' @ i) (Json (JObj [(''ownership'', JStr own)]))"
| "device_api (Device_Enforcement i) =
     call GET (''/api/v1/devices/'' @ i @ ''/enforcement'') No_Body"
| "device_api (Device_Activity ps) =
     (call GET ''/api/v1/devices/activity'' No_Body)\<lparr>ep_params := ps\<rparr>"
| "device_api (Device_Put_Schedule i d) =
     call PUT (''/api/v1/devices/'' @ i @ ''/schedule'') (Json d)"
| "device_api (Device_Delete_Schedule i) =
     call DELETE (''/api/v1/devices/'' @ i @ ''/schedule'') No_Body"

datatype swg_call =
    Swg_List_Rules jsval
  | Swg_Create_Rule jsval
  | Swg_Delete_Rule string
  | Swg_Categories
  | Swg_Stats
  | Swg_Check_Url string

fun swg_api :: "swg_call \<Rightarrow> endpoint" where
  "swg_api (Swg_List_Rules ps) =
     (call GET ''/api/v1/swg/rules'' No_Body)\<lparr>ep_params := ps\<rparr>"
| "swg_api (Swg_Create_Rule d) = call POST ''/api/v1/swg/rules'' (Json d)"
| "swg_api (Swg_Delete_Rule i) = call DELETE (''/api/v1/swg/rules/'' @ i) No_Body"
| "swg_api Swg_Categories = call GET ''/api/v1/swg/categories'' No_Body"
| "swg_api Swg_Stats = call GET ''/api/v1/swg/stats'' No_Body"
| "swg_api (Swg_Check_Url u) =
     call POST ''/api/v1/swg/check'' (Json (JObj [(''url'', JStr u)]))"

datatype category_call =
    Category_List jsval
  | Category_Domains string jsval
  | Category_Add_Domains string jsval
  | Category_Delete_Domain string string
  | Category_Delete string
  | Category_Restore string

fun category_api :: "category_call \<Rightarrow> endpoint" where
  "category_api (Category_List ps) =
     (call GET ''/api/v1/categories'' No_Body)\<lparr>ep_params := ps\<rparr>"
| "category_api (Category_Domains i ps) =
     (call GET (''/api/v1/categories/'' @ i @ ''/domains'') No_Body)\<lparr>ep_params := ps\<rparr>"
| "category_api (Category_Add_Domains i d) =
     call POST (''/api/v1/categories/'' @ i @ ''/domains'') (Json d)"
| "category_api (Category_Delete_Domain i site) =
     (call DELETE (''/api/v1/categories/'' @ i @ ''/domains'') No_Body)\<lparr>ep_params := JObj [(''domain'', JStr site)]\<rparr>"
| "category_api (Category_Delete i) = call DELETE (''/api/v1/categories/'' @ i) No_Body"
| "category_api (Category_Restore i) =
     call POST (''/api/v1/categories/'' @ i @ ''/restore'') No_Body"

datatype app_control_call =
    App_Control_Catalog
  | App_Control_List_Rules
  | App_Control_Create_Rule jsval
  | App_Control_Update_Rule string jsval
  | App_Control_Delete_Rule string
  | App_Control_Events
  | App_Control_Installed jsval
  | App_Control_Set_Control string jsval
  | App_Control_Create_Application jsval
  | App_Control_Delete_Application string

fun app_control_api :: "app_control_call \<Rightarrow> endpoint" where
  "app_control_api App_Control_Catalog = call GET ''/api/v1/applications/catalog'' No_Body"
| "app_control_api App_Control_List_Rules = call GET ''/api/v1/applications/rules'' No_Body"
| "app_control_api (App_Control_Create_Rule d) =
     call POST ''/api/v1/applications/rules'' (Json d)"
| "app_control_api (App_Control_Update_Rule i d) =
     call PATCH (''/api/v1/applications/rules/'' @ i) (Json d)"
| "app_control_api (App_Control_Delete_Rule i) =
     call DELETE (''/api/v1/applications/rules/'' @ i) No_Body"
| "app_control_api App_Control_Events = call GET ''/api/v1/applications/events'' No_Body"
| "app_control_api (App_Control_Installed ps) =
     (call GET ''/api/v1/applications/installed'' No_Body)\<lparr>ep_params := ps\<rparr>"
| "app_control_api (App_Control_Set_Control i d) =
     call POST (''/api/v1/applications/installed/'' @ i @ ''/control'') (Json d)"
| "app_control_api (App_Control_Create_Application d) =
     call POST ''/api/v1/applications'' (Json d)"
| "app_control_api (App_Control_Delete_Application i) =
     call DELETE (''/api/v1/applications/'' @ i) No_Body"

datatype monitoring_call =
    Monitoring_Employees
  | Monitoring_Screenshots jsval
  | Monitoring_Get_Settings
  | Monitoring_Update_Settings jsval
  | Monitoring_Delete_Session string
  | Monitoring_Delete_Screenshot string

fun monitoring_api :: "monitoring_call \<Rightarrow> endpoint" where
  "monitoring_api Monitoring_Employees = call GET ''/api/v1/monitoring/employees'' No_Body"
| "monitoring_api (Monitoring_Screenshots ps) =
     (call GET ''/api/v1/monitoring/screenshots'' No_Body)\<lparr>ep_params := ps\<rparr>"
| "monitoring_api Monitoring_Get_Settings = call GET ''/api/v1/monitoring/settings'' No_Body"
| "monitoring_api (Monitoring_Update_Settings d) =
     call PUT ''/api/v1/monitoring/settings'' (Json d)"
| "monitoring_api (Monitoring_Delete_Session i) =
     call DELETE (''/api/v1/monitoring/sessions/'' @ i) No_Body"
| "monitoring_api (Monitoring_Delete_Screenshot i) =
     call DELETE (''/api/v1/monitoring/screenshots/'' @ i) No_Body"

datatype enforcement_call =
    Enforcement_Get_Org_Schedule
  | Enforcement_Put_Org_Schedule jsval
  | Enforcement_Delete_Org_Schedule
  | Enforcement_List_Schedules
  | Enforcement_Put_Team_Schedule string jsval
  | Enforcement_Delete_Team_Schedule string

fun enforcement_api :: "enforcement_call \<Rightarrow> endpoint" where
  "enforcement_api Enforcement_Get_Org_Schedule =
     call GET ''/api/v1/enforcement/schedule'' No_Body"
| "enforcement_api (Enforcement_Put_Org_Schedule d) =
     call PUT ''/api/v1/enforcement/schedule'' (Json d)"
| "enforcement_api Enforcement_Delete_Org_Schedule =
     call DELETE ''/api/v1/enforcement/schedule'' No_Body"
| "enforcement_api Enforcement_List_Schedules =
     call GET ''/api/v1/enforcement/schedules'' No_Body"
| "enforcement_api (Enforcement_Put_Team_Schedule i d) =
     call PUT (''/api/v1/teams/'' @ i @ ''/schedule'') (Json d)"
| "enforcement_api (Enforcement_Delete_Team_Schedule i) =
     call DELETE (''/api/v1/teams/'' @ i @ ''/schedule'') No_Body"

datatype settings_call =
    Settings_Get_Mitm
  | Settings_Update_Mitm jsval
  | Settings_Mitm_Platforms
  | Settings_Discover_Bypass string

fun settings_api :: "settings_call \<Rightarrow> endpoint" where
  "settings_api Settings_Get_Mitm = call GET ''/api/v1/settings/mitm'' No_Body"
| "settings_api (Settings_Update_Mitm d) = call PUT ''/api/v1/settings/mitm'' (Json d)"
| "settings_api Settings_Mitm_Platforms = call GET ''/api/v1/settings/mitm/platforms'' No_Body"
| "settings_api (Settings_Discover_Bypass q) =
     (call GET ''/api/v1/settings/mitm/discover'' No_Body)\<lparr>ep_params := JObj [(''query'', JStr q)]\<rparr>"

datatype residency_call =
    Residency_Get
  | Residency_Set_Enabled bool jsval
  | Residency_Test_Database jsval
  | Residency_Save_Database jsval
  | Residency_Disconnect_Database
  | Residency_Test_Files jsval
  | Residency_Save_Files jsval
  | Residency_Disconnect_Files
  | Residency_Move_History

fun residency_api :: "residency_call \<Rightarrow> endpoint" where
  "residency_api Residency_Get = call GET ''/api/v1/settings/data-residency'' No_Body"
| "residency_api (Residency_Set_Enabled b w) =
     call PUT ''/api/v1/settings/data-residency'' (Json (JObj [(''enabled'', JBool b), (''confirm'', w)]))"
| "residency_api (Residency_Test_Database d) =
     (call POST ''/api/v1/settings/data-residency/database/test'' (Json d))\<lparr>ep_timeout := 120000\<rparr>"
| "residency_api (Residency_Save_Database d) =
     (call PUT ''/api/v1/settings/data-residency/database'' (Json d))\<lparr>ep_timeout := 120000\<rparr>"
| "residency_api Residency_Disconnect_Database =
     call DELETE ''/api/v1/settings/data-residency/database'' (Json (JObj [(''confirm'', JStr ''DISCONNECT'')]))"
| "residency_api (Residency_Test_Files d) =
     (call POST ''/api/v1/settings/data-residency/files/test'' (Json d))\<lparr>ep_timeout := 120000\<rparr>"
| "residency_api (Residency_Save_Files d) =
     (call PUT ''/api/v1/settings/data-residency/files'' (Json d))\<lparr>ep_timeout := 120000\<rparr>"
| "residency_api Residency_Disconnect_Files =
     call DELETE ''/api/v1/settings/data-residency/files'' (Json (JObj [(''confirm'', JStr ''DISCONNECT'')]))"
| "residency_api Residency_Move_History =
     call POST ''/api/v1/settings/data-residency/move-history'' (Json (JObj [(''confirm'', JStr ''MOVE'')]))"

datatype ai_chat_call =
    Ai_Chat_List_Sessions
  | Ai_Chat_Create_Session jsval
  | Ai_Chat_Get_Session string
  | Ai_Chat_Rename_Session string string
  | Ai_Chat_Delete_Session string
  | Ai_Chat_Add_Message string jsval

fun ai_chat_api :: "ai_chat_call \<Rightarrow> endpoint" where
  "ai_chat_api Ai_Chat_List_Sessions = call GET ''/api/v1/ai/sessions'' No_Body"
| "ai_chat_api (Ai_Chat_Create_Session d) =
     call POST ''/api/v1/ai/sessions'' (Json (or_nullish d (JObj [])))"
| "ai_chat_api (Ai_Chat_Get_Session i) = call GET (''/api/v1/ai/sessions/'' @ i) No_Body"
| "ai_chat_api (Ai_Chat_Rename_Session i t) =
     call PATCH (''/api/v1/ai/sessions/'' @ i) (Json (JObj [(''title'', JStr t)]))"
| "ai_chat_api (Ai_Chat_Delete_Session i) = call DELETE (''/api/v1/ai/sessions/'' @ i) No_Body"
| "ai_chat_api (Ai_Chat_Add_Message i d) =
     call POST (''/api/v1/ai/sessions/'' @ i @ ''/messages'') (Json d)"

datatype report_call =
    Report_Overview jsval
  | Report_Catalog
  | Report_Get string jsval
  | Report_Export string string jsval

fun report_api :: "report_call \<Rightarrow> endpoint" where
  "report_api (Report_Overview ps) =
     (call GET ''/api/v1/reports/overview'' No_Body)\<lparr>ep_params := ps\<rparr>"
| "report_api Report_Catalog = call GET ''/api/v1/reports/catalog'' No_Body"
| "report_api (Report_Get k ps) =
     (call GET (''/api/v1/reports/'' @ k) No_Body)\<lparr>ep_params := ps\<rparr>"
| "report_api (Report_Export k fmt ps) =
     (call GET (''/api/v1/reports/'' @ k) No_Body)\<lparr>ep_params := JObj (obj_put (obj_spread [] ps) ''format'' (JStr fmt)), ep_blob := True, ep_timeout := 120000\<rparr>"

datatype org_user_call =
    Org_User_List jsval
  | Org_User_Create jsval
  | Org_User_Update string jsval
  | Org_User_Delete string

fun org_user_api :: "org_user_call \<Rightarrow> endpoint" where
  "org_user_api (Org_User_List ps) =
     (call GET ''/api/v1/users'' No_Body)\<lparr>ep_params := ps\<rparr>"
| "org_user_api (Org_User_Create d) = call POST ''/api/v1/users'' (Json d)"
| "org_user_api (Org_User_Update i d) = call PUT (''/api/v1/users/'' @ i) (Json d)"
| "org_user_api (Org_User_Delete i) = call DELETE (''/api/v1/users/'' @ i) No_Body"

datatype mfa_call =
    Mfa_Status
  | Mfa_Setup
  | Mfa_Enable string
  | Mfa_Disable string
  | Mfa_Regenerate_Codes string
  | Mfa_Org_Policy
  | Mfa_Set_Org_Policy bool

fun mfa_api :: "mfa_call \<Rightarrow> endpoint" where
  "mfa_api Mfa_Status = call GET ''/api/v1/auth/mfa/status'' No_Body"
| "mfa_api Mfa_Setup = call POST ''/api/v1/auth/mfa/setup'' No_Body"
| "mfa_api (Mfa_Enable c) =
     call POST ''/api/v1/auth/mfa/enable'' (Json (JObj [(''code'', JStr c)]))"
| "mfa_api (Mfa_Disable pw) =
     call POST ''/api/v1/auth/mfa/disable'' (Json (JObj [(''password'', JStr pw)]))"
| "mfa_api (Mfa_Regenerate_Codes pw) =
     call POST ''/api/v1/auth/mfa/recovery-codes'' (Json (JObj [(''password'', JStr pw)]))"
| "mfa_api Mfa_Org_Policy = call GET ''/api/v1/settings/mfa'' No_Body"
| "mfa_api (Mfa_Set_Org_Policy b) =
     call PUT ''/api/v1/settings/mfa'' (Json (JObj [(''required'', JBool b)]))"

datatype company_call =
    Company_Get
  | Company_Update jsval
  | Company_Timezones
  | Company_Update_Notifications jsval
  | Company_Block_Page
  | Company_Update_Block_Page jsval

fun company_api :: "company_call \<Rightarrow> endpoint" where
  "company_api Company_Get = call GET ''/api/v1/organization'' No_Body"
| "company_api (Company_Update d) = call PUT ''/api/v1/organization'' (Json d)"
| "company_api Company_Timezones = call GET ''/api/v1/organization/timezones'' No_Body"
| "company_api (Company_Update_Notifications d) =
     call PUT ''/api/v1/organization/notifications'' (Json d)"
| "company_api Company_Block_Page = call GET ''/api/v1/organization/block-page'' No_Body"
| "company_api (Company_Update_Block_Page d) =
     call PUT ''/api/v1/organization/block-page'' (Json d)"

datatype ticket_call =
    Ticket_List jsval
  | Ticket_Unread
  | Ticket_Get string
  | Ticket_Create parts
  | Ticket_Reply string parts
  | Ticket_Resolve string
  | Ticket_Feedback string int jsval
  | Ticket_Attachment string string

fun ticket_api :: "ticket_call \<Rightarrow> endpoint" where
  "ticket_api (Ticket_List v) =
     (call GET ''/api/v1/tickets'' No_Body)\<lparr>ep_params := if truthy v then JObj [(''view'', v)] else JUndef\<rparr>"
| "ticket_api Ticket_Unread = call GET ''/api/v1/tickets/unread'' No_Body"
| "ticket_api (Ticket_Get i) = call GET (''/api/v1/tickets/'' @ i) No_Body"
| "ticket_api (Ticket_Create fs) =
     (call POST ''/api/v1/tickets'' (Multipart fs))\<lparr>ep_timeout := 120000\<rparr>"
| "ticket_api (Ticket_Reply i fs) =
     (call POST (''/api/v1/tickets/'' @ i @ ''/messages'') (Multipart fs))\<lparr>ep_timeout := 120000\<rparr>"
| "ticket_api (Ticket_Resolve i) = call POST (''/api/v1/tickets/'' @ i @ ''/resolve'') No_Body"
| "ticket_api (Ticket_Feedback i r n) =
     call POST (''/api/v1/tickets/'' @ i @ ''/feedback'') (Json (JObj [(''rating'', JNum r), (''comment'', n)]))"
| "ticket_api (Ticket_Attachment i a) =
     call GET (''/api/v1/tickets/'' @ i @ ''/attachments/'' @ a) No_Body"

section \<open>Superadmin panel\<close>

datatype sa_auth_call =
    Sa_Auth_Login string string
  | Sa_Auth_Refresh string
  | Sa_Auth_Logout jsval
  | Sa_Auth_Me
  | Sa_Auth_Change_Password jsval
  | Sa_Auth_Update_Profile jsval

fun sa_auth_api :: "sa_auth_call \<Rightarrow> endpoint" where
  "sa_auth_api (Sa_Auth_Login mail pw) =
     call POST ''/auth/login'' (Json (JObj [(''email'', JStr mail), (''password'', JStr pw), (''panel'', JStr ''superadmin'')]))"
| "sa_auth_api (Sa_Auth_Refresh tok) =
     call POST ''/auth/refresh'' (Json (JObj [(''refresh_token'', JStr tok)]))"
| "sa_auth_api (Sa_Auth_Logout tok) =
     call POST ''/auth/logout'' (Json (JObj [(''refresh_token'', tok)]))"
| "sa_auth_api Sa_Auth_Me = call GET ''/auth/me'' No_Body"
| "sa_auth_api (Sa_Auth_Change_Password d) = call POST ''/auth/change-password'' (Json d)"
| "sa_auth_api (Sa_Auth_Update_Profile d) = call PUT ''/auth/profile'' (Json d)"

datatype sa_otp_call =
    Sa_Otp_Resend_Login string

fun sa_otp_api :: "sa_otp_call \<Rightarrow> endpoint" where
  "sa_otp_api (Sa_Otp_Resend_Login tok) =
     call POST ''/auth/otp/resend'' (Json (JObj [(''otp_token'', JStr tok)]))"

datatype sa_org_call =
    Sa_Org_List jsval
  | Sa_Org_Get string
  | Sa_Org_Create jsval
  | Sa_Org_Update string jsval
  | Sa_Org_Delete string
  | Sa_Org_Stats
  | Sa_Org_Export string
  | Sa_Org_Purge string string
  | Sa_Org_Impersonate string jsval

fun sa_org_api :: "sa_org_call \<Rightarrow> endpoint" where
  "sa_org_api (Sa_Org_List ps) =
     (call GET ''/superadmin/organizations'' No_Body)\<lparr>ep_params := ps\<rparr>"
| "sa_org_api (Sa_Org_Get i) = call GET (''/superadmin/organizations/'' @ i) No_Body"
| "sa_org_api (Sa_Org_Create d) = call POST ''/superadmin/organizations'' (Json d)"
| "sa_org_api (Sa_Org_Update i d) = call PUT (''/superadmin/organizations/'' @ i) (Json d)"
| "sa_org_api (Sa_Org_Delete i) = call DELETE (''/superadmin/organizations/'' @ i) No_Body"
| "sa_org_api Sa_Org_Stats = call GET ''/superadmin/stats'' No_Body"
| "sa_org_api (Sa_Org_Export i) =
     call GET (''/superadmin/organizations/'' @ i @ ''/export'') No_Body"
| "sa_org_api (Sa_Org_Purge i w) =
     call POST (''/superadmin/organizations/'' @ i @ ''/purge'') (Json (JObj [(''confirm'', JStr w)]))"
| "sa_org_api (Sa_Org_Impersonate i u) =
     call POST (''/superadmin/organizations/'' @ i @ ''/impersonate'') (Json (JObj [(''user_id'', u)]))"

datatype sa_overview_call =
    Sa_Overview_Get bool

fun sa_overview_api :: "sa_overview_call \<Rightarrow> endpoint" where
  "sa_overview_api (Sa_Overview_Get b) =
     (call GET ''/superadmin/overview'' No_Body)\<lparr>ep_params := if b then JObj [(''fresh'', JNum 1)] else JUndef\<rparr>"

datatype sa_seat_alert_call =
    Sa_Seat_Alert_List

fun sa_seat_alert_api :: "sa_seat_alert_call \<Rightarrow> endpoint" where
  "sa_seat_alert_api Sa_Seat_Alert_List = call GET ''/superadmin/seat-alerts'' No_Body"

datatype sa_billing_call =
    Sa_Billing_List_For_Org string
  | Sa_Billing_Create string jsval
  | Sa_Billing_List jsval
  | Sa_Billing_Refresh string
  | Sa_Billing_Cancel string

fun sa_billing_api :: "sa_billing_call \<Rightarrow> endpoint" where
  "sa_billing_api (Sa_Billing_List_For_Org org) =
     call GET (''/superadmin/organizations/'' @ org @ ''/billing'') No_Body"
| "sa_billing_api (Sa_Billing_Create org d) =
     call POST (''/superadmin/organizations/'' @ org @ ''/billing'') (Json d)"
| "sa_billing_api (Sa_Billing_List ps) =
     (call GET ''/superadmin/billing'' No_Body)\<lparr>ep_params := ps\<rparr>"
| "sa_billing_api (Sa_Billing_Refresh i) =
     call POST (''/superadmin/billing/'' @ i @ ''/refresh'') No_Body"
| "sa_billing_api (Sa_Billing_Cancel i) = call DELETE (''/superadmin/billing/'' @ i) No_Body"

datatype sa_blocklist_call =
    Sa_Blocklist_List
  | Sa_Blocklist_Create jsval
  | Sa_Blocklist_Toggle string
  | Sa_Blocklist_Delete string
  | Sa_Blocklist_Feed_Status

fun sa_blocklist_api :: "sa_blocklist_call \<Rightarrow> endpoint" where
  "sa_blocklist_api Sa_Blocklist_List = call GET ''/superadmin/blocklist'' No_Body"
| "sa_blocklist_api (Sa_Blocklist_Create d) = call POST ''/superadmin/blocklist'' (Json d)"
| "sa_blocklist_api (Sa_Blocklist_Toggle i) =
     call PATCH (''/superadmin/blocklist/'' @ i) No_Body"
| "sa_blocklist_api (Sa_Blocklist_Delete i) =
     call DELETE (''/superadmin/blocklist/'' @ i) No_Body"
| "sa_blocklist_api Sa_Blocklist_Feed_Status = call GET ''/superadmin/threat-feeds'' No_Body"

datatype sa_announcement_call =
    Sa_Announcement_List
  | Sa_Announcement_Create jsval
  | Sa_Announcement_Update string jsval
  | Sa_Announcement_Delete string

fun sa_announcement_api :: "sa_announcement_call \<Rightarrow> endpoint" where
  "sa_announcement_api Sa_Announcement_List = call GET ''/superadmin/announcements'' No_Body"
| "sa_announcement_api (Sa_Announcement_Create d) =
     call POST ''/superadmin/announcements'' (Json d)"
| "sa_announcement_api (Sa_Announcement_Update i d) =
     call PATCH (''/superadmin/announcements/'' @ i) (Json d)"
| "sa_announcement_api (Sa_Announcement_Delete i) =
     call DELETE (''/superadmin/announcements/'' @ i) No_Body"

datatype sa_content_call =
    Sa_Content_List jsval
  | Sa_Content_Get string
  | Sa_Content_Create jsval
  | Sa_Content_Update string jsval
  | Sa_Content_Delete string

fun sa_content_api :: "sa_content_call \<Rightarrow> endpoint" where
  "sa_content_api (Sa_Content_List ps) =
     (call GET ''/superadmin/content'' No_Body)\<lparr>ep_params := ps\<rparr>"
| "sa_content_api (Sa_Content_Get i) = call GET (''/superadmin/content/'' @ i) No_Body"
| "sa_content_api (Sa_Content_Create d) = call POST ''/superadmin/content'' (Json d)"
| "sa_content_api (Sa_Content_Update i d) = call PATCH (''/superadmin/content/'' @ i) (Json d)"
| "sa_content_api (Sa_Content_Delete i) = call DELETE (''/superadmin/content/'' @ i) No_Body"

datatype sa_demo_request_call =
    Sa_Demo_Request_List jsval
  | Sa_Demo_Request_Update string jsval

fun sa_demo_request_api :: "sa_demo_request_call \<Rightarrow> endpoint" where
  "sa_demo_request_api (Sa_Demo_Request_List ps) =
     (call GET ''/superadmin/demo-requests'' No_Body)\<lparr>ep_params := ps\<rparr>"
| "sa_demo_request_api (Sa_Demo_Request_Update i d) =
     call PATCH (''/superadmin/demo-requests/'' @ i) (Json d)"

datatype sa_waitlist_call =
    Sa_Waitlist_List jsval
  | Sa_Waitlist_Update string jsval
  | Sa_Waitlist_Remove string
  | Sa_Waitlist_Export_Csv jsval

fun sa_waitlist_api :: "sa_waitlist_call \<Rightarrow> endpoint" where
  "sa_waitlist_api (Sa_Waitlist_List ps) =
     (call GET ''/superadmin/waitlist'' No_Body)\<lparr>ep_params := ps\<rparr>"
| "sa_waitlist_api (Sa_Waitlist_Update i d) =
     call PATCH (''/superadmin/waitlist/'' @ i) (Json d)"
| "sa_waitlist_api (Sa_Waitlist_Remove i) =
     call DELETE (''/superadmin/waitlist/'' @ i) No_Body"
| "sa_waitlist_api (Sa_Waitlist_Export_Csv ps) =
     (call GET ''/superadmin/waitlist/export'' No_Body)\<lparr>ep_params := ps, ep_blob := True\<rparr>"

datatype sa_feature_flag_call =
    Sa_Feature_Flag_List
  | Sa_Feature_Flag_Create jsval
  | Sa_Feature_Flag_Update string jsval
  | Sa_Feature_Flag_Delete string
  | Sa_Feature_Flag_Enable_For_Org string string
  | Sa_Feature_Flag_Disable_For_Org string string

fun sa_feature_flag_api :: "sa_feature_flag_call \<Rightarrow> endpoint" where
  "sa_feature_flag_api Sa_Feature_Flag_List = call GET ''/superadmin/feature-flags'' No_Body"
| "sa_feature_flag_api (Sa_Feature_Flag_Create d) =
     call POST ''/superadmin/feature-flags'' (Json d)"
| "sa_feature_flag_api (Sa_Feature_Flag_Update i d) =
     call PATCH (''/superadmin/feature-flags/'' @ i) (Json d)"
| "sa_feature_flag_api (Sa_Feature_Flag_Delete i) =
     call DELETE (''/superadmin/feature-flags/'' @ i) No_Body"
| "sa_feature_flag_api (Sa_Feature_Flag_Enable_For_Org i org) =
     call PUT (''/superadmin/feature-flags/'' @ i @ ''/orgs/'' @ org) No_Body"
| "sa_feature_flag_api (Sa_Feature_Flag_Disable_For_Org i org) =
     call DELETE (''/superadmin/feature-flags/'' @ i @ ''/orgs/'' @ org) No_Body"

datatype sa_revenue_call =
    Sa_Revenue_Get

fun sa_revenue_api :: "sa_revenue_call \<Rightarrow> endpoint" where
  "sa_revenue_api Sa_Revenue_Get = call GET ''/superadmin/revenue-analytics'' No_Body"

datatype sa_ticket_call =
    Sa_Ticket_List jsval
  | Sa_Ticket_Get string
  | Sa_Ticket_Create jsval
  | Sa_Ticket_Update string jsval
  | Sa_Ticket_Reply string parts
  | Sa_Ticket_Attachment string string

fun sa_ticket_api :: "sa_ticket_call \<Rightarrow> endpoint" where
  "sa_ticket_api (Sa_Ticket_List ps) =
     (call GET ''/superadmin/tickets'' No_Body)\<lparr>ep_params := ps\<rparr>"
| "sa_ticket_api (Sa_Ticket_Get i) = call GET (''/superadmin/tickets/'' @ i) No_Body"
| "sa_ticket_api (Sa_Ticket_Create d) = call POST ''/superadmin/tickets'' (Json d)"
| "sa_ticket_api (Sa_Ticket_Update i d) = call PATCH (''/superadmin/tickets/'' @ i) (Json d)"
| "sa_ticket_api (Sa_Ticket_Reply i fs) =
     (call POST (''/superadmin/tickets/'' @ i @ ''/messages'') (Multipart fs))\<lparr>ep_timeout := 120000\<rparr>"
| "sa_ticket_api (Sa_Ticket_Attachment i a) =
     call GET (''/superadmin/tickets/'' @ i @ ''/attachments/'' @ a) No_Body"

datatype sa_agent_package_call =
    Sa_Agent_Package_Manifest
  | Sa_Agent_Package_History
  | Sa_Agent_Package_Upload string string string
  | Sa_Agent_Package_Rollback string string
  | Sa_Agent_Package_Trigger_Build string string jsval
  | Sa_Agent_Package_Build_Status

fun sa_agent_package_api :: "sa_agent_package_call \<Rightarrow> endpoint" where
  "sa_agent_package_api Sa_Agent_Package_Manifest =
     call GET ''/superadmin/agent-packages'' No_Body"
| "sa_agent_package_api Sa_Agent_Package_History =
     call GET ''/superadmin/agent-packages/history'' No_Body"
| "sa_agent_package_api (Sa_Agent_Package_Upload p v f) =
     call POST ''/superadmin/agent-packages'' (Multipart [(''platform'', p), (''version'', v), (''file'', f)])"
| "sa_agent_package_api (Sa_Agent_Package_Rollback p fn) =
     call POST ''/superadmin/agent-packages/rollback'' (Json (JObj [(''platform'', JStr p), (''filename'', JStr fn)]))"
| "sa_agent_package_api (Sa_Agent_Package_Trigger_Build p v r) =
     call POST ''/superadmin/agent-packages/trigger-build'' (Json (JObj [(''platform'', JStr p), (''version'', JStr v), (''ref'', r)]))"
| "sa_agent_package_api Sa_Agent_Package_Build_Status =
     call GET ''/superadmin/agent-packages/build-status'' No_Body"

datatype sa_audit_call =
    Sa_Audit_List jsval

fun sa_audit_api :: "sa_audit_call \<Rightarrow> endpoint" where
  "sa_audit_api (Sa_Audit_List ps) =
     (call GET ''/superadmin/audit-log'' No_Body)\<lparr>ep_params := ps\<rparr>"

datatype sa_health_call =
    Sa_Health_Get

fun sa_health_api :: "sa_health_call \<Rightarrow> endpoint" where
  "sa_health_api Sa_Health_Get = call GET ''/superadmin/system-health'' No_Body"

datatype sa_settings_call =
    Sa_Settings_Get
  | Sa_Settings_Update string jsval

fun sa_settings_api :: "sa_settings_call \<Rightarrow> endpoint" where
  "sa_settings_api Sa_Settings_Get = call GET ''/superadmin/settings'' No_Body"
| "sa_settings_api (Sa_Settings_Update k v) =
     call PUT (''/superadmin/settings/'' @ k) (Json v)"

datatype sa_team_call =
    Sa_Team_List
  | Sa_Team_Invite jsval
  | Sa_Team_Update string jsval
  | Sa_Team_Remove string

fun sa_team_api :: "sa_team_call \<Rightarrow> endpoint" where
  "sa_team_api Sa_Team_List = call GET ''/superadmin/team'' No_Body"
| "sa_team_api (Sa_Team_Invite d) = call POST ''/superadmin/team'' (Json d)"
| "sa_team_api (Sa_Team_Update i d) = call PATCH (''/superadmin/team/'' @ i) (Json d)"
| "sa_team_api (Sa_Team_Remove i) = call DELETE (''/superadmin/team/'' @ i) No_Body"

datatype sa_app_catalog_call =
    Sa_App_Catalog_List
  | Sa_App_Catalog_Create jsval
  | Sa_App_Catalog_Update string jsval
  | Sa_App_Catalog_Delete string
  | Sa_App_Catalog_Upload_Icon string string

fun sa_app_catalog_api :: "sa_app_catalog_call \<Rightarrow> endpoint" where
  "sa_app_catalog_api Sa_App_Catalog_List = call GET ''/superadmin/applications'' No_Body"
| "sa_app_catalog_api (Sa_App_Catalog_Create d) =
     call POST ''/superadmin/applications'' (Json d)"
| "sa_app_catalog_api (Sa_App_Catalog_Update i d) =
     call PATCH (''/superadmin/applications/'' @ i) (Json d)"
| "sa_app_catalog_api (Sa_App_Catalog_Delete i) =
     call DELETE (''/superadmin/applications/'' @ i) No_Body"
| "sa_app_catalog_api (Sa_App_Catalog_Upload_Icon i f) =
     call POST (''/superadmin/applications/'' @ i @ ''/icon'') (Multipart [(''file'', f)])"

section \<open>Employee portal\<close>

datatype portal_call =
    Portal_Signup jsval
  | Portal_Forgot_Password jsval
  | Portal_Reset_Password jsval
  | Portal_Me
  | Portal_Change_Password jsval
  | Portal_Devices
  | Portal_Delete_Device string
  | Portal_Activity jsval
  | Portal_Activity_Stats jsval
  | Portal_Request_Access jsval
  | Portal_Access_Requests
  | Portal_Overview jsval
  | Portal_Screenshots jsval
  | Portal_Set_Screenshot_Reason string string
  | Portal_Notifications
  | Portal_Mark_Notifications_Read
  | Portal_Mark_Notification_Read string
  | Portal_Withdraw_Access_Request string
  | Portal_Installers
  | Portal_Enroll_Device

fun portal_api :: "portal_call \<Rightarrow> endpoint" where
  "portal_api (Portal_Signup d) = call POST ''/api/v1/portal/signup'' (Json d)"
| "portal_api (Portal_Forgot_Password d) =
     call POST ''/api/v1/portal/forgot-password'' (Json d)"
| "portal_api (Portal_Reset_Password d) = call POST ''/api/v1/portal/reset-password'' (Json d)"
| "portal_api Portal_Me = call GET ''/api/v1/portal/me'' No_Body"
| "portal_api (Portal_Change_Password d) =
     call POST ''/api/v1/portal/change-password'' (Json d)"
| "portal_api Portal_Devices = call GET ''/api/v1/portal/devices'' No_Body"
| "portal_api (Portal_Delete_Device i) = call DELETE (''/api/v1/portal/devices/'' @ i) No_Body"
| "portal_api (Portal_Activity ps) =
     (call GET ''/api/v1/portal/activity'' No_Body)\<lparr>ep_params := ps\<rparr>"
| "portal_api (Portal_Activity_Stats ps) =
     (call GET ''/api/v1/portal/activity/stats'' No_Body)\<lparr>ep_params := ps\<rparr>"
| "portal_api (Portal_Request_Access d) =
     call POST ''/api/v1/portal/access-requests'' (Json d)"
| "portal_api Portal_Access_Requests = call GET ''/api/v1/portal/access-requests'' No_Body"
| "portal_api (Portal_Overview ps) =
     (call GET ''/api/v1/portal/overview'' No_Body)\<lparr>ep_params := ps\<rparr>"
| "portal_api (Portal_Screenshots ps) =
     (call GET ''/api/v1/portal/screenshots'' No_Body)\<lparr>ep_params := ps\<rparr>"
| "portal_api (Portal_Set_Screenshot_Reason i r) =
     call PUT (''/api/v1/portal/screenshots/'' @ i @ ''/reason'') (Json (JObj [(''reason'', JStr r)]))"
| "portal_api Portal_Notifications = call GET ''/api/v1/portal/notifications'' No_Body"
| "portal_api Portal_Mark_Notifications_Read =
     call POST ''/api/v1/portal/notifications/read'' No_Body"
| "portal_api (Portal_Mark_Notification_Read i) =
     call POST (''/api/v1/portal/notifications/'' @ i @ ''/read'') No_Body"
| "portal_api (Portal_Withdraw_Access_Request i) =
     call POST (''/api/v1/portal/access-requests/'' @ i @ ''/withdraw'') No_Body"
| "portal_api Portal_Installers = call GET ''/api/v1/portal/installers'' No_Body"
| "portal_api Portal_Enroll_Device = call POST ''/api/v1/portal/enroll-device'' No_Body"

text \<open>Any call of the company dashboard.\<close>

datatype company_call_any =
    Call_Auth auth_call
  | Call_Otp otp_call
  | Call_Employee employee_call
  | Call_Team team_call
  | Call_Policy policy_call
  | Call_Dlp dlp_call
  | Call_Access_Request access_request_call
  | Call_Activity activity_call
  | Call_Device device_call
  | Call_Swg swg_call
  | Call_Category category_call
  | Call_App_Control app_control_call
  | Call_Monitoring monitoring_call
  | Call_Enforcement enforcement_call
  | Call_Settings settings_call
  | Call_Residency residency_call
  | Call_Ai_Chat ai_chat_call
  | Call_Report report_call
  | Call_Org_User org_user_call
  | Call_Mfa mfa_call
  | Call_Company company_call
  | Call_Ticket ticket_call

fun company_endpoint :: "company_call_any \<Rightarrow> endpoint" where
  "company_endpoint (Call_Auth c) = auth_api c"
| "company_endpoint (Call_Otp c) = otp_api c"
| "company_endpoint (Call_Employee c) = employee_api c"
| "company_endpoint (Call_Team c) = team_api c"
| "company_endpoint (Call_Policy c) = policy_api c"
| "company_endpoint (Call_Dlp c) = dlp_api c"
| "company_endpoint (Call_Access_Request c) = access_request_api c"
| "company_endpoint (Call_Activity c) = activity_api c"
| "company_endpoint (Call_Device c) = device_api c"
| "company_endpoint (Call_Swg c) = swg_api c"
| "company_endpoint (Call_Category c) = category_api c"
| "company_endpoint (Call_App_Control c) = app_control_api c"
| "company_endpoint (Call_Monitoring c) = monitoring_api c"
| "company_endpoint (Call_Enforcement c) = enforcement_api c"
| "company_endpoint (Call_Settings c) = settings_api c"
| "company_endpoint (Call_Residency c) = residency_api c"
| "company_endpoint (Call_Ai_Chat c) = ai_chat_api c"
| "company_endpoint (Call_Report c) = report_api c"
| "company_endpoint (Call_Org_User c) = org_user_api c"
| "company_endpoint (Call_Mfa c) = mfa_api c"
| "company_endpoint (Call_Company c) = company_api c"
| "company_endpoint (Call_Ticket c) = ticket_api c"

text \<open>Any call of the superadmin panel.\<close>

datatype superadmin_call_any =
    Call_Sa_Auth sa_auth_call
  | Call_Sa_Otp sa_otp_call
  | Call_Sa_Org sa_org_call
  | Call_Sa_Overview sa_overview_call
  | Call_Sa_Seat_Alert sa_seat_alert_call
  | Call_Sa_Billing sa_billing_call
  | Call_Sa_Blocklist sa_blocklist_call
  | Call_Sa_Announcement sa_announcement_call
  | Call_Sa_Content sa_content_call
  | Call_Sa_Demo_Request sa_demo_request_call
  | Call_Sa_Waitlist sa_waitlist_call
  | Call_Sa_Feature_Flag sa_feature_flag_call
  | Call_Sa_Revenue sa_revenue_call
  | Call_Sa_Ticket sa_ticket_call
  | Call_Sa_Agent_Package sa_agent_package_call
  | Call_Sa_Audit sa_audit_call
  | Call_Sa_Health sa_health_call
  | Call_Sa_Settings sa_settings_call
  | Call_Sa_Team sa_team_call
  | Call_Sa_App_Catalog sa_app_catalog_call

fun superadmin_endpoint :: "superadmin_call_any \<Rightarrow> endpoint" where
  "superadmin_endpoint (Call_Sa_Auth c) = sa_auth_api c"
| "superadmin_endpoint (Call_Sa_Otp c) = sa_otp_api c"
| "superadmin_endpoint (Call_Sa_Org c) = sa_org_api c"
| "superadmin_endpoint (Call_Sa_Overview c) = sa_overview_api c"
| "superadmin_endpoint (Call_Sa_Seat_Alert c) = sa_seat_alert_api c"
| "superadmin_endpoint (Call_Sa_Billing c) = sa_billing_api c"
| "superadmin_endpoint (Call_Sa_Blocklist c) = sa_blocklist_api c"
| "superadmin_endpoint (Call_Sa_Announcement c) = sa_announcement_api c"
| "superadmin_endpoint (Call_Sa_Content c) = sa_content_api c"
| "superadmin_endpoint (Call_Sa_Demo_Request c) = sa_demo_request_api c"
| "superadmin_endpoint (Call_Sa_Waitlist c) = sa_waitlist_api c"
| "superadmin_endpoint (Call_Sa_Feature_Flag c) = sa_feature_flag_api c"
| "superadmin_endpoint (Call_Sa_Revenue c) = sa_revenue_api c"
| "superadmin_endpoint (Call_Sa_Ticket c) = sa_ticket_api c"
| "superadmin_endpoint (Call_Sa_Agent_Package c) = sa_agent_package_api c"
| "superadmin_endpoint (Call_Sa_Audit c) = sa_audit_api c"
| "superadmin_endpoint (Call_Sa_Health c) = sa_health_api c"
| "superadmin_endpoint (Call_Sa_Settings c) = sa_settings_api c"
| "superadmin_endpoint (Call_Sa_Team c) = sa_team_api c"
| "superadmin_endpoint (Call_Sa_App_Catalog c) = sa_app_catalog_api c"

end
