(* ===== verification/Router.thy ===== *)
theory Router
  imports Endpoints
begin

text \<open>
  The routes of the admin API below \<^verbatim>\<open>/api/v1\<close>, as
  \<^verbatim>\<open>services/admin-api/internal/router/router.go\<close> registers them, and how gin picks one:
  by method, segment by segment, a literal segment before a parameter, and a parameter takes
  any segment that is not empty. Then which handler each call of the panels means to reach,
  and that it does reach it. The middleware of the routes, the routes outside
  \<^verbatim>\<open>/api/v1\<close> (agents, website, webhooks) and gin's redirects of trailing slashes are not
  modelled.
\<close>

section \<open>Routes\<close>

datatype seg = Lit string | Par string

type_synonym route = "http_method \<times> seg list \<times> string"
definition auth_routes :: "route list" where
  "auth_routes =
     [(POST, [Lit ''login''], ''authH.Login''),
      (POST, [Lit ''register''], ''authH.Register''),
      (POST, [Lit ''refresh''], ''authH.Refresh''),
      (POST, [Lit ''forgot-password''], ''authH.ForgotPassword''),
      (POST, [Lit ''reset-password''], ''authH.ResetPassword''),
      (POST, [Lit ''social''], ''authH.SocialLogin''),
      (POST, [Lit ''impersonate'', Lit ''consume''], ''authH.ImpersonateConsume''),
      (POST, [Lit ''mfa'', Lit ''verify''], ''mfaH.Verify''),
      (POST, [Lit ''otp'', Lit ''verify''], ''otpH.VerifyLogin''),
      (POST, [Lit ''otp'', Lit ''resend''], ''otpH.ResendLogin''),
      (POST, [Lit ''register'', Lit ''start''], ''otpH.StartRegistration''),
      (POST, [Lit ''register'', Lit ''resend''], ''otpH.ResendRegistration''),
      (POST, [Lit ''register'', Lit ''verify''], ''otpH.VerifyRegistration'')]"

definition auth_protected_routes :: "route list" where
  "auth_protected_routes =
     [(POST, [Lit ''logout''], ''authH.Logout''),
      (GET, [Lit ''me''], ''authH.Me''),
      (PUT, [Lit ''profile''], ''authH.UpdateProfile''),
      (POST, [Lit ''change-password''], ''authH.ChangePassword''),
      (GET, [Lit ''mfa'', Lit ''status''], ''mfaH.Status''),
      (POST, [Lit ''mfa'', Lit ''setup''], ''mfaH.Setup''),
      (POST, [Lit ''mfa'', Lit ''enable''], ''mfaH.Enable''),
      (POST, [Lit ''mfa'', Lit ''disable''], ''mfaH.Disable''),
      (POST, [Lit ''mfa'', Lit ''recovery-codes''], ''mfaH.RegenerateRecoveryCodes'')]"

definition v1_routes :: "route list" where
  "v1_routes =
     [(GET, [Lit ''announcements'', Lit ''active''], ''announceH.Active'')]"

definition superadmin_routes :: "route list" where
  "superadmin_routes =
     [(GET, [Lit ''stats''], ''orgH.Stats''),
      (GET, [Lit ''overview''], ''overviewH.Get''),
      (GET, [Lit ''audit-log''], ''auditH.List''),
      (GET, [Lit ''system-health''], ''healthH.Get''),
      (GET, [Lit ''settings''], ''settingsH.Get''),
      (PUT, [Lit ''settings'', Par ''key''], ''settingsH.Update''),
      (GET, [Lit ''seat-alerts''], ''seatAlertH.List''),
      (GET, [Lit ''revenue-analytics''], ''revenueH.Get''),
      (GET, [Lit ''threat-feeds''], ''blocklistH.FeedStatus'')]"

definition orgs_routes :: "route list" where
  "orgs_routes =
     [(GET, [], ''orgH.List''),
      (POST, [], ''orgH.Create''),
      (GET, [Par ''id''], ''orgH.Get''),
      (PUT, [Par ''id''], ''orgH.Update''),
      (DELETE, [Par ''id''], ''orgH.Delete''),
      (GET, [Par ''id'', Lit ''export''], ''complianceH.Export''),
      (POST, [Par ''id'', Lit ''purge''], ''complianceH.Purge''),
      (POST, [Par ''id'', Lit ''impersonate''], ''impersonateH.Start''),
      (GET, [Par ''id'', Lit ''billing''], ''billingH.ListForOrg''),
      (POST, [Par ''id'', Lit ''billing''], ''billingH.Create'')]"

definition billing_routes :: "route list" where
  "billing_routes =
     [(GET, [], ''billingH.List''),
      (POST, [Par ''id'', Lit ''refresh''], ''billingH.Refresh''),
      (DELETE, [Par ''id''], ''billingH.Cancel'')]"

definition blocklist_routes :: "route list" where
  "blocklist_routes =
     [(GET, [], ''blocklistH.List''),
      (POST, [], ''blocklistH.Create''),
      (PATCH, [Par ''id''], ''blocklistH.Toggle''),
      (DELETE, [Par ''id''], ''blocklistH.Delete'')]"

definition announcements_routes :: "route list" where
  "announcements_routes =
     [(GET, [], ''announceH.List''),
      (POST, [], ''announceH.Create''),
      (PATCH, [Par ''id''], ''announceH.Update''),
      (DELETE, [Par ''id''], ''announceH.Delete'')]"

definition content_routes :: "route list" where
  "content_routes =
     [(GET, [], ''contentH.List''),
      (GET, [Par ''id''], ''contentH.Get''),
      (POST, [], ''contentH.Create''),
      (PATCH, [Par ''id''], ''contentH.Update''),
      (DELETE, [Par ''id''], ''contentH.Delete'')]"

definition flags_routes :: "route list" where
  "flags_routes =
     [(GET, [], ''flagH.List''),
      (POST, [], ''flagH.Create''),
      (PATCH, [Par ''id''], ''flagH.Update''),
      (DELETE, [Par ''id''], ''flagH.Delete''),
      (PUT, [Par ''id'', Lit ''orgs'', Par ''org_id''], ''flagH.SetOrgOverride''),
      (DELETE, [Par ''id'', Lit ''orgs'', Par ''org_id''], ''flagH.RemoveOrgOverride'')]"

definition sa_tickets_routes :: "route list" where
  "sa_tickets_routes =
     [(GET, [], ''ticketH.List''),
      (POST, [], ''ticketH.CreateInternal''),
      (GET, [Par ''id''], ''ticketH.GetAny''),
      (PATCH, [Par ''id''], ''ticketH.UpdateStatus''),
      (POST, [Par ''id'', Lit ''messages''], ''ticketH.AddMessageAny''),
      (GET, [Par ''id'', Lit ''attachments'', Par ''aid''], ''ticketH.AttachmentAny'')]"

definition agent_pkgs_routes :: "route list" where
  "agent_pkgs_routes =
     [(GET, [], ''agentPkgH.Manifest''),
      (GET, [Lit ''history''], ''agentPkgH.History''),
      (POST, [], ''agentPkgH.Upload''),
      (POST, [Lit ''rollback''], ''agentPkgH.Rollback''),
      (POST, [Lit ''trigger-build''], ''ciH.TriggerBuild''),
      (GET, [Lit ''build-status''], ''ciH.BuildStatus'')]"

definition catalog_routes :: "route list" where
  "catalog_routes =
     [(GET, [], ''appCatalogH.List''),
      (POST, [], ''appCatalogH.Create''),
      (PATCH, [Par ''id''], ''appCatalogH.Update''),
      (DELETE, [Par ''id''], ''appCatalogH.Delete''),
      (POST, [Par ''id'', Lit ''icon''], ''appCatalogH.UploadIcon'')]"

definition demos_routes :: "route list" where
  "demos_routes =
     [(GET, [], ''demoH.List''),
      (PATCH, [Par ''id''], ''demoH.Update'')]"

definition waitlist_routes :: "route list" where
  "waitlist_routes =
     [(GET, [], ''waitlistH.List''),
      (GET, [Lit ''export''], ''waitlistH.Export''),
      (PATCH, [Par ''id''], ''waitlistH.Update''),
      (DELETE, [Par ''id''], ''waitlistH.Delete'')]"

definition sa_team_routes :: "route list" where
  "sa_team_routes =
     [(GET, [], ''saTeamH.List''),
      (POST, [], ''saTeamH.Create''),
      (PATCH, [Par ''id''], ''saTeamH.Update''),
      (DELETE, [Par ''id''], ''saTeamH.Delete'')]"

definition emps_routes :: "route list" where
  "emps_routes =
     [(GET, [], ''empH.List''),
      (POST, [], ''empH.Create''),
      (GET, [Lit ''departments''], ''empH.Departments''),
      (GET, [Lit ''export''], ''empH.ExportCSV''),
      (POST, [Lit ''import''], ''empH.ImportCSV''),
      (DELETE, [Lit ''bulk''], ''empH.BulkDelete''),
      (GET, [Par ''id''], ''empH.Get''),
      (PUT, [Par ''id''], ''empH.Update''),
      (DELETE, [Par ''id''], ''empH.Delete''),
      (GET, [Par ''id'', Lit ''activity''], ''empH.GetActivity''),
      (POST, [Par ''id'', Lit ''portal-password''], ''portalH.SetPortalPassword''),
      (POST, [Par ''id'', Lit ''enrollment-token''], ''agentH.GenerateEnrollmentToken''),
      (GET, [Par ''id'', Lit ''enrollment-tokens''], ''agentH.ListEnrollmentTokens'')]"

definition devices_routes :: "route list" where
  "devices_routes =
     [(GET, [], ''agentH.ListDevices''),
      (GET, [Par ''id''], ''agentH.GetDevice''),
      (DELETE, [Par ''id''], ''agentH.RevokeDevice''),
      (PATCH, [Par ''id''], ''enfH.SetDeviceOwnership''),
      (GET, [Lit ''activity''], ''agentH.ListDeviceActivity''),
      (GET, [Par ''id'', Lit ''enforcement''], ''enfH.GetDeviceEnforcement''),
      (PUT, [Par ''id'', Lit ''schedule''], ''enfH.PutDeviceSchedule''),
      (DELETE, [Par ''id'', Lit ''schedule''], ''enfH.DeleteDeviceSchedule'')]"

definition teams_routes :: "route list" where
  "teams_routes =
     [(GET, [], ''teamH.List''),
      (POST, [], ''teamH.Create''),
      (GET, [Par ''id''], ''teamH.Get''),
      (PUT, [Par ''id''], ''teamH.Update''),
      (PUT, [Par ''id'', Lit ''schedule''], ''enfH.PutTeamSchedule''),
      (DELETE, [Par ''id'', Lit ''schedule''], ''enfH.DeleteTeamSchedule''),
      (DELETE, [Par ''id''], ''teamH.Delete''),
      (GET, [Par ''id'', Lit ''members''], ''teamH.GetMembers''),
      (POST, [Par ''id'', Lit ''employees''], ''teamH.AssignEmployees''),
      (DELETE, [Par ''id'', Lit ''employees'', Par ''emp_id''], ''teamH.RemoveEmployee'')]"

definition policies_routes :: "route list" where
  "policies_routes =
     [(GET, [], ''policyH.List''),
      (POST, [], ''policyH.Create''),
      (GET, [Lit ''types''], ''policyH.GetTypes''),
      (GET, [Lit ''export''], ''policyH.Export''),
      (POST, [Lit ''import''], ''policyH.Import''),
      (GET, [Par ''id''], ''policyH.Get''),
      (PUT, [Par ''id''], ''policyH.Update''),
      (DELETE, [Par ''id''], ''policyH.Delete''),
      (PATCH, [Par ''id'', Lit ''toggle''], ''policyH.Toggle''),
      (POST, [Par ''id'', Lit ''toggle''], ''policyH.Toggle''),
      (POST, [Par ''id'', Lit ''duplicate''], ''policyH.Duplicate''),
      (POST, [Par ''id'', Lit ''assign''], ''policyH.Assign''),
      (GET, [Par ''id'', Lit ''resolved-domains''], ''policyH.ResolvedDomains''),
      (GET, [Par ''id'', Lit ''blocked-employees''], ''arH.BlockedEmployees'')]"

definition monitoring_routes :: "route list" where
  "monitoring_routes =
     [(GET, [Lit ''screenshots''], ''monH.Screenshots''),
      (GET, [Lit ''employees''], ''monH.Employees''),
      (GET, [Lit ''settings''], ''monH.GetSettings''),
      (PUT, [Lit ''settings''], ''monH.UpdateSettings''),
      (DELETE, [Lit ''sessions'', Par ''id''], ''monH.DeleteSession''),
      (DELETE, [Lit ''screenshots'', Par ''id''], ''monH.DeleteScreenshot'')]"

definition enforcement_routes :: "route list" where
  "enforcement_routes =
     [(GET, [Lit ''schedule''], ''enfH.GetOrgSchedule''),
      (PUT, [Lit ''schedule''], ''enfH.PutOrgSchedule''),
      (DELETE, [Lit ''schedule''], ''enfH.DeleteOrgSchedule''),
      (GET, [Lit ''schedules''], ''enfH.ListSchedules'')]"

definition apps_routes :: "route list" where
  "apps_routes =
     [(GET, [Lit ''catalog''], ''appH.Catalog''),
      (GET, [Lit ''rules''], ''appH.ListRules''),
      (POST, [Lit ''rules''], ''appH.CreateRule''),
      (PATCH, [Lit ''rules'', Par ''id''], ''appH.UpdateRule''),
      (DELETE, [Lit ''rules'', Par ''id''], ''appH.DeleteRule''),
      (GET, [Lit ''events''], ''appH.Events''),
      (POST, [], ''appH.CreateApplication''),
      (GET, [Lit ''installed''], ''invH.ListInstalled''),
      (POST, [Lit ''installed'', Par ''id'', Lit ''control''], ''invH.SetControl''),
      (DELETE, [Par ''id''], ''appH.DeleteApplication'')]"

definition dlp_group_routes :: "route list" where
  "dlp_group_routes =
     [(POST, [Lit ''test''], ''policyH.TestDLP'')]"

definition shadow_it_routes :: "route list" where
  "shadow_it_routes =
     [(GET, [Lit ''apps''], ''shadowH.DiscoveredApps''),
      (POST, [Lit ''apps'', Lit ''sanction''], ''shadowH.Sanction'')]"

definition casb_routes :: "route list" where
  "casb_routes =
     [(POST, [Lit ''app-control''], ''casbH.AppControl''),
      (POST, [Lit ''oob'', Lit ''analyze''], ''casbH.OOBAnalyze''),
      (GET, [Lit ''rules''], ''casbH.ListRules''),
      (POST, [Lit ''rules''], ''casbH.CreateRule''),
      (PUT, [Lit ''rules'', Par ''id''], ''casbH.UpdateRule''),
      (PATCH, [Lit ''rules'', Par ''id'', Lit ''toggle''], ''casbH.ToggleRule''),
      (DELETE, [Lit ''rules'', Par ''id''], ''casbH.DeleteRule'')]"

definition reports_routes :: "route list" where
  "reports_routes =
     [(GET, [Lit ''overview''], ''repH.Overview''),
      (GET, [Lit ''catalog''], ''repH.Catalog''),
      (GET, [Par ''type''], ''repH.Report'')]"

definition ai_chat_routes :: "route list" where
  "ai_chat_routes =
     [(GET, [Lit ''sessions''], ''aiH.ListSessions''),
      (POST, [Lit ''sessions''], ''aiH.CreateSession''),
      (GET, [Lit ''sessions'', Par ''id''], ''aiH.GetSession''),
      (PATCH, [Lit ''sessions'', Par ''id''], ''aiH.UpdateSession''),
      (DELETE, [Lit ''sessions'', Par ''id''], ''aiH.DeleteSession''),
      (POST, [Lit ''sessions'', Par ''id'', Lit ''messages''], ''aiH.AddMessage'')]"

definition organization_routes :: "route list" where
  "organization_routes =
     [(GET, [], ''companyH.Get''),
      (PUT, [], ''companyH.Update''),
      (GET, [Lit ''timezones''], ''companyH.Timezones''),
      (PUT, [Lit ''notifications''], ''companyH.UpdateNotifications''),
      (GET, [Lit ''block-page''], ''companyH.GetBlockPage''),
      (PUT, [Lit ''block-page''], ''companyH.UpdateBlockPage'')]"

definition org_users_routes :: "route list" where
  "org_users_routes =
     [(GET, [], ''orgUserH.List''),
      (POST, [], ''orgUserH.Create''),
      (PUT, [Par ''id''], ''orgUserH.Update''),
      (DELETE, [Par ''id''], ''orgUserH.Delete'')]"

definition activity_routes :: "route list" where
  "activity_routes =
     [(GET, [], ''actH.List''),
      (GET, [Lit ''stats''], ''actH.Stats''),
      (POST, [], ''actH.Create''),
      (POST, [Lit ''bulk''], ''actH.BulkCreate'')]"

definition swg_routes :: "route list" where
  "swg_routes =
     [(GET, [Lit ''rules''], ''swgH.ListDomainRules''),
      (POST, [Lit ''rules''], ''swgH.CreateDomainRule''),
      (DELETE, [Lit ''rules'', Par ''id''], ''swgH.DeleteDomainRule''),
      (GET, [Lit ''categories''], ''swgH.ListCategories''),
      (GET, [Lit ''stats''], ''swgH.Stats''),
      (POST, [Lit ''check''], ''swgH.CheckURLDashboard''),
      (GET, [Lit ''threat-lookup''], ''swgH.ThreatLookup'')]"

definition categories_routes :: "route list" where
  "categories_routes =
     [(GET, [], ''catH.List''),
      (GET, [Par ''id'', Lit ''domains''], ''catH.ListDomains''),
      (POST, [Par ''id'', Lit ''domains''], ''catH.AddDomains''),
      (DELETE, [Par ''id'', Lit ''domains''], ''catH.DeleteDomain''),
      (DELETE, [Par ''id''], ''catH.Delete''),
      (POST, [Par ''id'', Lit ''restore''], ''catH.Restore'')]"

definition settings_routes :: "route list" where
  "settings_routes =
     [(GET, [Lit ''mfa''], ''mfaH.GetOrgPolicy''),
      (PUT, [Lit ''mfa''], ''mfaH.SetOrgPolicy''),
      (GET, [Lit ''mitm''], ''agentH.GetMITMSettings''),
      (PUT, [Lit ''mitm''], ''agentH.UpdateMITMSettings''),
      (GET, [Lit ''mitm'', Lit ''platforms''], ''agentH.ListBypassPlatforms''),
      (GET, [Lit ''mitm'', Lit ''discover''], ''agentH.DiscoverBypassDomains''),
      (GET, [Lit ''data-residency''], ''residencyH.Get''),
      (PUT, [Lit ''data-residency''], ''residencyH.SetEnabled''),
      (POST, [Lit ''data-residency'', Lit ''database'', Lit ''test''], ''residencyH.TestDatabase''),
      (PUT, [Lit ''data-residency'', Lit ''database''], ''residencyH.SaveDatabase''),
      (DELETE, [Lit ''data-residency'', Lit ''database''], ''residencyH.DisconnectDatabase''),
      (POST, [Lit ''data-residency'', Lit ''files'', Lit ''test''], ''residencyH.TestFiles''),
      (PUT, [Lit ''data-residency'', Lit ''files''], ''residencyH.SaveFiles''),
      (DELETE, [Lit ''data-residency'', Lit ''files''], ''residencyH.DisconnectFiles''),
      (POST, [Lit ''data-residency'', Lit ''move-history''], ''residencyH.MoveHistory'')]"

definition access_requests_routes :: "route list" where
  "access_requests_routes =
     [(GET, [], ''arH.List''),
      (POST, [Par ''id'', Lit ''approve''], ''arH.Approve''),
      (POST, [Par ''id'', Lit ''deny''], ''arH.Deny''),
      (POST, [Par ''id'', Lit ''revoke''], ''arH.Revoke'')]"

definition tickets_routes :: "route list" where
  "tickets_routes =
     [(GET, [], ''ticketH.ListForOrg''),
      (GET, [Lit ''unread''], ''ticketH.UnreadForOrg''),
      (POST, [], ''ticketH.Create''),
      (GET, [Par ''id''], ''ticketH.Get''),
      (POST, [Par ''id'', Lit ''messages''], ''ticketH.AddMessage''),
      (POST, [Par ''id'', Lit ''resolve''], ''ticketH.Resolve''),
      (POST, [Par ''id'', Lit ''feedback''], ''ticketH.Feedback''),
      (GET, [Par ''id'', Lit ''attachments'', Par ''aid''], ''ticketH.Attachment'')]"

definition portal_routes :: "route list" where
  "portal_routes =
     [(POST, [Lit ''login''], ''portalH.Login''),
      (POST, [Lit ''signup''], ''portalH.Signup''),
      (POST, [Lit ''refresh''], ''portalH.Refresh''),
      (POST, [Lit ''forgot-password''], ''portalH.ForgotPassword''),
      (POST, [Lit ''reset-password''], ''portalH.ResetPassword''),
      (POST, [Lit ''social''], ''portalH.SocialLogin'')]"

definition portal_protected_routes :: "route list" where
  "portal_protected_routes =
     [(GET, [Lit ''me''], ''portalH.Me''),
      (POST, [Lit ''change-password''], ''portalH.ChangePassword''),
      (GET, [Lit ''installers''], ''portalH.Installers''),
      (POST, [Lit ''enroll-device''], ''portalH.EnrollDevice''),
      (GET, [Lit ''activity''], ''portalH.Activity''),
      (GET, [Lit ''activity'', Lit ''stats''], ''portalH.ActivityStats''),
      (GET, [Lit ''overview''], ''portalH.Overview''),
      (GET, [Lit ''screenshots''], ''portalH.Screenshots''),
      (PUT, [Lit ''screenshots'', Par ''id'', Lit ''reason''], ''portalH.SetScreenshotReason''),
      (GET, [Lit ''notifications''], ''portalH.Notifications''),
      (POST, [Lit ''notifications'', Lit ''read''], ''portalH.MarkNotificationsRead''),
      (POST, [Lit ''notifications'', Par ''id'', Lit ''read''], ''portalH.MarkNotificationRead''),
      (GET, [Lit ''devices''], ''portalH.Devices''),
      (DELETE, [Lit ''devices'', Par ''id''], ''portalH.DeleteDevice''),
      (POST, [Lit ''access-requests''], ''arH.Create''),
      (GET, [Lit ''access-requests''], ''arH.ListMine''),
      (POST, [Lit ''access-requests'', Par ''id'', Lit ''withdraw''], ''arH.Withdraw'')]"

text \<open>The groups, by the variables of the file, with their prefixes and routes.\<close>

datatype route_group =
    Grp_Auth | Grp_Auth_Protected | Grp_V1 | Grp_Superadmin | Grp_Orgs
  | Grp_Billing | Grp_Blocklist | Grp_Announcements | Grp_Content | Grp_Flags
  | Grp_Sa_Tickets | Grp_Agent_Pkgs | Grp_Catalog | Grp_Demos | Grp_Waitlist
  | Grp_Sa_Team | Grp_Emps | Grp_Devices | Grp_Teams | Grp_Policies
  | Grp_Monitoring | Grp_Enforcement | Grp_Apps | Grp_Dlp_Group | Grp_Shadow_It
  | Grp_Casb | Grp_Reports | Grp_Ai_Chat | Grp_Organization | Grp_Org_Users
  | Grp_Activity | Grp_Swg | Grp_Categories | Grp_Settings | Grp_Access_Requests
  | Grp_Tickets | Grp_Portal | Grp_Portal_Protected

definition api_groups :: "route_group list" where
  "api_groups =
     [Grp_Auth, Grp_Auth_Protected, Grp_V1, Grp_Superadmin, Grp_Orgs,
      Grp_Billing, Grp_Blocklist, Grp_Announcements, Grp_Content, Grp_Flags,
      Grp_Sa_Tickets, Grp_Agent_Pkgs, Grp_Catalog, Grp_Demos, Grp_Waitlist,
      Grp_Sa_Team, Grp_Emps, Grp_Devices, Grp_Teams, Grp_Policies,
      Grp_Monitoring, Grp_Enforcement, Grp_Apps, Grp_Dlp_Group, Grp_Shadow_It,
      Grp_Casb, Grp_Reports, Grp_Ai_Chat, Grp_Organization, Grp_Org_Users,
      Grp_Activity, Grp_Swg, Grp_Categories, Grp_Settings, Grp_Access_Requests,
      Grp_Tickets, Grp_Portal, Grp_Portal_Protected]"

fun group_prefix :: "route_group \<Rightarrow> seg list" where
  "group_prefix Grp_Auth = [Lit ''auth'']"
| "group_prefix Grp_Auth_Protected = [Lit ''auth'']"
| "group_prefix Grp_V1 = []"
| "group_prefix Grp_Superadmin = [Lit ''superadmin'']"
| "group_prefix Grp_Orgs = [Lit ''superadmin'', Lit ''organizations'']"
| "group_prefix Grp_Billing = [Lit ''superadmin'', Lit ''billing'']"
| "group_prefix Grp_Blocklist = [Lit ''superadmin'', Lit ''blocklist'']"
| "group_prefix Grp_Announcements = [Lit ''superadmin'', Lit ''announcements'']"
| "group_prefix Grp_Content = [Lit ''superadmin'', Lit ''content'']"
| "group_prefix Grp_Flags = [Lit ''superadmin'', Lit ''feature-flags'']"
| "group_prefix Grp_Sa_Tickets = [Lit ''superadmin'', Lit ''tickets'']"
| "group_prefix Grp_Agent_Pkgs = [Lit ''superadmin'', Lit ''agent-packages'']"
| "group_prefix Grp_Catalog = [Lit ''superadmin'', Lit ''applications'']"
| "group_prefix Grp_Demos = [Lit ''superadmin'', Lit ''demo-requests'']"
| "group_prefix Grp_Waitlist = [Lit ''superadmin'', Lit ''waitlist'']"
| "group_prefix Grp_Sa_Team = [Lit ''superadmin'', Lit ''team'']"
| "group_prefix Grp_Emps = [Lit ''employees'']"
| "group_prefix Grp_Devices = [Lit ''devices'']"
| "group_prefix Grp_Teams = [Lit ''teams'']"
| "group_prefix Grp_Policies = [Lit ''policies'']"
| "group_prefix Grp_Monitoring = [Lit ''monitoring'']"
| "group_prefix Grp_Enforcement = [Lit ''enforcement'']"
| "group_prefix Grp_Apps = [Lit ''applications'']"
| "group_prefix Grp_Dlp_Group = [Lit ''dlp'']"
| "group_prefix Grp_Shadow_It = [Lit ''shadow-it'']"
| "group_prefix Grp_Casb = [Lit ''casb'']"
| "group_prefix Grp_Reports = [Lit ''reports'']"
| "group_prefix Grp_Ai_Chat = [Lit ''ai'']"
| "group_prefix Grp_Organization = [Lit ''organization'']"
| "group_prefix Grp_Org_Users = [Lit ''users'']"
| "group_prefix Grp_Activity = [Lit ''activity'']"
| "group_prefix Grp_Swg = [Lit ''swg'']"
| "group_prefix Grp_Categories = [Lit ''categories'']"
| "group_prefix Grp_Settings = [Lit ''settings'']"
| "group_prefix Grp_Access_Requests = [Lit ''access-requests'']"
| "group_prefix Grp_Tickets = [Lit ''tickets'']"
| "group_prefix Grp_Portal = [Lit ''portal'']"
| "group_prefix Grp_Portal_Protected = [Lit ''portal'']"

fun group_routes :: "route_group \<Rightarrow> route list" where
  "group_routes Grp_Auth = auth_routes"
| "group_routes Grp_Auth_Protected = auth_protected_routes"
| "group_routes Grp_V1 = v1_routes"
| "group_routes Grp_Superadmin = superadmin_routes"
| "group_routes Grp_Orgs = orgs_routes"
| "group_routes Grp_Billing = billing_routes"
| "group_routes Grp_Blocklist = blocklist_routes"
| "group_routes Grp_Announcements = announcements_routes"
| "group_routes Grp_Content = content_routes"
| "group_routes Grp_Flags = flags_routes"
| "group_routes Grp_Sa_Tickets = sa_tickets_routes"
| "group_routes Grp_Agent_Pkgs = agent_pkgs_routes"
| "group_routes Grp_Catalog = catalog_routes"
| "group_routes Grp_Demos = demos_routes"
| "group_routes Grp_Waitlist = waitlist_routes"
| "group_routes Grp_Sa_Team = sa_team_routes"
| "group_routes Grp_Emps = emps_routes"
| "group_routes Grp_Devices = devices_routes"
| "group_routes Grp_Teams = teams_routes"
| "group_routes Grp_Policies = policies_routes"
| "group_routes Grp_Monitoring = monitoring_routes"
| "group_routes Grp_Enforcement = enforcement_routes"
| "group_routes Grp_Apps = apps_routes"
| "group_routes Grp_Dlp_Group = dlp_group_routes"
| "group_routes Grp_Shadow_It = shadow_it_routes"
| "group_routes Grp_Casb = casb_routes"
| "group_routes Grp_Reports = reports_routes"
| "group_routes Grp_Ai_Chat = ai_chat_routes"
| "group_routes Grp_Organization = organization_routes"
| "group_routes Grp_Org_Users = org_users_routes"
| "group_routes Grp_Activity = activity_routes"
| "group_routes Grp_Swg = swg_routes"
| "group_routes Grp_Categories = categories_routes"
| "group_routes Grp_Settings = settings_routes"
| "group_routes Grp_Access_Requests = access_requests_routes"
| "group_routes Grp_Tickets = tickets_routes"
| "group_routes Grp_Portal = portal_routes"
| "group_routes Grp_Portal_Protected = portal_protected_routes"

section \<open>Choosing a route\<close>

fun seg_ok :: "seg \<Rightarrow> string \<Rightarrow> bool" where
  "seg_ok (Lit w) x = (x = w)"
| "seg_ok (Par _) x = (x \<noteq> [])"

text \<open>A comparison of words that stops at the first difference, to run the router.\<close>

fun same_word :: "string \<Rightarrow> string \<Rightarrow> bool" where
  "same_word [] ys = (case ys of [] \<Rightarrow> True | _ # _ \<Rightarrow> False)"
| "same_word (x # xs) ys = (case ys of [] \<Rightarrow> False | y # ys' \<Rightarrow> if x = y then same_word xs ys' else False)"

lemma same_word_eq: "same_word xs ys = (xs = ys)"
  by (induction xs ys rule: same_word.induct) (auto split: list.splits)

lemma seg_ok_code [code]:
  "seg_ok (Lit w) x = same_word x w"
  "seg_ok (Par n) x = (case x of [] \<Rightarrow> False | _ # _ \<Rightarrow> True)"
  by (auto simp: same_word_eq split: list.split)

text \<open>What is left of a path after the prefix of a group.\<close>

fun after_prefix :: "seg list \<Rightarrow> string list \<Rightarrow> string list option" where
  "after_prefix [] xs = Some xs"
| "after_prefix (p # ps) (x # xs) = (if seg_ok p x then after_prefix ps xs else None)"
| "after_prefix (p # ps) [] = None"

definition path_ok :: "seg list \<Rightarrow> string list \<Rightarrow> bool" where
  "path_ok ps xs = (after_prefix ps xs = Some [])"

text \<open>At the first position where only one of two routes has a parameter, the other one wins.\<close>

fun preferred :: "seg list \<Rightarrow> seg list \<Rightarrow> bool" where
  "preferred (Lit _ # ps) (Par _ # qs) = True"
| "preferred (Par _ # ps) (Lit _ # qs) = False"
| "preferred (_ # ps) (_ # qs) = preferred ps qs"
| "preferred _ _ = False"

definition candidates :: "route_group list \<Rightarrow> http_method \<Rightarrow> string list \<Rightarrow> (seg list \<times> string) list" where
  "candidates gs m xs =
     concat (map (\<lambda>g.
       (case after_prefix (group_prefix g) xs of
          None \<Rightarrow> []
        | Some rest \<Rightarrow>
            map (\<lambda>(_, ps, h). (group_prefix g @ ps, h))
              (filter (\<lambda>(m', ps, _). if m' = m then path_ok ps rest else False) (group_routes g)))) gs)"

fun best :: "(seg list \<times> string) list \<Rightarrow> string option" where
  "best [] = None"
| "best [(_, h)] = Some h"
| "best ((ps, h) # (qs, k) # rs) = best ((if preferred qs ps then (qs, k) else (ps, h)) # rs)"

text \<open>The handler for the segments of a path below \<^verbatim>\<open>/api/v1\<close>, and for a whole path.\<close>

definition serve_segs :: "http_method \<Rightarrow> string list \<Rightarrow> string option" where
  "serve_segs m xs = best (candidates api_groups m xs)"

definition serve :: "http_method \<Rightarrow> string \<Rightarrow> string option" where
  "serve m path =
     (case split_on (CHR ''/'') path of
        r # a # v # xs \<Rightarrow> (if r = [] \<and> a = ''api'' \<and> v = ''v1'' then serve_segs m xs else None)
      | _ \<Rightarrow> None)"

section \<open>What the identifiers in a path may be\<close>

fun lits :: "seg list \<Rightarrow> string list" where
  "lits [] = []"
| "lits (Lit w # ps) = w # lits ps"
| "lits (Par _ # ps) = lits ps"

definition group_words :: "route_group \<Rightarrow> string list" where
  "group_words g = lits (group_prefix g) @ concat (map (\<lambda>(_, ps, _). lits ps) (group_routes g))"

definition route_words :: "string list" where
  "route_words = concat (map group_words api_groups)"

lemma group_words_sub: "g \<in> set api_groups \<Longrightarrow> set (group_words g) \<subseteq> set route_words"
  by (auto simp: route_words_def)

lemma prefix_words: "g \<in> set api_groups \<Longrightarrow> set (lits (group_prefix g)) \<subseteq> set route_words"
  by (drule group_words_sub) (simp add: group_words_def)

lemma route_words_sub:
  assumes "g \<in> set api_groups" "(m, ps, h) \<in> set (group_routes g)"
  shows "set (lits ps) \<subseteq> set route_words"
proof -
  have "set (lits ps) \<subseteq> set (group_words g)"
    using assms(2) by (force simp: group_words_def)
  then show ?thesis using group_words_sub [OF assms(1)] by simp
qed

text \<open>
  A segment that stays one segment of the URL and is no word of a route. The identifiers of
  the database are UUIDs, which are.
\<close>

definition plain :: "string \<Rightarrow> bool" where
  "plain s =
     (s \<noteq> [] \<and> s \<noteq> ''.'' \<and> s \<noteq> ''..'' \<and> s \<notin> set route_words \<and>
      list_all (\<lambda>c. c \<noteq> CHR ''/'' \<and> c \<noteq> CHR ''?'' \<and> c \<noteq> CHR ''#'' \<and> c \<noteq> CHR ''%'' \<and> c \<noteq> CHR 0x5C) s)"

lemma plain_no_slash: "plain s \<Longrightarrow> CHR ''/'' \<notin> set s"
  by (auto simp: plain_def list_all_iff)

lemma split_plain [simp]: "plain i \<Longrightarrow> split_on (CHR ''/'') i = [i]"
  by (simp add: split_on_no_sep plain_no_slash)

lemma split_plain_more [simp]:
  "plain i \<Longrightarrow> split_on (CHR ''/'') (i @ CHR ''/'' # t) = i # split_on (CHR ''/'') t"
  by (simp add: split_on_append_sep plain_no_slash)

text \<open>Two segments no route tells apart, and paths made of them.\<close>

definition alike :: "string \<Rightarrow> string \<Rightarrow> bool" where
  "alike x y = (x = y \<or> plain x \<and> plain y)"

lemma alike_refl: "alike x x"
  by (simp add: alike_def)

lemma plain_zero: "plain ''0''"
  by code_simp

lemma alike_zero: "plain i \<Longrightarrow> alike i ''0''"
  by (simp add: alike_def plain_zero)

lemma seg_ok_alike: "alike x y \<Longrightarrow> set (lits [p]) \<subseteq> set route_words \<Longrightarrow> seg_ok p x = seg_ok p y"
  by (cases p) (auto simp: alike_def plain_def)

lemma lits_Cons: "set (lits (p # ps)) = set (lits [p]) \<union> set (lits ps)"
  by (cases p) auto

lemma after_prefix_alike:
  "list_all2 alike xs ys \<Longrightarrow> set (lits ps) \<subseteq> set route_words \<Longrightarrow>
   rel_option (list_all2 alike) (after_prefix ps xs) (after_prefix ps ys)"
proof (induction ps xs arbitrary: ys rule: after_prefix.induct)
  case (2 p ps x xs)
  then obtain y ys' where ys: "ys = y # ys'" "alike x y" "list_all2 alike xs ys'"
    by (auto simp: list_all2_Cons1)
  have w: "set (lits [p]) \<subseteq> set route_words" "set (lits ps) \<subseteq> set route_words"
    using 2(3) lits_Cons by blast+
  then have "seg_ok p x = seg_ok p y" using seg_ok_alike ys(2) by blast
  then show ?case using 2(1) [OF _ ys(3) w(2)] ys(1) by simp
qed auto

lemma path_ok_alike:
  "list_all2 alike xs ys \<Longrightarrow> set (lits ps) \<subseteq> set route_words \<Longrightarrow> path_ok ps xs = path_ok ps ys"
  using after_prefix_alike [of xs ys ps]
  by (auto simp: path_ok_def elim!: option.rel_cases)

lemma candidates_alike:
  assumes "list_all2 alike xs ys"
  shows "candidates api_groups m xs = candidates api_groups m ys"
proof -
  have "(case after_prefix (group_prefix g) xs of None \<Rightarrow> []
         | Some rest \<Rightarrow> map (\<lambda>(_, ps, h). (group_prefix g @ ps, h))
             (filter (\<lambda>(m', ps, _). if m' = m then path_ok ps rest else False) (group_routes g))) =
        (case after_prefix (group_prefix g) ys of None \<Rightarrow> []
         | Some rest \<Rightarrow> map (\<lambda>(_, ps, h). (group_prefix g @ ps, h))
             (filter (\<lambda>(m', ps, _). if m' = m then path_ok ps rest else False) (group_routes g)))"
    if g: "g \<in> set api_groups" for g
    using after_prefix_alike [OF assms prefix_words [OF g]]
  proof (cases rule: option.rel_cases)
    case (Some a b)
    then have "filter (\<lambda>(m', ps, _). if m' = m then path_ok ps a else False) (group_routes g) =
        filter (\<lambda>(m', ps, _). if m' = m then path_ok ps b else False) (group_routes g)"
      using path_ok_alike [OF _ route_words_sub [OF g]] by (intro filter_cong) (auto split: if_splits)
    with Some show ?thesis by simp
  qed simp
  then show ?thesis unfolding candidates_def by (intro arg_cong [where f = concat] map_cong) auto
qed

lemma serve_alike:
  "list_all2 alike xs ys \<Longrightarrow> serve_segs m ys = h \<Longrightarrow> serve_segs m xs = h"
  unfolding serve_segs_def using candidates_alike by metis

text \<open>Replacing the plain segments of a path, one segment after the other.\<close>

lemma replace_id: "plain i \<Longrightarrow> list_all2 alike xs ys \<Longrightarrow> list_all2 alike (i # xs) (''0'' # ys)"
  by (simp add: alike_zero)

lemma keep_word: "list_all2 alike xs ys \<Longrightarrow> list_all2 alike (w # xs) (w # ys)"
  by (simp add: alike_refl)

lemma keep_end: "list_all2 alike [] []"
  by simp

section \<open>The handler each call means\<close>

fun auth_ids :: "auth_call \<Rightarrow> string list" where
  "auth_ids _ = []"

fun auth_handler :: "auth_call \<Rightarrow> string option" where
  "auth_handler Auth_Me = Some ''authH.Me''"
| "auth_handler (Auth_Register _) = Some ''authH.Register''"
| "auth_handler (Auth_Forgot_Password _) = Some ''authH.ForgotPassword''"
| "auth_handler (Auth_Reset_Password _) = Some ''authH.ResetPassword''"
| "auth_handler (Auth_Change_Password _) = Some ''authH.ChangePassword''"
| "auth_handler (Auth_Update_Profile _) = Some ''authH.UpdateProfile''"
| "auth_handler (Auth_Logout _) = Some ''authH.Logout''"

fun otp_ids :: "otp_call \<Rightarrow> string list" where
  "otp_ids _ = []"

fun otp_handler :: "otp_call \<Rightarrow> string option" where
  "otp_handler (Otp_Resend_Login _) = Some ''otpH.ResendLogin''"
| "otp_handler (Otp_Start_Registration _) = Some ''otpH.StartRegistration''"
| "otp_handler (Otp_Resend_Registration _) = Some ''otpH.ResendRegistration''"
| "otp_handler (Otp_Verify_Registration _ _) = Some ''otpH.VerifyRegistration''"

fun employee_ids :: "employee_call \<Rightarrow> string list" where
  "employee_ids (Employee_Get i) = [i]"
| "employee_ids (Employee_Update i _) = [i]"
| "employee_ids (Employee_Delete i) = [i]"
| "employee_ids (Employee_Activity i _) = [i]"
| "employee_ids (Employee_Reset_Portal_Password i) = [i]"
| "employee_ids _ = []"

fun employee_handler :: "employee_call \<Rightarrow> string option" where
  "employee_handler (Employee_List _) = Some ''empH.List''"
| "employee_handler (Employee_Get _) = Some ''empH.Get''"
| "employee_handler (Employee_Create _) = Some ''empH.Create''"
| "employee_handler (Employee_Update _ _) = Some ''empH.Update''"
| "employee_handler (Employee_Delete _) = Some ''empH.Delete''"
| "employee_handler (Employee_Bulk_Delete _) = None"
| "employee_handler (Employee_Import_Csv _) = Some ''empH.ImportCSV''"
| "employee_handler Employee_Export_Csv = Some ''empH.ExportCSV''"
| "employee_handler (Employee_Activity _ _) = Some ''empH.GetActivity''"
| "employee_handler (Employee_Reset_Portal_Password _) = Some ''portalH.SetPortalPassword''"
| "employee_handler Employee_Departments = Some ''empH.Departments''"

fun team_ids :: "team_call \<Rightarrow> string list" where
  "team_ids (Team_Get i) = [i]"
| "team_ids (Team_Update i _) = [i]"
| "team_ids (Team_Delete i) = [i]"
| "team_ids (Team_Assign_Employees i _) = [i]"
| "team_ids (Team_Remove_Employee t e) = [t, e]"
| "team_ids (Team_Members i) = [i]"
| "team_ids _ = []"

fun team_handler :: "team_call \<Rightarrow> string option" where
  "team_handler (Team_List _) = Some ''teamH.List''"
| "team_handler (Team_Get _) = Some ''teamH.Get''"
| "team_handler (Team_Create _) = Some ''teamH.Create''"
| "team_handler (Team_Update _ _) = Some ''teamH.Update''"
| "team_handler (Team_Delete _) = Some ''teamH.Delete''"
| "team_handler (Team_Assign_Employees _ _) = Some ''teamH.AssignEmployees''"
| "team_handler (Team_Remove_Employee _ _) = Some ''teamH.RemoveEmployee''"
| "team_handler (Team_Members _) = Some ''teamH.GetMembers''"

fun policy_ids :: "policy_call \<Rightarrow> string list" where
  "policy_ids (Policy_Get i) = [i]"
| "policy_ids (Policy_Update i _) = [i]"
| "policy_ids (Policy_Delete i) = [i]"
| "policy_ids (Policy_Toggle i) = [i]"
| "policy_ids (Policy_Duplicate i) = [i]"
| "policy_ids (Policy_Assign i _) = [i]"
| "policy_ids (Policy_Export_Json i) = [i]"
| "policy_ids (Policy_Resolved_Domains i) = [i]"
| "policy_ids (Policy_Blocked_Employees i) = [i]"
| "policy_ids _ = []"

fun policy_handler :: "policy_call \<Rightarrow> string option" where
  "policy_handler (Policy_List _) = Some ''policyH.List''"
| "policy_handler (Policy_Get _) = Some ''policyH.Get''"
| "policy_handler (Policy_Create _) = Some ''policyH.Create''"
| "policy_handler (Policy_Update _ _) = Some ''policyH.Update''"
| "policy_handler (Policy_Delete _) = Some ''policyH.Delete''"
| "policy_handler (Policy_Toggle _) = Some ''policyH.Toggle''"
| "policy_handler (Policy_Duplicate _) = Some ''policyH.Duplicate''"
| "policy_handler (Policy_Assign _ _) = Some ''policyH.Assign''"
| "policy_handler (Policy_Export_Json _) = None"
| "policy_handler (Policy_Import_Json _) = Some ''policyH.Import''"
| "policy_handler Policy_Types = Some ''policyH.GetTypes''"
| "policy_handler (Policy_Resolved_Domains _) = Some ''policyH.ResolvedDomains''"
| "policy_handler (Policy_Blocked_Employees _) = Some ''arH.BlockedEmployees''"

fun dlp_ids :: "dlp_call \<Rightarrow> string list" where
  "dlp_ids _ = []"

fun dlp_handler :: "dlp_call \<Rightarrow> string option" where
  "dlp_handler (Dlp_Test _) = Some ''policyH.TestDLP''"

fun access_request_ids :: "access_request_call \<Rightarrow> string list" where
  "access_request_ids (Access_Request_Approve i _) = [i]"
| "access_request_ids (Access_Request_Deny i _) = [i]"
| "access_request_ids (Access_Request_Revoke i _) = [i]"
| "access_request_ids _ = []"

fun access_request_handler :: "access_request_call \<Rightarrow> string option" where
  "access_request_handler (Access_Request_List _) = Some ''arH.List''"
| "access_request_handler (Access_Request_Approve _ _) = Some ''arH.Approve''"
| "access_request_handler (Access_Request_Deny _ _) = Some ''arH.Deny''"
| "access_request_handler (Access_Request_Revoke _ _) = Some ''arH.Revoke''"

fun activity_ids :: "activity_call \<Rightarrow> string list" where
  "activity_ids _ = []"

fun activity_handler :: "activity_call \<Rightarrow> string option" where
  "activity_handler (Activity_List _) = Some ''actH.List''"
| "activity_handler (Activity_Stats _) = Some ''actH.Stats''"

fun device_ids :: "device_call \<Rightarrow> string list" where
  "device_ids (Device_Get i) = [i]"
| "device_ids (Device_Revoke i) = [i]"
| "device_ids (Device_Set_Ownership i _) = [i]"
| "device_ids (Device_Enforcement i) = [i]"
| "device_ids (Device_Put_Schedule i _) = [i]"
| "device_ids (Device_Delete_Schedule i) = [i]"
| "device_ids _ = []"

fun device_handler :: "device_call \<Rightarrow> string option" where
  "device_handler (Device_List _) = Some ''agentH.ListDevices''"
| "device_handler (Device_Get _) = Some ''agentH.GetDevice''"
| "device_handler (Device_Revoke _) = Some ''agentH.RevokeDevice''"
| "device_handler (Device_Set_Ownership _ _) = Some ''enfH.SetDeviceOwnership''"
| "device_handler (Device_Enforcement _) = Some ''enfH.GetDeviceEnforcement''"
| "device_handler (Device_Activity _) = Some ''agentH.ListDeviceActivity''"
| "device_handler (Device_Put_Schedule _ _) = Some ''enfH.PutDeviceSchedule''"
| "device_handler (Device_Delete_Schedule _) = Some ''enfH.DeleteDeviceSchedule''"

fun swg_ids :: "swg_call \<Rightarrow> string list" where
  "swg_ids (Swg_Delete_Rule i) = [i]"
| "swg_ids _ = []"

fun swg_handler :: "swg_call \<Rightarrow> string option" where
  "swg_handler (Swg_List_Rules _) = Some ''swgH.ListDomainRules''"
| "swg_handler (Swg_Create_Rule _) = Some ''swgH.CreateDomainRule''"
| "swg_handler (Swg_Delete_Rule _) = Some ''swgH.DeleteDomainRule''"
| "swg_handler Swg_Categories = Some ''swgH.ListCategories''"
| "swg_handler Swg_Stats = Some ''swgH.Stats''"
| "swg_handler (Swg_Check_Url _) = Some ''swgH.CheckURLDashboard''"

fun category_ids :: "category_call \<Rightarrow> string list" where
  "category_ids (Category_Domains i _) = [i]"
| "category_ids (Category_Add_Domains i _) = [i]"
| "category_ids (Category_Delete_Domain i _) = [i]"
| "category_ids (Category_Delete i) = [i]"
| "category_ids (Category_Restore i) = [i]"
| "category_ids _ = []"

fun category_handler :: "category_call \<Rightarrow> string option" where
  "category_handler (Category_List _) = Some ''catH.List''"
| "category_handler (Category_Domains _ _) = Some ''catH.ListDomains''"
| "category_handler (Category_Add_Domains _ _) = Some ''catH.AddDomains''"
| "category_handler (Category_Delete_Domain _ _) = Some ''catH.DeleteDomain''"
| "category_handler (Category_Delete _) = Some ''catH.Delete''"
| "category_handler (Category_Restore _) = Some ''catH.Restore''"

fun app_control_ids :: "app_control_call \<Rightarrow> string list" where
  "app_control_ids (App_Control_Update_Rule i _) = [i]"
| "app_control_ids (App_Control_Delete_Rule i) = [i]"
| "app_control_ids (App_Control_Set_Control i _) = [i]"
| "app_control_ids (App_Control_Delete_Application i) = [i]"
| "app_control_ids _ = []"

fun app_control_handler :: "app_control_call \<Rightarrow> string option" where
  "app_control_handler App_Control_Catalog = Some ''appH.Catalog''"
| "app_control_handler App_Control_List_Rules = Some ''appH.ListRules''"
| "app_control_handler (App_Control_Create_Rule _) = Some ''appH.CreateRule''"
| "app_control_handler (App_Control_Update_Rule _ _) = Some ''appH.UpdateRule''"
| "app_control_handler (App_Control_Delete_Rule _) = Some ''appH.DeleteRule''"
| "app_control_handler App_Control_Events = Some ''appH.Events''"
| "app_control_handler (App_Control_Installed _) = Some ''invH.ListInstalled''"
| "app_control_handler (App_Control_Set_Control _ _) = Some ''invH.SetControl''"
| "app_control_handler (App_Control_Create_Application _) = Some ''appH.CreateApplication''"
| "app_control_handler (App_Control_Delete_Application _) = Some ''appH.DeleteApplication''"

fun monitoring_ids :: "monitoring_call \<Rightarrow> string list" where
  "monitoring_ids (Monitoring_Delete_Session i) = [i]"
| "monitoring_ids (Monitoring_Delete_Screenshot i) = [i]"
| "monitoring_ids _ = []"

fun monitoring_handler :: "monitoring_call \<Rightarrow> string option" where
  "monitoring_handler Monitoring_Employees = Some ''monH.Employees''"
| "monitoring_handler (Monitoring_Screenshots _) = Some ''monH.Screenshots''"
| "monitoring_handler Monitoring_Get_Settings = Some ''monH.GetSettings''"
| "monitoring_handler (Monitoring_Update_Settings _) = Some ''monH.UpdateSettings''"
| "monitoring_handler (Monitoring_Delete_Session _) = Some ''monH.DeleteSession''"
| "monitoring_handler (Monitoring_Delete_Screenshot _) = Some ''monH.DeleteScreenshot''"

fun enforcement_ids :: "enforcement_call \<Rightarrow> string list" where
  "enforcement_ids (Enforcement_Put_Team_Schedule i _) = [i]"
| "enforcement_ids (Enforcement_Delete_Team_Schedule i) = [i]"
| "enforcement_ids _ = []"

fun enforcement_handler :: "enforcement_call \<Rightarrow> string option" where
  "enforcement_handler Enforcement_Get_Org_Schedule = Some ''enfH.GetOrgSchedule''"
| "enforcement_handler (Enforcement_Put_Org_Schedule _) = Some ''enfH.PutOrgSchedule''"
| "enforcement_handler Enforcement_Delete_Org_Schedule = Some ''enfH.DeleteOrgSchedule''"
| "enforcement_handler Enforcement_List_Schedules = Some ''enfH.ListSchedules''"
| "enforcement_handler (Enforcement_Put_Team_Schedule _ _) = Some ''enfH.PutTeamSchedule''"
| "enforcement_handler (Enforcement_Delete_Team_Schedule _) = Some ''enfH.DeleteTeamSchedule''"

fun settings_ids :: "settings_call \<Rightarrow> string list" where
  "settings_ids _ = []"

fun settings_handler :: "settings_call \<Rightarrow> string option" where
  "settings_handler Settings_Get_Mitm = Some ''agentH.GetMITMSettings''"
| "settings_handler (Settings_Update_Mitm _) = Some ''agentH.UpdateMITMSettings''"
| "settings_handler Settings_Mitm_Platforms = Some ''agentH.ListBypassPlatforms''"
| "settings_handler (Settings_Discover_Bypass _) = Some ''agentH.DiscoverBypassDomains''"

fun residency_ids :: "residency_call \<Rightarrow> string list" where
  "residency_ids _ = []"

fun residency_handler :: "residency_call \<Rightarrow> string option" where
  "residency_handler Residency_Get = Some ''residencyH.Get''"
| "residency_handler (Residency_Set_Enabled _ _) = Some ''residencyH.SetEnabled''"
| "residency_handler (Residency_Test_Database _) = Some ''residencyH.TestDatabase''"
| "residency_handler (Residency_Save_Database _) = Some ''residencyH.SaveDatabase''"
| "residency_handler Residency_Disconnect_Database = Some ''residencyH.DisconnectDatabase''"
| "residency_handler (Residency_Test_Files _) = Some ''residencyH.TestFiles''"
| "residency_handler (Residency_Save_Files _) = Some ''residencyH.SaveFiles''"
| "residency_handler Residency_Disconnect_Files = Some ''residencyH.DisconnectFiles''"
| "residency_handler Residency_Move_History = Some ''residencyH.MoveHistory''"

fun ai_chat_ids :: "ai_chat_call \<Rightarrow> string list" where
  "ai_chat_ids (Ai_Chat_Get_Session i) = [i]"
| "ai_chat_ids (Ai_Chat_Rename_Session i _) = [i]"
| "ai_chat_ids (Ai_Chat_Delete_Session i) = [i]"
| "ai_chat_ids (Ai_Chat_Add_Message i _) = [i]"
| "ai_chat_ids _ = []"

fun ai_chat_handler :: "ai_chat_call \<Rightarrow> string option" where
  "ai_chat_handler Ai_Chat_List_Sessions = Some ''aiH.ListSessions''"
| "ai_chat_handler (Ai_Chat_Create_Session _) = Some ''aiH.CreateSession''"
| "ai_chat_handler (Ai_Chat_Get_Session _) = Some ''aiH.GetSession''"
| "ai_chat_handler (Ai_Chat_Rename_Session _ _) = Some ''aiH.UpdateSession''"
| "ai_chat_handler (Ai_Chat_Delete_Session _) = Some ''aiH.DeleteSession''"
| "ai_chat_handler (Ai_Chat_Add_Message _ _) = Some ''aiH.AddMessage''"

fun report_ids :: "report_call \<Rightarrow> string list" where
  "report_ids (Report_Get k _) = [k]"
| "report_ids (Report_Export k _ _) = [k]"
| "report_ids _ = []"

fun report_handler :: "report_call \<Rightarrow> string option" where
  "report_handler (Report_Overview _) = Some ''repH.Overview''"
| "report_handler Report_Catalog = Some ''repH.Catalog''"
| "report_handler (Report_Get _ _) = Some ''repH.Report''"
| "report_handler (Report_Export _ _ _) = Some ''repH.Report''"

fun org_user_ids :: "org_user_call \<Rightarrow> string list" where
  "org_user_ids (Org_User_Update i _) = [i]"
| "org_user_ids (Org_User_Delete i) = [i]"
| "org_user_ids _ = []"

fun org_user_handler :: "org_user_call \<Rightarrow> string option" where
  "org_user_handler (Org_User_List _) = Some ''orgUserH.List''"
| "org_user_handler (Org_User_Create _) = Some ''orgUserH.Create''"
| "org_user_handler (Org_User_Update _ _) = Some ''orgUserH.Update''"
| "org_user_handler (Org_User_Delete _) = Some ''orgUserH.Delete''"

fun mfa_ids :: "mfa_call \<Rightarrow> string list" where
  "mfa_ids _ = []"

fun mfa_handler :: "mfa_call \<Rightarrow> string option" where
  "mfa_handler Mfa_Status = Some ''mfaH.Status''"
| "mfa_handler Mfa_Setup = Some ''mfaH.Setup''"
| "mfa_handler (Mfa_Enable _) = Some ''mfaH.Enable''"
| "mfa_handler (Mfa_Disable _) = Some ''mfaH.Disable''"
| "mfa_handler (Mfa_Regenerate_Codes _) = Some ''mfaH.RegenerateRecoveryCodes''"
| "mfa_handler Mfa_Org_Policy = Some ''mfaH.GetOrgPolicy''"
| "mfa_handler (Mfa_Set_Org_Policy _) = Some ''mfaH.SetOrgPolicy''"

fun company_ids :: "company_call \<Rightarrow> string list" where
  "company_ids _ = []"

fun company_handler :: "company_call \<Rightarrow> string option" where
  "company_handler Company_Get = Some ''companyH.Get''"
| "company_handler (Company_Update _) = Some ''companyH.Update''"
| "company_handler Company_Timezones = Some ''companyH.Timezones''"
| "company_handler (Company_Update_Notifications _) = Some ''companyH.UpdateNotifications''"
| "company_handler Company_Block_Page = Some ''companyH.GetBlockPage''"
| "company_handler (Company_Update_Block_Page _) = Some ''companyH.UpdateBlockPage''"

fun ticket_ids :: "ticket_call \<Rightarrow> string list" where
  "ticket_ids (Ticket_Get i) = [i]"
| "ticket_ids (Ticket_Reply i _) = [i]"
| "ticket_ids (Ticket_Resolve i) = [i]"
| "ticket_ids (Ticket_Feedback i _ _) = [i]"
| "ticket_ids (Ticket_Attachment i a) = [i, a]"
| "ticket_ids _ = []"

fun ticket_handler :: "ticket_call \<Rightarrow> string option" where
  "ticket_handler (Ticket_List _) = Some ''ticketH.ListForOrg''"
| "ticket_handler Ticket_Unread = Some ''ticketH.UnreadForOrg''"
| "ticket_handler (Ticket_Get _) = Some ''ticketH.Get''"
| "ticket_handler (Ticket_Create _) = Some ''ticketH.Create''"
| "ticket_handler (Ticket_Reply _ _) = Some ''ticketH.AddMessage''"
| "ticket_handler (Ticket_Resolve _) = Some ''ticketH.Resolve''"
| "ticket_handler (Ticket_Feedback _ _ _) = Some ''ticketH.Feedback''"
| "ticket_handler (Ticket_Attachment _ _) = Some ''ticketH.Attachment''"

fun sa_auth_ids :: "sa_auth_call \<Rightarrow> string list" where
  "sa_auth_ids _ = []"

fun sa_auth_handler :: "sa_auth_call \<Rightarrow> string option" where
  "sa_auth_handler (Sa_Auth_Login _ _) = Some ''authH.Login''"
| "sa_auth_handler (Sa_Auth_Refresh _) = Some ''authH.Refresh''"
| "sa_auth_handler (Sa_Auth_Logout _) = Some ''authH.Logout''"
| "sa_auth_handler Sa_Auth_Me = Some ''authH.Me''"
| "sa_auth_handler (Sa_Auth_Change_Password _) = Some ''authH.ChangePassword''"
| "sa_auth_handler (Sa_Auth_Update_Profile _) = Some ''authH.UpdateProfile''"

fun sa_otp_ids :: "sa_otp_call \<Rightarrow> string list" where
  "sa_otp_ids _ = []"

fun sa_otp_handler :: "sa_otp_call \<Rightarrow> string option" where
  "sa_otp_handler (Sa_Otp_Resend_Login _) = Some ''otpH.ResendLogin''"

fun sa_org_ids :: "sa_org_call \<Rightarrow> string list" where
  "sa_org_ids (Sa_Org_Get i) = [i]"
| "sa_org_ids (Sa_Org_Update i _) = [i]"
| "sa_org_ids (Sa_Org_Delete i) = [i]"
| "sa_org_ids (Sa_Org_Export i) = [i]"
| "sa_org_ids (Sa_Org_Purge i _) = [i]"
| "sa_org_ids (Sa_Org_Impersonate i _) = [i]"
| "sa_org_ids _ = []"

fun sa_org_handler :: "sa_org_call \<Rightarrow> string option" where
  "sa_org_handler (Sa_Org_List _) = Some ''orgH.List''"
| "sa_org_handler (Sa_Org_Get _) = Some ''orgH.Get''"
| "sa_org_handler (Sa_Org_Create _) = Some ''orgH.Create''"
| "sa_org_handler (Sa_Org_Update _ _) = Some ''orgH.Update''"
| "sa_org_handler (Sa_Org_Delete _) = Some ''orgH.Delete''"
| "sa_org_handler Sa_Org_Stats = Some ''orgH.Stats''"
| "sa_org_handler (Sa_Org_Export _) = Some ''complianceH.Export''"
| "sa_org_handler (Sa_Org_Purge _ _) = Some ''complianceH.Purge''"
| "sa_org_handler (Sa_Org_Impersonate _ _) = Some ''impersonateH.Start''"

fun sa_overview_ids :: "sa_overview_call \<Rightarrow> string list" where
  "sa_overview_ids _ = []"

fun sa_overview_handler :: "sa_overview_call \<Rightarrow> string option" where
  "sa_overview_handler (Sa_Overview_Get _) = Some ''overviewH.Get''"

fun sa_seat_alert_ids :: "sa_seat_alert_call \<Rightarrow> string list" where
  "sa_seat_alert_ids _ = []"

fun sa_seat_alert_handler :: "sa_seat_alert_call \<Rightarrow> string option" where
  "sa_seat_alert_handler Sa_Seat_Alert_List = Some ''seatAlertH.List''"

fun sa_billing_ids :: "sa_billing_call \<Rightarrow> string list" where
  "sa_billing_ids (Sa_Billing_List_For_Org org) = [org]"
| "sa_billing_ids (Sa_Billing_Create org _) = [org]"
| "sa_billing_ids (Sa_Billing_Refresh i) = [i]"
| "sa_billing_ids (Sa_Billing_Cancel i) = [i]"
| "sa_billing_ids _ = []"

fun sa_billing_handler :: "sa_billing_call \<Rightarrow> string option" where
  "sa_billing_handler (Sa_Billing_List_For_Org _) = Some ''billingH.ListForOrg''"
| "sa_billing_handler (Sa_Billing_Create _ _) = Some ''billingH.Create''"
| "sa_billing_handler (Sa_Billing_List _) = Some ''billingH.List''"
| "sa_billing_handler (Sa_Billing_Refresh _) = Some ''billingH.Refresh''"
| "sa_billing_handler (Sa_Billing_Cancel _) = Some ''billingH.Cancel''"

fun sa_blocklist_ids :: "sa_blocklist_call \<Rightarrow> string list" where
  "sa_blocklist_ids (Sa_Blocklist_Toggle i) = [i]"
| "sa_blocklist_ids (Sa_Blocklist_Delete i) = [i]"
| "sa_blocklist_ids _ = []"

fun sa_blocklist_handler :: "sa_blocklist_call \<Rightarrow> string option" where
  "sa_blocklist_handler Sa_Blocklist_List = Some ''blocklistH.List''"
| "sa_blocklist_handler (Sa_Blocklist_Create _) = Some ''blocklistH.Create''"
| "sa_blocklist_handler (Sa_Blocklist_Toggle _) = Some ''blocklistH.Toggle''"
| "sa_blocklist_handler (Sa_Blocklist_Delete _) = Some ''blocklistH.Delete''"
| "sa_blocklist_handler Sa_Blocklist_Feed_Status = Some ''blocklistH.FeedStatus''"

fun sa_announcement_ids :: "sa_announcement_call \<Rightarrow> string list" where
  "sa_announcement_ids (Sa_Announcement_Update i _) = [i]"
| "sa_announcement_ids (Sa_Announcement_Delete i) = [i]"
| "sa_announcement_ids _ = []"

fun sa_announcement_handler :: "sa_announcement_call \<Rightarrow> string option" where
  "sa_announcement_handler Sa_Announcement_List = Some ''announceH.List''"
| "sa_announcement_handler (Sa_Announcement_Create _) = Some ''announceH.Create''"
| "sa_announcement_handler (Sa_Announcement_Update _ _) = Some ''announceH.Update''"
| "sa_announcement_handler (Sa_Announcement_Delete _) = Some ''announceH.Delete''"

fun sa_content_ids :: "sa_content_call \<Rightarrow> string list" where
  "sa_content_ids (Sa_Content_Get i) = [i]"
| "sa_content_ids (Sa_Content_Update i _) = [i]"
| "sa_content_ids (Sa_Content_Delete i) = [i]"
| "sa_content_ids _ = []"

fun sa_content_handler :: "sa_content_call \<Rightarrow> string option" where
  "sa_content_handler (Sa_Content_List _) = Some ''contentH.List''"
| "sa_content_handler (Sa_Content_Get _) = Some ''contentH.Get''"
| "sa_content_handler (Sa_Content_Create _) = Some ''contentH.Create''"
| "sa_content_handler (Sa_Content_Update _ _) = Some ''contentH.Update''"
| "sa_content_handler (Sa_Content_Delete _) = Some ''contentH.Delete''"

fun sa_demo_request_ids :: "sa_demo_request_call \<Rightarrow> string list" where
  "sa_demo_request_ids (Sa_Demo_Request_Update i _) = [i]"
| "sa_demo_request_ids _ = []"

fun sa_demo_request_handler :: "sa_demo_request_call \<Rightarrow> string option" where
  "sa_demo_request_handler (Sa_Demo_Request_List _) = Some ''demoH.List''"
| "sa_demo_request_handler (Sa_Demo_Request_Update _ _) = Some ''demoH.Update''"

fun sa_waitlist_ids :: "sa_waitlist_call \<Rightarrow> string list" where
  "sa_waitlist_ids (Sa_Waitlist_Update i _) = [i]"
| "sa_waitlist_ids (Sa_Waitlist_Remove i) = [i]"
| "sa_waitlist_ids _ = []"

fun sa_waitlist_handler :: "sa_waitlist_call \<Rightarrow> string option" where
  "sa_waitlist_handler (Sa_Waitlist_List _) = Some ''waitlistH.List''"
| "sa_waitlist_handler (Sa_Waitlist_Update _ _) = Some ''waitlistH.Update''"
| "sa_waitlist_handler (Sa_Waitlist_Remove _) = Some ''waitlistH.Delete''"
| "sa_waitlist_handler (Sa_Waitlist_Export_Csv _) = Some ''waitlistH.Export''"

fun sa_feature_flag_ids :: "sa_feature_flag_call \<Rightarrow> string list" where
  "sa_feature_flag_ids (Sa_Feature_Flag_Update i _) = [i]"
| "sa_feature_flag_ids (Sa_Feature_Flag_Delete i) = [i]"
| "sa_feature_flag_ids (Sa_Feature_Flag_Enable_For_Org i org) = [i, org]"
| "sa_feature_flag_ids (Sa_Feature_Flag_Disable_For_Org i org) = [i, org]"
| "sa_feature_flag_ids _ = []"

fun sa_feature_flag_handler :: "sa_feature_flag_call \<Rightarrow> string option" where
  "sa_feature_flag_handler Sa_Feature_Flag_List = Some ''flagH.List''"
| "sa_feature_flag_handler (Sa_Feature_Flag_Create _) = Some ''flagH.Create''"
| "sa_feature_flag_handler (Sa_Feature_Flag_Update _ _) = Some ''flagH.Update''"
| "sa_feature_flag_handler (Sa_Feature_Flag_Delete _) = Some ''flagH.Delete''"
| "sa_feature_flag_handler (Sa_Feature_Flag_Enable_For_Org _ _) =
     Some ''flagH.SetOrgOverride''"
| "sa_feature_flag_handler (Sa_Feature_Flag_Disable_For_Org _ _) =
     Some ''flagH.RemoveOrgOverride''"

fun sa_revenue_ids :: "sa_revenue_call \<Rightarrow> string list" where
  "sa_revenue_ids _ = []"

fun sa_revenue_handler :: "sa_revenue_call \<Rightarrow> string option" where
  "sa_revenue_handler Sa_Revenue_Get = Some ''revenueH.Get''"

fun sa_ticket_ids :: "sa_ticket_call \<Rightarrow> string list" where
  "sa_ticket_ids (Sa_Ticket_Get i) = [i]"
| "sa_ticket_ids (Sa_Ticket_Update i _) = [i]"
| "sa_ticket_ids (Sa_Ticket_Reply i _) = [i]"
| "sa_ticket_ids (Sa_Ticket_Attachment i a) = [i, a]"
| "sa_ticket_ids _ = []"

fun sa_ticket_handler :: "sa_ticket_call \<Rightarrow> string option" where
  "sa_ticket_handler (Sa_Ticket_List _) = Some ''ticketH.List''"
| "sa_ticket_handler (Sa_Ticket_Get _) = Some ''ticketH.GetAny''"
| "sa_ticket_handler (Sa_Ticket_Create _) = Some ''ticketH.CreateInternal''"
| "sa_ticket_handler (Sa_Ticket_Update _ _) = Some ''ticketH.UpdateStatus''"
| "sa_ticket_handler (Sa_Ticket_Reply _ _) = Some ''ticketH.AddMessageAny''"
| "sa_ticket_handler (Sa_Ticket_Attachment _ _) = Some ''ticketH.AttachmentAny''"

fun sa_agent_package_ids :: "sa_agent_package_call \<Rightarrow> string list" where
  "sa_agent_package_ids _ = []"

fun sa_agent_package_handler :: "sa_agent_package_call \<Rightarrow> string option" where
  "sa_agent_package_handler Sa_Agent_Package_Manifest = Some ''agentPkgH.Manifest''"
| "sa_agent_package_handler Sa_Agent_Package_History = Some ''agentPkgH.History''"
| "sa_agent_package_handler (Sa_Agent_Package_Upload _ _ _) = Some ''agentPkgH.Upload''"
| "sa_agent_package_handler (Sa_Agent_Package_Rollback _ _) = Some ''agentPkgH.Rollback''"
| "sa_agent_package_handler (Sa_Agent_Package_Trigger_Build _ _ _) = Some ''ciH.TriggerBuild''"
| "sa_agent_package_handler Sa_Agent_Package_Build_Status = Some ''ciH.BuildStatus''"

fun sa_audit_ids :: "sa_audit_call \<Rightarrow> string list" where
  "sa_audit_ids _ = []"

fun sa_audit_handler :: "sa_audit_call \<Rightarrow> string option" where
  "sa_audit_handler (Sa_Audit_List _) = Some ''auditH.List''"

fun sa_health_ids :: "sa_health_call \<Rightarrow> string list" where
  "sa_health_ids _ = []"

fun sa_health_handler :: "sa_health_call \<Rightarrow> string option" where
  "sa_health_handler Sa_Health_Get = Some ''healthH.Get''"

fun sa_settings_ids :: "sa_settings_call \<Rightarrow> string list" where
  "sa_settings_ids (Sa_Settings_Update k _) = [k]"
| "sa_settings_ids _ = []"

fun sa_settings_handler :: "sa_settings_call \<Rightarrow> string option" where
  "sa_settings_handler Sa_Settings_Get = Some ''settingsH.Get''"
| "sa_settings_handler (Sa_Settings_Update _ _) = Some ''settingsH.Update''"

fun sa_team_ids :: "sa_team_call \<Rightarrow> string list" where
  "sa_team_ids (Sa_Team_Update i _) = [i]"
| "sa_team_ids (Sa_Team_Remove i) = [i]"
| "sa_team_ids _ = []"

fun sa_team_handler :: "sa_team_call \<Rightarrow> string option" where
  "sa_team_handler Sa_Team_List = Some ''saTeamH.List''"
| "sa_team_handler (Sa_Team_Invite _) = Some ''saTeamH.Create''"
| "sa_team_handler (Sa_Team_Update _ _) = Some ''saTeamH.Update''"
| "sa_team_handler (Sa_Team_Remove _) = Some ''saTeamH.Delete''"

fun sa_app_catalog_ids :: "sa_app_catalog_call \<Rightarrow> string list" where
  "sa_app_catalog_ids (Sa_App_Catalog_Update i _) = [i]"
| "sa_app_catalog_ids (Sa_App_Catalog_Delete i) = [i]"
| "sa_app_catalog_ids (Sa_App_Catalog_Upload_Icon i _) = [i]"
| "sa_app_catalog_ids _ = []"

fun sa_app_catalog_handler :: "sa_app_catalog_call \<Rightarrow> string option" where
  "sa_app_catalog_handler Sa_App_Catalog_List = Some ''appCatalogH.List''"
| "sa_app_catalog_handler (Sa_App_Catalog_Create _) = Some ''appCatalogH.Create''"
| "sa_app_catalog_handler (Sa_App_Catalog_Update _ _) = Some ''appCatalogH.Update''"
| "sa_app_catalog_handler (Sa_App_Catalog_Delete _) = Some ''appCatalogH.Delete''"
| "sa_app_catalog_handler (Sa_App_Catalog_Upload_Icon _ _) = Some ''appCatalogH.UploadIcon''"

fun portal_ids :: "portal_call \<Rightarrow> string list" where
  "portal_ids (Portal_Delete_Device i) = [i]"
| "portal_ids (Portal_Set_Screenshot_Reason i _) = [i]"
| "portal_ids (Portal_Mark_Notification_Read i) = [i]"
| "portal_ids (Portal_Withdraw_Access_Request i) = [i]"
| "portal_ids _ = []"

fun portal_handler :: "portal_call \<Rightarrow> string option" where
  "portal_handler (Portal_Signup _) = Some ''portalH.Signup''"
| "portal_handler (Portal_Forgot_Password _) = Some ''portalH.ForgotPassword''"
| "portal_handler (Portal_Reset_Password _) = Some ''portalH.ResetPassword''"
| "portal_handler Portal_Me = Some ''portalH.Me''"
| "portal_handler (Portal_Change_Password _) = Some ''portalH.ChangePassword''"
| "portal_handler Portal_Devices = Some ''portalH.Devices''"
| "portal_handler (Portal_Delete_Device _) = Some ''portalH.DeleteDevice''"
| "portal_handler (Portal_Activity _) = Some ''portalH.Activity''"
| "portal_handler (Portal_Activity_Stats _) = Some ''portalH.ActivityStats''"
| "portal_handler (Portal_Request_Access _) = Some ''arH.Create''"
| "portal_handler Portal_Access_Requests = Some ''arH.ListMine''"
| "portal_handler (Portal_Overview _) = Some ''portalH.Overview''"
| "portal_handler (Portal_Screenshots _) = Some ''portalH.Screenshots''"
| "portal_handler (Portal_Set_Screenshot_Reason _ _) = Some ''portalH.SetScreenshotReason''"
| "portal_handler Portal_Notifications = Some ''portalH.Notifications''"
| "portal_handler Portal_Mark_Notifications_Read = Some ''portalH.MarkNotificationsRead''"
| "portal_handler (Portal_Mark_Notification_Read _) = Some ''portalH.MarkNotificationRead''"
| "portal_handler (Portal_Withdraw_Access_Request _) = Some ''arH.Withdraw''"
| "portal_handler Portal_Installers = Some ''portalH.Installers''"
| "portal_handler Portal_Enroll_Device = Some ''portalH.EnrollDevice''"

fun company_ids_any :: "company_call_any \<Rightarrow> string list" where
  "company_ids_any (Call_Auth c) = auth_ids c"
| "company_ids_any (Call_Otp c) = otp_ids c"
| "company_ids_any (Call_Employee c) = employee_ids c"
| "company_ids_any (Call_Team c) = team_ids c"
| "company_ids_any (Call_Policy c) = policy_ids c"
| "company_ids_any (Call_Dlp c) = dlp_ids c"
| "company_ids_any (Call_Access_Request c) = access_request_ids c"
| "company_ids_any (Call_Activity c) = activity_ids c"
| "company_ids_any (Call_Device c) = device_ids c"
| "company_ids_any (Call_Swg c) = swg_ids c"
| "company_ids_any (Call_Category c) = category_ids c"
| "company_ids_any (Call_App_Control c) = app_control_ids c"
| "company_ids_any (Call_Monitoring c) = monitoring_ids c"
| "company_ids_any (Call_Enforcement c) = enforcement_ids c"
| "company_ids_any (Call_Settings c) = settings_ids c"
| "company_ids_any (Call_Residency c) = residency_ids c"
| "company_ids_any (Call_Ai_Chat c) = ai_chat_ids c"
| "company_ids_any (Call_Report c) = report_ids c"
| "company_ids_any (Call_Org_User c) = org_user_ids c"
| "company_ids_any (Call_Mfa c) = mfa_ids c"
| "company_ids_any (Call_Company c) = company_ids c"
| "company_ids_any (Call_Ticket c) = ticket_ids c"

fun company_handler_any :: "company_call_any \<Rightarrow> string option" where
  "company_handler_any (Call_Auth c) = auth_handler c"
| "company_handler_any (Call_Otp c) = otp_handler c"
| "company_handler_any (Call_Employee c) = employee_handler c"
| "company_handler_any (Call_Team c) = team_handler c"
| "company_handler_any (Call_Policy c) = policy_handler c"
| "company_handler_any (Call_Dlp c) = dlp_handler c"
| "company_handler_any (Call_Access_Request c) = access_request_handler c"
| "company_handler_any (Call_Activity c) = activity_handler c"
| "company_handler_any (Call_Device c) = device_handler c"
| "company_handler_any (Call_Swg c) = swg_handler c"
| "company_handler_any (Call_Category c) = category_handler c"
| "company_handler_any (Call_App_Control c) = app_control_handler c"
| "company_handler_any (Call_Monitoring c) = monitoring_handler c"
| "company_handler_any (Call_Enforcement c) = enforcement_handler c"
| "company_handler_any (Call_Settings c) = settings_handler c"
| "company_handler_any (Call_Residency c) = residency_handler c"
| "company_handler_any (Call_Ai_Chat c) = ai_chat_handler c"
| "company_handler_any (Call_Report c) = report_handler c"
| "company_handler_any (Call_Org_User c) = org_user_handler c"
| "company_handler_any (Call_Mfa c) = mfa_handler c"
| "company_handler_any (Call_Company c) = company_handler c"
| "company_handler_any (Call_Ticket c) = ticket_handler c"

fun superadmin_ids_any :: "superadmin_call_any \<Rightarrow> string list" where
  "superadmin_ids_any (Call_Sa_Auth c) = sa_auth_ids c"
| "superadmin_ids_any (Call_Sa_Otp c) = sa_otp_ids c"
| "superadmin_ids_any (Call_Sa_Org c) = sa_org_ids c"
| "superadmin_ids_any (Call_Sa_Overview c) = sa_overview_ids c"
| "superadmin_ids_any (Call_Sa_Seat_Alert c) = sa_seat_alert_ids c"
| "superadmin_ids_any (Call_Sa_Billing c) = sa_billing_ids c"
| "superadmin_ids_any (Call_Sa_Blocklist c) = sa_blocklist_ids c"
| "superadmin_ids_any (Call_Sa_Announcement c) = sa_announcement_ids c"
| "superadmin_ids_any (Call_Sa_Content c) = sa_content_ids c"
| "superadmin_ids_any (Call_Sa_Demo_Request c) = sa_demo_request_ids c"
| "superadmin_ids_any (Call_Sa_Waitlist c) = sa_waitlist_ids c"
| "superadmin_ids_any (Call_Sa_Feature_Flag c) = sa_feature_flag_ids c"
| "superadmin_ids_any (Call_Sa_Revenue c) = sa_revenue_ids c"
| "superadmin_ids_any (Call_Sa_Ticket c) = sa_ticket_ids c"
| "superadmin_ids_any (Call_Sa_Agent_Package c) = sa_agent_package_ids c"
| "superadmin_ids_any (Call_Sa_Audit c) = sa_audit_ids c"
| "superadmin_ids_any (Call_Sa_Health c) = sa_health_ids c"
| "superadmin_ids_any (Call_Sa_Settings c) = sa_settings_ids c"
| "superadmin_ids_any (Call_Sa_Team c) = sa_team_ids c"
| "superadmin_ids_any (Call_Sa_App_Catalog c) = sa_app_catalog_ids c"

fun superadmin_handler_any :: "superadmin_call_any \<Rightarrow> string option" where
  "superadmin_handler_any (Call_Sa_Auth c) = sa_auth_handler c"
| "superadmin_handler_any (Call_Sa_Otp c) = sa_otp_handler c"
| "superadmin_handler_any (Call_Sa_Org c) = sa_org_handler c"
| "superadmin_handler_any (Call_Sa_Overview c) = sa_overview_handler c"
| "superadmin_handler_any (Call_Sa_Seat_Alert c) = sa_seat_alert_handler c"
| "superadmin_handler_any (Call_Sa_Billing c) = sa_billing_handler c"
| "superadmin_handler_any (Call_Sa_Blocklist c) = sa_blocklist_handler c"
| "superadmin_handler_any (Call_Sa_Announcement c) = sa_announcement_handler c"
| "superadmin_handler_any (Call_Sa_Content c) = sa_content_handler c"
| "superadmin_handler_any (Call_Sa_Demo_Request c) = sa_demo_request_handler c"
| "superadmin_handler_any (Call_Sa_Waitlist c) = sa_waitlist_handler c"
| "superadmin_handler_any (Call_Sa_Feature_Flag c) = sa_feature_flag_handler c"
| "superadmin_handler_any (Call_Sa_Revenue c) = sa_revenue_handler c"
| "superadmin_handler_any (Call_Sa_Ticket c) = sa_ticket_handler c"
| "superadmin_handler_any (Call_Sa_Agent_Package c) = sa_agent_package_handler c"
| "superadmin_handler_any (Call_Sa_Audit c) = sa_audit_handler c"
| "superadmin_handler_any (Call_Sa_Health c) = sa_health_handler c"
| "superadmin_handler_any (Call_Sa_Settings c) = sa_settings_handler c"
| "superadmin_handler_any (Call_Sa_Team c) = sa_team_handler c"
| "superadmin_handler_any (Call_Sa_App_Catalog c) = sa_app_catalog_handler c"

end
