(* ===== verification/Api_Contract.thy ===== *)
theory Api_Contract
  imports Router
begin

text \<open>
  The contract between the panels and the admin API: every call of a panel, with identifiers
  that stay one segment of its URL, reaches the handler it means. Two calls of the company
  dashboard reach none.
\<close>

lemma serve_api [simp]:
  "serve m (CHR ''/'' # CHR ''a'' # CHR ''p'' # CHR ''i'' # CHR ''/'' # CHR ''v'' # CHR ''1'' # CHR ''/'' # p) =
     serve_segs m (split_on (CHR ''/'') p)"
  by (simp add: serve_def)

section \<open>Company dashboard\<close>

text \<open>The router on the paths of the panel, with an identifier in the place of each.\<close>

lemma company_served:
  "serve_segs GET [''auth'', ''me''] = Some ''authH.Me'' \<and>
   serve_segs POST [''auth'', ''register''] = Some ''authH.Register'' \<and>
   serve_segs POST [''auth'', ''forgot-password''] = Some ''authH.ForgotPassword'' \<and>
   serve_segs POST [''auth'', ''reset-password''] = Some ''authH.ResetPassword'' \<and>
   serve_segs POST [''auth'', ''change-password''] = Some ''authH.ChangePassword'' \<and>
   serve_segs PUT [''auth'', ''profile''] = Some ''authH.UpdateProfile'' \<and>
   serve_segs POST [''auth'', ''logout''] = Some ''authH.Logout'' \<and>
   serve_segs POST [''auth'', ''otp'', ''resend''] = Some ''otpH.ResendLogin'' \<and>
   serve_segs POST [''auth'', ''register'', ''start''] = Some ''otpH.StartRegistration'' \<and>
   serve_segs POST [''auth'', ''register'', ''resend''] = Some ''otpH.ResendRegistration'' \<and>
   serve_segs POST [''auth'', ''register'', ''verify''] = Some ''otpH.VerifyRegistration'' \<and>
   serve_segs GET [''employees''] = Some ''empH.List'' \<and>
   serve_segs GET [''employees'', ''0''] = Some ''empH.Get'' \<and>
   serve_segs POST [''employees''] = Some ''empH.Create'' \<and>
   serve_segs PUT [''employees'', ''0''] = Some ''empH.Update'' \<and>
   serve_segs DELETE [''employees'', ''0''] = Some ''empH.Delete'' \<and>
   serve_segs POST [''employees'', ''bulk-delete''] = None \<and>
   serve_segs POST [''employees'', ''import''] = Some ''empH.ImportCSV'' \<and>
   serve_segs GET [''employees'', ''export''] = Some ''empH.ExportCSV'' \<and>
   serve_segs GET [''employees'', ''0'', ''activity''] = Some ''empH.GetActivity'' \<and>
   serve_segs POST [''employees'', ''0'', ''portal-password''] = Some ''portalH.SetPortalPassword'' \<and>
   serve_segs GET [''employees'', ''departments''] = Some ''empH.Departments'' \<and>
   serve_segs GET [''teams''] = Some ''teamH.List'' \<and>
   serve_segs GET [''teams'', ''0''] = Some ''teamH.Get'' \<and>
   serve_segs POST [''teams''] = Some ''teamH.Create'' \<and>
   serve_segs PUT [''teams'', ''0''] = Some ''teamH.Update'' \<and>
   serve_segs DELETE [''teams'', ''0''] = Some ''teamH.Delete'' \<and>
   serve_segs POST [''teams'', ''0'', ''employees''] = Some ''teamH.AssignEmployees'' \<and>
   serve_segs DELETE [''teams'', ''0'', ''employees'', ''0''] = Some ''teamH.RemoveEmployee'' \<and>
   serve_segs GET [''teams'', ''0'', ''members''] = Some ''teamH.GetMembers'' \<and>
   serve_segs GET [''policies''] = Some ''policyH.List'' \<and>
   serve_segs GET [''policies'', ''0''] = Some ''policyH.Get'' \<and>
   serve_segs POST [''policies''] = Some ''policyH.Create'' \<and>
   serve_segs PUT [''policies'', ''0''] = Some ''policyH.Update'' \<and>
   serve_segs DELETE [''policies'', ''0''] = Some ''policyH.Delete'' \<and>
   serve_segs PATCH [''policies'', ''0'', ''toggle''] = Some ''policyH.Toggle'' \<and>
   serve_segs POST [''policies'', ''0'', ''duplicate''] = Some ''policyH.Duplicate'' \<and>
   serve_segs POST [''policies'', ''0'', ''assign''] = Some ''policyH.Assign'' \<and>
   serve_segs GET [''policies'', ''0'', ''export''] = None \<and>
   serve_segs POST [''policies'', ''import''] = Some ''policyH.Import'' \<and>
   serve_segs GET [''policies'', ''types''] = Some ''policyH.GetTypes'' \<and>
   serve_segs GET [''policies'', ''0'', ''resolved-domains''] = Some ''policyH.ResolvedDomains'' \<and>
   serve_segs GET [''policies'', ''0'', ''blocked-employees''] = Some ''arH.BlockedEmployees'' \<and>
   serve_segs POST [''dlp'', ''test''] = Some ''policyH.TestDLP'' \<and>
   serve_segs GET [''access-requests''] = Some ''arH.List'' \<and>
   serve_segs POST [''access-requests'', ''0'', ''approve''] = Some ''arH.Approve'' \<and>
   serve_segs POST [''access-requests'', ''0'', ''deny''] = Some ''arH.Deny'' \<and>
   serve_segs POST [''access-requests'', ''0'', ''revoke''] = Some ''arH.Revoke'' \<and>
   serve_segs GET [''activity''] = Some ''actH.List'' \<and>
   serve_segs GET [''activity'', ''stats''] = Some ''actH.Stats'' \<and>
   serve_segs GET [''devices''] = Some ''agentH.ListDevices'' \<and>
   serve_segs GET [''devices'', ''0''] = Some ''agentH.GetDevice'' \<and>
   serve_segs DELETE [''devices'', ''0''] = Some ''agentH.RevokeDevice'' \<and>
   serve_segs PATCH [''devices'', ''0''] = Some ''enfH.SetDeviceOwnership'' \<and>
   serve_segs GET [''devices'', ''0'', ''enforcement''] = Some ''enfH.GetDeviceEnforcement'' \<and>
   serve_segs GET [''devices'', ''activity''] = Some ''agentH.ListDeviceActivity'' \<and>
   serve_segs PUT [''devices'', ''0'', ''schedule''] = Some ''enfH.PutDeviceSchedule'' \<and>
   serve_segs DELETE [''devices'', ''0'', ''schedule''] = Some ''enfH.DeleteDeviceSchedule'' \<and>
   serve_segs GET [''swg'', ''rules''] = Some ''swgH.ListDomainRules'' \<and>
   serve_segs POST [''swg'', ''rules''] = Some ''swgH.CreateDomainRule'' \<and>
   serve_segs DELETE [''swg'', ''rules'', ''0''] = Some ''swgH.DeleteDomainRule'' \<and>
   serve_segs GET [''swg'', ''categories''] = Some ''swgH.ListCategories'' \<and>
   serve_segs GET [''swg'', ''stats''] = Some ''swgH.Stats'' \<and>
   serve_segs POST [''swg'', ''check''] = Some ''swgH.CheckURLDashboard'' \<and>
   serve_segs GET [''categories''] = Some ''catH.List'' \<and>
   serve_segs GET [''categories'', ''0'', ''domains''] = Some ''catH.ListDomains'' \<and>
   serve_segs POST [''categories'', ''0'', ''domains''] = Some ''catH.AddDomains'' \<and>
   serve_segs DELETE [''categories'', ''0'', ''domains''] = Some ''catH.DeleteDomain'' \<and>
   serve_segs DELETE [''categories'', ''0''] = Some ''catH.Delete'' \<and>
   serve_segs POST [''categories'', ''0'', ''restore''] = Some ''catH.Restore'' \<and>
   serve_segs GET [''applications'', ''catalog''] = Some ''appH.Catalog'' \<and>
   serve_segs GET [''applications'', ''rules''] = Some ''appH.ListRules'' \<and>
   serve_segs POST [''applications'', ''rules''] = Some ''appH.CreateRule'' \<and>
   serve_segs PATCH [''applications'', ''rules'', ''0''] = Some ''appH.UpdateRule'' \<and>
   serve_segs DELETE [''applications'', ''rules'', ''0''] = Some ''appH.DeleteRule'' \<and>
   serve_segs GET [''applications'', ''events''] = Some ''appH.Events'' \<and>
   serve_segs GET [''applications'', ''installed''] = Some ''invH.ListInstalled'' \<and>
   serve_segs POST [''applications'', ''installed'', ''0'', ''control''] = Some ''invH.SetControl'' \<and>
   serve_segs POST [''applications''] = Some ''appH.CreateApplication'' \<and>
   serve_segs DELETE [''applications'', ''0''] = Some ''appH.DeleteApplication'' \<and>
   serve_segs GET [''monitoring'', ''employees''] = Some ''monH.Employees'' \<and>
   serve_segs GET [''monitoring'', ''screenshots''] = Some ''monH.Screenshots'' \<and>
   serve_segs GET [''monitoring'', ''settings''] = Some ''monH.GetSettings'' \<and>
   serve_segs PUT [''monitoring'', ''settings''] = Some ''monH.UpdateSettings'' \<and>
   serve_segs DELETE [''monitoring'', ''sessions'', ''0''] = Some ''monH.DeleteSession'' \<and>
   serve_segs DELETE [''monitoring'', ''screenshots'', ''0''] = Some ''monH.DeleteScreenshot'' \<and>
   serve_segs GET [''enforcement'', ''schedule''] = Some ''enfH.GetOrgSchedule'' \<and>
   serve_segs PUT [''enforcement'', ''schedule''] = Some ''enfH.PutOrgSchedule'' \<and>
   serve_segs DELETE [''enforcement'', ''schedule''] = Some ''enfH.DeleteOrgSchedule'' \<and>
   serve_segs GET [''enforcement'', ''schedules''] = Some ''enfH.ListSchedules'' \<and>
   serve_segs PUT [''teams'', ''0'', ''schedule''] = Some ''enfH.PutTeamSchedule'' \<and>
   serve_segs DELETE [''teams'', ''0'', ''schedule''] = Some ''enfH.DeleteTeamSchedule'' \<and>
   serve_segs GET [''settings'', ''mitm''] = Some ''agentH.GetMITMSettings'' \<and>
   serve_segs PUT [''settings'', ''mitm''] = Some ''agentH.UpdateMITMSettings'' \<and>
   serve_segs GET [''settings'', ''mitm'', ''platforms''] = Some ''agentH.ListBypassPlatforms'' \<and>
   serve_segs GET [''settings'', ''mitm'', ''discover''] = Some ''agentH.DiscoverBypassDomains'' \<and>
   serve_segs GET [''settings'', ''data-residency''] = Some ''residencyH.Get'' \<and>
   serve_segs PUT [''settings'', ''data-residency''] = Some ''residencyH.SetEnabled'' \<and>
   serve_segs POST [''settings'', ''data-residency'', ''database'', ''test''] = Some ''residencyH.TestDatabase'' \<and>
   serve_segs PUT [''settings'', ''data-residency'', ''database''] = Some ''residencyH.SaveDatabase'' \<and>
   serve_segs DELETE [''settings'', ''data-residency'', ''database''] = Some ''residencyH.DisconnectDatabase'' \<and>
   serve_segs POST [''settings'', ''data-residency'', ''files'', ''test''] = Some ''residencyH.TestFiles'' \<and>
   serve_segs PUT [''settings'', ''data-residency'', ''files''] = Some ''residencyH.SaveFiles'' \<and>
   serve_segs DELETE [''settings'', ''data-residency'', ''files''] = Some ''residencyH.DisconnectFiles'' \<and>
   serve_segs POST [''settings'', ''data-residency'', ''move-history''] = Some ''residencyH.MoveHistory'' \<and>
   serve_segs GET [''ai'', ''sessions''] = Some ''aiH.ListSessions'' \<and>
   serve_segs POST [''ai'', ''sessions''] = Some ''aiH.CreateSession'' \<and>
   serve_segs GET [''ai'', ''sessions'', ''0''] = Some ''aiH.GetSession'' \<and>
   serve_segs PATCH [''ai'', ''sessions'', ''0''] = Some ''aiH.UpdateSession'' \<and>
   serve_segs DELETE [''ai'', ''sessions'', ''0''] = Some ''aiH.DeleteSession'' \<and>
   serve_segs POST [''ai'', ''sessions'', ''0'', ''messages''] = Some ''aiH.AddMessage'' \<and>
   serve_segs GET [''reports'', ''overview''] = Some ''repH.Overview'' \<and>
   serve_segs GET [''reports'', ''catalog''] = Some ''repH.Catalog'' \<and>
   serve_segs GET [''reports'', ''0''] = Some ''repH.Report'' \<and>
   serve_segs GET [''users''] = Some ''orgUserH.List'' \<and>
   serve_segs POST [''users''] = Some ''orgUserH.Create'' \<and>
   serve_segs PUT [''users'', ''0''] = Some ''orgUserH.Update'' \<and>
   serve_segs DELETE [''users'', ''0''] = Some ''orgUserH.Delete'' \<and>
   serve_segs GET [''auth'', ''mfa'', ''status''] = Some ''mfaH.Status'' \<and>
   serve_segs POST [''auth'', ''mfa'', ''setup''] = Some ''mfaH.Setup'' \<and>
   serve_segs POST [''auth'', ''mfa'', ''enable''] = Some ''mfaH.Enable'' \<and>
   serve_segs POST [''auth'', ''mfa'', ''disable''] = Some ''mfaH.Disable'' \<and>
   serve_segs POST [''auth'', ''mfa'', ''recovery-codes''] = Some ''mfaH.RegenerateRecoveryCodes'' \<and>
   serve_segs GET [''settings'', ''mfa''] = Some ''mfaH.GetOrgPolicy'' \<and>
   serve_segs PUT [''settings'', ''mfa''] = Some ''mfaH.SetOrgPolicy'' \<and>
   serve_segs GET [''organization''] = Some ''companyH.Get'' \<and>
   serve_segs PUT [''organization''] = Some ''companyH.Update'' \<and>
   serve_segs GET [''organization'', ''timezones''] = Some ''companyH.Timezones'' \<and>
   serve_segs PUT [''organization'', ''notifications''] = Some ''companyH.UpdateNotifications'' \<and>
   serve_segs GET [''organization'', ''block-page''] = Some ''companyH.GetBlockPage'' \<and>
   serve_segs PUT [''organization'', ''block-page''] = Some ''companyH.UpdateBlockPage'' \<and>
   serve_segs GET [''tickets''] = Some ''ticketH.ListForOrg'' \<and>
   serve_segs GET [''tickets'', ''unread''] = Some ''ticketH.UnreadForOrg'' \<and>
   serve_segs GET [''tickets'', ''0''] = Some ''ticketH.Get'' \<and>
   serve_segs POST [''tickets''] = Some ''ticketH.Create'' \<and>
   serve_segs POST [''tickets'', ''0'', ''messages''] = Some ''ticketH.AddMessage'' \<and>
   serve_segs POST [''tickets'', ''0'', ''resolve''] = Some ''ticketH.Resolve'' \<and>
   serve_segs POST [''tickets'', ''0'', ''feedback''] = Some ''ticketH.Feedback'' \<and>
   serve_segs GET [''tickets'', ''0'', ''attachments'', ''0''] = Some ''ticketH.Attachment''"
  by code_simp

lemma auth_routed:
  "list_all plain (auth_ids c) \<Longrightarrow>
   serve (ep_method (auth_api c)) (ep_path (auth_api c)) = auth_handler c"
  by (cases c; simp; (elim conjE)?;
      (rule serve_alike, ((rule replace_id, assumption) | rule keep_word)+, rule keep_end, simp only: company_served))

lemma otp_routed:
  "list_all plain (otp_ids c) \<Longrightarrow>
   serve (ep_method (otp_api c)) (ep_path (otp_api c)) = otp_handler c"
  by (cases c; simp; (elim conjE)?;
      (rule serve_alike, ((rule replace_id, assumption) | rule keep_word)+, rule keep_end, simp only: company_served))

lemma employee_routed:
  "list_all plain (employee_ids c) \<Longrightarrow>
   serve (ep_method (employee_api c)) (ep_path (employee_api c)) = employee_handler c"
  by (cases c; simp; (elim conjE)?;
      (rule serve_alike, ((rule replace_id, assumption) | rule keep_word)+, rule keep_end, simp only: company_served))

lemma team_routed:
  "list_all plain (team_ids c) \<Longrightarrow>
   serve (ep_method (team_api c)) (ep_path (team_api c)) = team_handler c"
  by (cases c; simp; (elim conjE)?;
      (rule serve_alike, ((rule replace_id, assumption) | rule keep_word)+, rule keep_end, simp only: company_served))

lemma policy_routed:
  "list_all plain (policy_ids c) \<Longrightarrow>
   serve (ep_method (policy_api c)) (ep_path (policy_api c)) = policy_handler c"
  by (cases c; simp; (elim conjE)?;
      (rule serve_alike, ((rule replace_id, assumption) | rule keep_word)+, rule keep_end, simp only: company_served))

lemma dlp_routed:
  "list_all plain (dlp_ids c) \<Longrightarrow>
   serve (ep_method (dlp_api c)) (ep_path (dlp_api c)) = dlp_handler c"
  by (cases c; simp; (elim conjE)?;
      (rule serve_alike, ((rule replace_id, assumption) | rule keep_word)+, rule keep_end, simp only: company_served))

lemma access_request_routed:
  "list_all plain (access_request_ids c) \<Longrightarrow>
   serve (ep_method (access_request_api c)) (ep_path (access_request_api c)) = access_request_handler c"
  by (cases c; simp; (elim conjE)?;
      (rule serve_alike, ((rule replace_id, assumption) | rule keep_word)+, rule keep_end, simp only: company_served))

lemma activity_routed:
  "list_all plain (activity_ids c) \<Longrightarrow>
   serve (ep_method (activity_api c)) (ep_path (activity_api c)) = activity_handler c"
  by (cases c; simp; (elim conjE)?;
      (rule serve_alike, ((rule replace_id, assumption) | rule keep_word)+, rule keep_end, simp only: company_served))

lemma device_routed:
  "list_all plain (device_ids c) \<Longrightarrow>
   serve (ep_method (device_api c)) (ep_path (device_api c)) = device_handler c"
  by (cases c; simp; (elim conjE)?;
      (rule serve_alike, ((rule replace_id, assumption) | rule keep_word)+, rule keep_end, simp only: company_served))

lemma swg_routed:
  "list_all plain (swg_ids c) \<Longrightarrow>
   serve (ep_method (swg_api c)) (ep_path (swg_api c)) = swg_handler c"
  by (cases c; simp; (elim conjE)?;
      (rule serve_alike, ((rule replace_id, assumption) | rule keep_word)+, rule keep_end, simp only: company_served))

lemma category_routed:
  "list_all plain (category_ids c) \<Longrightarrow>
   serve (ep_method (category_api c)) (ep_path (category_api c)) = category_handler c"
  by (cases c; simp; (elim conjE)?;
      (rule serve_alike, ((rule replace_id, assumption) | rule keep_word)+, rule keep_end, simp only: company_served))

lemma app_control_routed:
  "list_all plain (app_control_ids c) \<Longrightarrow>
   serve (ep_method (app_control_api c)) (ep_path (app_control_api c)) = app_control_handler c"
  by (cases c; simp; (elim conjE)?;
      (rule serve_alike, ((rule replace_id, assumption) | rule keep_word)+, rule keep_end, simp only: company_served))

lemma monitoring_routed:
  "list_all plain (monitoring_ids c) \<Longrightarrow>
   serve (ep_method (monitoring_api c)) (ep_path (monitoring_api c)) = monitoring_handler c"
  by (cases c; simp; (elim conjE)?;
      (rule serve_alike, ((rule replace_id, assumption) | rule keep_word)+, rule keep_end, simp only: company_served))

lemma enforcement_routed:
  "list_all plain (enforcement_ids c) \<Longrightarrow>
   serve (ep_method (enforcement_api c)) (ep_path (enforcement_api c)) = enforcement_handler c"
  by (cases c; simp; (elim conjE)?;
      (rule serve_alike, ((rule replace_id, assumption) | rule keep_word)+, rule keep_end, simp only: company_served))

lemma settings_routed:
  "list_all plain (settings_ids c) \<Longrightarrow>
   serve (ep_method (settings_api c)) (ep_path (settings_api c)) = settings_handler c"
  by (cases c; simp; (elim conjE)?;
      (rule serve_alike, ((rule replace_id, assumption) | rule keep_word)+, rule keep_end, simp only: company_served))

lemma residency_routed:
  "list_all plain (residency_ids c) \<Longrightarrow>
   serve (ep_method (residency_api c)) (ep_path (residency_api c)) = residency_handler c"
  by (cases c; simp; (elim conjE)?;
      (rule serve_alike, ((rule replace_id, assumption) | rule keep_word)+, rule keep_end, simp only: company_served))

lemma ai_chat_routed:
  "list_all plain (ai_chat_ids c) \<Longrightarrow>
   serve (ep_method (ai_chat_api c)) (ep_path (ai_chat_api c)) = ai_chat_handler c"
  by (cases c; simp; (elim conjE)?;
      (rule serve_alike, ((rule replace_id, assumption) | rule keep_word)+, rule keep_end, simp only: company_served))

lemma report_routed:
  "list_all plain (report_ids c) \<Longrightarrow>
   serve (ep_method (report_api c)) (ep_path (report_api c)) = report_handler c"
  by (cases c; simp; (elim conjE)?;
      (rule serve_alike, ((rule replace_id, assumption) | rule keep_word)+, rule keep_end, simp only: company_served))

lemma org_user_routed:
  "list_all plain (org_user_ids c) \<Longrightarrow>
   serve (ep_method (org_user_api c)) (ep_path (org_user_api c)) = org_user_handler c"
  by (cases c; simp; (elim conjE)?;
      (rule serve_alike, ((rule replace_id, assumption) | rule keep_word)+, rule keep_end, simp only: company_served))

lemma mfa_routed:
  "list_all plain (mfa_ids c) \<Longrightarrow>
   serve (ep_method (mfa_api c)) (ep_path (mfa_api c)) = mfa_handler c"
  by (cases c; simp; (elim conjE)?;
      (rule serve_alike, ((rule replace_id, assumption) | rule keep_word)+, rule keep_end, simp only: company_served))

lemma company_routed:
  "list_all plain (company_ids c) \<Longrightarrow>
   serve (ep_method (company_api c)) (ep_path (company_api c)) = company_handler c"
  by (cases c; simp; (elim conjE)?;
      (rule serve_alike, ((rule replace_id, assumption) | rule keep_word)+, rule keep_end, simp only: company_served))

lemma ticket_routed:
  "list_all plain (ticket_ids c) \<Longrightarrow>
   serve (ep_method (ticket_api c)) (ep_path (ticket_api c)) = ticket_handler c"
  by (cases c; simp; (elim conjE)?;
      (rule serve_alike, ((rule replace_id, assumption) | rule keep_word)+, rule keep_end, simp only: company_served))

lemmas company_routed_all =
  auth_routed otp_routed employee_routed team_routed
  policy_routed dlp_routed access_request_routed activity_routed
  device_routed swg_routed category_routed app_control_routed
  monitoring_routed enforcement_routed settings_routed residency_routed
  ai_chat_routed report_routed org_user_routed mfa_routed
  company_routed ticket_routed

section \<open>Superadmin panel\<close>

text \<open>The router on the paths of the panel, with an identifier in the place of each.\<close>

lemma superadmin_served:
  "serve_segs POST [''auth'', ''login''] = Some ''authH.Login'' \<and>
   serve_segs POST [''auth'', ''refresh''] = Some ''authH.Refresh'' \<and>
   serve_segs POST [''auth'', ''logout''] = Some ''authH.Logout'' \<and>
   serve_segs GET [''auth'', ''me''] = Some ''authH.Me'' \<and>
   serve_segs POST [''auth'', ''change-password''] = Some ''authH.ChangePassword'' \<and>
   serve_segs PUT [''auth'', ''profile''] = Some ''authH.UpdateProfile'' \<and>
   serve_segs POST [''auth'', ''otp'', ''resend''] = Some ''otpH.ResendLogin'' \<and>
   serve_segs GET [''superadmin'', ''organizations''] = Some ''orgH.List'' \<and>
   serve_segs GET [''superadmin'', ''organizations'', ''0''] = Some ''orgH.Get'' \<and>
   serve_segs POST [''superadmin'', ''organizations''] = Some ''orgH.Create'' \<and>
   serve_segs PUT [''superadmin'', ''organizations'', ''0''] = Some ''orgH.Update'' \<and>
   serve_segs DELETE [''superadmin'', ''organizations'', ''0''] = Some ''orgH.Delete'' \<and>
   serve_segs GET [''superadmin'', ''stats''] = Some ''orgH.Stats'' \<and>
   serve_segs GET [''superadmin'', ''organizations'', ''0'', ''export''] = Some ''complianceH.Export'' \<and>
   serve_segs POST [''superadmin'', ''organizations'', ''0'', ''purge''] = Some ''complianceH.Purge'' \<and>
   serve_segs POST [''superadmin'', ''organizations'', ''0'', ''impersonate''] = Some ''impersonateH.Start'' \<and>
   serve_segs GET [''superadmin'', ''overview''] = Some ''overviewH.Get'' \<and>
   serve_segs GET [''superadmin'', ''seat-alerts''] = Some ''seatAlertH.List'' \<and>
   serve_segs GET [''superadmin'', ''organizations'', ''0'', ''billing''] = Some ''billingH.ListForOrg'' \<and>
   serve_segs POST [''superadmin'', ''organizations'', ''0'', ''billing''] = Some ''billingH.Create'' \<and>
   serve_segs GET [''superadmin'', ''billing''] = Some ''billingH.List'' \<and>
   serve_segs POST [''superadmin'', ''billing'', ''0'', ''refresh''] = Some ''billingH.Refresh'' \<and>
   serve_segs DELETE [''superadmin'', ''billing'', ''0''] = Some ''billingH.Cancel'' \<and>
   serve_segs GET [''superadmin'', ''blocklist''] = Some ''blocklistH.List'' \<and>
   serve_segs POST [''superadmin'', ''blocklist''] = Some ''blocklistH.Create'' \<and>
   serve_segs PATCH [''superadmin'', ''blocklist'', ''0''] = Some ''blocklistH.Toggle'' \<and>
   serve_segs DELETE [''superadmin'', ''blocklist'', ''0''] = Some ''blocklistH.Delete'' \<and>
   serve_segs GET [''superadmin'', ''threat-feeds''] = Some ''blocklistH.FeedStatus'' \<and>
   serve_segs GET [''superadmin'', ''announcements''] = Some ''announceH.List'' \<and>
   serve_segs POST [''superadmin'', ''announcements''] = Some ''announceH.Create'' \<and>
   serve_segs PATCH [''superadmin'', ''announcements'', ''0''] = Some ''announceH.Update'' \<and>
   serve_segs DELETE [''superadmin'', ''announcements'', ''0''] = Some ''announceH.Delete'' \<and>
   serve_segs GET [''superadmin'', ''content''] = Some ''contentH.List'' \<and>
   serve_segs GET [''superadmin'', ''content'', ''0''] = Some ''contentH.Get'' \<and>
   serve_segs POST [''superadmin'', ''content''] = Some ''contentH.Create'' \<and>
   serve_segs PATCH [''superadmin'', ''content'', ''0''] = Some ''contentH.Update'' \<and>
   serve_segs DELETE [''superadmin'', ''content'', ''0''] = Some ''contentH.Delete'' \<and>
   serve_segs GET [''superadmin'', ''demo-requests''] = Some ''demoH.List'' \<and>
   serve_segs PATCH [''superadmin'', ''demo-requests'', ''0''] = Some ''demoH.Update'' \<and>
   serve_segs GET [''superadmin'', ''waitlist''] = Some ''waitlistH.List'' \<and>
   serve_segs PATCH [''superadmin'', ''waitlist'', ''0''] = Some ''waitlistH.Update'' \<and>
   serve_segs DELETE [''superadmin'', ''waitlist'', ''0''] = Some ''waitlistH.Delete'' \<and>
   serve_segs GET [''superadmin'', ''waitlist'', ''export''] = Some ''waitlistH.Export'' \<and>
   serve_segs GET [''superadmin'', ''feature-flags''] = Some ''flagH.List'' \<and>
   serve_segs POST [''superadmin'', ''feature-flags''] = Some ''flagH.Create'' \<and>
   serve_segs PATCH [''superadmin'', ''feature-flags'', ''0''] = Some ''flagH.Update'' \<and>
   serve_segs DELETE [''superadmin'', ''feature-flags'', ''0''] = Some ''flagH.Delete'' \<and>
   serve_segs PUT [''superadmin'', ''feature-flags'', ''0'', ''orgs'', ''0''] = Some ''flagH.SetOrgOverride'' \<and>
   serve_segs DELETE [''superadmin'', ''feature-flags'', ''0'', ''orgs'', ''0''] = Some ''flagH.RemoveOrgOverride'' \<and>
   serve_segs GET [''superadmin'', ''revenue-analytics''] = Some ''revenueH.Get'' \<and>
   serve_segs GET [''superadmin'', ''tickets''] = Some ''ticketH.List'' \<and>
   serve_segs GET [''superadmin'', ''tickets'', ''0''] = Some ''ticketH.GetAny'' \<and>
   serve_segs POST [''superadmin'', ''tickets''] = Some ''ticketH.CreateInternal'' \<and>
   serve_segs PATCH [''superadmin'', ''tickets'', ''0''] = Some ''ticketH.UpdateStatus'' \<and>
   serve_segs POST [''superadmin'', ''tickets'', ''0'', ''messages''] = Some ''ticketH.AddMessageAny'' \<and>
   serve_segs GET [''superadmin'', ''tickets'', ''0'', ''attachments'', ''0''] = Some ''ticketH.AttachmentAny'' \<and>
   serve_segs GET [''superadmin'', ''agent-packages''] = Some ''agentPkgH.Manifest'' \<and>
   serve_segs GET [''superadmin'', ''agent-packages'', ''history''] = Some ''agentPkgH.History'' \<and>
   serve_segs POST [''superadmin'', ''agent-packages''] = Some ''agentPkgH.Upload'' \<and>
   serve_segs POST [''superadmin'', ''agent-packages'', ''rollback''] = Some ''agentPkgH.Rollback'' \<and>
   serve_segs POST [''superadmin'', ''agent-packages'', ''trigger-build''] = Some ''ciH.TriggerBuild'' \<and>
   serve_segs GET [''superadmin'', ''agent-packages'', ''build-status''] = Some ''ciH.BuildStatus'' \<and>
   serve_segs GET [''superadmin'', ''audit-log''] = Some ''auditH.List'' \<and>
   serve_segs GET [''superadmin'', ''system-health''] = Some ''healthH.Get'' \<and>
   serve_segs GET [''superadmin'', ''settings''] = Some ''settingsH.Get'' \<and>
   serve_segs PUT [''superadmin'', ''settings'', ''0''] = Some ''settingsH.Update'' \<and>
   serve_segs GET [''superadmin'', ''team''] = Some ''saTeamH.List'' \<and>
   serve_segs POST [''superadmin'', ''team''] = Some ''saTeamH.Create'' \<and>
   serve_segs PATCH [''superadmin'', ''team'', ''0''] = Some ''saTeamH.Update'' \<and>
   serve_segs DELETE [''superadmin'', ''team'', ''0''] = Some ''saTeamH.Delete'' \<and>
   serve_segs GET [''superadmin'', ''applications''] = Some ''appCatalogH.List'' \<and>
   serve_segs POST [''superadmin'', ''applications''] = Some ''appCatalogH.Create'' \<and>
   serve_segs PATCH [''superadmin'', ''applications'', ''0''] = Some ''appCatalogH.Update'' \<and>
   serve_segs DELETE [''superadmin'', ''applications'', ''0''] = Some ''appCatalogH.Delete'' \<and>
   serve_segs POST [''superadmin'', ''applications'', ''0'', ''icon''] = Some ''appCatalogH.UploadIcon''"
  by code_simp

lemma sa_auth_routed:
  "list_all plain (sa_auth_ids c) \<Longrightarrow>
   serve (ep_method (sa_auth_api c)) (''/api/v1'' @ ep_path (sa_auth_api c)) = sa_auth_handler c"
  by (cases c; simp; (elim conjE)?;
      (rule serve_alike, ((rule replace_id, assumption) | rule keep_word)+, rule keep_end, simp only: superadmin_served))

lemma sa_otp_routed:
  "list_all plain (sa_otp_ids c) \<Longrightarrow>
   serve (ep_method (sa_otp_api c)) (''/api/v1'' @ ep_path (sa_otp_api c)) = sa_otp_handler c"
  by (cases c; simp; (elim conjE)?;
      (rule serve_alike, ((rule replace_id, assumption) | rule keep_word)+, rule keep_end, simp only: superadmin_served))

lemma sa_org_routed:
  "list_all plain (sa_org_ids c) \<Longrightarrow>
   serve (ep_method (sa_org_api c)) (''/api/v1'' @ ep_path (sa_org_api c)) = sa_org_handler c"
  by (cases c; simp; (elim conjE)?;
      (rule serve_alike, ((rule replace_id, assumption) | rule keep_word)+, rule keep_end, simp only: superadmin_served))

lemma sa_overview_routed:
  "list_all plain (sa_overview_ids c) \<Longrightarrow>
   serve (ep_method (sa_overview_api c)) (''/api/v1'' @ ep_path (sa_overview_api c)) = sa_overview_handler c"
  by (cases c; simp; (elim conjE)?;
      (rule serve_alike, ((rule replace_id, assumption) | rule keep_word)+, rule keep_end, simp only: superadmin_served))

lemma sa_seat_alert_routed:
  "list_all plain (sa_seat_alert_ids c) \<Longrightarrow>
   serve (ep_method (sa_seat_alert_api c)) (''/api/v1'' @ ep_path (sa_seat_alert_api c)) = sa_seat_alert_handler c"
  by (cases c; simp; (elim conjE)?;
      (rule serve_alike, ((rule replace_id, assumption) | rule keep_word)+, rule keep_end, simp only: superadmin_served))

lemma sa_billing_routed:
  "list_all plain (sa_billing_ids c) \<Longrightarrow>
   serve (ep_method (sa_billing_api c)) (''/api/v1'' @ ep_path (sa_billing_api c)) = sa_billing_handler c"
  by (cases c; simp; (elim conjE)?;
      (rule serve_alike, ((rule replace_id, assumption) | rule keep_word)+, rule keep_end, simp only: superadmin_served))

lemma sa_blocklist_routed:
  "list_all plain (sa_blocklist_ids c) \<Longrightarrow>
   serve (ep_method (sa_blocklist_api c)) (''/api/v1'' @ ep_path (sa_blocklist_api c)) = sa_blocklist_handler c"
  by (cases c; simp; (elim conjE)?;
      (rule serve_alike, ((rule replace_id, assumption) | rule keep_word)+, rule keep_end, simp only: superadmin_served))

lemma sa_announcement_routed:
  "list_all plain (sa_announcement_ids c) \<Longrightarrow>
   serve (ep_method (sa_announcement_api c)) (''/api/v1'' @ ep_path (sa_announcement_api c)) = sa_announcement_handler c"
  by (cases c; simp; (elim conjE)?;
      (rule serve_alike, ((rule replace_id, assumption) | rule keep_word)+, rule keep_end, simp only: superadmin_served))

lemma sa_content_routed:
  "list_all plain (sa_content_ids c) \<Longrightarrow>
   serve (ep_method (sa_content_api c)) (''/api/v1'' @ ep_path (sa_content_api c)) = sa_content_handler c"
  by (cases c; simp; (elim conjE)?;
      (rule serve_alike, ((rule replace_id, assumption) | rule keep_word)+, rule keep_end, simp only: superadmin_served))

lemma sa_demo_request_routed:
  "list_all plain (sa_demo_request_ids c) \<Longrightarrow>
   serve (ep_method (sa_demo_request_api c)) (''/api/v1'' @ ep_path (sa_demo_request_api c)) = sa_demo_request_handler c"
  by (cases c; simp; (elim conjE)?;
      (rule serve_alike, ((rule replace_id, assumption) | rule keep_word)+, rule keep_end, simp only: superadmin_served))

lemma sa_waitlist_routed:
  "list_all plain (sa_waitlist_ids c) \<Longrightarrow>
   serve (ep_method (sa_waitlist_api c)) (''/api/v1'' @ ep_path (sa_waitlist_api c)) = sa_waitlist_handler c"
  by (cases c; simp; (elim conjE)?;
      (rule serve_alike, ((rule replace_id, assumption) | rule keep_word)+, rule keep_end, simp only: superadmin_served))

lemma sa_feature_flag_routed:
  "list_all plain (sa_feature_flag_ids c) \<Longrightarrow>
   serve (ep_method (sa_feature_flag_api c)) (''/api/v1'' @ ep_path (sa_feature_flag_api c)) = sa_feature_flag_handler c"
  by (cases c; simp; (elim conjE)?;
      (rule serve_alike, ((rule replace_id, assumption) | rule keep_word)+, rule keep_end, simp only: superadmin_served))

lemma sa_revenue_routed:
  "list_all plain (sa_revenue_ids c) \<Longrightarrow>
   serve (ep_method (sa_revenue_api c)) (''/api/v1'' @ ep_path (sa_revenue_api c)) = sa_revenue_handler c"
  by (cases c; simp; (elim conjE)?;
      (rule serve_alike, ((rule replace_id, assumption) | rule keep_word)+, rule keep_end, simp only: superadmin_served))

lemma sa_ticket_routed:
  "list_all plain (sa_ticket_ids c) \<Longrightarrow>
   serve (ep_method (sa_ticket_api c)) (''/api/v1'' @ ep_path (sa_ticket_api c)) = sa_ticket_handler c"
  by (cases c; simp; (elim conjE)?;
      (rule serve_alike, ((rule replace_id, assumption) | rule keep_word)+, rule keep_end, simp only: superadmin_served))

lemma sa_agent_package_routed:
  "list_all plain (sa_agent_package_ids c) \<Longrightarrow>
   serve (ep_method (sa_agent_package_api c)) (''/api/v1'' @ ep_path (sa_agent_package_api c)) = sa_agent_package_handler c"
  by (cases c; simp; (elim conjE)?;
      (rule serve_alike, ((rule replace_id, assumption) | rule keep_word)+, rule keep_end, simp only: superadmin_served))

lemma sa_audit_routed:
  "list_all plain (sa_audit_ids c) \<Longrightarrow>
   serve (ep_method (sa_audit_api c)) (''/api/v1'' @ ep_path (sa_audit_api c)) = sa_audit_handler c"
  by (cases c; simp; (elim conjE)?;
      (rule serve_alike, ((rule replace_id, assumption) | rule keep_word)+, rule keep_end, simp only: superadmin_served))

lemma sa_health_routed:
  "list_all plain (sa_health_ids c) \<Longrightarrow>
   serve (ep_method (sa_health_api c)) (''/api/v1'' @ ep_path (sa_health_api c)) = sa_health_handler c"
  by (cases c; simp; (elim conjE)?;
      (rule serve_alike, ((rule replace_id, assumption) | rule keep_word)+, rule keep_end, simp only: superadmin_served))

lemma sa_settings_routed:
  "list_all plain (sa_settings_ids c) \<Longrightarrow>
   serve (ep_method (sa_settings_api c)) (''/api/v1'' @ ep_path (sa_settings_api c)) = sa_settings_handler c"
  by (cases c; simp; (elim conjE)?;
      (rule serve_alike, ((rule replace_id, assumption) | rule keep_word)+, rule keep_end, simp only: superadmin_served))

lemma sa_team_routed:
  "list_all plain (sa_team_ids c) \<Longrightarrow>
   serve (ep_method (sa_team_api c)) (''/api/v1'' @ ep_path (sa_team_api c)) = sa_team_handler c"
  by (cases c; simp; (elim conjE)?;
      (rule serve_alike, ((rule replace_id, assumption) | rule keep_word)+, rule keep_end, simp only: superadmin_served))

lemma sa_app_catalog_routed:
  "list_all plain (sa_app_catalog_ids c) \<Longrightarrow>
   serve (ep_method (sa_app_catalog_api c)) (''/api/v1'' @ ep_path (sa_app_catalog_api c)) = sa_app_catalog_handler c"
  by (cases c; simp; (elim conjE)?;
      (rule serve_alike, ((rule replace_id, assumption) | rule keep_word)+, rule keep_end, simp only: superadmin_served))

lemmas superadmin_routed_all =
  sa_auth_routed sa_otp_routed sa_org_routed sa_overview_routed
  sa_seat_alert_routed sa_billing_routed sa_blocklist_routed sa_announcement_routed
  sa_content_routed sa_demo_request_routed sa_waitlist_routed sa_feature_flag_routed
  sa_revenue_routed sa_ticket_routed sa_agent_package_routed sa_audit_routed
  sa_health_routed sa_settings_routed sa_team_routed sa_app_catalog_routed

section \<open>Employee portal\<close>

text \<open>The router on the paths of the panel, with an identifier in the place of each.\<close>

lemma portal_served:
  "serve_segs POST [''portal'', ''signup''] = Some ''portalH.Signup'' \<and>
   serve_segs POST [''portal'', ''forgot-password''] = Some ''portalH.ForgotPassword'' \<and>
   serve_segs POST [''portal'', ''reset-password''] = Some ''portalH.ResetPassword'' \<and>
   serve_segs GET [''portal'', ''me''] = Some ''portalH.Me'' \<and>
   serve_segs POST [''portal'', ''change-password''] = Some ''portalH.ChangePassword'' \<and>
   serve_segs GET [''portal'', ''devices''] = Some ''portalH.Devices'' \<and>
   serve_segs DELETE [''portal'', ''devices'', ''0''] = Some ''portalH.DeleteDevice'' \<and>
   serve_segs GET [''portal'', ''activity''] = Some ''portalH.Activity'' \<and>
   serve_segs GET [''portal'', ''activity'', ''stats''] = Some ''portalH.ActivityStats'' \<and>
   serve_segs POST [''portal'', ''access-requests''] = Some ''arH.Create'' \<and>
   serve_segs GET [''portal'', ''access-requests''] = Some ''arH.ListMine'' \<and>
   serve_segs GET [''portal'', ''overview''] = Some ''portalH.Overview'' \<and>
   serve_segs GET [''portal'', ''screenshots''] = Some ''portalH.Screenshots'' \<and>
   serve_segs PUT [''portal'', ''screenshots'', ''0'', ''reason''] = Some ''portalH.SetScreenshotReason'' \<and>
   serve_segs GET [''portal'', ''notifications''] = Some ''portalH.Notifications'' \<and>
   serve_segs POST [''portal'', ''notifications'', ''read''] = Some ''portalH.MarkNotificationsRead'' \<and>
   serve_segs POST [''portal'', ''notifications'', ''0'', ''read''] = Some ''portalH.MarkNotificationRead'' \<and>
   serve_segs POST [''portal'', ''access-requests'', ''0'', ''withdraw''] = Some ''arH.Withdraw'' \<and>
   serve_segs GET [''portal'', ''installers''] = Some ''portalH.Installers'' \<and>
   serve_segs POST [''portal'', ''enroll-device''] = Some ''portalH.EnrollDevice''"
  by code_simp

lemma portal_routed:
  "list_all plain (portal_ids c) \<Longrightarrow>
   serve (ep_method (portal_api c)) (ep_path (portal_api c)) = portal_handler c"
  by (cases c; simp; (elim conjE)?;
      (rule serve_alike, ((rule replace_id, assumption) | rule keep_word)+, rule keep_end, simp only: portal_served))

section \<open>The contract\<close>

text \<open>
  The calls of all but two groups have a handler whatever they are; the two exceptions are a
  call of the employees and one of the policies.
\<close>

lemma auth_has_handler [simp]: "auth_handler d \<noteq> None"
  by (cases d) simp_all

lemma otp_has_handler [simp]: "otp_handler d \<noteq> None"
  by (cases d) simp_all

lemma team_has_handler [simp]: "team_handler d \<noteq> None"
  by (cases d) simp_all

lemma dlp_has_handler [simp]: "dlp_handler d \<noteq> None"
  by (cases d) simp_all

lemma access_request_has_handler [simp]: "access_request_handler d \<noteq> None"
  by (cases d) simp_all

lemma activity_has_handler [simp]: "activity_handler d \<noteq> None"
  by (cases d) simp_all

lemma device_has_handler [simp]: "device_handler d \<noteq> None"
  by (cases d) simp_all

lemma swg_has_handler [simp]: "swg_handler d \<noteq> None"
  by (cases d) simp_all

lemma category_has_handler [simp]: "category_handler d \<noteq> None"
  by (cases d) simp_all

lemma app_control_has_handler [simp]: "app_control_handler d \<noteq> None"
  by (cases d) simp_all

lemma monitoring_has_handler [simp]: "monitoring_handler d \<noteq> None"
  by (cases d) simp_all

lemma enforcement_has_handler [simp]: "enforcement_handler d \<noteq> None"
  by (cases d) simp_all

lemma settings_has_handler [simp]: "settings_handler d \<noteq> None"
  by (cases d) simp_all

lemma residency_has_handler [simp]: "residency_handler d \<noteq> None"
  by (cases d) simp_all

lemma ai_chat_has_handler [simp]: "ai_chat_handler d \<noteq> None"
  by (cases d) simp_all

lemma report_has_handler [simp]: "report_handler d \<noteq> None"
  by (cases d) simp_all

lemma org_user_has_handler [simp]: "org_user_handler d \<noteq> None"
  by (cases d) simp_all

lemma mfa_has_handler [simp]: "mfa_handler d \<noteq> None"
  by (cases d) simp_all

lemma company_has_handler [simp]: "company_handler d \<noteq> None"
  by (cases d) simp_all

lemma ticket_has_handler [simp]: "ticket_handler d \<noteq> None"
  by (cases d) simp_all

lemma employee_unserved: "employee_handler d = None \<longleftrightarrow> (\<exists>ids. d = Employee_Bulk_Delete ids)"
  by (cases d) simp_all

lemma policy_unserved: "policy_handler d = None \<longleftrightarrow> (\<exists>i. d = Policy_Export_Json i)"
  by (cases d) simp_all

lemma company_unserved:
  "company_handler_any c = None \<longleftrightarrow>
     (\<exists>ids. c = Call_Employee (Employee_Bulk_Delete ids)) \<or> (\<exists>i. c = Call_Policy (Policy_Export_Json i))"
  by (cases c) (simp_all add: employee_unserved policy_unserved del: not_None_eq)

lemma company_routed_any:
  "list_all plain (company_ids_any c) \<Longrightarrow>
   serve (ep_method (company_endpoint c)) (ep_path (company_endpoint c)) = company_handler_any c"
  by (cases c) (simp_all only: company_endpoint.simps company_ids_any.simps company_handler_any.simps
      company_routed_all)

lemma sa_auth_has_handler [simp]: "sa_auth_handler d \<noteq> None"
  by (cases d) simp_all

lemma sa_otp_has_handler [simp]: "sa_otp_handler d \<noteq> None"
  by (cases d) simp_all

lemma sa_org_has_handler [simp]: "sa_org_handler d \<noteq> None"
  by (cases d) simp_all

lemma sa_overview_has_handler [simp]: "sa_overview_handler d \<noteq> None"
  by (cases d) simp_all

lemma sa_seat_alert_has_handler [simp]: "sa_seat_alert_handler d \<noteq> None"
  by (cases d) simp_all

lemma sa_billing_has_handler [simp]: "sa_billing_handler d \<noteq> None"
  by (cases d) simp_all

lemma sa_blocklist_has_handler [simp]: "sa_blocklist_handler d \<noteq> None"
  by (cases d) simp_all

lemma sa_announcement_has_handler [simp]: "sa_announcement_handler d \<noteq> None"
  by (cases d) simp_all

lemma sa_content_has_handler [simp]: "sa_content_handler d \<noteq> None"
  by (cases d) simp_all

lemma sa_demo_request_has_handler [simp]: "sa_demo_request_handler d \<noteq> None"
  by (cases d) simp_all

lemma sa_waitlist_has_handler [simp]: "sa_waitlist_handler d \<noteq> None"
  by (cases d) simp_all

lemma sa_feature_flag_has_handler [simp]: "sa_feature_flag_handler d \<noteq> None"
  by (cases d) simp_all

lemma sa_revenue_has_handler [simp]: "sa_revenue_handler d \<noteq> None"
  by (cases d) simp_all

lemma sa_ticket_has_handler [simp]: "sa_ticket_handler d \<noteq> None"
  by (cases d) simp_all

lemma sa_agent_package_has_handler [simp]: "sa_agent_package_handler d \<noteq> None"
  by (cases d) simp_all

lemma sa_audit_has_handler [simp]: "sa_audit_handler d \<noteq> None"
  by (cases d) simp_all

lemma sa_health_has_handler [simp]: "sa_health_handler d \<noteq> None"
  by (cases d) simp_all

lemma sa_settings_has_handler [simp]: "sa_settings_handler d \<noteq> None"
  by (cases d) simp_all

lemma sa_team_has_handler [simp]: "sa_team_handler d \<noteq> None"
  by (cases d) simp_all

lemma sa_app_catalog_has_handler [simp]: "sa_app_catalog_handler d \<noteq> None"
  by (cases d) simp_all

lemma superadmin_served_any: "superadmin_handler_any c \<noteq> None"
  by (cases c) (simp_all del: not_None_eq)

lemma superadmin_routed_any:
  "list_all plain (superadmin_ids_any c) \<Longrightarrow>
   serve (ep_method (superadmin_endpoint c)) (''/api/v1'' @ ep_path (superadmin_endpoint c)) =
     superadmin_handler_any c"
  by (cases c) (simp_all only: superadmin_endpoint.simps superadmin_ids_any.simps superadmin_handler_any.simps
      superadmin_routed_all)

text \<open>
  C40: every call of the company dashboard, with plain identifiers in its path, is served by
  the handler it means, except two that the admin API has no route for: the bulk deletion of
  employees and the export of one policy.
\<close>

theorem company_calls_routed:
  assumes "list_all plain (company_ids_any c)"
  shows "serve (ep_method (company_endpoint c)) (ep_path (company_endpoint c)) = company_handler_any c \<and>
    (company_handler_any c = None \<longleftrightarrow>
       (\<exists>ids. c = Call_Employee (Employee_Bulk_Delete ids)) \<or> (\<exists>i. c = Call_Policy (Policy_Export_Json i)))"
  by (intro conjI company_routed_any [OF assms] company_unserved)

theorem company_calls_routed_witness:
  "serve PUT ''/api/v1/teams/7f3a/schedule'' = Some ''enfH.PutTeamSchedule'' \<and>
   serve GET ''/api/v1/policies/7f3a/export'' = None"
proof
  have p: "plain ''7f3a''" by code_simp
  show "serve PUT ''/api/v1/teams/7f3a/schedule'' = Some ''enfH.PutTeamSchedule''"
    using company_calls_routed [of "Call_Enforcement (Enforcement_Put_Team_Schedule ''7f3a'' JUndef)"] p by simp
  show "serve GET ''/api/v1/policies/7f3a/export'' = None"
    using company_calls_routed [of "Call_Policy (Policy_Export_Json ''7f3a'')"] p by simp
qed

text \<open>
  every call of the superadmin panel, below its base URL and with plain identifiers, is
  served by the handler it means.
\<close>

theorem superadmin_calls_routed:
  assumes "list_all plain (superadmin_ids_any c)"
  shows "serve (ep_method (superadmin_endpoint c)) (''/api/v1'' @ ep_path (superadmin_endpoint c)) =
      superadmin_handler_any c \<and> superadmin_handler_any c \<noteq> None"
  by (intro conjI superadmin_routed_any [OF assms] superadmin_served_any)

theorem superadmin_calls_routed_witness:
  "serve DELETE ''/api/v1/superadmin/feature-flags/12/orgs/34'' = Some ''flagH.RemoveOrgOverride''"
proof -
  have "plain ''12''" "plain ''34''" by code_simp+
  then show ?thesis
    using superadmin_calls_routed [of "Call_Sa_Feature_Flag (Sa_Feature_Flag_Disable_For_Org ''12'' ''34'')"]
    by simp
qed

text \<open>
  every call of the employee portal, with plain identifiers, is served by the handler it
  means, which is one of the portal's or the access requests'.
\<close>

theorem portal_calls_routed:
  assumes "list_all plain (portal_ids c)"
  shows "case serve (ep_method (portal_api c)) (ep_path (portal_api c)) of
     None \<Rightarrow> False
   | Some h \<Rightarrow> Some h = portal_handler c \<and> (starts_with h ''portalH.'' \<or> starts_with h ''arH.'')"
proof -
  have "case portal_handler c of None \<Rightarrow> False
    | Some h \<Rightarrow> Some h = portal_handler c \<and> (starts_with h ''portalH.'' \<or> starts_with h ''arH.'')"
    by (cases c) simp_all
  then show ?thesis unfolding portal_routed [OF assms] .
qed

theorem portal_calls_routed_witness:
  "serve POST ''/api/v1/portal/notifications/7f3a/read'' = Some ''portalH.MarkNotificationRead''"
proof -
  have "plain ''7f3a''" by code_simp
  then show ?thesis
    using portal_calls_routed [of "Portal_Mark_Notification_Read ''7f3a''"]
    by (simp split: option.splits)
qed

section \<open>Deleting employees\<close>

text \<open>What the employees page calls to delete the chosen employees.\<close>

definition delete_employees :: "string list \<Rightarrow> endpoint" where
  "delete_employees xs =
     employee_api (if length xs = 1 then Employee_Delete (hd xs) else Employee_Bulk_Delete xs)"

text \<open>
  the employees page deletes one employee through the handler for it, but deleting
  several at once reaches no handler: the page posts to \<^verbatim>\<open>/employees/bulk-delete\<close>, where the
  admin API only has \<^verbatim>\<open>DELETE /employees/bulk\<close>.
\<close>

theorem bulk_delete_unrouted:
  assumes "list_all plain xs"
  shows "serve (ep_method (delete_employees xs)) (ep_path (delete_employees xs)) =
      (if length xs = 1 then Some ''empH.Delete'' else None) \<and>
    serve DELETE ''/api/v1/employees/bulk'' = Some ''empH.BulkDelete''"
proof
  show "serve (ep_method (delete_employees xs)) (ep_path (delete_employees xs)) =
      (if length xs = 1 then Some ''empH.Delete'' else None)"
  proof (cases "length xs = 1")
    case True
    then obtain x where "xs = [x]" by (cases xs) auto
    then show ?thesis
      using employee_routed [of "Employee_Delete x"] assms by (simp add: delete_employees_def)
  next
    case False
    then show ?thesis
      using employee_routed [of "Employee_Bulk_Delete xs"] by (simp add: delete_employees_def)
  qed
  show "serve DELETE ''/api/v1/employees/bulk'' = Some ''empH.BulkDelete''"
    by code_simp
qed

theorem bulk_delete_unrouted_witness:
  "serve (ep_method (delete_employees [''12'', ''34''])) (ep_path (delete_employees [''12'', ''34''])) = None"
proof -
  have "list_all plain [''12'', ''34'']" by code_simp
  from bulk_delete_unrouted [OF this] show ?thesis by simp
qed

end
