(* ===== verification/Assistant.thy ===== *)
theory Assistant
  imports Prelude
begin

text \<open>
  The assistant of the company dashboard
  (\<^verbatim>\<open>components/assistant/AssistantWidget.tsx\<close>): the conversation on screen, the send that
  is in flight, and what interleaves with it. A send awaits several promises; each place
  where it waits is a phase, and each thing that can happen meanwhile (an event of the
  stream, a click, a conversation that finishes loading) is an event. The services answer by
  events. \<open>JSON.parse\<close> and \<open>JSON.stringify\<close> of report cards are arguments. The layout, the
  scrolling and the keyboard are not modelled.
\<close>

section \<open>State\<close>

text \<open>A message on screen; its number stands for the key \<open>nid()\<close> makes.\<close>

record msg =
  msg_key :: nat
  msg_role :: string
  content :: string
  streaming :: bool
  status :: jsval
  attachments :: "jsval list option"
  suggestions :: jsval
  failed :: bool

text \<open>One message stored with a conversation, and a turn sent to the model.\<close>

record stored =
  st_role :: string
  st_tool :: string
  st_content :: string

type_synonym turn = "string \<times> string"

text \<open>
  Where a send waits: for the new conversation, for the user's message to be stored, for
  the stream, or for its answer to be stored message by message.
\<close>

datatype phase =
    Creating (ph_text: string)
  | Adding (ph_sid: string)
  | Streaming (ph_session: "string option") (ph_answer: string) (ph_cards: "jsval list")
  | Storing (ph_left: "(string \<times> stored) list")

record widget =
  msgs :: "msg list"
  input :: string
  busy :: bool
  session_id :: "string option"
  history_view :: bool
  controller :: bool
  aborted :: bool
  kept_key :: "string option"
  phase_of :: "phase option"
  asked :: "turn list list"
  posted :: "(string \<times> stored) list"
  next_key :: nat
  crashed :: bool

definition user_message :: "nat \<Rightarrow> string \<Rightarrow> msg" where
  "user_message k t =
     \<lparr>msg_key = k, msg_role = ''user'', content = t, streaming = False, status = JUndef,
      attachments = None, suggestions = JUndef, failed = False\<rparr>"

definition assistant_message :: "nat \<Rightarrow> string \<Rightarrow> msg" where
  "assistant_message k t = (user_message k t)\<lparr>msg_role := ''assistant''\<rparr>"

definition stored_user :: "string \<Rightarrow> stored" where
  "stored_user t = \<lparr>st_role = ''user'', st_tool = [], st_content = t\<rparr>"

definition stored_answer :: "string \<Rightarrow> stored" where
  "stored_answer t = \<lparr>st_role = ''assistant'', st_tool = [], st_content = t\<rparr>"

definition attachment_tool :: string where
  "attachment_tool = ''report_attachment''"

definition stored_card :: "(jsval \<Rightarrow> string) \<Rightarrow> jsval \<Rightarrow> stored" where
  "stored_card stringify c =
     \<lparr>st_role = ''tool'', st_tool = attachment_tool, st_content = stringify c\<rparr>"

section \<open>Changing the last message\<close>

text \<open>
  \<open>patchLast\<close>. With no message it writes to index -1, which no reader of the list sees; a
  change that reads the message throws there, while React renders.
\<close>

definition patch_last :: "(msg \<Rightarrow> msg) \<Rightarrow> widget \<Rightarrow> widget" where
  "patch_last f s =
     (if msgs s = [] then s else s\<lparr>msgs := butlast (msgs s) @ [f (last (msgs s))]\<rparr>)"

definition patch_last_reading :: "(msg \<Rightarrow> msg) \<Rightarrow> widget \<Rightarrow> widget" where
  "patch_last_reading f s = (if msgs s = [] then s\<lparr>crashed := True\<rparr> else patch_last f s)"

section \<open>Sending\<close>

definition history :: "widget \<Rightarrow> turn list" where
  "history s =
     map (\<lambda>m. (msg_role m, content m)) (filter (\<lambda>m. content m \<noteq> [] \<and> \<not> failed m) (msgs s))"

text \<open>
  The click, up to the first wait: \<open>override\<close> is the text of a suggestion, \<open>ready\<close> says that
  the session has a token and an organisation.
\<close>

definition enter_stream :: "string option \<Rightarrow> widget \<Rightarrow> widget" where
  "enter_stream sid s =
     s\<lparr>phase_of := Some (Streaming sid [] []), controller := True, aborted := False\<rparr>"

definition send_click :: "bool \<Rightarrow> string option \<Rightarrow> widget \<Rightarrow> widget" where
  "send_click ready override s =
     (let text = trim (case override of Some t \<Rightarrow> t | None \<Rightarrow> input s)
      in if text = [] \<or> busy s \<or> \<not> ready then s
         else
           (let s1 = s\<lparr>input := [], busy := True,
                       asked := asked s @ [history s @ [(''user'', text)]],
                       msgs := msgs s @ [user_message (next_key s) text,
                          (assistant_message (Suc (next_key s)) [])\<lparr>streaming := True\<rparr>],
                       next_key := Suc (Suc (next_key s))\<rparr>
            in case session_id s of
                 None \<Rightarrow> s1\<lparr>phase_of := Some (Creating text)\<rparr>
               | Some sid \<Rightarrow>
                   (if sid = [] then s1\<lparr>phase_of := Some (Creating text)\<rparr>
                    else s1\<lparr>phase_of := Some (Adding sid), posted := posted s @ [(sid, stored_user text)]\<rparr>)))"

text \<open>
  The new conversation arrived, with an identifier, without one, or it failed: without one
  the answer still comes.
\<close>

definition created :: "exn + string option \<Rightarrow> widget \<Rightarrow> widget" where
  "created r s =
     (case phase_of s of
        Some (Creating text) \<Rightarrow>
          (case r of
             Inl _ \<Rightarrow> enter_stream None s
           | Inr sid \<Rightarrow>
               (case sid of
                  None \<Rightarrow> enter_stream None (s\<lparr>session_id := None\<rparr>)
                | Some i \<Rightarrow>
                    (if i = [] then enter_stream None (s\<lparr>session_id := Some []\<rparr>)
                     else s\<lparr>session_id := Some i, kept_key := Some i, phase_of := Some (Adding i),
                            posted := posted s @ [(i, stored_user text)]\<rparr>)))
      | _ \<Rightarrow> s)"

text \<open>The user's message was stored, or that failed; either way the stream starts.\<close>

definition added :: "widget \<Rightarrow> widget" where
  "added s = (case phase_of s of Some (Adding i) \<Rightarrow> enter_stream (Some i) s | _ \<Rightarrow> s)"

text \<open>The \<open>finally\<close> block.\<close>

definition finish :: "widget \<Rightarrow> widget" where
  "finish s = s\<lparr>phase_of := None, busy := False, controller := False\<rparr>"

definition unreachable_text :: string where
  "unreachable_text =
     ''I couldn'' @ [CHR 0x27] @ ''t reach the assistant just now. Please try again in a moment.''"

definition default_error :: string where
  "default_error = ''The assistant couldn'' @ [CHR 0x27] @ ''t answer right now.''"

definition stream_throws :: "bool \<Rightarrow> widget \<Rightarrow> widget" where
  "stream_throws abort s =
     (case phase_of s of
        Some (Streaming sid answer cards) \<Rightarrow>
          finish
            (if abort
             then patch_last_reading
               (\<lambda>m. m\<lparr>streaming := False, status := JUndef,
                       content := (if content m = [] then ''_Stopped._'' else content m)\<rparr>) s
             else patch_last
               (\<lambda>m. m\<lparr>streaming := False, status := JUndef, failed := True, content := unreachable_text\<rparr>) s)
      | _ \<Rightarrow> s)"

text \<open>
  One value of the stream. Reading the type of null throws, into the handler above; the
  content of an error is a text.
\<close>

definition stream_item :: "jsval \<Rightarrow> widget \<Rightarrow> widget" where
  "stream_item ev s =
     (case phase_of s of
        Some (Streaming sid answer cards) \<Rightarrow>
          (if nullish ev then stream_throws False s
           else
             (let ty = jget ev ''type''; c = jget ev ''content''
              in if ty = JStr ''chunk'' then
                   (let a = answer @ js_to_string (or_nullish c (JStr []))
                    in patch_last (\<lambda>m. m\<lparr>content := a, status := JUndef\<rparr>)
                         (s\<lparr>phase_of := Some (Streaming sid a cards)\<rparr>))
                 else if ty = JStr ''reset'' then
                   patch_last (\<lambda>m. m\<lparr>content := []\<rparr>) (s\<lparr>phase_of := Some (Streaming sid [] cards)\<rparr>)
                 else if ty = JStr ''status'' then patch_last (\<lambda>m. m\<lparr>status := c\<rparr>) s
                 else if ty = JStr ''attachment'' \<and> truthy (jget ev ''report'') then
                   patch_last (\<lambda>m. m\<lparr>attachments := Some (cards @ [jget ev ''report''])\<rparr>)
                     (s\<lparr>phase_of := Some (Streaming sid answer (cards @ [jget ev ''report'']))\<rparr>)
                 else if ty = JStr ''suggestions'' \<and> is_array (jget ev ''items'') then
                   patch_last (\<lambda>m. m\<lparr>suggestions := jget ev ''items''\<rparr>) s
                 else if ty = JStr ''error'' then
                   (let a = js_to_string (or_nullish c (JStr default_error))
                    in patch_last (\<lambda>m. m\<lparr>content := a, failed := True\<rparr>)
                         (s\<lparr>phase_of := Some (Streaming sid a cards)\<rparr>))
                 else s))
      | _ \<Rightarrow> s)"

text \<open>
  The answer is stored message by message; a failure is ignored. With nothing left the send
  is over.
\<close>

definition store_next :: "(string \<times> stored) list \<Rightarrow> widget \<Rightarrow> widget" where
  "store_next left s =
     (case left of
        [] \<Rightarrow> finish s
      | p # ps \<Rightarrow> s\<lparr>posted := posted s @ [p], phase_of := Some (Storing ps)\<rparr>)"

definition stream_done :: "(jsval \<Rightarrow> string) \<Rightarrow> widget \<Rightarrow> widget" where
  "stream_done stringify s =
     (case phase_of s of
        Some (Streaming sid answer cards) \<Rightarrow>
          store_next
            (case sid of
               None \<Rightarrow> []
             | Some i \<Rightarrow>
                 (if answer = [] then [] else [(i, stored_answer answer)]) @
                 map (\<lambda>c. (i, stored_card stringify c)) cards)
            (patch_last (\<lambda>m. m\<lparr>streaming := False, status := JUndef\<rparr>) s)
      | _ \<Rightarrow> s)"

definition stored_one :: "widget \<Rightarrow> widget" where
  "stored_one s = (case phase_of s of Some (Storing left) \<Rightarrow> store_next left s | _ \<Rightarrow> s)"

section \<open>Other conversations\<close>

text \<open>
  The messages of a stored conversation: cards join the reply before them, other tool
  messages and malformed cards are left out.
\<close>

fun load_msgs :: "(string \<Rightarrow> jsval option) \<Rightarrow> nat \<Rightarrow> msg list \<Rightarrow> stored list \<Rightarrow> msg list" where
  "load_msgs parse k out [] = out"
| "load_msgs parse k out (m # ms) =
     (if st_role m = ''tool'' \<and> st_tool m = attachment_tool
      then (case parse (st_content m) of
              None \<Rightarrow> load_msgs parse k out ms
            | Some a \<Rightarrow>
                (if out \<noteq> [] \<and> msg_role (last out) = ''assistant''
                 then load_msgs parse k
                   (butlast out @ [(last out)\<lparr>attachments :=
                      Some ((case attachments (last out) of None \<Rightarrow> [] | Some xs \<Rightarrow> xs) @ [a])\<rparr>]) ms
                 else load_msgs parse (Suc k)
                   (out @ [(assistant_message k [])\<lparr>attachments := Some [a]\<rparr>]) ms))
      else if st_role m = ''user'' \<or> st_role m = ''assistant''
      then load_msgs parse (Suc k) (out @ [(user_message k (st_content m))\<lparr>msg_role := st_role m\<rparr>]) ms
      else load_msgs parse k out ms)"

definition loaded :: "(string \<Rightarrow> jsval option) \<Rightarrow> string \<Rightarrow> stored list \<Rightarrow> widget \<Rightarrow> widget" where
  "loaded parse i ms s =
     s\<lparr>session_id := Some i, msgs := load_msgs parse (next_key s) [] ms,
       next_key := next_key s + length ms, history_view := False, kept_key := Some i\<rparr>"

definition load_failed :: "widget \<Rightarrow> widget" where
  "load_failed s = s\<lparr>kept_key := None\<rparr>"

definition new_chat :: "widget \<Rightarrow> widget" where
  "new_chat s =
     s\<lparr>aborted := (aborted s \<or> controller s), msgs := [], session_id := None, history_view := False,
       input := [], kept_key := None\<rparr>"

definition stop_click :: "widget \<Rightarrow> widget" where
  "stop_click s = s\<lparr>aborted := (aborted s \<or> controller s)\<rparr>"

definition removed :: "string \<Rightarrow> widget \<Rightarrow> widget" where
  "removed i s = (if session_id s = Some i then new_chat s else s)"

section \<open>Events\<close>

datatype event =
    Send_Click bool "string option"
  | Typed string
  | Created "exn + string option"
  | Added
  | Stream_Item jsval
  | Stream_Done
  | Stream_Throws bool
  | Stored_One
  | New_Chat
  | Loaded string "stored list"
  | Load_Failed
  | Stop_Click
  | Removed string

text \<open>After a crash while rendering nothing of the widget is left to change.\<close>

fun step :: "(jsval \<Rightarrow> string) \<Rightarrow> (string \<Rightarrow> jsval option) \<Rightarrow> event \<Rightarrow> widget \<Rightarrow> widget" where
  "step sf pf (Send_Click ready t) s = (if crashed s then s else send_click ready t s)"
| "step sf pf (Typed t) s = (if crashed s then s else s\<lparr>input := t\<rparr>)"
| "step sf pf (Created r) s = (if crashed s then s else created r s)"
| "step sf pf Added s = (if crashed s then s else added s)"
| "step sf pf (Stream_Item ev) s = (if crashed s then s else stream_item ev s)"
| "step sf pf Stream_Done s = (if crashed s then s else stream_done sf s)"
| "step sf pf (Stream_Throws a) s = (if crashed s then s else stream_throws a s)"
| "step sf pf Stored_One s = (if crashed s then s else stored_one s)"
| "step sf pf New_Chat s = (if crashed s then s else new_chat s)"
| "step sf pf (Loaded i ms) s = (if crashed s then s else loaded pf i ms s)"
| "step sf pf Load_Failed s = (if crashed s then s else load_failed s)"
| "step sf pf Stop_Click s = (if crashed s then s else stop_click s)"
| "step sf pf (Removed i) s = (if crashed s then s else removed i s)"

definition run :: "(jsval \<Rightarrow> string) \<Rightarrow> (string \<Rightarrow> jsval option) \<Rightarrow> event list \<Rightarrow> widget \<Rightarrow> widget" where
  "run sf pf es s = foldl (\<lambda>s e. step sf pf e s) s es"

definition fresh_widget :: widget where
  "fresh_widget =
     \<lparr>msgs = [], input = [], busy = False, session_id = None, history_view = False,
      controller = False, aborted = False, kept_key = None, phase_of = None, asked = [], posted = [],
      next_key = 0, crashed = False\<rparr>"

lemma run_Nil [simp]: "run sf pf [] s = s"
  by (simp add: run_def)

lemma run_Cons [simp]: "run sf pf (e # es) s = run sf pf es (step sf pf e s)"
  by (simp add: run_def)

lemma run_append: "run sf pf (es @ es') s = run sf pf es' (run sf pf es s)"
  by (simp add: run_def)

section \<open>A reply, abstractly\<close>

text \<open>What the stream says, without the widget: the text so far, the cards and the rest.\<close>

record reply =
  r_content :: string
  r_cards :: "jsval list"
  r_status :: jsval
  r_suggestions :: jsval
  r_failed :: bool

definition no_reply :: reply where
  "no_reply = \<lparr>r_content = [], r_cards = [], r_status = JUndef, r_suggestions = JUndef, r_failed = False\<rparr>"

definition reply_step :: "reply \<Rightarrow> jsval \<Rightarrow> reply" where
  "reply_step r ev =
     (let ty = jget ev ''type''; c = jget ev ''content''
      in if ty = JStr ''chunk'' then
           r\<lparr>r_content := r_content r @ js_to_string (or_nullish c (JStr [])), r_status := JUndef\<rparr>
         else if ty = JStr ''reset'' then r\<lparr>r_content := []\<rparr>
         else if ty = JStr ''status'' then r\<lparr>r_status := c\<rparr>
         else if ty = JStr ''attachment'' \<and> truthy (jget ev ''report'') then
           r\<lparr>r_cards := r_cards r @ [jget ev ''report'']\<rparr>
         else if ty = JStr ''suggestions'' \<and> is_array (jget ev ''items'') then
           r\<lparr>r_suggestions := jget ev ''items''\<rparr>
         else if ty = JStr ''error'' then
           r\<lparr>r_content := js_to_string (or_nullish c (JStr default_error)), r_failed := True\<rparr>
         else r)"

definition bubble :: "nat \<Rightarrow> reply \<Rightarrow> msg" where
  "bubble k r =
     \<lparr>msg_key = k, msg_role = ''assistant'', content = r_content r, streaming = True, status = r_status r,
      attachments = (if r_cards r = [] then None else Some (r_cards r)),
      suggestions = r_suggestions r, failed = r_failed r\<rparr>"

text \<open>The widget while it shows a reply below earlier messages.\<close>

definition showing :: "widget \<Rightarrow> string option \<Rightarrow> msg list \<Rightarrow> nat \<Rightarrow> reply \<Rightarrow> widget" where
  "showing w sid before k r =
     w\<lparr>msgs := before @ [bubble k r],
       phase_of := Some (Streaming sid (r_content r) (r_cards r))\<rparr>"

lemma stream_item_showing:
  "\<not> nullish ev \<Longrightarrow>
   stream_item ev (showing w sid before k r) = showing w sid before k (reply_step r ev)"
  by (simp add: stream_item_def showing_def patch_last_def bubble_def reply_step_def Let_def
      del: jget.simps)

lemma showing_sel [simp]:
  "crashed (showing w sid before k r) = crashed w" "busy (showing w sid before k r) = busy w"
  "posted (showing w sid before k r) = posted w" "asked (showing w sid before k r) = asked w"
  "session_id (showing w sid before k r) = session_id w"
  by (simp_all add: showing_def)



section \<open>A whole turn\<close>

definition answer_posts :: "(jsval \<Rightarrow> string) \<Rightarrow> string \<Rightarrow> reply \<Rightarrow> (string \<times> stored) list" where
  "answer_posts sf i r =
     (if r_content r = [] then [] else [(i, stored_answer (r_content r))]) @
     map (\<lambda>c. (i, stored_card sf c)) (r_cards r)"

lemma store_all:
  assumes "\<not> crashed s" "phase_of s = Some (Storing ps)"
  shows "run sf pf (replicate (Suc (length ps)) Stored_One) s = finish (s\<lparr>posted := posted s @ ps\<rparr>)"
  using assms
proof (induction ps arbitrary: s)
  case Nil
  then show ?case by (simp add: stored_one_def store_next_def)
next
  case (Cons p ps)
  let ?t = "s\<lparr>posted := posted s @ [p], phase_of := Some (Storing ps)\<rparr>"
  have "step sf pf Stored_One s = ?t"
    using Cons.prems by (simp add: stored_one_def store_next_def)
  then have "run sf pf (replicate (Suc (length (p # ps))) Stored_One) s =
      run sf pf (replicate (Suc (length ps)) Stored_One) ?t" by simp
  also have "\<dots> = finish (?t\<lparr>posted := posted ?t @ ps\<rparr>)"
    using Cons.prems by (intro Cons.IH) simp_all
  finally show ?case by (simp add: finish_def)
qed

lemma store_list:
  assumes "\<not> crashed s"
  shows "run sf pf (replicate (length ps) Stored_One) (store_next ps s) =
    finish (s\<lparr>posted := posted s @ ps\<rparr>)"
proof (cases ps)
  case Nil
  then show ?thesis by (simp add: store_next_def)
next
  case (Cons q qs)
  then show ?thesis
    using store_all [of "s\<lparr>posted := posted s @ [q], phase_of := Some (Storing qs)\<rparr>" qs] assms
    by (simp add: store_next_def finish_def)
qed

definition turn_events :: "(jsval \<Rightarrow> string) \<Rightarrow> string \<Rightarrow> jsval list \<Rightarrow> event list" where
  "turn_events sf t evs =
     Send_Click True (Some t) # Added # map Stream_Item evs @
     Stream_Done # replicate (length (answer_posts sf [] (foldl reply_step no_reply evs))) Stored_One"

lemma stream_done_showing:
  "stream_done sf (showing w (Some i) before k r) =
     store_next (answer_posts sf i r)
       ((showing w (Some i) before k r)
          \<lparr>msgs := before @ [(bubble k r)\<lparr>streaming := False, status := JUndef\<rparr>]\<rparr>)"
  by (simp add: stream_done_def answer_posts_def patch_last_def showing_def)

lemma length_answer_posts: "length (answer_posts sf i r) = length (answer_posts sf j r)"
  by (simp add: answer_posts_def)



section \<open>Loading what was stored\<close>

text \<open>What a reader of a message sees: its role, its text and its cards.\<close>

definition seen :: "msg \<Rightarrow> string \<times> string \<times> jsval list option" where
  "seen m = (msg_role m, content m, attachments m)"

text \<open>A turn of a conversation, what is stored of it and what it shows.\<close>

type_synonym exchange = "string \<times> string \<times> jsval list"

definition stored_exchange :: "(jsval \<Rightarrow> string) \<Rightarrow> exchange \<Rightarrow> stored list" where
  "stored_exchange sf e =
     (case e of (t, a, cs) \<Rightarrow>
        stored_user t # (if a = [] then [] else [stored_answer a]) @ map (stored_card sf) cs)"

definition seen_exchange :: "exchange \<Rightarrow> (string \<times> string \<times> jsval list option) list" where
  "seen_exchange e =
     (case e of (t, a, cs) \<Rightarrow>
        [(''user'', t, None), (''assistant'', a, if cs = [] then None else Some cs)])"

definition readable :: "(jsval \<Rightarrow> string) \<Rightarrow> (string \<Rightarrow> jsval option) \<Rightarrow> exchange \<Rightarrow> bool" where
  "readable sf pf e = (snd e \<noteq> ([], []) \<and> list_all (\<lambda>c. pf (sf c) = Some c) (snd (snd e)))"

lemma load_cards:
  assumes "list_all (\<lambda>c. pf (sf c) = Some c) cs" "msg_role m = ''assistant''"
  shows "load_msgs pf k (out @ [m]) (map (stored_card sf) cs @ rest) =
    load_msgs pf k (out @ [m\<lparr>attachments :=
      (if cs = [] then attachments m
       else Some ((case attachments m of None \<Rightarrow> [] | Some xs \<Rightarrow> xs) @ cs))\<rparr>]) rest"
  using assms
proof (induction cs arbitrary: m)
  case (Cons c cs)
  then show ?case by (simp add: stored_card_def)
qed simp

lemma load_user:
  "load_msgs pf k out (stored_user t # ms) = load_msgs pf (Suc k) (out @ [user_message k t]) ms"
  by (simp add: stored_user_def user_message_def)

lemma load_answer:
  "load_msgs pf k out (stored_answer t # ms) = load_msgs pf (Suc k) (out @ [assistant_message k t]) ms"
  by (simp add: stored_answer_def assistant_message_def user_message_def)

lemma load_first_card:
  "pf (sf c) = Some c \<Longrightarrow>
   load_msgs pf k (out @ [user_message j t]) (stored_card sf c # ms) =
     load_msgs pf (Suc k) ((out @ [user_message j t]) @ [(assistant_message k [])\<lparr>attachments := Some [c]\<rparr>]) ms"
  by (simp add: stored_card_def user_message_def)

lemma load_exchange:
  assumes "readable sf pf e"
  shows "\<exists>k' a b. load_msgs pf k out (stored_exchange sf e @ rest) = load_msgs pf k' (out @ [a, b]) rest \<and>
    [seen a, seen b] = seen_exchange e"
proof -
  obtain t a cs where ee: "e = (t, a, cs)" by (cases e)
  have cards: "list_all (\<lambda>c. pf (sf c) = Some c) cs" using assms by (simp add: readable_def ee)
  let ?u = "user_message k t"
  have u: "seen ?u = (''user'', t, None)" by (simp add: seen_def user_message_def)
  show ?thesis
  proof (cases "a = []")
    case False
    let ?b = "(assistant_message (Suc k) a)\<lparr>attachments := (if cs = [] then None else Some cs)\<rparr>"
    have "load_msgs pf k out (stored_exchange sf e @ rest) =
        load_msgs pf (Suc (Suc k)) ((out @ [?u]) @ [?b]) rest"
      using load_cards [OF cards, of "assistant_message (Suc k) a" "Suc (Suc k)" "out @ [?u]" rest] False
      by (simp add: ee stored_exchange_def load_user load_answer assistant_message_def user_message_def
          del: load_msgs.simps cong: if_cong)
    moreover have "seen ?b = (''assistant'', a, if cs = [] then None else Some cs)"
      by (simp add: seen_def assistant_message_def user_message_def)
    ultimately show ?thesis using u
      by (intro exI [of _ "Suc (Suc k)"] exI [of _ ?u] exI [of _ ?b]) (simp add: ee seen_exchange_def)
  next
    case True
    then obtain c cs' where cs: "cs = c # cs'" using assms by (cases cs) (auto simp: readable_def ee)
    let ?b = "(assistant_message (Suc k) [])\<lparr>attachments := Some cs\<rparr>"
    have "load_msgs pf k out (stored_exchange sf e @ rest) =
        load_msgs pf (Suc (Suc k)) ((out @ [?u]) @ [?b]) rest"
      using cards True load_first_card [of pf sf c "Suc k" out k t "map (stored_card sf) cs' @ rest"]
        load_cards [of pf sf cs' "(assistant_message (Suc k) [])\<lparr>attachments := Some [c]\<rparr>" "Suc (Suc k)" "out @ [?u]" rest]
      by (simp add: ee cs stored_exchange_def load_user assistant_message_def user_message_def
          del: load_msgs.simps)
    moreover have "seen ?b = (''assistant'', a, if cs = [] then None else Some cs)"
      by (simp add: seen_def assistant_message_def user_message_def True cs)
    ultimately show ?thesis using u
      by (intro exI [of _ "Suc (Suc k)"] exI [of _ ?u] exI [of _ ?b]) (simp add: ee seen_exchange_def)
  qed
qed

text \<open>
  opening a stored conversation shows what was on screen when its turns ended: the same
  roles, texts and cards, in the same order, for any number of turns in which the assistant
  said or attached something and whose cards can be parsed again.
\<close>

theorem conversation_roundtrip:
  assumes "list_all (readable sf pf) es"
  shows "map seen (load_msgs pf k [] (concat (map (stored_exchange sf) es))) =
    concat (map seen_exchange es)"
proof -
  have "map seen (load_msgs pf k out (concat (map (stored_exchange sf) es))) =
      map seen out @ concat (map seen_exchange es)" for k out
    using assms
  proof (induction es arbitrary: k out)
    case (Cons e es)
    then obtain k' a b where
      l: "load_msgs pf k out (stored_exchange sf e @ concat (map (stored_exchange sf) es)) =
        load_msgs pf k' (out @ [a, b]) (concat (map (stored_exchange sf) es))"
      and ab: "[seen a, seen b] = seen_exchange e"
      using load_exchange [of sf pf e k out] by fastforce
    show ?case using Cons.IH [of k' "out @ [a, b]"] Cons.prems by (simp add: l ab [symmetric])
  qed simp
  then show ?thesis by simp
qed

theorem conversation_roundtrip_witness:
  "map seen (load_msgs (\<lambda>_. Some (JNum 7)) 0 []
     (concat (map (stored_exchange (\<lambda>_. ''7'')) [(''q'', ''a'', [JNum 7]), (''r'', [], [JNum 7])]))) =
   [(''user'', ''q'', None), (''assistant'', ''a'', Some [JNum 7]),
    (''user'', ''r'', None), (''assistant'', [], Some [JNum 7])]"
  by (subst conversation_roundtrip) (simp_all add: readable_def seen_exchange_def)

section \<open>What interrupts a send\<close>

text \<open>The events that change the conversation on screen, and runs that keep them for later.\<close>

fun interrupts :: "event \<Rightarrow> bool" where
  "interrupts New_Chat = True"
| "interrupts (Loaded _ _) = True"
| "interrupts (Removed _) = True"
| "interrupts _ = False"

fun quiet :: "(jsval \<Rightarrow> string) \<Rightarrow> (string \<Rightarrow> jsval option) \<Rightarrow> widget \<Rightarrow> event list \<Rightarrow> bool" where
  "quiet sf pf s [] = True"
| "quiet sf pf s (e # es) = (\<not> (busy s \<and> interrupts e) \<and> quiet sf pf (step sf pf e s) es)"

definition still :: "msg list \<Rightarrow> bool" where
  "still ms = list_all (\<lambda>m. \<not> streaming m) ms"

text \<open>
  While a send is in flight the last message is the assistant's and the only one streaming;
  afterwards none is.
\<close>

definition one_streaming :: "widget \<Rightarrow> bool" where
  "one_streaming s =
     (\<not> crashed s \<and> busy s = (phase_of s \<noteq> None) \<and>
      (case phase_of s of
         None \<Rightarrow> still (msgs s)
       | Some (Storing _) \<Rightarrow> still (msgs s)
       | Some _ \<Rightarrow> msgs s \<noteq> [] \<and> still (butlast (msgs s)) \<and> streaming (last (msgs s)) \<and>
           msg_role (last (msgs s)) = ''assistant''))"

lemma still_simps [simp]:
  "still []" "still (m # ms) = (\<not> streaming m \<and> still ms)" "still (ms @ ns) = (still ms \<and> still ns)"
  by (simp_all add: still_def)

lemma load_msgs_still: "still out \<Longrightarrow> still (load_msgs pf k out ms)"
proof (induction pf k out ms rule: load_msgs.induct)
  case (2 pf k out m ms)
  have "still (butlast out)" "out \<noteq> [] \<Longrightarrow> \<not> streaming (last out)"
    using "2.prems" by (auto simp: still_def list_all_iff in_set_butlastD)
  then show ?case using 2 by (auto simp: assistant_message_def user_message_def split: option.split)
qed simp

lemma one_streaming_send:
  "one_streaming s \<Longrightarrow> one_streaming (send_click ready t s)"
  by (auto simp: one_streaming_def send_click_def Let_def butlast_append assistant_message_def
      user_message_def split: option.splits phase.splits)

lemma one_streaming_created: "one_streaming s \<Longrightarrow> one_streaming (created r s)"
  by (auto simp: one_streaming_def created_def enter_stream_def
      split: option.splits phase.splits sum.splits)

lemma one_streaming_added: "one_streaming s \<Longrightarrow> one_streaming (added s)"
  by (auto simp: one_streaming_def added_def enter_stream_def split: option.splits phase.splits)

lemma one_streaming_throws: "one_streaming s \<Longrightarrow> one_streaming (stream_throws a s)"
  by (auto simp: one_streaming_def stream_throws_def finish_def patch_last_def patch_last_reading_def
      split: option.splits phase.splits)

lemma one_streaming_stored: "one_streaming s \<Longrightarrow> one_streaming (stored_one s)"
  by (auto simp: one_streaming_def stored_one_def store_next_def finish_def
      split: option.splits phase.splits list.splits)

lemma one_streaming_done: "one_streaming s \<Longrightarrow> one_streaming (stream_done sf s)"
  by (auto simp: one_streaming_def stream_done_def store_next_def finish_def patch_last_def
      split: option.splits phase.splits list.splits if_splits)

lemma patch_one_streaming:
  assumes "one_streaming s" "phase_of s = Some (Streaming sid a cs)"
    "\<And>m. streaming (f m) = streaming m" "\<And>m. msg_role (f m) = msg_role m"
  shows "one_streaming (patch_last f (s\<lparr>phase_of := Some (Streaming sid b ds)\<rparr>))"
  using assms by (auto simp: one_streaming_def patch_last_def)

lemma one_streaming_item: "one_streaming s \<Longrightarrow> one_streaming (stream_item ev s)"
proof (cases "phase_of s")
  case (Some p)
  assume s: "one_streaming s"
  show ?thesis
  proof (cases p)
    case (Streaming sid a cs)
    have p: "phase_of s = Some (Streaming sid a cs)" using Some Streaming by simp
    have same: "s\<lparr>phase_of := Some (Streaming sid a cs)\<rparr> = s" using p by simp
    note patch = patch_one_streaming [OF s p] patch_one_streaming [OF s p, where b = a and ds = cs, unfolded same]
    show ?thesis using s one_streaming_throws [OF s, of False]
      by (simp add: stream_item_def p Let_def patch del: jget.simps)
  qed (use s Some in \<open>simp_all add: stream_item_def\<close>)
qed (simp add: stream_item_def)

lemma one_streaming_frame:
  "one_streaming (s\<lparr>input := t\<rparr>) = one_streaming s" "one_streaming (load_failed s) = one_streaming s"
  "one_streaming (stop_click s) = one_streaming s"
  by (simp_all add: one_streaming_def load_failed_def stop_click_def cong: option.case_cong phase.case_cong)

lemma one_streaming_step:
  assumes "one_streaming s" "\<not> (busy s \<and> interrupts e)"
  shows "one_streaming (step sf pf e s)"
proof (cases e)
  case (Loaded i ms)
  then show ?thesis using assms load_msgs_still [of "[]" pf "next_key s" ms]
    by (auto simp: one_streaming_def loaded_def split: option.splits)
next
  case (Removed i)
  then show ?thesis using assms
    by (auto simp: one_streaming_def removed_def new_chat_def split: option.splits)
next
  case New_Chat
  then show ?thesis using assms by (auto simp: one_streaming_def new_chat_def split: option.splits)
qed (use assms in \<open>simp_all add: one_streaming_send one_streaming_created one_streaming_added
  one_streaming_item one_streaming_done one_streaming_throws one_streaming_stored
  one_streaming_frame\<close>)

text \<open>
  the widget is consistent in every run in which the conversation is not changed during
  a send, whatever the stream, the stop button and the services do: it does not crash, the
  composer is busy exactly while a send is in flight, and at most the last message is
  streaming, and only while its stream is open.
\<close>

theorem quiet_runs_consistent:
  assumes "quiet sf pf fresh_widget es"
  shows "one_streaming (run sf pf es fresh_widget)"
proof -
  have "one_streaming s \<Longrightarrow> quiet sf pf s es \<Longrightarrow> one_streaming (run sf pf es s)" for s
  proof (induction es arbitrary: s)
    case (Cons e es)
    then show ?case using one_streaming_step [of s e sf pf] by simp
  qed simp
  moreover have "one_streaming fresh_widget" by (simp add: one_streaming_def fresh_widget_def)
  ultimately show ?thesis using assms by blast
qed

theorem quiet_runs_consistent_witness:
  "one_streaming (run (\<lambda>_. []) (\<lambda>_. None)
     [Send_Click True (Some ''hi''), Created (Inr (Some ''c1'')), Added, Stop_Click, Stream_Throws True, New_Chat]
     fresh_widget)"
proof (rule quiet_runs_consistent)
  show "quiet (\<lambda>_. []) (\<lambda>_. None) fresh_widget
     [Send_Click True (Some ''hi''), Created (Inr (Some ''c1'')), Added, Stop_Click, Stream_Throws True, New_Chat]"
    by code_simp
qed

text \<open>
  the "new chat" button during a stream crashes the widget: it empties the list and
  aborts the stream, and the handler of the abort then reads the last message of the empty
  list while React renders. Deleting the open conversation does the same.
\<close>

theorem new_chat_during_stream_crashes:
  assumes "phase_of s = Some (Streaming sid a cs)" "\<not> crashed s"
  shows "crashed (run sf pf [New_Chat, Stream_Throws True] s) \<and>
    crashed (run sf pf [Removed i, Stream_Throws True] (s\<lparr>session_id := Some i\<rparr>))"
  using assms
  by (simp add: new_chat_def removed_def stream_throws_def patch_last_reading_def finish_def)

theorem new_chat_during_stream_crashes_witness:
  "crashed (run (\<lambda>_. []) (\<lambda>_. None)
     [Send_Click True (Some ''hi''), Created (Inr (Some ''c1'')), Added, New_Chat, Stream_Throws True]
     fresh_widget)"
proof -
  let ?s = "run (\<lambda>_. []) (\<lambda>_. None) [Send_Click True (Some ''hi''), Created (Inr (Some ''c1'')), Added] fresh_widget"
  have "phase_of ?s = Some (Streaming (Some ''c1'') [] [])" "\<not> crashed ?s" by code_simp+
  from new_chat_during_stream_crashes [OF this, of "\<lambda>_. []" "\<lambda>_. None" "[]"] show ?thesis
    by (simp add: run_append [symmetric] del: run_Cons)
qed

text \<open>
  opening another conversation does not stop the stream: the answer goes on into the
  last message of the conversation now on screen, in place of what was said there, while it
  is stored with the first one.
\<close>

theorem answer_lands_in_other_conversation:
  "let out = run (\<lambda>_. []) (\<lambda>_. None)
     [Send_Click True (Some ''one''), Created (Inr (Some ''c1'')), Added,
      Loaded ''c2'' [stored_user ''two'', stored_answer ''old''],
      Stream_Item (JObj [(''type'', JStr ''chunk''), (''content'', JStr ''new'')]), Stream_Done, Stored_One]
     fresh_widget
   in session_id out = Some ''c2'' \<and> map content (msgs out) = [''two'', ''new''] \<and>
      posted out = [(''c1'', stored_user ''one''), (''c1'', stored_answer ''new'')]"
  by code_simp

end
