(* ===== verification/Typewriter.thy ===== *)
theory Typewriter
  imports Prelude
begin

text \<open>
  The typing effect of the assistant's replies
  (\<^verbatim>\<open>components/assistant/useTypewriter.ts\<close>): the text reached so far, the text React shows,
  and what one animation frame does to them while the target may still grow.
\<close>

record typewriter =
  reached :: string
  shown :: string

definition start_typing :: "bool \<Rightarrow> string \<Rightarrow> typewriter" where
  "start_typing active target =
     (let t = (if active then [] else target) in \<lparr>reached = t, shown = t\<rparr>)"

text \<open>The effect that runs when nothing is being typed, or the reader asked for less motion.\<close>

definition show_all :: "string \<Rightarrow> typewriter \<Rightarrow> typewriter" where
  "show_all target s = s\<lparr>reached := target, shown := target\<rparr>"

text \<open>\<open>Math.max(1, Math.ceil(backlog / 18))\<close>\<close>

definition stride :: "nat \<Rightarrow> nat" where
  "stride backlog = max 1 ((backlog + 17) div 18)"

definition tick :: "string \<Rightarrow> typewriter \<Rightarrow> typewriter" where
  "tick t s =
     (let cur = reached s
      in if \<not> starts_with t cur then s\<lparr>reached := []\<rparr>
         else if length cur < length t
         then (let r = take (length cur + stride (length t - length cur)) t
               in s\<lparr>reached := r, shown := r\<rparr>)
         else s)"

text \<open>Frames during which the targets were \<open>ts\<close>.\<close>

definition frames :: "string list \<Rightarrow> typewriter \<Rightarrow> typewriter" where
  "frames ts s = foldl (\<lambda>s t. tick t s) s ts"

lemma frames_simps [simp]:
  "frames [] s = s" "frames (t # ts) s = frames ts (tick t s)"
  "frames (ts @ us) s = frames us (frames ts s)"
  by (simp_all add: frames_def)

section \<open>How fast it types\<close>

definition backlog :: "string \<Rightarrow> typewriter \<Rightarrow> nat" where
  "backlog t s = length t - length (reached s)"

lemma stride_bounds: "1 \<le> stride b" "b \<le> 18 * stride b"
  by (simp_all add: stride_def)

lemma tick_behind:
  assumes "starts_with t (reached s)" "length (reached s) < length t"
  shows "reached (tick t s) = take (length (reached s) + stride (backlog t s)) t \<and>
    shown (tick t s) = reached (tick t s)"
  using assms by (simp add: tick_def backlog_def Let_def)

lemma starts_with_length: "starts_with t r \<Longrightarrow> length r \<le> length t"
  by (metis starts_with_iff length_append le_add1)

lemma tick_starts:
  "starts_with t (reached s) \<Longrightarrow> starts_with t (reached (tick t s))"
  by (auto simp: tick_def Let_def starts_with_def min_def)

lemma tick_backlog:
  assumes "starts_with t (reached s)"
  shows "18 * backlog t (tick t s) \<le> 17 * backlog t s"
proof (cases "length (reached s) < length t")
  case True
  have "length (reached (tick t s)) = min (length t) (length (reached s) + stride (backlog t s))"
    using tick_behind [OF assms True] by simp
  then have "backlog t (tick t s) = backlog t s - stride (backlog t s)"
    using True by (simp add: backlog_def)
  then show ?thesis using stride_bounds(2) [of "backlog t s"] by simp
next
  case False
  then show ?thesis using assms by (simp add: tick_def backlog_def Let_def)
qed

text \<open>
  the typing never lags for long: whatever it has reached of the target, each frame
  types at least an eighteenth of what is missing, so after \<open>n\<close> frames at most
  \<open>(17/18)^n\<close> of it is.
\<close>

theorem typing_keeps_up:
  assumes "starts_with t (reached s)"
  shows "18 ^ n * backlog t (frames (replicate n t) s) \<le> 17 ^ n * backlog t s"
  using assms
proof (induction n arbitrary: s)
  case (Suc n)
  have "18 ^ n * backlog t (frames (replicate n t) (tick t s)) \<le> 17 ^ n * backlog t (tick t s)"
    using Suc tick_starts by blast
  then have "18 ^ Suc n * backlog t (frames (replicate (Suc n) t) s) \<le> 17 ^ n * (18 * backlog t (tick t s))"
    by simp
  also have "\<dots> \<le> 17 ^ n * (17 * backlog t s)"
    using tick_backlog [OF Suc.prems] by (intro mult_le_mono2)
  finally show ?case by (simp add: ac_simps)
qed simp

theorem typing_keeps_up_witness:
  "18 ^ 2 * backlog (replicate 36 (CHR ''a'')) (frames (replicate 2 (replicate 36 (CHR ''a''))) (start_typing True [])) \<le>
     17 ^ 2 * 36"
  using typing_keeps_up [of "replicate 36 (CHR ''a'')" "start_typing True []" 2]
  by (simp add: start_typing_def backlog_def)

section \<open>It finishes\<close>

definition in_step :: "typewriter \<Rightarrow> bool" where
  "in_step s = (if reached s = [] then True else shown s = reached s)"

lemma tick_in_step: "in_step s \<Longrightarrow> in_step (tick t s)"
  by (auto simp: in_step_def tick_def Let_def split: if_splits)

lemma frames_in_step: "in_step s \<Longrightarrow> in_step (frames ts s)"
  by (induction ts arbitrary: s) (simp_all add: tick_in_step)

lemma tick_progress:
  assumes "starts_with t (reached s)"
  shows "backlog t (tick t s) \<le> backlog t s - 1"
  using tick_backlog [OF assms] by linarith

lemma frames_finish:
  assumes "starts_with t (reached s)" "backlog t s \<le> n"
  shows "reached (frames (replicate n t) s) = t"
  using assms
proof (induction n arbitrary: s)
  case 0
  then have "length t \<le> length (reached s)" by (simp add: backlog_def)
  then show ?case using 0(1) by (auto simp: starts_with_def)
next
  case (Suc n)
  have "reached (frames (replicate n t) (tick t s)) = t"
    using Suc.prems tick_starts tick_progress [OF Suc.prems(1)] by (intro Suc.IH) auto
  then show ?case by simp
qed

lemma tick_restarts: "\<not> starts_with t (reached s) \<Longrightarrow> reached (tick t s) = []"
  by (simp add: tick_def Let_def)

text \<open>
  C38: the typing finishes: whatever the stream said before and however often it started
  over, once the text stays the same the reader sees all of it after at most as many frames
  as it has characters and one more. (For an empty text what was shown before stays.)
\<close>

theorem typing_finishes:
  assumes "t \<noteq> []"
  shows "shown (frames (before @ replicate (Suc (length t)) t) (start_typing True target)) = t"
proof -
  let ?s = "frames before (start_typing True target)"
  let ?last = "frames (replicate (Suc (length t)) t) ?s"
  have ok: "in_step ?last"
    by (intro frames_in_step) (simp add: in_step_def start_typing_def)
  have "reached ?last = t"
  proof (cases "starts_with t (reached ?s)")
    case True
    then show ?thesis by (intro frames_finish) (simp_all add: backlog_def)
  next
    case False
    have "reached (frames (replicate (length t) t) (tick t ?s)) = t"
      using tick_restarts [OF False] by (intro frames_finish) (simp_all add: backlog_def)
    then show ?thesis by simp
  qed
  then show ?thesis using ok assms by (simp add: in_step_def)
qed

theorem typing_finishes_witness:
  "shown (frames ([''Look''] @ replicate (Suc (length ''Four laptops'')) ''Four laptops'')
     (start_typing True ''Look'')) = ''Four laptops''"
  by (rule typing_finishes) simp

end
