(* ===== verification/Data_Residency.thy ===== *)
theory Data_Residency
  imports Prelude
begin

text \<open>
  Settings, data residency
  (\<^verbatim>\<open>components/settings/data-residency/catalog.ts\<close> and \<^verbatim>\<open>DataResidencyPanel.tsx\<close>): what can be
  connected and what each connection asks for, the form that connects a database or a file
  store, the typed confirmations, the switch and the move of earlier history. The texts that
  only explain (placeholders, help, permissions, snippets) and the toasts are not modelled.
\<close>

section \<open>The catalog\<close>

datatype field_type = Text | Password | Number | Select "string list" | Checkbox

record field_def =
  f_key :: string
  f_label :: string
  f_type :: field_type
  f_optional :: bool
  f_secret :: bool
  f_half :: bool

definition text_field :: "string \<Rightarrow> string \<Rightarrow> field_def" where
  "text_field k l =
     \<lparr>f_key = k, f_label = l, f_type = Text, f_optional = False, f_secret = False, f_half = False\<rparr>"

definition secret_field :: "string \<Rightarrow> string \<Rightarrow> field_def" where
  "secret_field k l = (text_field k l)\<lparr>f_type := Password, f_secret := True\<rparr>"

definition half_field :: "field_def \<Rightarrow> field_def" where
  "half_field f = f\<lparr>f_half := True\<rparr>"

definition optional_field :: "field_def \<Rightarrow> field_def" where
  "optional_field f = f\<lparr>f_optional := True\<rparr>"

record provider =
  p_id :: string
  p_name :: string
  p_tagline :: string
  p_mark :: string
  p_fields :: "field_def list"
  p_defaults :: "(string \<times> jsval) list"

definition tls_field :: field_def where
  "tls_field =
     (text_field ''tls'' ''Encryption in transit'')\<lparr>f_type := Select [''verify-full'', ''require'', ''disable'']\<rparr>"

definition sql_fields :: "field_def list" where
  "sql_fields =
     [text_field ''host'' ''Host'',
      half_field ((text_field ''port'' ''Port'')\<lparr>f_type := Number\<rparr>),
      half_field (text_field ''database'' ''Database''),
      half_field (text_field ''username'' ''Username''),
      half_field (secret_field ''password'' ''Password'')]"

definition postgres :: provider where
  "postgres =
     \<lparr>p_id = ''postgres'', p_name = ''PostgreSQL'',
      p_tagline = ''Also Amazon RDS / Aurora, Azure, Cloud SQL, Supabase, Neon'', p_mark = ''Pg'',
      p_fields = sql_fields @ [optional_field (text_field ''schema'' ''Schema''), tls_field],
      p_defaults = [(''port'', JNum 5432), (''schema'', JStr ''public''), (''tls'', JStr ''verify-full'')]\<rparr>"

definition mysql :: provider where
  "mysql =
     \<lparr>p_id = ''mysql'', p_name = ''MySQL'',
      p_tagline = ''Also Amazon RDS / Aurora MySQL, Azure, Cloud SQL, PlanetScale'', p_mark = ''My'',
      p_fields = sql_fields @ [tls_field],
      p_defaults = [(''port'', JNum 3306), (''tls'', JStr ''verify-full'')]\<rparr>"

definition mariadb :: provider where
  "mariadb =
     \<lparr>p_id = ''mariadb'', p_name = ''MariaDB'', p_tagline = ''Version 10.5 or later'', p_mark = ''Ma'',
      p_fields = sql_fields @ [tls_field],
      p_defaults = [(''port'', JNum 3306), (''tls'', JStr ''verify-full'')]\<rparr>"

definition sqlserver :: provider where
  "sqlserver =
     \<lparr>p_id = ''sqlserver'', p_name = ''Microsoft SQL Server'',
      p_tagline = ''SQL Server 2016+ and Azure SQL Database'', p_mark = ''MS'',
      p_fields = sql_fields @ [tls_field],
      p_defaults = [(''port'', JNum 1433), (''tls'', JStr ''verify-full'')]\<rparr>"

definition mongodb :: provider where
  "mongodb =
     \<lparr>p_id = ''mongodb'', p_name = ''MongoDB'',
      p_tagline = ''Also MongoDB Atlas, Amazon DocumentDB, Azure Cosmos DB (MongoDB API)'', p_mark = ''Mg'',
      p_fields =
        [(text_field ''uri'' ''Connection string'')\<lparr>f_secret := True\<rparr>,
         text_field ''database'' ''Database'',
         half_field (optional_field (text_field ''host'' ''Host'')),
         half_field (optional_field ((text_field ''port'' ''Port'')\<lparr>f_type := Number\<rparr>)),
         half_field (optional_field (text_field ''username'' ''Username'')),
         half_field (optional_field (secret_field ''password'' ''Password'')),
         tls_field],
      p_defaults = [(''port'', JNum 27017), (''tls'', JStr ''verify-full'')]\<rparr>"

definition databases :: "provider list" where
  "databases = [postgres, mysql, mariadb, sqlserver, mongodb]"

definition s3_fields :: "field_def list \<Rightarrow> field_def list" where
  "s3_fields extra =
     text_field ''bucket'' ''Bucket'' # extra @
     [half_field (text_field ''access_key_id'' ''Access key ID''),
      half_field (secret_field ''secret_access_key'' ''Secret access key''),
      optional_field (text_field ''prefix'' ''Folder (optional)'')]"

definition amazon_s3 :: provider where
  "amazon_s3 =
     \<lparr>p_id = ''s3'', p_name = ''Amazon S3'', p_tagline = ''Any AWS region'', p_mark = ''S3'',
      p_fields = s3_fields [half_field (text_field ''region'' ''Region'')], p_defaults = []\<rparr>"

definition cloudflare_r2 :: provider where
  "cloudflare_r2 =
     \<lparr>p_id = ''r2'', p_name = ''Cloudflare R2'', p_tagline = ''No egress fees'', p_mark = ''R2'',
      p_fields = s3_fields [text_field ''account_id'' ''Account ID''], p_defaults = []\<rparr>"

definition google_gcs :: provider where
  "google_gcs =
     \<lparr>p_id = ''gcs'', p_name = ''Google Cloud Storage'',
      p_tagline = ''Through HMAC interoperability keys'', p_mark = ''GC'',
      p_fields = s3_fields [], p_defaults = []\<rparr>"

definition azure_blob :: provider where
  "azure_blob =
     \<lparr>p_id = ''azure_blob'', p_name = ''Azure Blob Storage'',
      p_tagline = ''Storage account + container'', p_mark = ''Az'',
      p_fields =
        [half_field (text_field ''account_name'' ''Storage account''),
         half_field (text_field ''container'' ''Container''),
         secret_field ''account_key'' ''Access key'',
         optional_field (text_field ''endpoint'' ''Blob endpoint (optional)''),
         optional_field (text_field ''prefix'' ''Folder (optional)'')],
      p_defaults = []\<rparr>"

definition s3_compatible :: provider where
  "s3_compatible =
     \<lparr>p_id = ''s3_compatible'', p_name = ''S3-compatible'',
      p_tagline = ''MinIO, Wasabi, Backblaze B2, DigitalOcean Spaces, on-premises'', p_mark = ''S3+'',
      p_fields = s3_fields
        [text_field ''endpoint'' ''Endpoint URL'',
         half_field (optional_field (text_field ''region'' ''Region'')),
         (text_field ''path_style'' ''Path-style addressing (needed by MinIO and most on-premises servers)'')
           \<lparr>f_type := Checkbox\<rparr>],
      p_defaults = [(''path_style'', JBool True), (''region'', JStr ''us-east-1'')]\<rparr>"

definition file_stores :: "provider list" where
  "file_stores = [amazon_s3, cloudflare_r2, google_gcs, azure_blob, s3_compatible]"

definition find_provider :: "provider list \<Rightarrow> string \<Rightarrow> provider option" where
  "find_provider ps i = (case filter (\<lambda>p. p_id p = i) ps of [] \<Rightarrow> None | p # _ \<Rightarrow> Some p)"

definition provider_name :: "provider list \<Rightarrow> string \<Rightarrow> string" where
  "provider_name ps i = (case find_provider ps i of None \<Rightarrow> i | Some p \<Rightarrow> p_name p)"

section \<open>Values of the form\<close>

type_synonym form_values = "(string \<times> jsval) list"

text \<open>The values a form starts from: the defaults, over them what is saved when editing it.\<close>

definition start_values :: "provider \<Rightarrow> bool \<Rightarrow> jsval \<Rightarrow> form_values" where
  "start_values p edits_saved summary =
     (if edits_saved then obj_spread (p_defaults p) summary else p_defaults p)"

definition field_value :: "field_def \<Rightarrow> form_values \<Rightarrow> jsval" where
  "field_value f vs =
     (let v0 = jget (JObj vs) (f_key f);
          v1 = (if f_type f = Number
                then (if v0 = JStr [] \<or> v0 = JUndef then JNum 0
                      else case js_to_number v0 of None \<Rightarrow> JNaN | Some n \<Rightarrow> JNum n)
                else v0);
          v2 = (if f_type f = Checkbox then JBool (truthy v1) else v1)
      in case v2 of JStr s \<Rightarrow> JStr (trim s) | _ \<Rightarrow> v2)"

text \<open>\<open>payload()\<close>: the provider and its fields, those without a value left out.\<close>

definition add_field :: "form_values \<Rightarrow> (string \<times> jsval) list \<Rightarrow> field_def \<Rightarrow> (string \<times> jsval) list" where
  "add_field vs out f =
     (let v = field_value f vs in if v = JUndef then out else obj_put out (f_key f) v)"

definition payload :: "provider list \<Rightarrow> string \<Rightarrow> form_values \<Rightarrow> (string \<times> jsval) list" where
  "payload ps i vs =
     foldl (add_field vs) [(''provider'', JStr i)]
       (case find_provider ps i of None \<Rightarrow> [] | Some p \<Rightarrow> p_fields p)"

section \<open>Typed confirmation\<close>

record dialog =
  d_open :: bool
  d_typed :: string

datatype dialog_event = Ask | Dismiss | Type_Word string

text \<open>The text is cleared each time the dialog opens.\<close>

fun dialog_step :: "dialog_event \<Rightarrow> dialog \<Rightarrow> dialog" where
  "dialog_step Ask d = (if d_open d then d else \<lparr>d_open = True, d_typed = []\<rparr>)"
| "dialog_step Dismiss d = d\<lparr>d_open := False\<rparr>"
| "dialog_step (Type_Word t) d = (if d_open d then d\<lparr>d_typed := t\<rparr> else d)"

definition confirmable :: "string \<Rightarrow> bool \<Rightarrow> dialog \<Rightarrow> bool" where
  "confirmable word pending d = (d_open d \<and> d_typed d = word \<and> \<not> pending)"

definition closed_dialog :: dialog where
  "closed_dialog = \<lparr>d_open = False, d_typed = []\<rparr>"

section \<open>One connector\<close>

text \<open>What the API says is saved.\<close>

record saved =
  s_provider :: string
  s_summary :: jsval
  s_status :: string

definition connected :: "saved \<Rightarrow> bool" where
  "connected c = (s_provider c \<noteq> [] \<and> s_status c \<noteq> ''not_configured'')"

datatype mutation = Testing "(string \<times> jsval) list" | Saving "(string \<times> jsval) list"

record connector =
  c_saved :: saved
  c_editing :: bool
  c_provider :: string
  c_other :: bool
  c_values :: form_values
  c_errors :: "(string \<times> jsval) list"
  c_check :: jsval
  c_dialog :: dialog
  c_pending :: "mutation option"
  c_disconnecting :: bool

definition open_connector :: "saved \<Rightarrow> connector" where
  "open_connector c =
     \<lparr>c_saved = c, c_editing = (\<not> connected c), c_provider = s_provider c, c_other = False,
      c_values = [], c_errors = [], c_check = JNull, c_dialog = closed_dialog, c_pending = None,
      c_disconnecting = False\<rparr>"

text \<open>New data from the API; the form opens when nothing is connected.\<close>

definition refreshed :: "saved \<Rightarrow> connector \<Rightarrow> connector" where
  "refreshed c s =
     s\<lparr>c_saved := c,
       c_editing := (c_editing s \<or> connected (c_saved s) \<noteq> connected c \<and> \<not> connected c)\<rparr>"

text \<open>
  Choosing a provider; for one the catalog does not know the handler throws after the first
  changes.
\<close>

definition choose_provider :: "provider list \<Rightarrow> string \<Rightarrow> connector \<Rightarrow> connector" where
  "choose_provider ps i s =
     (case find_provider ps i of
        None \<Rightarrow> s\<lparr>c_other := False, c_provider := i, c_check := JNull, c_errors := []\<rparr>
      | Some p \<Rightarrow>
          s\<lparr>c_other := False, c_provider := i, c_check := JNull, c_errors := [],
            c_values := start_values p (i = s_provider (c_saved s)) (s_summary (c_saved s))\<rparr>)"

definition handle_error :: "exn \<Rightarrow> connector \<Rightarrow> connector" where
  "handle_error e s =
     (let d = response_data e;
          s1 = (if truthy (jget d ''fields'') then s\<lparr>c_errors := own_entries (jget d ''fields'')\<rparr> else s)
      in if truthy (jget d ''check'') then s1\<lparr>c_check := jget d ''check''\<rparr> else s1)"

definition form_shown :: "provider list \<Rightarrow> connector \<Rightarrow> bool" where
  "form_shown ps s = (c_editing s \<and> \<not> c_other s \<and> find_provider ps (c_provider s) \<noteq> None)"

datatype connector_event =
    Choose string
  | Pick_Other
  | Change string jsval
  | Test_Click
  | Test_Answer "exn + jsval"
  | Save_Click
  | Save_Answer "exn + jsval \<times> saved"
  | Cancel_Edit
  | Edit_Click
  | Dialog dialog_event
  | Confirm_Disconnect
  | Disconnect_Answer "exn + saved"
  | Refetched saved

text \<open>
  For a user who may change settings. A button that is not shown or is disabled does
  nothing; the choice of a provider is not disabled while a test or a save is under way.
\<close>

fun connector_step :: "provider list \<Rightarrow> connector_event \<Rightarrow> connector \<Rightarrow> connector" where
  "connector_step ps (Choose i) s = (if c_editing s then choose_provider ps i s else s)"
| "connector_step ps Pick_Other s =
     (if c_editing s then s\<lparr>c_other := True, c_provider := [], c_check := JNull\<rparr> else s)"
| "connector_step ps (Change k v) s =
     (if form_shown ps s \<and> c_pending s = None
      then s\<lparr>c_values := obj_put (c_values s) k v, c_errors := obj_put (c_errors s) k (JStr [])\<rparr>
      else s)"
| "connector_step ps Test_Click s =
     (if form_shown ps s \<and> c_pending s = None
      then s\<lparr>c_pending := Some (Testing (payload ps (c_provider s) (c_values s))), c_check := JNull,
             c_errors := []\<rparr>
      else s)"
| "connector_step ps (Test_Answer r) s =
     (case c_pending s of
        Some (Testing _) \<Rightarrow>
          (let t = s\<lparr>c_pending := None\<rparr>
           in case r of Inl e \<Rightarrow> handle_error e t | Inr check \<Rightarrow> t\<lparr>c_check := check\<rparr>)
      | _ \<Rightarrow> s)"
| "connector_step ps Save_Click s =
     (if form_shown ps s \<and> c_pending s = None
      then s\<lparr>c_pending := Some (Saving (payload ps (c_provider s) (c_values s))), c_check := JNull,
             c_errors := []\<rparr>
      else s)"
| "connector_step ps (Save_Answer r) s =
     (case c_pending s of
        Some (Saving _) \<Rightarrow>
          (let t = s\<lparr>c_pending := None\<rparr>
           in case r of
                Inl e \<Rightarrow> handle_error e t
              | Inr (check, c) \<Rightarrow>
                  (refreshed c (t\<lparr>c_check := check\<rparr>))\<lparr>c_editing := (\<not> connected c \<and> connected (c_saved s))\<rparr>)
      | _ \<Rightarrow> s)"
| "connector_step ps Cancel_Edit s =
     (if form_shown ps s \<and> connected (c_saved s) then s\<lparr>c_editing := False, c_check := JNull\<rparr> else s)"
| "connector_step ps Edit_Click s =
     (if connected (c_saved s) \<and> \<not> c_editing s
      then choose_provider ps (s_provider (c_saved s)) (s\<lparr>c_editing := True\<rparr>) else s)"
| "connector_step ps (Dialog e) s =
     (if e = Ask \<and> \<not> (connected (c_saved s) \<and> \<not> c_editing s) then s
      else s\<lparr>c_dialog := dialog_step e (c_dialog s)\<rparr>)"
| "connector_step ps Confirm_Disconnect s =
     (if confirmable ''DISCONNECT'' (c_disconnecting s) (c_dialog s)
      then s\<lparr>c_disconnecting := True\<rparr> else s)"
| "connector_step ps (Disconnect_Answer r) s =
     (if c_disconnecting s
      then (case r of
              Inl _ \<Rightarrow> s\<lparr>c_disconnecting := False\<rparr>
            | Inr c \<Rightarrow>
                (refreshed c s)\<lparr>c_disconnecting := False, c_dialog := dialog_step Dismiss (c_dialog s),
                   c_provider := [], c_values := [], c_check := JNull\<rparr>)
      else s)"
| "connector_step ps (Refetched c) s = refreshed c s"

definition connector_run :: "provider list \<Rightarrow> connector_event list \<Rightarrow> connector \<Rightarrow> connector" where
  "connector_run ps es s = foldl (\<lambda>s e. connector_step ps e s) s es"

section \<open>The switch\<close>

record panel =
  on_company :: bool
  pl_enabled :: bool
  pl_dialog :: dialog
  pl_pending :: bool
  pl_sent :: "(bool \<times> string option \<times> bool) list"

datatype panel_event =
    Switch bool
  | Off_Dialog dialog_event
  | Confirm_Off
  | Switch_Answer "exn + bool \<times> bool"
  | Panel_Refetched bool bool

text \<open>
  A request carries the new value and the confirmation; with it the model records whether a
  store of the company was in use.
\<close>

definition send_switch :: "bool \<Rightarrow> string option \<Rightarrow> panel \<Rightarrow> panel" where
  "send_switch v word s = s\<lparr>pl_pending := True, pl_sent := pl_sent s @ [(v, word, on_company s)]\<rparr>"

fun panel_step :: "panel_event \<Rightarrow> panel \<Rightarrow> panel" where
  "panel_step (Switch v) s =
     (if pl_pending s \<or> v = pl_enabled s then s
      else if \<not> v \<and> on_company s then s\<lparr>pl_dialog := dialog_step Ask (pl_dialog s)\<rparr>
      else send_switch v None s)"
| "panel_step (Off_Dialog e) s = (if e = Ask then s else s\<lparr>pl_dialog := dialog_step e (pl_dialog s)\<rparr>)"
| "panel_step Confirm_Off s =
     (if confirmable ''DISABLE'' (pl_pending s) (pl_dialog s) then send_switch False (Some ''DISABLE'') s
      else s)"
| "panel_step (Switch_Answer r) s =
     (if pl_pending s
      then (case r of
              Inl _ \<Rightarrow> s\<lparr>pl_pending := False\<rparr>
            | Inr (en, co) \<Rightarrow>
                s\<lparr>pl_pending := False, pl_enabled := en, on_company := co,
                  pl_dialog := dialog_step Dismiss (pl_dialog s)\<rparr>)
      else s)"
| "panel_step (Panel_Refetched en co) s = s\<lparr>pl_enabled := en, on_company := co\<rparr>"

definition panel_run :: "panel_event list \<Rightarrow> panel \<Rightarrow> panel" where
  "panel_run es s = foldl (\<lambda>s e. panel_step e s) s es"

section \<open>Progress of the move\<close>

text \<open>\<open>Math.round\<close> of a quotient of natural numbers.\<close>

definition round_div :: "nat \<Rightarrow> nat \<Rightarrow> nat" where
  "round_div a b = (2 * a + b) div (2 * b)"

definition move_percent :: "nat \<Rightarrow> nat \<Rightarrow> nat \<Rightarrow> nat \<Rightarrow> nat" where
  "move_percent events_copied screenshots_copied events_total screenshots_total =
     (let total = events_total + screenshots_total; moved = events_copied + screenshots_copied
      in if 0 < total then min 100 (round_div (moved * 100) total) else 0)"

section \<open>The catalog is sound\<close>

definition default_ok :: "provider \<Rightarrow> string \<times> jsval \<Rightarrow> bool" where
  "default_ok p kv =
     (case filter (\<lambda>f. f_key f = fst kv) (p_fields p) of
        [f] \<Rightarrow> \<not> f_secret f \<and>
          (case f_type f of
             Number \<Rightarrow> (case snd kv of JNum n \<Rightarrow> 0 < n \<and> n < 65536 | _ \<Rightarrow> False)
           | Checkbox \<Rightarrow> (case snd kv of JBool _ \<Rightarrow> True | _ \<Rightarrow> False)
           | Select os \<Rightarrow> (case snd kv of JStr v \<Rightarrow> v \<in> set os | _ \<Rightarrow> False)
           | _ \<Rightarrow> (case snd kv of JStr v \<Rightarrow> trim v = v | _ \<Rightarrow> False))
      | _ \<Rightarrow> False)"

definition provider_ok :: "provider \<Rightarrow> bool" where
  "provider_ok p =
     (p_id p \<noteq> [] \<and> distinct (map f_key (p_fields p)) \<and> ''provider'' \<notin> set (map f_key (p_fields p)) \<and>
      distinct (map fst (p_defaults p)) \<and> list_all (default_ok p) (p_defaults p) \<and>
      list_ex f_secret (p_fields p))"

lemma catalog_ok:
  "list_all provider_ok databases" "list_all provider_ok file_stores"
  "distinct (map p_id (databases @ file_stores))"
  by code_simp+

lemma find_provider_Some: "find_provider ps i = Some p \<Longrightarrow> p \<in> set ps \<and> p_id p = i"
  by (auto simp: find_provider_def split: list.splits dest!: filter_eq_ConsD)

lemma found_provider_ok:
  "find_provider ps i = Some p \<Longrightarrow> ps = databases \<or> ps = file_stores \<Longrightarrow> provider_ok p"
  using catalog_ok(1,2) by (auto simp: list_all_iff dest: find_provider_Some)

lemma catalog_secret_types:
  "list_all (\<lambda>p. list_all (\<lambda>f. if f_secret f then f_type f = Password \<or> f_type f = Text else True) (p_fields p))
     (databases @ file_stores)"
  by code_simp

lemma secret_types:
  assumes "ps = databases \<or> ps = file_stores" "find_provider ps i = Some p" "f \<in> set (p_fields p)" "f_secret f"
  shows "f_type f \<noteq> Number" "f_type f \<noteq> Checkbox"
proof -
  have "p \<in> set (databases @ file_stores)" using assms(1) find_provider_Some [OF assms(2)] by auto
  with catalog_secret_types assms(3,4) have "f_type f = Password \<or> f_type f = Text"
    unfolding list_all_iff by metis
  then show "f_type f \<noteq> Number" "f_type f \<noteq> Checkbox" by auto
qed

lemma provider_key: "provider_ok p \<Longrightarrow> f \<in> set (p_fields p) \<Longrightarrow> f_key f \<noteq> ''provider''"
  by (force simp: provider_ok_def)

section \<open>What is sent\<close>

lemma set_obj_put: "set (obj_put ps k v) \<subseteq> insert (k, v) (set ps)"
  by (induction ps k v rule: obj_put.induct) auto

lemma add_fields_in:
  "(k, v) \<in> set (foldl (add_field vs) out fs) \<Longrightarrow>
   (k, v) \<in> set out \<or> (\<exists>f\<in>set fs. f_key f = k \<and> field_value f vs = v \<and> v \<noteq> JUndef)"
proof (induction fs arbitrary: out)
  case (Cons f fs)
  have "(k, v) \<in> set (foldl (add_field vs) (add_field vs out f) fs)" using Cons.prems by simp
  from Cons.IH [OF this] show ?case
    using set_obj_put [of out "f_key f" "field_value f vs"] by (auto simp: add_field_def Let_def split: if_splits)
qed simp

lemma add_fields_other:
  "k \<notin> f_key ` set fs \<Longrightarrow> map_of (foldl (add_field vs) out fs) k = map_of out k"
  by (induction fs arbitrary: out) (auto simp: add_field_def Let_def)

lemma payload_entry:
  assumes "find_provider ps i = Some p" "(k, v) \<in> set (payload ps i vs)"
  shows "(k, v) = (''provider'', JStr i) \<or>
    (\<exists>f\<in>set (p_fields p). f_key f = k \<and> field_value f vs = v \<and> v \<noteq> JUndef)"
  using assms add_fields_in [of k v vs "[(''provider'', JStr i)]" "p_fields p"] by (auto simp: payload_def)

text \<open>The kind of value a field sends.\<close>

definition sends_kind :: "field_type \<Rightarrow> jsval \<Rightarrow> bool" where
  "sends_kind t v =
     (case t of
        Number \<Rightarrow> (case v of JNum _ \<Rightarrow> True | JNaN \<Rightarrow> True | _ \<Rightarrow> False)
      | Checkbox \<Rightarrow> (case v of JBool _ \<Rightarrow> True | _ \<Rightarrow> False)
      | _ \<Rightarrow> (case v of JStr s \<Rightarrow> trim s = s | _ \<Rightarrow> True))"

lemma field_value_kind: "sends_kind (f_type f) (field_value f vs)"
  by (auto simp: sends_kind_def field_value_def Let_def simp del: jget.simps
      split: field_type.splits option.splits jsval.splits)



lemma jget_start_values:
  assumes "map_of vs k = None" "map_of (p_defaults p) k = None" "distinct (map fst vs)"
  shows "jget (JObj (start_values p True (JObj vs))) k = JUndef"
  using assms jget_obj_spread [of vs "p_defaults p" k] by (simp add: start_values_def)

text \<open>
  editing a saved connection sends no secret unless one is typed: with a summary that
  holds no secrets, as the API promises, what is sent right after "Edit connection" has no
  entry for any secret field, which the API reads as "keep the saved one".
\<close>

theorem edit_sends_no_secret:
  assumes "connected (c_saved s)" "\<not> c_editing s" "ps = databases \<or> ps = file_stores"
    "find_provider ps (s_provider (c_saved s)) = Some p"
    "s_summary (c_saved s) = JObj vs" "distinct (map fst vs)"
    "list_all (\<lambda>f. if f_secret f then map_of vs (f_key f) = None else True) (p_fields p)"
  shows "let t = connector_step ps Edit_Click s in
    c_provider t = s_provider (c_saved s) \<and>
    list_all (\<lambda>f. if f_secret f
       then f_key f \<notin> fst ` set (payload ps (c_provider t) (c_values t)) else True) (p_fields p)"
proof -
  let ?v = "start_values p True (JObj vs)"
  have t: "connector_step ps Edit_Click s = choose_provider ps (s_provider (c_saved s)) (s\<lparr>c_editing := True\<rparr>)"
    using assms(1,2) by simp
  have vals: "c_values (choose_provider ps (s_provider (c_saved s)) (s\<lparr>c_editing := True\<rparr>)) = ?v"
    "c_provider (choose_provider ps (s_provider (c_saved s)) (s\<lparr>c_editing := True\<rparr>)) = s_provider (c_saved s)"
    using assms(4,5) by (simp_all add: choose_provider_def)
  have ok: "provider_ok p" using found_provider_ok assms(3,4) by blast
  have "f_key f \<notin> fst ` set (payload ps (s_provider (c_saved s)) ?v)"
    if f: "f \<in> set (p_fields p)" "f_secret f" for f
  proof
    assume "f_key f \<in> fst ` set (payload ps (s_provider (c_saved s)) ?v)"
    then obtain v where "(f_key f, v) \<in> set (payload ps (s_provider (c_saved s)) ?v)" by auto
    from payload_entry [OF assms(4) this] obtain g where
      g: "g \<in> set (p_fields p)" "f_key g = f_key f" "field_value g ?v = v" "v \<noteq> JUndef"
      using provider_key [OF ok f(1)] by auto
    have "g = f" using ok g(1,2) f(1) by (auto simp: provider_ok_def distinct_map dest: inj_onD)
    have "map_of (p_defaults p) (f_key f) = None"
    proof (rule ccontr)
      assume "map_of (p_defaults p) (f_key f) \<noteq> None"
      then obtain d where "(f_key f, d) \<in> set (p_defaults p)" by (auto dest: map_of_SomeD)
      then have "default_ok p (f_key f, d)" using ok by (auto simp: provider_ok_def list_all_iff)
      then obtain h where h: "filter (\<lambda>h. f_key h = f_key f) (p_fields p) = [h]" "\<not> f_secret h"
        by (auto simp: default_ok_def split: list.splits)
      have "f \<in> set (filter (\<lambda>h. f_key h = f_key f) (p_fields p))" using f by simp
      then show False using f(2) h(2) unfolding h(1) by simp
    qed
    then have "jget (JObj ?v) (f_key f) = JUndef"
      using assms(6,7) f by (intro jget_start_values) (auto simp: list_all_iff)
    moreover have "f_type f \<noteq> Number" "f_type f \<noteq> Checkbox"
      using f assms(3,4) secret_types by blast+
    ultimately show False using g(3,4) \<open>g = f\<close> by (simp add: field_value_def Let_def del: jget.simps)
  qed
  then show ?thesis unfolding t Let_def vals by (simp add: list_all_iff)
qed

theorem edit_sends_no_secret_witness:
  "''password'' \<notin> fst ` set (payload databases ''mysql''
     (c_values (connector_step databases Edit_Click
       (open_connector \<lparr>s_provider = ''mysql'', s_summary = JObj [(''host'', JStr ''db.example.com'')],
          s_status = ''connected''\<rparr>))))"
proof -
  let ?c = "\<lparr>s_provider = ''mysql'', s_summary = JObj [(''host'', JStr ''db.example.com'')], s_status = ''connected''\<rparr>"
  have f: "find_provider databases ''mysql'' = Some mysql" by code_simp
  have n: "list_all (\<lambda>f. if f_secret f then map_of [(''host'', JStr ''db.example.com'')] (f_key f) = None else True)
      (p_fields mysql)" by code_simp
  have "let t = connector_step databases Edit_Click (open_connector ?c) in
    c_provider t = s_provider (c_saved (open_connector ?c)) \<and>
    list_all (\<lambda>f. if f_secret f
       then f_key f \<notin> fst ` set (payload databases (c_provider t) (c_values t)) else True) (p_fields mysql)"
    using f n by (intro edit_sends_no_secret [where vs = "[(''host'', JStr ''db.example.com'')]"])
      (simp_all add: open_connector_def connected_def)
  moreover have "half_field (secret_field ''password'' ''Password'') \<in> set (p_fields mysql)"
    by (simp add: mysql_def sql_fields_def)
  moreover have "f_secret (half_field (secret_field ''password'' ''Password''))"
    "f_key (half_field (secret_field ''password'' ''Password'')) = ''password''"
    "s_provider (c_saved (open_connector ?c)) = ''mysql''"
    by (simp_all add: half_field_def secret_field_def text_field_def open_connector_def)
  ultimately show ?thesis unfolding Let_def list_all_iff by metis
qed

section \<open>A result that comes late\<close>

text \<open>
  the result of a test can be shown for a connection that was never tested: the
  providers can be chosen while a test is under way, which clears the form, and the result
  for the first provider then appears under the second one.
\<close>

theorem late_test_result:
  "let s = connector_run databases
       [Choose ''postgres'', Change ''host'' (JStr ''db''), Test_Click, Choose ''mongodb'',
        Test_Answer (Inr (JObj [(''ok'', JBool True)]))]
       (open_connector \<lparr>s_provider = [], s_summary = JNull, s_status = ''not_configured''\<rparr>)
   in c_provider s = ''mongodb'' \<and> jget (c_check s) ''ok'' = JBool True \<and>
      c_values s = p_defaults mongodb \<and> form_shown databases s"
  by code_simp

section \<open>Nothing irreversible without its word\<close>

text \<open>
  A dialog that asks for a word: it can be confirmed only if that word was typed into it
  after it was opened.
\<close>

locale typed_confirmation =
  fixes word :: string
  assumes word_not_empty: "word \<noteq> []"
begin

lemma step_keeps:
  "d_typed (dialog_step e d) = word \<Longrightarrow> e \<noteq> Type_Word word \<Longrightarrow> d_typed d = word"
  using word_not_empty by (cases e) (auto split: if_splits)

lemma run_keeps:
  "d_typed (foldl (\<lambda>d e. dialog_step e d) d es) = word \<Longrightarrow> Type_Word word \<notin> set es \<Longrightarrow> d_typed d = word"
proof (induction es arbitrary: d)
  case (Cons e es)
  have "d_typed (dialog_step e d) = word" by (rule Cons.IH) (use Cons.prems in simp_all)
  then show ?case using step_keeps Cons.prems(2) by (metis list.set_intros(1))
qed simp

lemma not_confirmable: "d_typed d \<noteq> word \<Longrightarrow> \<not> confirmable word pending d"
  by (simp add: confirmable_def)

end

interpretation switch_off: typed_confirmation "''DISABLE''"
  by unfold_locales simp

interpretation disconnect: typed_confirmation "''DISCONNECT''"
  by unfold_locales simp

interpretation move_history: typed_confirmation "''MOVE''"
  by unfold_locales simp

definition sent_ok :: "panel \<Rightarrow> bool" where
  "sent_ok s = list_all (\<lambda>(v, w, company). v \<or> \<not> company) (pl_sent s)"

definition not_typed :: "panel \<Rightarrow> bool" where
  "not_typed s = (d_typed (pl_dialog s) \<noteq> ''DISABLE'')"

lemma switch_step_ok:
  assumes "sent_ok s" "not_typed s" "e \<noteq> Off_Dialog (Type_Word ''DISABLE'')"
  shows "sent_ok (panel_step e s) \<and> not_typed (panel_step e s)"
proof (cases e)
  case (Off_Dialog d)
  then show ?thesis using assms switch_off.step_keeps [of d "pl_dialog s"]
    by (auto simp: sent_ok_def not_typed_def)
next
  case Confirm_Off
  then show ?thesis using assms switch_off.not_confirmable by (simp add: not_typed_def)
next
  case (Switch_Answer r)
  then show ?thesis using assms switch_off.step_keeps [of Dismiss "pl_dialog s"]
    by (auto simp: sent_ok_def not_typed_def simp del: dialog_step.simps split: sum.splits)
next
  case (Switch v)
  then show ?thesis using assms switch_off.step_keeps [of Ask "pl_dialog s"]
    by (auto simp: sent_ok_def not_typed_def send_switch_def simp del: dialog_step.simps)
qed (use assms in \<open>simp_all add: sent_ok_def not_typed_def\<close>)

text \<open>
  the company's own storage is never switched off by a slip: whatever is clicked, typed
  and answered, and however the page's data changes meanwhile, no request to turn it off is
  sent while a store of the company is in use unless the word DISABLE was typed into the
  dialog.
\<close>

theorem turning_off_needs_word:
  assumes "Off_Dialog (Type_Word ''DISABLE'') \<notin> set es"
  shows "list_all (\<lambda>(v, w, company). v \<or> \<not> company)
    (pl_sent (panel_run es \<lparr>on_company = co, pl_enabled = en, pl_dialog = closed_dialog,
       pl_pending = False, pl_sent = []\<rparr>))"
proof -
  have "sent_ok s \<Longrightarrow> not_typed s \<Longrightarrow> sent_ok (panel_run es s)" for s
    using assms
  proof (induction es arbitrary: s)
    case (Cons e es)
    then have "e \<noteq> Off_Dialog (Type_Word ''DISABLE'')" by auto
    then show ?case using Cons switch_step_ok [of s e] by (simp add: panel_run_def)
  qed (simp add: panel_run_def)
  then show ?thesis by (simp add: sent_ok_def not_typed_def closed_dialog_def)
qed

theorem turning_off_needs_word_witness:
  "list_all (\<lambda>(v, w, company). v \<or> \<not> company)
    (pl_sent (panel_run [Switch False, Off_Dialog (Type_Word ''disable''), Confirm_Off]
      \<lparr>on_company = True, pl_enabled = True, pl_dialog = closed_dialog, pl_pending = False, pl_sent = []\<rparr>))"
  by (rule turning_off_needs_word) simp

lemma typed_word_switches_off:
  "pl_sent (panel_run [Switch False, Off_Dialog (Type_Word ''DISABLE''), Confirm_Off]
      \<lparr>on_company = True, pl_enabled = True, pl_dialog = closed_dialog, pl_pending = False, pl_sent = []\<rparr>) =
     [(False, Some ''DISABLE'', True)]"
  by code_simp

definition connector_typed :: "connector \<Rightarrow> bool" where
  "connector_typed s = (d_typed (c_dialog s) = ''DISCONNECT'' \<or> c_disconnecting s)"

lemma handle_error_dialog [simp]:
  "c_dialog (handle_error e s) = c_dialog s" "c_disconnecting (handle_error e s) = c_disconnecting s"
  by (simp_all add: handle_error_def Let_def)

lemma choose_provider_dialog [simp]:
  "c_dialog (choose_provider ps i s) = c_dialog s"
  "c_disconnecting (choose_provider ps i s) = c_disconnecting s"
  by (simp_all add: choose_provider_def split: option.split)

lemma refreshed_dialog [simp]:
  "c_dialog (refreshed c s) = c_dialog s" "c_disconnecting (refreshed c s) = c_disconnecting s"
  by (simp_all add: refreshed_def)

lemma connector_step_typed:
  assumes "\<not> connector_typed s" "e \<noteq> Dialog (Type_Word ''DISCONNECT'')"
  shows "\<not> connector_typed (connector_step ps e s)"
proof (cases e)
  case (Dialog d)
  then show ?thesis using assms disconnect.step_keeps [of d "c_dialog s"]
    by (auto simp: connector_typed_def)
next
  case Confirm_Disconnect
  then show ?thesis using assms disconnect.not_confirmable by (simp add: connector_typed_def)
next
  case (Save_Answer r)
  then show ?thesis using assms
    by (auto simp: connector_typed_def Let_def split: option.split mutation.split sum.split prod.split)
qed (use assms in \<open>auto simp: connector_typed_def Let_def split: option.split mutation.split sum.split\<close>)

text \<open>
  a company's database or file store is disconnected only after DISCONNECT was typed:
  in a run without it the call is never under way.
\<close>

theorem disconnect_needs_word:
  assumes "Dialog (Type_Word ''DISCONNECT'') \<notin> set es"
  shows "\<not> c_disconnecting (connector_run ps es (open_connector c))"
proof -
  have "\<not> connector_typed s \<Longrightarrow> \<not> connector_typed (connector_run ps es s)" for s
    using assms
  proof (induction es arbitrary: s)
    case (Cons e es)
    then have "e \<noteq> Dialog (Type_Word ''DISCONNECT'')" by auto
    then show ?case using Cons connector_step_typed [of s e ps] by (simp add: connector_run_def)
  qed (simp add: connector_run_def)
  then show ?thesis by (simp add: connector_typed_def open_connector_def closed_dialog_def)
qed

theorem disconnect_needs_word_witness:
  "\<not> c_disconnecting (connector_run databases
     [Dialog Ask, Dialog (Type_Word ''disconnect''), Confirm_Disconnect]
     (open_connector \<lparr>s_provider = ''mysql'', s_summary = JNull, s_status = ''connected''\<rparr>))"
  by (rule disconnect_needs_word) simp

end
