(* ===== verification/Enrollment.thy ===== *)
theory Enrollment
  imports Prelude
begin

text \<open>
  First-run enrolment of a device in the employee portal
  (\<^verbatim>\<open>employee-portal/src/app/enroll/page.tsx\<close>): the agent opens this page with a state and a
  loopback callback, the page asks the API for an enrolment token and hands it to the agent.
  The URL parser of the browser, \<open>encodeURIComponent\<close>, the API and the agent are arguments;
  what they answer may depend on everything the page did before. Markup is not modelled.
\<close>

section \<open>The browser around the page\<close>

record url =
  u_protocol :: string
  u_hostname :: string

text \<open>
  What the page does to the world: it asks for a token, submits a form to an address, posts
  JSON to an address, or sends the browser to another page.
\<close>

datatype effect =
    Enroll_Device
  | Submit_Form string "(string \<times> string) list"
  | Post_Json string "(string \<times> jsval) list"
  | Navigate string

text \<open>An answer of the agent: its status, and its body when that is JSON.\<close>

record response =
  r_status :: int
  r_json :: "jsval option"

record world =
  new_url :: "string \<Rightarrow> url option"
  encode_uri :: "string \<Rightarrow> string"
  enroll_device :: "effect list \<Rightarrow> exn + jsval"
  fetch_agent :: "effect list \<Rightarrow> exn + response"

section \<open>Where the token may go\<close>

definition is_loopback_callback :: "world \<Rightarrow> string \<Rightarrow> bool" where
  "is_loopback_callback w raw =
     (case new_url w raw of
        None \<Rightarrow> False
      | Some u \<Rightarrow> u_protocol u = ''http:'' \<and>
          (u_hostname u = ''127.0.0.1'' \<or> u_hostname u = ''[::1]'' \<or> u_hostname u = ''::1''))"

section \<open>One run of the page\<close>

datatype phase = Checking | Enrolling | Done | Error

record screen =
  phase_of :: phase
  note_of :: jsval

definition failed :: "string \<Rightarrow> screen" where
  "failed m = \<lparr>phase_of = Error, note_of = JStr m\<rparr>"

definition nothing_to_do :: string where
  "nothing_to_do =
     ''This page is opened automatically by the Aavishield agent during setup. '' @
     ''There is nothing to do here '' @ [CHR 0xE2, CHR 0x80, CHR 0x94] @ '' you can close this tab.''"

definition invalid_link :: string where
  "invalid_link = ''This enrollment link is not valid. Contact your IT administrator.''"

definition no_code :: string where
  "no_code = ''Could not create an enrollment code. Please try again in a moment.''"

definition no_agent :: string where
  "no_agent =
     ''Could not reach the Aavishield agent on this device. Make sure it is '' @
     ''running, then reopen this page from the agent.''"

text \<open>\<open>params.get\<close>, with \<open>|| ''\<close> behind it.\<close>

definition param :: "(string \<times> string) list \<Rightarrow> string \<Rightarrow> string" where
  "param ps k = (case map_of ps k of None \<Rightarrow> [] | Some v \<Rightarrow> v)"

text \<open>The value of an input field: null empties it, anything else is shown as a text.\<close>

definition input_value :: "jsval \<Rightarrow> string" where
  "input_value v = (if v = JNull then [] else js_to_string v)"

definition read_code :: "exn + jsval \<Rightarrow> (jsval \<times> jsval) option" where
  "read_code r =
     (case r of
        Inl _ \<Rightarrow> None
      | Inr d \<Rightarrow>
          (case jread d ''token'' of
             Inl _ \<Rightarrow> None
           | Inr token \<Rightarrow> Some (token, jget d ''admin_url'')))"

text \<open>What the agent's answer makes the page show.\<close>

definition agent_said :: "exn + response \<Rightarrow> screen" where
  "agent_said r =
     (case r of
        Inl _ \<Rightarrow> failed no_agent
      | Inr res \<Rightarrow>
          (if 200 \<le> r_status res \<and> r_status res \<le> 299 then \<lparr>phase_of = Done, note_of = JStr []\<rparr>
           else
             (let detail = (case r_json res of None \<Rightarrow> JObj [] | Some d \<Rightarrow> d);
                  told = (if nullish detail then JUndef else jget detail ''error'')
              in \<lparr>phase_of = Error,
                  note_of = or_falsy told
                    (JStr (''The agent could not complete setup ('' @ show_int (r_status res) @ '').''))\<rparr>)))"

definition run :: "world \<Rightarrow> (string \<times> string) list \<Rightarrow> effect list \<Rightarrow> screen \<times> effect list" where
  "run w ps es =
     (if param ps ''result'' = ''done'' then (\<lparr>phase_of = Done, note_of = JStr []\<rparr>, es)
      else if param ps ''result'' = ''error''
      then (failed (if param ps ''message'' = [] then ''The agent could not complete setup.''
                    else param ps ''message''), es)
      else
        (let state = param ps ''state''; callback = param ps ''callback''
         in if state = [] \<or> callback = [] then (failed nothing_to_do, es)
            else if \<not> is_loopback_callback w callback then (failed invalid_link, es)
            else
              (let es1 = es @ [Enroll_Device]
               in case read_code (enroll_device w es) of
                    None \<Rightarrow> (failed no_code, es1)
                  | Some (token, admin_url) \<Rightarrow>
                      (if param ps ''mode'' = ''form''
                       then (\<lparr>phase_of = Enrolling, note_of = JStr []\<rparr>,
                             es1 @ [Submit_Form callback
                               [(''state'', state), (''token'', input_value token),
                                (''admin_url'', input_value admin_url)]])
                       else (agent_said (fetch_agent w es1),
                             es1 @ [Post_Json callback
                               [(''state'', JStr state), (''token'', token), (''admin_url'', admin_url)]])))))"

section \<open>The page while the session settles\<close>

datatype session_status = Loading | Unauthenticated | Authenticated

record page =
  screen_of :: screen
  started :: bool
  done_so_far :: "effect list"

definition fresh_page :: page where
  "fresh_page =
     \<lparr>screen_of = \<lparr>phase_of = Checking, note_of = JStr []\<rparr>, started = False, done_so_far = []\<rparr>"

text \<open>
  The effect of the page, each time React runs it: \<open>path\<close> and \<open>query\<close> are the address of the
  page, \<open>ps\<close> the query as parameters. A run answers within the step: nothing else of the page
  waits for it.
\<close>

definition on_status ::
  "world \<Rightarrow> string \<Rightarrow> string \<Rightarrow> (string \<times> string) list \<Rightarrow> session_status \<Rightarrow> page \<Rightarrow> page" where
  "on_status w path query ps st s =
     (if st = Loading \<or> started s then s
      else if st = Unauthenticated
      then s\<lparr>done_so_far := done_so_far s @ [Navigate (''/login?callbackUrl='' @ encode_uri w (path @ query))]\<rparr>
      else
        (let (sc, es) = run w ps (done_so_far s)
         in s\<lparr>started := True, screen_of := sc, done_so_far := es\<rparr>))"

definition visit ::
  "world \<Rightarrow> string \<Rightarrow> string \<Rightarrow> (string \<times> string) list \<Rightarrow> session_status list \<Rightarrow> page" where
  "visit w path query ps sts = foldl (\<lambda>s st. on_status w path query ps st s) fresh_page sts"

section \<open>The token stays on the device\<close>

fun is_navigate :: "effect \<Rightarrow> bool" where
  "is_navigate (Navigate a) = True"
| "is_navigate e = False"

text \<open>
  An address on this machine, spelled out; a delivery goes to one, and quotes the state of
  the address the agent opened.
\<close>

definition local_address :: "world \<Rightarrow> string \<Rightarrow> bool" where
  "local_address w a =
     (case new_url w a of
        None \<Rightarrow> False
      | Some u \<Rightarrow> u_protocol u = ''http:'' \<and> u_hostname u \<in> {''127.0.0.1'', ''[::1]'', ''::1''})"

fun delivery_ok :: "world \<Rightarrow> string \<Rightarrow> effect \<Rightarrow> bool" where
  "delivery_ok w st (Submit_Form a fs) = (st \<noteq> [] \<and> local_address w a \<and> map_of fs ''state'' = Some st)"
| "delivery_ok w st (Post_Json a fs) = (st \<noteq> [] \<and> local_address w a \<and> map_of fs ''state'' = Some (JStr st))"
| "delivery_ok w st e = False"

definition handed_over :: "world \<Rightarrow> string \<Rightarrow> effect list \<Rightarrow> bool" where
  "handed_over w st es =
     (case es of
        [] \<Rightarrow> True
      | [e] \<Rightarrow> e = Enroll_Device
      | [e, d] \<Rightarrow> e = Enroll_Device \<and> delivery_ok w st d
      | _ \<Rightarrow> False)"

lemma loopback_local: "is_loopback_callback w a \<Longrightarrow> local_address w a"
  by (auto simp: is_loopback_callback_def local_address_def split: option.splits)

lemma run_hands_over:
  "\<exists>tail. snd (run w ps es) = es @ tail \<and> handed_over w (param ps ''state'') tail"
proof (cases "read_code (enroll_device w es)")
  case None
  then show ?thesis by (auto simp: run_def Let_def handed_over_def)
next
  case (Some c)
  then show ?thesis
    by (cases c) (auto simp: run_def Let_def handed_over_def loopback_local)
qed

lemma visit_snoc: "visit w path query ps (sts @ [st]) = on_status w path query ps st (visit w path query ps sts)"
  by (simp add: visit_def)

definition page_ok :: "world \<Rightarrow> string \<Rightarrow> page \<Rightarrow> bool" where
  "page_ok w st s =
     (handed_over w st (dropWhile is_navigate (done_so_far s)) \<and>
      (started s \<or> list_all is_navigate (done_so_far s)))"

lemma handed_over_starts:
  assumes "handed_over w st tail"
  shows "dropWhile is_navigate tail = tail"
  using assms by (cases tail) (auto simp: handed_over_def split: list.splits)

lemma on_status_ok:
  assumes "page_ok w (param ps ''state'') s"
  shows "page_ok w (param ps ''state'') (on_status w path query ps st s)"
proof (cases "st = Loading \<or> started s")
  case True
  then show ?thesis using assms by (simp add: on_status_def)
next
  case False
  then have nav: "list_all is_navigate (done_so_far s)" using assms by (simp add: page_ok_def)
  then have drop: "dropWhile is_navigate (done_so_far s @ tail) = dropWhile is_navigate tail" for tail
    by (simp add: list_all_iff dropWhile_append)
  show ?thesis
  proof (cases "st = Unauthenticated")
    case True
    then show ?thesis using False nav by (simp add: on_status_def page_ok_def drop handed_over_def)
  next
    case False': False
    obtain tail where tail: "snd (run w ps (done_so_far s)) = done_so_far s @ tail"
      "handed_over w (param ps ''state'') tail"
      using run_hands_over by blast
    then show ?thesis
      using False False'
      by (simp add: on_status_def page_ok_def split_beta drop handed_over_starts [OF tail(2)])
  qed
qed

lemma visit_ok: "page_ok w (param ps ''state'') (visit w path query ps sts)"
proof (induction sts rule: rev_induct)
  case Nil
  show ?case by (simp add: visit_def fresh_page_def page_ok_def handed_over_def)
qed (simp add: visit_snoc on_status_ok)

text \<open>
  C23: the enrolment token never leaves the device: however often the session changes and
  whatever the address of the page says, the page asks for at most one token, and hands it
  over at most once, after that, to an address on the loopback interface with plain HTTP,
  quoting the state it was opened with. All it does before is to send the browser to sign in.
\<close>

theorem token_stays_on_device:
  "handed_over w (param ps ''state'')
     (dropWhile is_navigate (done_so_far (visit w path query ps sts)))"
  using visit_ok by (simp add: page_ok_def)

section \<open>What the page claims\<close>

definition accepted_run :: "world \<Rightarrow> (string \<times> string) list \<Rightarrow> effect list \<Rightarrow> bool" where
  "accepted_run w ps es =
     (\<exists>before d url res.
        es = before @ [Enroll_Device, Post_Json (param ps ''callback'')
          [(''state'', JStr (param ps ''state'')), (''token'', jget d ''token''), (''admin_url'', url)]] \<and>
        enroll_device w before = Inr d \<and> fetch_agent w (before @ [Enroll_Device]) = Inr res \<and>
        200 \<le> r_status res \<and> r_status res \<le> 299)"

lemma agent_said_done:
  "phase_of (agent_said r) = Done \<Longrightarrow> \<exists>res. r = Inr res \<and> 200 \<le> r_status res \<and> r_status res \<le> 299"
  by (cases r) (auto simp: agent_said_def failed_def Let_def split: if_splits)

lemma read_code_Some: "read_code r = Some (token, url) \<Longrightarrow> \<exists>d. r = Inr d \<and> token = jget d ''token''"
  by (auto simp: read_code_def jread_def simp del: jget.simps split: sum.splits if_splits)

lemma run_done:
  assumes "phase_of (fst (run w ps es)) = Done"
  shows "param ps ''result'' = ''done'' \<or> accepted_run w ps (snd (run w ps es))"
proof (cases "read_code (enroll_device w es)")
  case None
  then show ?thesis using assms by (auto simp: run_def failed_def Let_def split: if_splits)
next
  case (Some c)
  obtain token url where c: "c = (token, url)" by (cases c)
  obtain d where d: "enroll_device w es = Inr d" "token = jget d ''token''"
    using read_code_Some Some c by blast
  show ?thesis
  proof (cases "param ps ''result'' = ''done''")
    case False
    then have out: "snd (run w ps es) = es @ [Enroll_Device, Post_Json (param ps ''callback'')
        [(''state'', JStr (param ps ''state'')), (''token'', token), (''admin_url'', url)]]"
      and "phase_of (agent_said (fetch_agent w (es @ [Enroll_Device]))) = Done"
      using assms Some c by (auto simp: run_def failed_def Let_def split: if_splits)
    then show ?thesis
      using d agent_said_done unfolding accepted_run_def by blast
  qed simp
qed

lemma not_started_checking:
  "\<not> started (visit w path query ps sts) \<Longrightarrow> phase_of (screen_of (visit w path query ps sts)) = Checking"
  by (induction sts rule: rev_induct)
     (auto simp: visit_snoc visit_def fresh_page_def on_status_def split_beta split: if_splits)

text \<open>
  the page says that the device is enrolled only when the agent says so: the address it
  was opened with is the one the agent redirects to after a success, or in its last two
  steps the page was given a token and posted it, with the state, to the agent, which
  answered with a status of success.
\<close>

theorem done_means_accepted:
  assumes "phase_of (screen_of (visit w path query ps sts)) = Done"
  shows "param ps ''result'' = ''done'' \<or> accepted_run w ps (done_so_far (visit w path query ps sts))"
  using assms
proof (induction sts rule: rev_induct)
  case Nil
  then show ?case by (simp add: visit_def fresh_page_def)
next
  case (snoc st sts)
  let ?s = "visit w path query ps sts"
  show ?case
  proof (cases "st = Loading \<or> started ?s")
    case True
    then show ?thesis using snoc by (simp add: visit_snoc on_status_def)
  next
    case False
    then have "st \<noteq> Unauthenticated"
      using snoc.prems not_started_checking [of w path query ps sts]
      by (auto simp: visit_snoc on_status_def)
    then show ?thesis
      using run_done [of w ps "done_so_far ?s"] snoc.prems False
      by (simp add: visit_snoc on_status_def split_beta)
  qed
qed

text \<open>An employee who signs in first; the agent accepts.\<close>

definition laptop :: world where
  "laptop =
     \<lparr>new_url = (\<lambda>a. if a = ''http://127.0.0.1:7777/e''
        then Some \<lparr>u_protocol = ''http:'', u_hostname = ''127.0.0.1''\<rparr> else None),
      encode_uri = (\<lambda>a. a),
      enroll_device = (\<lambda>es. Inr (JObj [(''token'', JStr ''t1''), (''admin_url'', JStr ''https://admin'')])),
      fetch_agent = (\<lambda>es. Inr \<lparr>r_status = 200, r_json = None\<rparr>)\<rparr>"

theorem done_means_accepted_witness:
  "(let ps = [(''state'', ''s1''), (''callback'', ''http://127.0.0.1:7777/e'')];
        v = visit laptop ''/enroll'' ''?q'' ps [Loading, Unauthenticated, Authenticated, Authenticated]
    in param ps ''result'' = ''done'' \<or> accepted_run laptop ps (done_so_far v))"
  unfolding Let_def
  by (rule done_means_accepted)
     (simp add: visit_def on_status_def fresh_page_def run_def laptop_def param_def
        is_loopback_callback_def read_code_def jread_def nullish_def agent_said_def)

text \<open>
  A refusal is shown in the agent's own words when it gives any.
\<close>

lemma refusal_shown:
  assumes "\<not> (200 \<le> r_status res \<and> r_status res \<le> 299)" "r_json res = Some d"
    "jget d ''error'' = JStr t" "t \<noteq> []"
  shows "note_of (agent_said (Inr res)) = JStr t"
proof -
  have "\<not> nullish d" using assms(3) by (cases d) (auto simp: nullish_def)
  then show ?thesis using assms
    by (simp add: agent_said_def or_falsy_def Let_def del: jget.simps)
qed

end
