(* ===== verification/Pagination.thy ===== *)
theory Pagination
  imports Prelude
begin

text \<open>
  The bar below every long table (\<^verbatim>\<open>components/ui/Pagination.tsx\<close>, the same code in the three
  panels), the page a list is on (state of the web gateway page,
  \<^verbatim>\<open>app/dashboard/swg/page.tsx\<close>), and the slice of the rows that the demonstration build
  answers a list request with (\<open>pageOf\<close> in \<^verbatim>\<open>lib/demo.ts\<close>). Class names and the digits
  grouping of the total are not modelled.
\<close>

section \<open>Page numbers\<close>

datatype item = Page int | Gap

definition page_items :: "int \<Rightarrow> int \<Rightarrow> item list" where
  "page_items page total_pages =
     (if total_pages \<le> 7 then map Page [1..total_pages]
      else
        (let start = max 2 (page - 1); stop = min (total_pages - 1) (page + 1)
         in [Page 1] @ (if 2 < start then [Gap] else []) @ map Page [start..stop] @
            (if stop < total_pages - 1 then [Gap] else []) @ [Page total_pages]))"

section \<open>The bar\<close>

record bar =
  b_first :: int
  b_last :: int
  b_total :: int
  b_items :: "item list"
  b_previous :: "int option"
  b_next :: "int option"

text \<open>
  \<open>selector\<close>: the caller lets the reader choose the number of rows. The buttons give the page
  they go to, none when they are disabled or not shown.
\<close>

definition pagination :: "int \<Rightarrow> int \<Rightarrow> int \<Rightarrow> int \<Rightarrow> bool \<Rightarrow> bar option" where
  "pagination page total_pages count limit selector =
     (if count = 0 \<or> total_pages \<le> 1 \<and> \<not> selector then None
      else Some
        \<lparr>b_first = (page - 1) * limit + 1, b_last = min (page * limit) count, b_total = count,
         b_items = (if 1 < total_pages then page_items page total_pages else []),
         b_previous = (if 1 < total_pages \<and> page \<noteq> 1 then Some (page - 1) else None),
         b_next = (if 1 < total_pages \<and> page < total_pages then Some (page + 1) else None)\<rparr>)"

definition ceil_div :: "int \<Rightarrow> int \<Rightarrow> int" where
  "ceil_div a b = - ((- a) div b)"

definition page_count :: "int \<Rightarrow> int \<Rightarrow> int" where
  "page_count count limit = max 1 (ceil_div count limit)"

section \<open>A list that is read page by page\<close>

record pager =
  pg_page :: int
  pg_limit :: int
  pg_search :: string
  pg_total :: int

definition fresh_pager :: pager where
  "fresh_pager = \<lparr>pg_page = 1, pg_limit = 10, pg_search = [], pg_total = 0\<rparr>"

definition bar_of :: "pager \<Rightarrow> bar option" where
  "bar_of s = pagination (pg_page s) (page_count (pg_total s) (pg_limit s)) (pg_total s) (pg_limit s) True"

datatype pager_event =
    Previous
  | Next
  | Pick int
  | Rows int
  | Search string
  | Answered int

text \<open>A click counts only on a button that the bar shows, and the choice of rows only among its options.\<close>

fun pager_step :: "pager_event \<Rightarrow> pager \<Rightarrow> pager" where
  "pager_step Previous s =
     (case bar_of s of None \<Rightarrow> s
      | Some b \<Rightarrow> (case b_previous b of None \<Rightarrow> s | Some p \<Rightarrow> s\<lparr>pg_page := p\<rparr>))"
| "pager_step Next s =
     (case bar_of s of None \<Rightarrow> s
      | Some b \<Rightarrow> (case b_next b of None \<Rightarrow> s | Some p \<Rightarrow> s\<lparr>pg_page := p\<rparr>))"
| "pager_step (Pick p) s =
     (case bar_of s of None \<Rightarrow> s
      | Some b \<Rightarrow> (if Page p \<in> set (b_items b) then s\<lparr>pg_page := p\<rparr> else s))"
| "pager_step (Rows l) s =
     (if bar_of s \<noteq> None \<and> l \<in> {10, 20, 50} then s\<lparr>pg_limit := l, pg_page := 1\<rparr> else s)"
| "pager_step (Search t) s = s\<lparr>pg_search := t, pg_page := 1\<rparr>"
| "pager_step (Answered n) s = s\<lparr>pg_total := n\<rparr>"

definition pager_run :: "pager_event list \<Rightarrow> pager \<Rightarrow> pager" where
  "pager_run es s = foldl (\<lambda>s e. pager_step e s) s es"

section \<open>One page of rows\<close>

text \<open>
  \<open>pageOf\<close>; a page or a number of rows that is no number (None) or zero falls back.
  \<open>rows.slice\<close> stops at the end.
\<close>

definition page_of :: "'a list \<Rightarrow> int option \<Rightarrow> int option \<Rightarrow> 'a list \<times> int" where
  "page_of rows page limit =
     (let orelse = (\<lambda>v d. case v of None \<Rightarrow> d | Some n \<Rightarrow> if n = 0 then d else n);
          p = max 1 (orelse page 1); l = max 1 (orelse limit 20); start = (p - 1) * l
      in (take (nat l) (drop (nat start) rows), int (length rows)))"

section \<open>The numbers read on\<close>

text \<open>
  A row of page numbers reads on when neighbours follow each other and a gap stands exactly
  where pages are left out.
\<close>

fun reads_on :: "item list \<Rightarrow> bool" where
  "reads_on [Page a] = True"
| "reads_on (Page a # Page b # r) = (b = a + 1 \<and> reads_on (Page b # r))"
| "reads_on (Page a # Gap # Page b # r) = (a + 1 < b \<and> reads_on (Page b # r))"
| "reads_on _ = False"

lemma reads_on_upto:
  "a \<le> b \<Longrightarrow> reads_on (map Page [a..b] @ r) = reads_on (Page b # r)"
proof (induction a b rule: upto.induct)
  case (1 i j)
  show ?case
  proof (cases "i = j")
    case False
    then have "[i..j] = i # (i + 1) # [i + 2..j]" and "[i + 1..j] = (i + 1) # [i + 2..j]"
      using "1.prems" by (simp_all add: upto_rec1 add.assoc)
    then show ?thesis using 1 False by simp
  qed simp
qed

text \<open>
  whatever the number of pages, the page numbers start with the first page, end with the
  last, contain the page that is shown, and read on: numbers that stand side by side follow
  each other, and a gap stands only where a page is left out. There are never more than seven
  items.
\<close>

theorem page_items_spec:
  assumes "1 \<le> page" "page \<le> total_pages"
  shows "hd (page_items page total_pages) = Page 1 \<and> last (page_items page total_pages) = Page total_pages \<and>
    Page page \<in> set (page_items page total_pages) \<and> reads_on (page_items page total_pages) \<and>
    length (page_items page total_pages) \<le> 7"
proof (cases "total_pages \<le> 7")
  case True
  have "[1..total_pages] \<noteq> []" "hd [1..total_pages] = 1" "last [1..total_pages] = total_pages"
    using assms by (simp, simp add: upto_rec1, subst upto_rec2) simp_all
  then have ends: "hd (map Page [1..total_pages]) = Page 1" "last (map Page [1..total_pages]) = Page total_pages"
    by (simp_all add: hd_map last_map)
  have reads: "reads_on (map Page [1..total_pages])"
    using assms reads_on_upto [of 1 total_pages "[]"] by simp
  have "Page page \<in> set (map Page [1..total_pages])" using assms by simp
  moreover have "length (map Page [1..total_pages]) \<le> 7" using True by simp
  ultimately show ?thesis using True ends reads by (simp only: page_items_def if_True simp_thms)
next
  case False
  define start stop where "start = max 2 (page - 1)" and "stop = min (total_pages - 1) (page + 1)"
  have b: "2 \<le> start" "start \<le> stop" "stop \<le> total_pages - 1" "stop \<le> start + 2"
    using assms False by (auto simp: start_def stop_def)
  have items: "page_items page total_pages =
      [Page 1] @ (if 2 < start then [Gap] else []) @ map Page [start..stop] @
      (if stop < total_pages - 1 then [Gap] else []) @ [Page total_pages]"
    using False by (simp add: page_items_def start_def stop_def Let_def)
  have cons: "[start..stop] = start # [start + 1..stop]" using b by (simp add: upto_rec1)
  have "reads_on (map Page [start..stop] @ (if stop < total_pages - 1 then [Gap] else []) @ [Page total_pages])"
    using b by (subst reads_on_upto) auto
  then have "reads_on (page_items page total_pages)"
    using b unfolding items cons by auto
  moreover have "Page page \<in> set (page_items page total_pages)"
    using assms False unfolding items by (auto simp: start_def stop_def)
  moreover have "length (page_items page total_pages) \<le> 7"
    using b unfolding items by (auto simp: nat_le_iff)
  ultimately show ?thesis by (simp add: items)
qed

theorem page_items_spec_witness:
  "hd (page_items 9 20) = Page 1 \<and> last (page_items 9 20) = Page 20 \<and>
    Page 9 \<in> set (page_items 9 20) \<and> reads_on (page_items 9 20) \<and> length (page_items 9 20) \<le> 7"
  by (rule page_items_spec) simp_all

section \<open>Every row on exactly one page\<close>

lemma ceil_div_bounds:
  assumes "0 < l"
  shows "n \<le> ceil_div n l * l" "ceil_div n l * l < n + l"
proof -
  have e: "ceil_div n l * l = n + (- n) mod l"
    by (simp add: ceil_div_def minus_mod_eq_div_mult [symmetric])
  have "0 \<le> (- n) mod l" "(- n) mod l < l" using assms by simp_all
  then show "n \<le> ceil_div n l * l" "ceil_div n l * l < n + l"
    unfolding e by linarith+
qed

lemma page_of_some:
  "1 \<le> p \<Longrightarrow> 1 \<le> l \<Longrightarrow>
   page_of rows (Some p) (Some l) = (take (nat l) (drop (nat ((p - 1) * l)) rows), int (length rows))"
  by (simp add: page_of_def Let_def max_def)

lemma pages_take:
  assumes "1 \<le> l"
  shows "concat (map (\<lambda>p. fst (page_of rows (Some p) (Some l))) [1..int k]) = take (k * nat l) rows"
proof (induction k)
  case (Suc k)
  have "[1..int (Suc k)] = [1..int k] @ [int (Suc k)]" by (simp add: upto_rec2)
  moreover have "nat (int k * l) = k * nat l" using assms by (simp add: nat_mult_distrib)
  ultimately show ?case
    using Suc assms by (simp add: page_of_some take_add add.commute [of "nat l"])
qed simp

text \<open>
  a table that is read page by page shows every row exactly once and in order, with any
  positive number of rows on a page: the pages from the first to the last that the bar
  offers, put together, are the rows.
\<close>

theorem pages_cover_rows:
  assumes "1 \<le> l"
  shows "concat (map (\<lambda>p. fst (page_of rows (Some p) (Some l))) [1..page_count (int (length rows)) l]) = rows"
proof -
  let ?n = "page_count (int (length rows)) l"
  have "int (length rows) \<le> ?n * l"
  proof -
    have "ceil_div (int (length rows)) l * l \<le> ?n * l"
      using assms by (simp add: page_count_def mult_right_mono)
    then show ?thesis using ceil_div_bounds(1) [of l "int (length rows)"] assms by linarith
  qed
  moreover have "0 \<le> ?n" by (simp add: page_count_def)
  ultimately have "length rows \<le> nat ?n * nat l" by (simp add: nat_mult_distrib [symmetric] nat_le_iff)
  then show ?thesis using pages_take [OF assms, of rows "nat ?n"] \<open>0 \<le> ?n\<close> by simp
qed

theorem pages_cover_rows_witness:
  "concat (map (\<lambda>p. fst (page_of ''aavishield'' (Some p) (Some 3))) [1..page_count (int (length ''aavishield'')) 3])
     = ''aavishield''"
  by (rule pages_cover_rows) simp

text \<open>On a page the list has, the bar counts the rows that are shown.\<close>

lemma bar_counts_rows:
  assumes "1 \<le> l" "1 \<le> p" "p \<le> page_count (int (length rows)) l" "rows \<noteq> []"
    "pagination p (page_count (int (length rows)) l) (int (length rows)) l True = Some b"
  shows "int (length (fst (page_of rows (Some p) (Some l)))) = b_last b - b_first b + 1"
    "fst (page_of rows (Some p) (Some l)) \<noteq> []"
proof -
  have "(p - 1) * l < int (length rows)"
  proof -
    have "p \<le> ceil_div (int (length rows)) l \<or> p = 1" using assms(2,3) by (auto simp: page_count_def)
    then show ?thesis
    proof
      assume "p \<le> ceil_div (int (length rows)) l"
      then have "p * l \<le> ceil_div (int (length rows)) l * l" using assms(1) by (simp add: mult_right_mono)
      then show ?thesis using ceil_div_bounds(2) [of l "int (length rows)"] assms(1)
        by (simp only: left_diff_distrib) linarith
    qed (use assms(4) in simp)
  qed
  moreover define start where "start = (p - 1) * l"
  moreover have "0 \<le> (p - 1) * l" using assms(1,2) by simp
  ultimately have start: "0 \<le> start" "start < int (length rows)" by simp_all
  have pl: "p * l = start + l" by (simp add: start_def left_diff_distrib)
  have b: "b_first b = start + 1" "b_last b = min (p * l) (int (length rows))"
    using assms(4,5) by (auto simp: pagination_def start_def split: if_splits)
  have rows: "fst (page_of rows (Some p) (Some l)) = take (nat l) (drop (nat start) rows)"
    using assms(1,2) by (simp add: page_of_some start_def)
  show "int (length (fst (page_of rows (Some p) (Some l)))) = b_last b - b_first b + 1"
    using start assms(1) unfolding rows b pl by (auto simp: min_def)
  show "fst (page_of rows (Some p) (Some l)) \<noteq> []"
    using start assms(1) unfolding rows by auto
qed

section \<open>The page shown is a page of the list\<close>

definition pager_ok :: "pager \<Rightarrow> bool" where
  "pager_ok s = (1 \<le> pg_page s \<and> 1 \<le> pg_limit s)"

definition in_range :: "pager \<Rightarrow> bool" where
  "in_range s = (pg_page s \<le> page_count (pg_total s) (pg_limit s))"

lemma page_items_in: "Page p \<in> set (page_items page n) \<Longrightarrow> 1 < n \<Longrightarrow> 1 \<le> p \<and> p \<le> n"
  by (auto simp: page_items_def Let_def split: if_splits)

lemma pager_step_ok: "pager_ok s \<Longrightarrow> pager_ok (pager_step e s)"
  using page_items_in
  by (cases e) (auto simp: pager_ok_def bar_of_def pagination_def split: option.splits if_splits)

lemma page_count_pos: "1 \<le> page_count n l"
  by (simp add: page_count_def)

lemma pager_step_in_range:
  assumes "pager_ok s" "in_range s" "\<forall>n. e = Answered n \<longrightarrow> pg_page s \<le> page_count n (pg_limit s)"
  shows "in_range (pager_step e s)"
  using assms page_items_in page_count_pos
  by (cases e) (auto simp: pager_ok_def in_range_def bar_of_def pagination_def split: option.splits if_splits)

text \<open>
  A run is steady when the number of rows only shrinks while the first page is shown, as it
  does after a search.
\<close>

fun steady :: "pager \<Rightarrow> pager_event list \<Rightarrow> bool" where
  "steady s [] = True"
| "steady s (e # es) =
     ((case e of Answered n \<Rightarrow> pg_page s = 1 \<or> pg_total s \<le> n | _ \<Rightarrow> True) \<and> steady (pager_step e s) es)"

lemma page_count_mono: "1 \<le> l \<Longrightarrow> m \<le> n \<Longrightarrow> page_count m l \<le> page_count n l"
  using zdiv_mono1 [of "- n" "- m" l] unfolding page_count_def ceil_div_def by linarith

lemma steady_in_range:
  "steady s es \<Longrightarrow> pager_ok s \<Longrightarrow> in_range s \<Longrightarrow> pager_ok (pager_run es s) \<and> in_range (pager_run es s)"
proof (induction es arbitrary: s)
  case (Cons e es)
  have "in_range (pager_step e s)"
  proof (rule pager_step_in_range [OF Cons.prems(2,3)], intro allI impI)
    fix n assume "e = Answered n"
    then have "pg_page s = 1 \<or> pg_total s \<le> n" using Cons.prems(1) by simp
    then show "pg_page s \<le> page_count n (pg_limit s)"
      using Cons.prems(2,3) page_count_pos [of n "pg_limit s"]
        page_count_mono [of "pg_limit s" "pg_total s" n]
      by (auto simp: in_range_def pager_ok_def)
  qed
  then show ?case
    using Cons.IH [of "pager_step e s"] Cons.prems pager_step_ok by (simp add: pager_run_def)
qed (simp add: pager_run_def)

text \<open>
  whatever is clicked, searched and chosen, in whatever order the answers come, the table
  shows a page that the list has, as long as the list does not shrink under a reader who is
  past the first page.
\<close>

theorem shown_page_exists:
  assumes "steady fresh_pager es"
  shows "1 \<le> pg_page (pager_run es fresh_pager) \<and>
    pg_page (pager_run es fresh_pager)
      \<le> page_count (pg_total (pager_run es fresh_pager)) (pg_limit (pager_run es fresh_pager))"
  using steady_in_range [OF assms] page_count_pos
  by (simp add: pager_ok_def in_range_def fresh_pager_def)

theorem shown_page_exists_witness:
  "(let s = pager_run [Answered 57, Next, Next, Pick 6, Previous, Search ''x'', Answered 3, Rows 50] fresh_pager
    in 1 \<le> pg_page s \<and> pg_page s \<le> page_count (pg_total s) (pg_limit s))"
proof -
  let ?es = "[Answered 57, Next, Next, Pick 6, Previous, Search ''x'', Answered 3, Rows 50]"
  have "steady fresh_pager ?es" by code_simp
  from shown_page_exists [OF this] show ?thesis by (simp add: Let_def)
qed

text \<open>
  a list that does shrink leaves the reader behind its end: with 21 rows and the third page
  shown, deleting the one row on it leaves the third of two pages, which shows no rows and
  counts them as 21 to 20 of 20.
\<close>

theorem last_row_deleted:
  "(let s = pager_run [Answered 21, Next, Next, Answered 20] fresh_pager;
        rows = replicate 20 (0::nat)
    in pg_page s = 3 \<and> page_count (pg_total s) (pg_limit s) = 2 \<and>
       fst (page_of rows (Some (pg_page s)) (Some (pg_limit s))) = [] \<and>
       map_option (\<lambda>b. (b_first b, b_last b, b_total b, b_next b)) (bar_of s) = Some (21, 20, 20, None))"
  by code_simp

end
