(* ===== verification/Web_Gateway.thy ===== *)
theory Web_Gateway
  imports Prelude
begin

text \<open>
  The web gateway page of the company dashboard (\<^verbatim>\<open>app/dashboard/swg/page.tsx\<close>): the form that
  writes the domain and category policies, the dialogs and requests around it, the URL
  checker and the labels of the traffic table; and what the admin API makes of an update
  (\<open>PolicyHandler.Update\<close> in \<^verbatim>\<open>services/admin-api/internal/handlers/policies.go\<close>). Lists are
  fetched by react-query and come in as events; markup is not modelled.
\<close>

section \<open>Policies and the form\<close>

text \<open>A row of the API; the optional parts of \<open>PolicyRow\<close> are options.\<close>

record targets =
  t_scope :: "string option"
  t_team_ids :: "string list option"
  t_employee_ids :: "string list option"

record rules =
  r_domains :: "string list option"
  r_categories :: "string list option"

record policy_row =
  p_id :: string
  p_name :: string
  p_description :: "string option"
  p_type :: string
  p_action :: string
  p_enabled :: bool
  p_rules :: "rules option"
  p_targets :: "targets option"

record policy_form =
  g_id :: string
  g_name :: string
  g_description :: string
  g_match :: string
  g_domains :: string
  g_categories :: "string list"
  g_action :: string
  g_scope :: string
  g_team_ids :: "string list"
  g_employee_ids :: "string list"

definition empty_form :: policy_form where
  "empty_form =
     \<lparr>g_id = [], g_name = [], g_description = [], g_match = ''domain'', g_domains = [],
      g_categories = [], g_action = ''block'', g_scope = ''all'', g_team_ids = [], g_employee_ids = []\<rparr>"

definition orelse :: "'a option \<Rightarrow> 'a \<Rightarrow> 'a" where
  "orelse v d = (case v of None \<Rightarrow> d | Some x \<Rightarrow> x)"

definition newline :: string where
  "newline = [CHR 0x0A]"

definition open_edit :: "policy_row \<Rightarrow> policy_form" where
  "open_edit p =
     (let ds = Option.bind (p_rules p) r_domains; cs = Option.bind (p_rules p) r_categories;
          scope = orelse (Option.bind (p_targets p) t_scope) []
      in \<lparr>g_id = p_id p, g_name = p_name p, g_description = orelse (p_description p) [],
          g_match = p_type p, g_domains = join newline (orelse ds []), g_categories = orelse cs [],
          g_action = (if p_action p = ''alert'' then ''alert'' else ''block''),
          g_scope = (if scope = [] then ''all'' else scope),
          g_team_ids = orelse (Option.bind (p_targets p) t_team_ids) [],
          g_employee_ids = orelse (Option.bind (p_targets p) t_employee_ids) []\<rparr>)"

text \<open>\<open>split(/[\s,]+/)\<close>, then trimmed pieces that are not empty.\<close>

definition is_sep :: "char \<Rightarrow> bool" where
  "is_sep c = (is_ws c \<or> c = CHR '','')"

function split_seps :: "string \<Rightarrow> string list" where
  "split_seps s =
     (let a = takeWhile (\<lambda>c. \<not> is_sep c) s; r = dropWhile (\<lambda>c. \<not> is_sep c) s
      in if r = [] then [a] else a # split_seps (dropWhile is_sep r))"
  by pat_completeness auto
termination
proof (relation "measure length")
  fix s a r :: string
  assume "a = takeWhile (\<lambda>c. \<not> is_sep c) s" and r: "r = dropWhile (\<lambda>c. \<not> is_sep c) s" "r \<noteq> []"
  then have "is_sep (hd r)" using hd_dropWhile by metis
  then have "dropWhile is_sep r = dropWhile is_sep (tl r)" using r(2) by (cases r) auto
  moreover have "length (dropWhile is_sep (tl r)) \<le> length (tl r)" by (rule length_dropWhile_le)
  moreover have "length r \<le> length s" unfolding r(1) by (rule length_dropWhile_le)
  ultimately show "(dropWhile is_sep r, s) \<in> measure length" using r(2) by (cases r) auto
qed simp

declare split_seps.simps [simp del]

definition domain_list :: "string \<Rightarrow> string list" where
  "domain_list s = filter (\<lambda>d. d \<noteq> []) (map trim (split_seps s))"

record policy_body =
  b_name :: string
  b_description :: string
  b_type :: string
  b_action :: string
  b_enabled :: bool
  b_rules :: rules
  b_targets :: targets

definition body_of :: "policy_form \<Rightarrow> policy_body" where
  "body_of f =
     \<lparr>b_name = trim (g_name f), b_description = trim (g_description f), b_type = g_match f,
      b_action = g_action f, b_enabled = True,
      b_rules =
        (if g_match f = ''domain'' then \<lparr>r_domains = Some (domain_list (g_domains f)), r_categories = None\<rparr>
         else \<lparr>r_domains = None, r_categories = Some (g_categories f)\<rparr>),
      b_targets =
        \<lparr>t_scope = Some (g_scope f),
         t_team_ids = (if g_scope f = ''team'' then Some (g_team_ids f) else None),
         t_employee_ids = (if g_scope f = ''employee'' then Some (g_employee_ids f) else None)\<rparr>\<rparr>"

text \<open>\<open>submit\<close>: the message of the first thing that is missing, or the request.\<close>

definition submit :: "policy_form \<Rightarrow> string + string option \<times> policy_body" where
  "submit f =
     (if trim (g_name f) = [] then Inl ''Give the policy a name''
      else if g_match f = ''domain'' \<and> domain_list (g_domains f) = [] then Inl ''Add at least one domain''
      else if g_match f = ''url_category'' \<and> g_categories f = [] then Inl ''Pick at least one category''
      else if g_scope f = ''team'' \<and> g_team_ids f = [] then Inl ''Pick at least one team''
      else if g_scope f = ''employee'' \<and> g_employee_ids f = [] then Inl ''Pick at least one employee''
      else Inr (if g_id f = [] then None else Some (g_id f), body_of f))"

definition toggle_in :: "string list \<Rightarrow> string \<Rightarrow> string list" where
  "toggle_in xs i = (if i \<in> set xs then filter (\<lambda>x. x \<noteq> i) xs else xs @ [i])"

section \<open>What the API makes of an update\<close>

text \<open>
  The columns of the policy that an update of this page changes; the name is required. The
  priority is never sent, and the version, the bundle and the audit log are left out.
\<close>

definition update_policy :: "policy_row \<Rightarrow> policy_body \<Rightarrow> policy_row option" where
  "update_policy p b =
     (if b_name b = [] \<or> b_type b = [] then None
      else Some (p\<lparr>p_name := b_name b, p_description := Some (b_description b), p_type := b_type b,
        p_action := (if b_action b = [] then p_action p else b_action b),
        p_enabled := b_enabled b, p_rules := Some (b_rules b), p_targets := Some (b_targets b)\<rparr>))"

section \<open>The page\<close>

record gateway =
  w_form :: policy_form
  w_show_form :: bool
  w_delete_id :: "string option"
  w_saving :: bool
  w_deleting :: bool
  w_sent :: "(string option \<times> policy_body) list"
  w_deleted :: "string list"

datatype gateway_event =
    Open_Create
  | Open_Edit policy_row
  | Edit_Form "policy_form \<Rightarrow> policy_form"
  | Close_Form
  | Submit
  | Saved bool
  | Ask_Delete string
  | Cancel_Delete
  | Confirm_Delete
  | Deleted bool

definition fresh_gateway :: gateway where
  "fresh_gateway =
     \<lparr>w_form = empty_form, w_show_form = False, w_delete_id = None, w_saving = False,
      w_deleting = False, w_sent = [], w_deleted = []\<rparr>"

text \<open>A control acts when it is shown and enabled; an answer says whether the request succeeded.\<close>

fun gateway_step :: "gateway_event \<Rightarrow> gateway \<Rightarrow> gateway" where
  "gateway_step Open_Create s = s\<lparr>w_form := empty_form, w_show_form := True\<rparr>"
| "gateway_step (Open_Edit p) s = s\<lparr>w_form := open_edit p, w_show_form := True\<rparr>"
| "gateway_step (Edit_Form g) s = (if w_show_form s then s\<lparr>w_form := g (w_form s)\<rparr> else s)"
| "gateway_step Close_Form s = s\<lparr>w_show_form := False\<rparr>"
| "gateway_step Submit s =
     (if w_show_form s \<and> \<not> w_saving s
      then (case submit (w_form s) of
              Inl m \<Rightarrow> s
            | Inr r \<Rightarrow> s\<lparr>w_saving := True, w_sent := w_sent s @ [r]\<rparr>)
      else s)"
| "gateway_step (Saved ok) s =
     (if w_saving s
      then (if ok then s\<lparr>w_saving := False, w_show_form := False, w_form := empty_form\<rparr>
            else s\<lparr>w_saving := False\<rparr>)
      else s)"
| "gateway_step (Ask_Delete i) s = s\<lparr>w_delete_id := Some i\<rparr>"
| "gateway_step Cancel_Delete s = s\<lparr>w_delete_id := None\<rparr>"
| "gateway_step Confirm_Delete s =
     (case w_delete_id s of
        None \<Rightarrow> s
      | Some i \<Rightarrow> (if w_deleting s then s else s\<lparr>w_deleting := True, w_deleted := w_deleted s @ [i]\<rparr>))"
| "gateway_step (Deleted ok) s =
     (if w_deleting s
      then (if ok then s\<lparr>w_deleting := False, w_delete_id := None\<rparr> else s\<lparr>w_deleting := False\<rparr>)
      else s)"

definition gateway_run :: "gateway_event list \<Rightarrow> gateway \<Rightarrow> gateway" where
  "gateway_run es s = foldl (\<lambda>s e. gateway_step e s) s es"

section \<open>The URL checker\<close>

text \<open>\<open>handleCheck\<close>: the button is disabled during a check, the Enter key is not.\<close>

record checker =
  k_url :: string
  k_checking :: bool
  k_waiting :: "string list"
  k_result :: "jsval"

datatype check_event = Type_Url string | Check_Button | Check_Enter | Check_Answer string "exn + jsval"

definition handle_check :: "checker \<Rightarrow> checker" where
  "handle_check s =
     (if trim (k_url s) = [] then s
      else s\<lparr>k_checking := True, k_result := JNull, k_waiting := k_waiting s @ [k_url s]\<rparr>)"

fun check_step :: "check_event \<Rightarrow> checker \<Rightarrow> checker" where
  "check_step (Type_Url t) s = s\<lparr>k_url := t\<rparr>"
| "check_step Check_Button s = (if k_checking s then s else handle_check s)"
| "check_step Check_Enter s = handle_check s"
| "check_step (Check_Answer u r) s =
     (if u \<in> set (k_waiting s)
      then s\<lparr>k_checking := False, k_waiting := remove1 u (k_waiting s),
             k_result := (case r of Inl _ \<Rightarrow> k_result s | Inr d \<Rightarrow> d)\<rparr>
      else s)"

definition check_run :: "check_event list \<Rightarrow> checker \<Rightarrow> checker" where
  "check_run es s = foldl (\<lambda>s e. check_step e s) s es"

section \<open>Labels of the traffic table\<close>

definition action_label :: "string option \<Rightarrow> string option \<Rightarrow> string" where
  "action_label category event_type =
     (let cat = to_lower (orelse category [])
      in if cat = ''malware'' \<or> cat = ''malware_detection'' then ''Malware''
         else if cat = ''application_control'' \<or> event_type = Some ''process_start'' then ''Application''
         else ''Web request'')"

definition scope_label :: "policy_row \<Rightarrow> string" where
  "scope_label p =
     (let scope = orelse (Option.bind (p_targets p) t_scope) ''all'';
          size = (\<lambda>g. show_nat (length (orelse (Option.bind (p_targets p) g) [])))
      in if scope = ''all'' then ''Everyone''
         else if scope = ''team'' then size t_team_ids @ '' team(s)''
         else size t_employee_ids @ '' employee(s)'')"

section \<open>Domains out of a text and back\<close>

definition plain_domain :: "string \<Rightarrow> bool" where
  "plain_domain d = (d \<noteq> [] \<and> list_all (\<lambda>c. \<not> is_sep c) d)"

lemma split_seps_pieces: "d \<in> set (split_seps s) \<Longrightarrow> list_all (\<lambda>c. \<not> is_sep c) d"
proof (induction s rule: split_seps.induct)
  case (1 s)
  let ?a = "takeWhile (\<lambda>c. \<not> is_sep c) s" and ?r = "dropWhile (\<lambda>c. \<not> is_sep c) s"
  have a: "list_all (\<lambda>c. \<not> is_sep c) ?a" by (auto simp: list_all_iff dest: set_takeWhileD)
  have "split_seps s = (if ?r = [] then [?a] else ?a # split_seps (dropWhile is_sep ?r))"
    by (subst split_seps.simps) (simp add: Let_def)
  then consider "d = ?a" | "?r \<noteq> []" "d \<in> set (split_seps (dropWhile is_sep ?r))"
    using 1(2) by (auto split: if_splits)
  then show ?case
  proof cases
    case 2
    then show ?thesis using 1(1) [OF refl refl] by blast
  qed (use a in simp)
qed

lemma trim_plain: "list_all (\<lambda>c. \<not> is_sep c) d \<Longrightarrow> trim d = d"
  by (rule trim_id) (auto simp: list_all_iff is_sep_def)

lemma domain_list_plain: "list_all plain_domain (domain_list s)"
proof -
  have "trim d = d" if "d \<in> set (split_seps s)" for d
    using split_seps_pieces [OF that] by (rule trim_plain)
  then show ?thesis
    using split_seps_pieces by (auto simp: domain_list_def list_all_iff plain_domain_def)
qed

lemma newline_sep: "is_sep (CHR 0x0A)"
  by (simp add: is_sep_def is_ws_def)

lemma split_seps_plain: "list_all (\<lambda>c. \<not> is_sep c) d \<Longrightarrow> split_seps d = [d]"
  by (subst split_seps.simps) (simp add: list_all_iff)

lemma split_seps_join:
  "ds \<noteq> [] \<Longrightarrow> list_all plain_domain ds \<Longrightarrow> split_seps (join newline ds) = ds"
proof (induction newline ds rule: join.induct)
  case (3 x y ys)
  have x: "\<forall>c\<in>set x. \<not> is_sep c" and y: "plain_domain y"
    using 3 by (simp_all add: plain_domain_def list_all_iff)
  let ?r = "join newline (y # ys)"
  have "dropWhile is_sep ?r = ?r"
    using y by (cases y; cases ys) (auto simp: plain_domain_def)
  then show ?case
    using 3 x newline_sep
    by (subst split_seps.simps)
       (simp add: Let_def newline_def takeWhile_append dropWhile_append)
qed (simp_all add: split_seps_plain plain_domain_def)

lemma domain_list_join:
  assumes "list_all plain_domain ds"
  shows "domain_list (join newline ds) = ds"
proof (cases "ds = []")
  case True
  then show ?thesis by (simp add: domain_list_def split_seps.simps trim_def)
next
  case False
  have "map trim ds = ds" "filter (\<lambda>d. d \<noteq> []) ds = ds"
    using assms by (auto simp: list_all_iff plain_domain_def trim_plain intro!: map_idI filter_True)
  then show ?thesis using split_seps_join [OF False assms] by (simp add: domain_list_def)
qed

section \<open>What is sent\<close>

text \<open>A body that the rules of the form accept.\<close>

definition body_ok :: "policy_body \<Rightarrow> bool" where
  "body_ok b =
     (b_name b \<noteq> [] \<and> trim (b_name b) = b_name b \<and> trim (b_description b) = b_description b \<and>
      (if b_type b = ''domain''
       then (case r_domains (b_rules b) of None \<Rightarrow> False
             | Some ds \<Rightarrow> ds \<noteq> [] \<and> list_all plain_domain ds \<and> r_categories (b_rules b) = None)
       else (case r_categories (b_rules b) of None \<Rightarrow> False
             | Some cs \<Rightarrow> (b_type b = ''url_category'' \<longrightarrow> cs \<noteq> []) \<and> r_domains (b_rules b) = None)) \<and>
      (case t_scope (b_targets b) of None \<Rightarrow> False
       | Some scope \<Rightarrow>
           t_team_ids (b_targets b) \<noteq> Some [] \<and> t_employee_ids (b_targets b) \<noteq> Some [] \<and>
           (t_team_ids (b_targets b) \<noteq> None) = (scope = ''team'') \<and>
           (t_employee_ids (b_targets b) \<noteq> None) = (scope = ''employee'')))"

lemma submit_Inr:
  "submit f = Inr r \<longleftrightarrow>
     trim (g_name f) \<noteq> [] \<and> \<not> (g_match f = ''domain'' \<and> domain_list (g_domains f) = []) \<and>
     \<not> (g_match f = ''url_category'' \<and> g_categories f = []) \<and> \<not> (g_scope f = ''team'' \<and> g_team_ids f = []) \<and>
     \<not> (g_scope f = ''employee'' \<and> g_employee_ids f = []) \<and>
     r = (if g_id f = [] then None else Some (g_id f), body_of f)"
  unfolding submit_def by (simp only: if_distribR split: if_split) blast

lemma submit_body: "submit f = Inr (i, b) \<Longrightarrow> b = body_of f \<and> i = (if g_id f = [] then None else Some (g_id f))"
  by (simp add: submit_Inr)

lemma submit_ok:
  assumes "submit f = Inr (i, b)"
  shows "body_ok b"
proof -
  have b: "b = body_of f" and f: "trim (g_name f) \<noteq> []"
    "g_match f = ''domain'' \<Longrightarrow> domain_list (g_domains f) \<noteq> []"
    "g_match f = ''url_category'' \<Longrightarrow> g_categories f \<noteq> []"
    "g_scope f = ''team'' \<Longrightarrow> g_team_ids f \<noteq> []" "g_scope f = ''employee'' \<Longrightarrow> g_employee_ids f \<noteq> []"
    using assms by (simp_all add: submit_Inr)
  show ?thesis
    unfolding body_ok_def b body_of_def using f domain_list_plain [of "g_domains f"] by simp
qed

lemma gateway_step_sent:
  "list_all (\<lambda>(i, b). body_ok b) (w_sent s) \<Longrightarrow> list_all (\<lambda>(i, b). body_ok b) (w_sent (gateway_step e s))"
  by (cases e) (auto split: sum.splits option.splits dest: submit_ok)

text \<open>
  whatever is opened, typed, clicked and answered, every policy that the web gateway page
  sends is complete: a trimmed name, domains without separators or at least one category,
  and, for teams and employees alone, at least one of those it is for. Nothing chosen for
  another scope or another kind of match is sent with it.
\<close>

theorem sent_policies_complete:
  "list_all (\<lambda>(i, b). body_ok b) (w_sent (gateway_run es fresh_gateway))"
proof -
  have "list_all (\<lambda>(i, b). body_ok b) (w_sent (gateway_run es s))"
    if "list_all (\<lambda>(i, b). body_ok b) (w_sent s)" for s
    using that by (induction es arbitrary: s) (auto simp: gateway_run_def gateway_step_sent simp del: gateway_step.simps)
  from this [of fresh_gateway] show ?thesis by (simp add: fresh_gateway_def)
qed

section \<open>Editing\<close>

text \<open>
  C26: editing is a round trip: what the form sent and the API stored, opened again in the form
  and saved without a change, is sent exactly as before, for every form with one of the two
  kinds of match, one of the two actions and a scope.
\<close>

theorem policy_edit_roundtrip:
  assumes "submit f = Inr (i, b)" "update_policy p b = Some q" "p_id p \<noteq> []"
    "g_match f = ''domain'' \<or> g_match f = ''url_category''"
    "g_action f = ''block'' \<or> g_action f = ''alert''" "g_scope f \<noteq> []"
  shows "submit (open_edit q) = Inr (Some (p_id p), b)"
proof -
  have b: "b = body_of f" using assms(1) submit_body by blast
  have q: "q = p\<lparr>p_name := b_name b, p_description := Some (b_description b), p_type := b_type b,
        p_action := b_action b, p_enabled := True, p_rules := Some (b_rules b), p_targets := Some (b_targets b)\<rparr>"
    using assms(2,5) unfolding b by (auto simp: update_policy_def body_of_def split: if_splits)
  have again: "domain_list (join newline (domain_list (g_domains f))) = domain_list (g_domains f)"
    by (rule domain_list_join [OF domain_list_plain])
  have row: "open_edit q =
      f\<lparr>g_id := p_id p, g_name := trim (g_name f), g_description := trim (g_description f),
        g_domains := (if g_match f = ''domain'' then join newline (domain_list (g_domains f)) else []),
        g_categories := (if g_match f = ''domain'' then [] else g_categories f),
        g_team_ids := (if g_scope f = ''team'' then g_team_ids f else []),
        g_employee_ids := (if g_scope f = ''employee'' then g_employee_ids f else [])\<rparr>"
    using assms(5,6) unfolding q b by (auto simp: open_edit_def body_of_def orelse_def Let_def)
  show ?thesis
    using assms(1,3,4) again unfolding row b
    by (elim disjE) (simp_all add: submit_Inr body_of_def)
qed

theorem policy_edit_roundtrip_witness:
  "(let f = empty_form\<lparr>g_name := '' Social '', g_domains := ''x.com, t.co'', g_scope := ''team'', g_team_ids := [''t1'']\<rparr>;
        p = \<lparr>p_id = ''p1'', p_name = ''old'', p_description = None, p_type = ''domain'', p_action = ''alert'',
             p_enabled = True, p_rules = None, p_targets = None\<rparr>
    in submit (open_edit (the (update_policy p (body_of f)))) = Inr (Some ''p1'', body_of f))"
proof -
  let ?f = "empty_form\<lparr>g_name := '' Social '', g_domains := ''x.com, t.co'', g_scope := ''team'', g_team_ids := [''t1'']\<rparr>"
  let ?p = "\<lparr>p_id = ''p1'', p_name = ''old'', p_description = None, p_type = ''domain'', p_action = ''alert'',
             p_enabled = True, p_rules = None, p_targets = None\<rparr>"
  have "submit ?f = Inr (None, body_of ?f)" by code_simp
  moreover have "update_policy ?p (body_of ?f) = Some (the (update_policy ?p (body_of ?f)))" by code_simp
  ultimately show ?thesis
    using policy_edit_roundtrip [of ?f None "body_of ?f" ?p "the (update_policy ?p (body_of ?f))"]
    by (simp add: empty_form_def Let_def)
qed

text \<open>
  editing a policy switches it on: whatever is saved from the form of a policy that was
  disabled, if only to correct its name, the policy that is stored is enabled and blocks.
\<close>

theorem edit_enables_policy:
  assumes "submit f = Inr (i, b)" "update_policy p b = Some q"
  shows "p_enabled q"
  using submit_body [OF assms(1)] assms(2) by (auto simp: update_policy_def body_of_def split: if_splits)

definition paused_policy :: policy_row where
  "paused_policy =
     \<lparr>p_id = ''p1'', p_name = ''Social'', p_description = None, p_type = ''domain'', p_action = ''block'',
      p_enabled = False, p_rules = Some \<lparr>r_domains = Some [''x.com''], r_categories = None\<rparr>,
      p_targets = Some \<lparr>t_scope = Some ''all'', t_team_ids = None, t_employee_ids = None\<rparr>\<rparr>"

theorem edit_enables_policy_witness:
  "\<not> p_enabled paused_policy \<and>
   p_enabled (the (update_policy paused_policy (body_of (open_edit paused_policy))))"
proof
  have "submit (open_edit paused_policy) = Inr (Some ''p1'', body_of (open_edit paused_policy))" by code_simp
  moreover have "update_policy paused_policy (body_of (open_edit paused_policy)) =
      Some (the (update_policy paused_policy (body_of (open_edit paused_policy))))" by code_simp
  ultimately show "p_enabled (the (update_policy paused_policy (body_of (open_edit paused_policy))))"
    by (rule edit_enables_policy)
qed (simp add: paused_policy_def)

text \<open>
  Answers that come late: a save that succeeds after its form was closed and another opened
  closes the other form and loses what was typed; a URL checked with the Enter key during
  another check can be shown the other's result.
\<close>

lemma late_save_discards_form:
  "(let s = gateway_run
       [Open_Edit paused_policy, Submit, Close_Form, Open_Create, Edit_Form (g_name_update (\<lambda>_. ''New'')), Saved True]
       fresh_gateway
    in \<not> w_show_form s \<and> w_form s = empty_form)"
  by code_simp

lemma late_check_result:
  "(let s = check_run
       [Type_Url ''a.com'', Check_Enter, Type_Url ''b.com'', Check_Enter,
        Check_Answer ''b.com'' (Inr (JBool True)), Check_Answer ''a.com'' (Inr (JBool False))]
       \<lparr>k_url = [], k_checking = False, k_waiting = [], k_result = JNull\<rparr>
    in k_url s = ''b.com'' \<and> k_result s = JBool False)"
  by code_simp

end
