(* ===== verification/Support.thy ===== *)
theory Support
  imports Prelude
begin

text \<open>
  Support requests: the checks on attached files and the labels of \<^verbatim>\<open>lib/support.ts\<close>, the reply
  box of the company dashboard and of the superadmin panel
  (\<^verbatim>\<open>components/support/Composer.tsx\<close>), the form of a new request
  (\<^verbatim>\<open>app/dashboard/support/new/page.tsx\<close>), and the rules the API applies to the files
  (\<^verbatim>\<open>services/admin-api/internal/handlers/tickets.go\<close>). Files are a name and a size; the
  answers of the API are events. Toasts and markup are not modelled.
\<close>

section \<open>Files\<close>

record attachment =
  name_of :: string
  size_of :: nat

definition accept :: string where
  "accept = ''.png,.jpg,.jpeg,.gif,.webp,.pdf,.txt,.log,.csv,.zip''"

definition max_files :: nat where
  "max_files = 5"

definition max_file_bytes :: nat where
  "max_file_bytes = 10 * 1024 * 1024"

text \<open>The extension as the page sees it: what follows the last dot, or the whole name.\<close>

definition extension :: "string \<Rightarrow> string" where
  "extension n = ''.'' @ to_lower (last (split_on (CHR ''.'') n))"

definition type_error :: "attachment \<Rightarrow> string" where
  "type_error f = name_of f @ '': attach images, PDF, text, CSV, log or ZIP files''"

definition size_error :: "attachment \<Rightarrow> string" where
  "size_error f = name_of f @ '' is larger than 10 MB''"

definition count_error :: string where
  "count_error = ''Attach up to '' @ show_nat max_files @ '' files''"

fun add_files :: "attachment list \<Rightarrow> attachment list \<Rightarrow> attachment list \<Rightarrow> attachment list \<times> string option" where
  "add_files current chosen [] = (chosen, None)"
| "add_files current chosen (f # fs) =
     (if extension (name_of f) \<notin> set (split_on (CHR '','') accept) then (current, Some (type_error f))
      else if max_file_bytes < size_of f then (current, Some (size_error f))
      else if max_files \<le> length chosen then (current, Some count_error)
      else add_files current (chosen @ [f]) fs)"

definition check_files :: "attachment list \<Rightarrow> attachment list \<Rightarrow> attachment list \<times> string option" where
  "check_files current incoming = add_files current current incoming"

text \<open>
  \<open>fileSize\<close>. A size over a power of two is exact, and \<open>toFixed\<close> rounds to the nearest, a half
  upwards.
\<close>

definition file_size :: "nat \<Rightarrow> string" where
  "file_size n =
     (if n < 1024 then show_nat n @ '' B''
      else if n < 1024 * 1024 then show_nat ((2 * n + 1024) div (2 * 1024)) @ '' KB''
      else
        (let tenths = (20 * n + 1024 * 1024) div (2 * 1024 * 1024)
         in show_nat (tenths div 10) @ ''.'' @ show_nat (tenths mod 10) @ '' MB''))"

text \<open>\<open>timeAgo\<close>, with the time in milliseconds; \<open>day\<close> writes a date.\<close>

definition time_ago :: "(string \<Rightarrow> int option) \<Rightarrow> (string \<Rightarrow> string) \<Rightarrow> int \<Rightarrow> string \<Rightarrow> string" where
  "time_ago parse day now stamp =
     (if stamp = [] then []
      else
        (case parse stamp of
           None \<Rightarrow> day stamp
         | Some t \<Rightarrow>
             (let s = max 0 (now - t)
              in if s < 60 * 1000 then ''just now''
                 else if s < 3600 * 1000 then show_int (s div (60 * 1000)) @ ''m ago''
                 else if s < 86400 * 1000 then show_int (s div (3600 * 1000)) @ ''h ago''
                 else if s < 7 * 86400 * 1000 then show_int (s div (86400 * 1000)) @ ''d ago''
                 else day stamp)))"

definition priority_tone :: "string \<Rightarrow> string" where
  "priority_tone p =
     (if p = ''urgent'' then ''text-danger'' else if p = ''high'' then ''text-warning'' else ''text-muted-foreground'')"

section \<open>The rules of the API\<close>

definition allowed_attachments :: "string list" where
  "allowed_attachments =
     [''.png'', ''.jpg'', ''.jpeg'', ''.gif'', ''.webp'', ''.pdf'', ''.txt'', ''.log'', ''.csv'', ''.zip'']"

text \<open>\<open>filepath.Ext\<close>: the suffix from the last dot of a name without slashes, or nothing.\<close>

definition file_ext :: "string \<Rightarrow> string" where
  "file_ext n = (if CHR ''.'' \<in> set n then ''.'' @ last (split_on (CHR ''.'') n) else [])"

text \<open>
  \<open>readAttachments\<close>, up to the look at the contents. \<open>safeFileName\<close>, applied before, keeps the suffix of
  an accepted name.
\<close>

definition attachments_allowed :: "attachment list \<Rightarrow> bool" where
  "attachments_allowed fs =
     (length fs \<le> 5 \<and>
      list_all (\<lambda>f. to_lower (file_ext (name_of f)) \<in> set allowed_attachments \<and> size_of f \<le> 10 * 2 ^ 20) fs)"

section \<open>The reply box\<close>

record sent =
  m_body :: string
  m_files :: "attachment list"
  m_internal :: bool
  m_resolve :: bool

text \<open>
  The box of the superadmin panel; that of the company dashboard is the same without notes and
  without resolving. A send keeps the options of its click and answers later.
\<close>

record composer =
  c_body :: string
  c_files :: "attachment list"
  c_internal :: bool
  c_sending :: bool
  c_sent :: "sent list"

definition fresh_composer :: composer where
  "fresh_composer = \<lparr>c_body = [], c_files = [], c_internal = False, c_sending = False, c_sent = []\<rparr>"

datatype composer_event =
    Typed string
  | Add "attachment list"
  | Remove nat
  | Note_Tab bool
  | Send bool
  | Reply_Done bool

definition send_reply :: "bool \<Rightarrow> composer \<Rightarrow> composer" where
  "send_reply resolve s =
     (if trim (c_body s) = [] \<or> c_sending s then s
      else s\<lparr>c_sending := True,
        c_sent := c_sent s @ [\<lparr>m_body = trim (c_body s), m_files = c_files s, m_internal = c_internal s,
          m_resolve = resolve\<rparr>]\<rparr>)"

text \<open>The button that also resolves is not shown for an internal note.\<close>

fun composer_step :: "composer_event \<Rightarrow> composer \<Rightarrow> composer" where
  "composer_step (Typed t) s = s\<lparr>c_body := t\<rparr>"
| "composer_step (Add fs) s = s\<lparr>c_files := fst (check_files (c_files s) fs)\<rparr>"
| "composer_step (Remove i) s =
     s\<lparr>c_files := take i (c_files s) @ drop (Suc i) (c_files s)\<rparr>"
| "composer_step (Note_Tab b) s = s\<lparr>c_internal := b\<rparr>"
| "composer_step (Send resolve) s = (if resolve \<and> c_internal s then s else send_reply resolve s)"
| "composer_step (Reply_Done ok) s =
     (if \<not> c_sending s then s
      else if ok then s\<lparr>c_sending := False, c_body := [], c_files := []\<rparr>
      else s\<lparr>c_sending := False\<rparr>)"

definition composer_run :: "composer_event list \<Rightarrow> composer \<Rightarrow> composer" where
  "composer_run es s = foldl (\<lambda>s e. composer_step e s) s es"

section \<open>A new request\<close>

record new_request =
  q_topic :: string
  q_subject :: string
  q_body :: string
  q_priority :: string
  q_files :: "attachment list"
  q_sending :: bool
  q_touched :: bool
  q_sent :: "(string \<times> string \<times> string \<times> string \<times> attachment list) list"

definition topics :: "string list" where
  "topics = [''agent'', ''policies'', ''data_protection'', ''billing'', ''account'', ''data_residency'', ''other'']"

text \<open>The form may be opened with a topic, a subject and a text.\<close>

definition open_request :: "string \<Rightarrow> string \<Rightarrow> string \<Rightarrow> new_request" where
  "open_request topic subject body =
     \<lparr>q_topic = (if topic \<in> set topics then topic else []), q_subject = take 200 subject,
      q_body = take 5000 body, q_priority = ''normal'', q_files = [], q_sending = False,
      q_touched = False, q_sent = []\<rparr>"

definition request_valid :: "new_request \<Rightarrow> bool" where
  "request_valid q = (q_topic q \<noteq> [] \<and> 5 \<le> length (trim (q_subject q)) \<and> 15 \<le> length (trim (q_body q)))"

definition submit_request :: "new_request \<Rightarrow> new_request" where
  "submit_request q =
     (if \<not> request_valid q \<or> q_sending q then q\<lparr>q_touched := True\<rparr>
      else q\<lparr>q_touched := True, q_sending := True,
        q_sent := q_sent q @ [(trim (q_subject q), trim (q_body q), q_topic q, q_priority q, q_files q)]\<rparr>)"

section \<open>All files or none\<close>

definition file_ok :: "attachment \<Rightarrow> bool" where
  "file_ok f = (extension (name_of f) \<in> set allowed_attachments \<and> size_of f \<le> max_file_bytes)"

lemma accept_list: "split_on (CHR '','') accept = allowed_attachments"
  by code_simp

lemma add_files_all:
  "list_all file_ok fs \<Longrightarrow> fs = [] \<or> length chosen + length fs \<le> max_files \<Longrightarrow>
   add_files current chosen fs = (chosen @ fs, None)"
  by (induction current chosen fs rule: add_files.induct) (auto simp: file_ok_def accept_list)

lemma add_files_none:
  "\<not> (list_all file_ok fs \<and> (fs = [] \<or> length chosen + length fs \<le> max_files)) \<Longrightarrow>
   \<exists>e. add_files current chosen fs = (current, Some e)"
proof (induction current chosen fs rule: add_files.induct)
  case (2 current chosen f fs)
  show ?case
  proof (cases "file_ok f \<and> length chosen < max_files")
    case True
    then have "\<not> (list_all file_ok fs \<and> (fs = [] \<or> length (chosen @ [f]) + length fs \<le> max_files))"
      using "2.prems" by auto
    then show ?thesis using True "2.IH" by (auto simp: file_ok_def [of f] accept_list)
  next
    case False
    then show ?thesis by (auto simp: file_ok_def accept_list)
  qed
qed simp

text \<open>
  files are attached all or none: when each of them has an accepted extension and size and
  they fit with those attached before, all are added in order, without a message; otherwise
  none is, what was attached stays, and there is a message.
\<close>

theorem check_files_spec:
  "check_files current fs =
     (if list_all file_ok fs \<and> (fs = [] \<or> length current + length fs \<le> 5)
      then (current @ fs, None) else (current, Some (the (snd (check_files current fs)))))"
proof (cases "list_all file_ok fs \<and> (fs = [] \<or> length current + length fs \<le> max_files)")
  case True
  then show ?thesis using add_files_all [of fs current current] by (simp add: check_files_def max_files_def)
next
  case False
  then obtain e where "add_files current current fs = (current, Some e)" using add_files_none by blast
  then show ?thesis using False by (auto simp: check_files_def max_files_def)
qed

section \<open>What is sent\<close>

definition files_ok :: "attachment list \<Rightarrow> bool" where
  "files_ok fs = (list_all file_ok fs \<and> length fs \<le> 5)"

lemma check_files_ok: "files_ok current \<Longrightarrow> files_ok (fst (check_files current fs))"
  using add_files_all [of fs current current] add_files_none [of fs current current]
  by (cases "list_all file_ok fs \<and> (fs = [] \<or> length current + length fs \<le> max_files)")
     (auto simp: check_files_def files_ok_def max_files_def)

lemma files_ok_remove: "files_ok fs \<Longrightarrow> files_ok (take i fs @ drop (Suc i) fs)"
  by (auto simp: files_ok_def list_all_iff dest: in_set_takeD in_set_dropD)

text \<open>
  With a dot in its name, a file that the page accepts is one that the API accepts: the two
  lists and limits agree.
\<close>

lemma extension_file_ext: "CHR ''.'' \<in> set n \<Longrightarrow> extension n = to_lower (file_ext n)"
  by (simp add: extension_def file_ext_def to_lower_def lower_char_def)

definition message_ok :: "sent \<Rightarrow> bool" where
  "message_ok m =
     (m_body m \<noteq> [] \<and> trim (m_body m) = m_body m \<and> \<not> (m_internal m \<and> m_resolve m) \<and>
      (if list_all (\<lambda>f. CHR ''.'' \<in> set (name_of f)) (m_files m) then attachments_allowed (m_files m)
       else files_ok (m_files m)))"

lemma files_ok_allowed:
  assumes "files_ok fs" "list_all (\<lambda>f. CHR ''.'' \<in> set (name_of f)) fs"
  shows "attachments_allowed fs"
  using assms
  by (auto simp: files_ok_def attachments_allowed_def list_all_iff file_ok_def max_file_bytes_def extension_file_ext)

definition composer_ok :: "composer \<Rightarrow> bool" where
  "composer_ok s = (files_ok (c_files s) \<and> list_all message_ok (c_sent s))"

lemma composer_step_ok: "composer_ok s \<Longrightarrow> composer_ok (composer_step e s)"
  by (cases e)
     (auto simp: composer_ok_def send_reply_def message_ok_def check_files_ok files_ok_remove files_ok_allowed
        files_ok_def [of "[]"])

text \<open>
  whatever is typed, attached, removed and clicked, and however the API answers, every
  reply that is sent has a text, never resolves a request with an internal note, and carries
  only files that the API accepts by their number, size and extension, provided their names
  have one.
\<close>

theorem sent_replies_ok: "list_all message_ok (c_sent (composer_run es fresh_composer))"
proof -
  have "composer_ok (composer_run es s)" if "composer_ok s" for s
    using that by (induction es arbitrary: s) (auto simp: composer_run_def composer_step_ok simp del: composer_step.simps)
  from this [of fresh_composer] show ?thesis
    by (simp add: composer_ok_def fresh_composer_def files_ok_def)
qed

text \<open>
  a draft can be lost: what is typed, and a file that is attached, while a reply is under way
  is gone when it succeeds, though none of it was sent.
\<close>

theorem draft_lost_during_send:
  "(let s = composer_run [Typed ''First'', Send False, Typed ''Second'', Reply_Done True] fresh_composer
    in c_body s = [] \<and> map m_body (c_sent s) = [''First''])"
  by code_simp

text \<open>A file whose name is its extension passes the page and not the API.\<close>

lemma bare_extension_slips:
  "file_ok \<lparr>name_of = ''png'', size_of = 10\<rparr> \<and> \<not> attachments_allowed [\<lparr>name_of = ''png'', size_of = 10\<rparr>]"
  by (simp add: file_ok_def attachments_allowed_def extension_def file_ext_def to_lower_def lower_char_def
      allowed_attachments_def max_file_bytes_def of_char_def Let_def)

text \<open>A new request is only sent with a topic, a summary and a text of some length.\<close>

lemma request_sent_valid:
  assumes "list_all (\<lambda>(s, b, t, _). 5 \<le> length s \<and> 15 \<le> length b \<and> t \<noteq> []) (q_sent q)"
  shows "list_all (\<lambda>(s, b, t, _). 5 \<le> length s \<and> 15 \<le> length b \<and> t \<noteq> []) (q_sent (submit_request q))"
  using assms by (simp add: submit_request_def request_valid_def)

end
