(* ===== verification/Access_Control.thy ===== *)
theory Access_Control
  imports Api_Contract
begin

text \<open>
  Who may see and do what in the company dashboard: the permissions the panel knows and the
  hook that asks for them (\<^verbatim>\<open>lib/permissions.ts\<close>), the sidebar (\<^verbatim>\<open>components/layout/Sidebar.tsx\<close>),
  the menu of the header and the sections of the settings page, next to the permissions of
  the roles in the API (\<^verbatim>\<open>services/admin-api/internal/models/permissions.go\<close>) and those its
  routes require (\<^verbatim>\<open>internal/router/router.go\<close>). What a page reads when it opens is taken from
  the page. Icons and class names are not modelled.
\<close>

section \<open>Permissions\<close>

text \<open>\<open>PERMISSIONS\<close> of the panel.\<close>

definition ui_permissions :: "(string \<times> string) list" where
  "ui_permissions =
     [(''employeesRead'', ''employees:read''),
      (''employeesWrite'', ''employees:write''),
      (''teamsRead'', ''teams:read''),
      (''teamsWrite'', ''teams:write''),
      (''policiesRead'', ''policies:read''),
      (''policiesWrite'', ''policies:write''),
      (''activityRead'', ''activity:read''),
      (''reportsRead'', ''reports:read''),
      (''devicesRead'', ''devices:read''),
      (''devicesWrite'', ''devices:write''),
      (''swgRead'', ''swg:read''),
      (''swgWrite'', ''swg:write''),
      (''shadowItRead'', ''shadow_it:read''),
      (''shadowItWrite'', ''shadow_it:write''),
      (''casbRead'', ''casb:read''),
      (''casbWrite'', ''casb:write''),
      (''categoriesRead'', ''categories:read''),
      (''categoriesWrite'', ''categories:write''),
      (''settingsRead'', ''settings:read''),
      (''settingsWrite'', ''settings:write''),
      (''accessRequestsRead'', ''access_requests:read''),
      (''accessRequestsWrite'', ''access_requests:write''),
      (''usersRead'', ''users:read''),
      (''usersWrite'', ''users:write''),
      (''aiUse'', ''ai:use''),
      (''monitoringRead'', ''monitoring:read''),
      (''monitoringDeleteSession'', ''monitoring:delete_session''),
      (''monitoringDeleteScreenshot'', ''monitoring:delete_screenshot'')]"

definition ui_permission :: "string \<Rightarrow> string" where
  "ui_permission k = (case map_of ui_permissions k of None \<Rightarrow> [] | Some p \<Rightarrow> p)"

text \<open>\<open>AllPermissions\<close> of the API, and the permissions of each role.\<close>

definition all_permissions :: "string list" where
  "all_permissions =
     [''employees:read'', ''employees:write'', ''teams:read'', ''teams:write'',
      ''policies:read'', ''policies:write'', ''activity:read'', ''reports:read'',
      ''devices:read'', ''devices:write'', ''swg:read'', ''swg:write'', ''shadow_it:read'',
      ''shadow_it:write'', ''casb:read'', ''casb:write'', ''categories:read'',
      ''categories:write'', ''settings:read'', ''settings:write'', ''access_requests:read'',
      ''access_requests:write'', ''users:read'', ''users:write'', ''ai:use'',
      ''monitoring:read'', ''monitoring:delete_session'', ''monitoring:delete_screenshot'']"

definition analyst_permissions :: "string list" where
  "analyst_permissions =
     [''employees:read'', ''teams:read'', ''policies:read'', ''policies:write'',
      ''activity:read'', ''reports:read'', ''devices:read'', ''swg:read'', ''swg:write'',
      ''shadow_it:read'', ''shadow_it:write'', ''casb:read'', ''casb:write'',
      ''categories:read'', ''categories:write'', ''access_requests:read'',
      ''access_requests:write'', ''settings:read'', ''ai:use'', ''monitoring:read'']"

definition manager_permissions :: "string list" where
  "manager_permissions =
     [''employees:read'', ''employees:write'', ''teams:read'', ''policies:read'',
      ''activity:read'', ''reports:read'', ''devices:read'', ''swg:read'', ''shadow_it:read'',
      ''casb:read'', ''categories:read'', ''access_requests:read'', ''access_requests:write'',
      ''ai:use'', ''monitoring:read'']"

definition read_only_permissions :: "string list" where
  "read_only_permissions =
     [''employees:read'', ''teams:read'', ''policies:read'', ''activity:read'',
      ''reports:read'', ''devices:read'', ''swg:read'', ''shadow_it:read'', ''casb:read'',
      ''categories:read'', ''access_requests:read'', ''settings:read'']"

definition permissions_for_role :: "string \<Rightarrow> string list" where
  "permissions_for_role role =
     (if role = ''superadmin'' \<or> role = ''org_admin'' then all_permissions
      else if role = ''analyst'' then analyst_permissions
      else if role = ''manager'' then manager_permissions
      else if role = ''read_only'' then read_only_permissions
      else [])"

definition role_has_permission :: "string \<Rightarrow> string \<Rightarrow> bool" where
  "role_has_permission role p = (p \<in> set (permissions_for_role role))"

definition assignable_roles :: "string list" where
  "assignable_roles = [''org_admin'', ''manager'', ''analyst'', ''read_only'']"

section \<open>The hook\<close>

text \<open>The session as the hook sees it: whether it is still loading, and the user's permissions.\<close>

record access =
  a_demo :: bool
  a_loading :: bool
  a_role :: string
  a_permissions :: "string list"
  a_team_ids :: "string list"

definition can :: "access \<Rightarrow> string \<Rightarrow> bool" where
  "can a p = (a_demo a \<or> a_loading a \<or> p \<in> set (a_permissions a))"

definition can_any :: "access \<Rightarrow> string list \<Rightarrow> bool" where
  "can_any a ps = (a_demo a \<or> a_loading a \<or> list_ex (\<lambda>p. p \<in> set (a_permissions a)) ps)"

definition is_admin :: "access \<Rightarrow> bool" where
  "is_admin a = (a_role a = ''org_admin'' \<or> a_role a = ''superadmin'')"

definition is_team_scoped :: "access \<Rightarrow> bool" where
  "is_team_scoped a = (a_role a = ''manager'' \<and> a_team_ids a \<noteq> [])"

text \<open>A user who is signed in: the API sends the permissions of the role with the user.\<close>

definition signed_in :: "string \<Rightarrow> access" where
  "signed_in role =
     \<lparr>a_demo = False, a_loading = False, a_role = role, a_permissions = permissions_for_role role,
      a_team_ids = []\<rparr>"

section \<open>The sidebar\<close>

record nav_item =
  n_href :: string
  n_label :: string
  n_permission :: "string option"

record nav_group =
  g_id :: string
  g_label :: string
  g_items :: "nav_item list"

definition nav_entry :: "string \<Rightarrow> string \<Rightarrow> string \<Rightarrow> nav_item" where
  "nav_entry href lab k = \<lparr>n_href = href, n_label = lab, n_permission = Some (ui_permission k)\<rparr>"

definition overview_item :: nav_item where
  "overview_item = \<lparr>n_href = ''/dashboard'', n_label = ''Dashboard'', n_permission = None\<rparr>"

definition nav_groups :: "nav_group list" where
  "nav_groups =
     [\<lparr>g_id = ''organization'', g_label = ''Organization'', g_items =
        [nav_entry ''/dashboard/employees'' ''Employees'' ''employeesRead'',
         nav_entry ''/dashboard/teams'' ''Teams'' ''teamsRead'',
         nav_entry ''/dashboard/devices'' ''Devices'' ''devicesRead'',
         nav_entry ''/dashboard/users'' ''Team & Access'' ''usersRead'']\<rparr>,
      \<lparr>g_id = ''policies'', g_label = ''Policy Management'', g_items =
        [nav_entry ''/dashboard/categories'' ''Policy Categories'' ''categoriesRead'',
         nav_entry ''/dashboard/swg'' ''Web Gateway'' ''swgRead'',
         nav_entry ''/dashboard/applications'' ''Application Control'' ''policiesRead'',
         nav_entry ''/dashboard/dlp'' ''Data Loss Prevention'' ''policiesRead'']\<rparr>,
      \<lparr>g_id = ''insights'', g_label = ''Monitoring'', g_items =
        [nav_entry ''/dashboard/activity'' ''Activity'' ''activityRead'',
         nav_entry ''/dashboard/screenshots'' ''Screenshots'' ''monitoringRead'',
         nav_entry ''/dashboard/access-requests'' ''Access Requests'' ''accessRequestsRead'',
         nav_entry ''/dashboard/reports'' ''Reports'' ''reportsRead'']\<rparr>]"

definition visible_item :: "access \<Rightarrow> nav_item \<Rightarrow> bool" where
  "visible_item a i = (case n_permission i of None \<Rightarrow> True | Some p \<Rightarrow> p = [] \<or> can a p)"

definition visible_groups :: "access \<Rightarrow> nav_group list" where
  "visible_groups a =
     filter (\<lambda>g. g_items g \<noteq> [])
       (map (\<lambda>g. g\<lparr>g_items := filter (visible_item a) (g_items g)\<rparr>) nav_groups)"

definition is_item_active :: "string \<Rightarrow> string \<Rightarrow> bool" where
  "is_item_active path href = (path = href \<or> href \<noteq> ''/dashboard'' \<and> starts_with path href)"

definition active_group :: "string \<Rightarrow> nav_group option" where
  "active_group path = find (\<lambda>g. list_ex (\<lambda>i. is_item_active path (n_href i)) (g_items g)) nav_groups"

text \<open>The groups that are closed: a click toggles one, and a page that is opened opens its group.\<close>

definition toggle_group :: "string \<Rightarrow> string list \<Rightarrow> string list" where
  "toggle_group i closed = (if i \<in> set closed then filter (\<lambda>g. g \<noteq> i) closed else closed @ [i])"

definition open_page :: "string \<Rightarrow> string list \<Rightarrow> string list" where
  "open_page path closed =
     (case active_group path of
        None \<Rightarrow> closed
      | Some g \<Rightarrow> (if g_id g \<in> set closed then filter (\<lambda>i. i \<noteq> g_id g) closed else closed))"

text \<open>The pages the header's menu leads to, for everybody.\<close>

definition header_menu :: "string list" where
  "header_menu = [''/dashboard/profile'', ''/dashboard/settings'', ''/dashboard/support'']"

definition reachable_pages :: "access \<Rightarrow> string list" where
  "reachable_pages a = n_href overview_item # concat (map (\<lambda>g. map n_href (g_items g)) (visible_groups a)) @ header_menu"

section \<open>The sections of the settings page\<close>

definition settings_tabs :: "(string \<times> bool) list" where
  "settings_tabs =
     [(''password'', False), (''two-factor'', False), (''notifications'', True), (''working-hours'', True),
      (''monitoring'', True), (''block-page'', True), (''org-security'', True), (''data-residency'', True),
      (''sessions'', False)]"

definition shown_tabs :: "access \<Rightarrow> string list" where
  "shown_tabs a = map fst (filter (\<lambda>(t, org_level). \<not> org_level \<or> can a (ui_permission ''settingsRead'')) settings_tabs)"

text \<open>The section that opens for the hash of the address.\<close>

definition tab_of_hash :: "string \<Rightarrow> string \<Rightarrow> string" where
  "tab_of_hash hash active = (if hash \<in> fst ` set settings_tabs then hash else active)"

section \<open>What the routes require\<close>

text \<open>The permission that the route of a handler requires; the others only need a session.\<close>

definition route_permissions :: "(string \<times> string) list" where
  "route_permissions =
     [(''empH.List'', ''employees:read''),
      (''empH.Create'', ''employees:write''),
      (''empH.Departments'', ''employees:read''),
      (''empH.ExportCSV'', ''employees:read''),
      (''empH.ImportCSV'', ''employees:write''),
      (''empH.BulkDelete'', ''employees:write''),
      (''empH.Get'', ''employees:read''),
      (''empH.Update'', ''employees:write''),
      (''empH.Delete'', ''employees:write''),
      (''empH.GetActivity'', ''activity:read''),
      (''portalH.SetPortalPassword'', ''employees:write''),
      (''agentH.GenerateEnrollmentToken'', ''devices:write''),
      (''agentH.ListEnrollmentTokens'', ''devices:read''),
      (''agentH.ListDevices'', ''devices:read''),
      (''agentH.GetDevice'', ''devices:read''),
      (''agentH.RevokeDevice'', ''devices:write''),
      (''enfH.SetDeviceOwnership'', ''devices:write''),
      (''agentH.ListDeviceActivity'', ''devices:read''),
      (''enfH.GetDeviceEnforcement'', ''devices:read''),
      (''enfH.PutDeviceSchedule'', ''devices:write''),
      (''enfH.DeleteDeviceSchedule'', ''devices:write''),
      (''teamH.List'', ''teams:read''),
      (''teamH.Create'', ''teams:write''),
      (''teamH.Get'', ''teams:read''),
      (''teamH.Update'', ''teams:write''),
      (''enfH.PutTeamSchedule'', ''teams:write''),
      (''enfH.DeleteTeamSchedule'', ''teams:write''),
      (''teamH.Delete'', ''teams:write''),
      (''teamH.GetMembers'', ''teams:read''),
      (''teamH.AssignEmployees'', ''teams:write''),
      (''teamH.RemoveEmployee'', ''teams:write''),
      (''policyH.List'', ''policies:read''),
      (''policyH.Create'', ''policies:write''),
      (''policyH.GetTypes'', ''policies:read''),
      (''policyH.Export'', ''policies:read''),
      (''policyH.Import'', ''policies:write''),
      (''policyH.Get'', ''policies:read''),
      (''policyH.Update'', ''policies:write''),
      (''policyH.Delete'', ''policies:write''),
      (''policyH.Toggle'', ''policies:write''),
      (''policyH.Duplicate'', ''policies:write''),
      (''policyH.Assign'', ''policies:write''),
      (''policyH.ResolvedDomains'', ''policies:read''),
      (''arH.BlockedEmployees'', ''policies:read''),
      (''monH.Screenshots'', ''monitoring:read''),
      (''monH.Employees'', ''monitoring:read''),
      (''monH.GetSettings'', ''settings:read''),
      (''monH.UpdateSettings'', ''settings:write''),
      (''monH.DeleteSession'', ''monitoring:delete_session''),
      (''monH.DeleteScreenshot'', ''monitoring:delete_screenshot''),
      (''enfH.GetOrgSchedule'', ''settings:read''),
      (''enfH.PutOrgSchedule'', ''settings:write''),
      (''enfH.DeleteOrgSchedule'', ''settings:write''),
      (''enfH.ListSchedules'', ''settings:read''),
      (''appH.Catalog'', ''policies:read''),
      (''appH.ListRules'', ''policies:read''),
      (''appH.CreateRule'', ''policies:write''),
      (''appH.UpdateRule'', ''policies:write''),
      (''appH.DeleteRule'', ''policies:write''),
      (''appH.Events'', ''activity:read''),
      (''appH.CreateApplication'', ''policies:write''),
      (''invH.ListInstalled'', ''policies:read''),
      (''invH.SetControl'', ''policies:write''),
      (''appH.DeleteApplication'', ''policies:write''),
      (''policyH.TestDLP'', ''policies:read''),
      (''shadowH.DiscoveredApps'', ''shadow_it:read''),
      (''shadowH.Sanction'', ''shadow_it:write''),
      (''casbH.AppControl'', ''casb:read''),
      (''casbH.OOBAnalyze'', ''casb:read''),
      (''casbH.ListRules'', ''casb:read''),
      (''casbH.CreateRule'', ''casb:write''),
      (''casbH.UpdateRule'', ''casb:write''),
      (''casbH.ToggleRule'', ''casb:write''),
      (''casbH.DeleteRule'', ''casb:write''),
      (''repH.Overview'', ''reports:read''),
      (''repH.Catalog'', ''reports:read''),
      (''repH.Report'', ''reports:read''),
      (''aiH.ListSessions'', ''ai:use''),
      (''aiH.CreateSession'', ''ai:use''),
      (''aiH.GetSession'', ''ai:use''),
      (''aiH.UpdateSession'', ''ai:use''),
      (''aiH.DeleteSession'', ''ai:use''),
      (''aiH.AddMessage'', ''ai:use''),
      (''companyH.Get'', ''settings:read''),
      (''companyH.Update'', ''settings:write''),
      (''companyH.Timezones'', ''settings:read''),
      (''companyH.UpdateNotifications'', ''settings:write''),
      (''companyH.GetBlockPage'', ''settings:read''),
      (''companyH.UpdateBlockPage'', ''settings:write''),
      (''orgUserH.List'', ''users:read''),
      (''orgUserH.Create'', ''users:write''),
      (''orgUserH.Update'', ''users:write''),
      (''orgUserH.Delete'', ''users:write''),
      (''actH.List'', ''activity:read''),
      (''actH.Stats'', ''activity:read''),
      (''swgH.ListDomainRules'', ''swg:read''),
      (''swgH.CreateDomainRule'', ''swg:write''),
      (''swgH.DeleteDomainRule'', ''swg:write''),
      (''swgH.ListCategories'', ''categories:read''),
      (''swgH.Stats'', ''swg:read''),
      (''swgH.CheckURLDashboard'', ''swg:read''),
      (''swgH.ThreatLookup'', ''swg:read''),
      (''catH.List'', ''categories:read''),
      (''catH.ListDomains'', ''categories:read''),
      (''catH.AddDomains'', ''categories:write''),
      (''catH.DeleteDomain'', ''categories:write''),
      (''catH.Delete'', ''categories:write''),
      (''catH.Restore'', ''categories:write''),
      (''mfaH.GetOrgPolicy'', ''users:read''),
      (''mfaH.SetOrgPolicy'', ''users:write''),
      (''agentH.GetMITMSettings'', ''settings:read''),
      (''agentH.UpdateMITMSettings'', ''settings:write''),
      (''agentH.ListBypassPlatforms'', ''settings:read''),
      (''agentH.DiscoverBypassDomains'', ''settings:read''),
      (''residencyH.Get'', ''settings:read''),
      (''residencyH.SetEnabled'', ''settings:write''),
      (''residencyH.TestDatabase'', ''settings:write''),
      (''residencyH.SaveDatabase'', ''settings:write''),
      (''residencyH.DisconnectDatabase'', ''settings:write''),
      (''residencyH.TestFiles'', ''settings:write''),
      (''residencyH.SaveFiles'', ''settings:write''),
      (''residencyH.DisconnectFiles'', ''settings:write''),
      (''residencyH.MoveHistory'', ''settings:write''),
      (''arH.List'', ''access_requests:read''),
      (''arH.Approve'', ''access_requests:write''),
      (''arH.Deny'', ''access_requests:write''),
      (''arH.Revoke'', ''access_requests:write'')]"

definition admits :: "string \<Rightarrow> string \<Rightarrow> bool" where
  "admits role h =
     (case map_of route_permissions h of None \<Rightarrow> True | Some p \<Rightarrow> role_has_permission role p)"

text \<open>Whether a call of the dashboard is answered by a handler that admits the role.\<close>

definition granted :: "string \<Rightarrow> company_call_any \<Rightarrow> bool" where
  "granted role c =
     (case serve (ep_method (company_endpoint c)) (ep_path (company_endpoint c)) of
        None \<Rightarrow> False
      | Some h \<Rightarrow> admits role h)"

section \<open>What the pages read\<close>

text \<open>The reads around every page: the bell and the support badge.\<close>

definition layout_reads :: "company_call_any list" where
  "layout_reads =
     [Call_Activity (Activity_List JUndef), Call_Access_Request (Access_Request_List JUndef),
      Call_Ticket Ticket_Unread]"

text \<open>
  The reads each page makes when it opens. The query parameters are left out: a route does not
  look at them.
\<close>

definition dashboard_reads :: "company_call_any list" where
  "dashboard_reads =
     [Call_Report (Report_Overview JUndef)]"

definition employees_reads :: "company_call_any list" where
  "employees_reads =
     [Call_Employee (Employee_List JUndef), Call_Team (Team_List JUndef), Call_Employee Employee_Departments]"

definition teams_reads :: "company_call_any list" where
  "teams_reads =
     [Call_Team (Team_List JUndef)]"

definition devices_reads :: "company_call_any list" where
  "devices_reads =
     [Call_Device (Device_List JUndef), Call_Device (Device_Activity JUndef)]"

definition users_reads :: "company_call_any list" where
  "users_reads =
     [Call_Org_User (Org_User_List JUndef), Call_Team (Team_List JUndef), Call_Mfa Mfa_Org_Policy]"

definition categories_reads :: "company_call_any list" where
  "categories_reads =
     [Call_Category (Category_List JUndef)]"

definition swg_reads :: "company_call_any list" where
  "swg_reads =
     [Call_Swg Swg_Stats, Call_Policy (Policy_List JUndef), Call_Activity (Activity_List JUndef),
      Call_Category (Category_List JUndef), Call_Team (Team_List JUndef), Call_Employee (Employee_List JUndef)]"

definition applications_reads :: "company_call_any list" where
  "applications_reads =
     [Call_App_Control (App_Control_Installed JUndef), Call_Employee (Employee_List JUndef)]"

definition dlp_reads :: "company_call_any list" where
  "dlp_reads =
     [Call_Activity (Activity_List JUndef)]"

definition activity_reads :: "company_call_any list" where
  "activity_reads =
     [Call_Activity (Activity_List JUndef)]"

definition screenshots_reads :: "company_call_any list" where
  "screenshots_reads =
     [Call_Monitoring Monitoring_Employees, Call_Monitoring (Monitoring_Screenshots JUndef)]"

definition access_requests_reads :: "company_call_any list" where
  "access_requests_reads =
     [Call_Access_Request (Access_Request_List JUndef)]"

definition reports_reads :: "company_call_any list" where
  "reports_reads =
     [Call_Report Report_Catalog, Call_Report (Report_Get ''executive'' JUndef)]"

definition profile_reads :: "company_call_any list" where
  "profile_reads =
     [Call_Company Company_Get, Call_Company Company_Timezones]"

definition support_reads :: "company_call_any list" where
  "support_reads =
     [Call_Ticket (Ticket_List JUndef)]"

definition page_reads :: "string \<Rightarrow> company_call_any list" where
  "page_reads p =
     (case map_of
        [(''/dashboard'', dashboard_reads),
         (''/dashboard/employees'', employees_reads),
         (''/dashboard/teams'', teams_reads),
         (''/dashboard/devices'', devices_reads),
         (''/dashboard/users'', users_reads),
         (''/dashboard/categories'', categories_reads),
         (''/dashboard/swg'', swg_reads),
         (''/dashboard/applications'', applications_reads),
         (''/dashboard/dlp'', dlp_reads),
         (''/dashboard/activity'', activity_reads),
         (''/dashboard/screenshots'', screenshots_reads),
         (''/dashboard/access-requests'', access_requests_reads),
         (''/dashboard/reports'', reports_reads),
         (''/dashboard/profile'', profile_reads),
         (''/dashboard/support'', support_reads)] p of
        None \<Rightarrow> []
      | Some cs \<Rightarrow> cs)"

text \<open>What a section of the settings page reads.\<close>

definition tab_reads :: "access \<Rightarrow> string \<Rightarrow> company_call_any list" where
  "tab_reads a t =
     (if t = ''two-factor'' then [Call_Mfa Mfa_Status]
      else if t = ''notifications'' then [Call_Company Company_Get]
      else if t = ''working-hours''
      then [Call_Enforcement Enforcement_Get_Org_Schedule, Call_Company Company_Timezones]
      else if t = ''monitoring'' then [Call_Monitoring Monitoring_Get_Settings]
      else if t = ''block-page'' then [Call_Company Company_Block_Page]
      else if t = ''org-security''
      then (if can a (ui_permission ''usersWrite'') then [Call_Mfa Mfa_Org_Policy] else []) @
           [Call_Settings Settings_Get_Mitm]
      else if t = ''data-residency'' then [Call_Residency Residency_Get]
      else [])"

text \<open>
  The controls of six pages that change something, each with its call. None of them asks for a
  permission: they are shown to everybody who can open the page. The identifiers are those of
  the row (\<open>i\<close>, \<open>j\<close>) and \<open>d\<close> is what was typed.
\<close>

definition teams_controls :: "string \<Rightarrow> string \<Rightarrow> jsval \<Rightarrow> company_call_any list" where
  "teams_controls i j d =
     [Call_Team (Team_Create d), Call_Team (Team_Update i d), Call_Team (Team_Delete i),
      Call_Team (Team_Assign_Employees i d), Call_Team (Team_Remove_Employee i j)]"

definition categories_controls :: "string \<Rightarrow> string \<Rightarrow> jsval \<Rightarrow> company_call_any list" where
  "categories_controls i j d =
     [Call_Category (Category_Add_Domains i d), Call_Category (Category_Delete_Domain i j),
      Call_Category (Category_Delete i), Call_Category (Category_Restore i)]"

definition swg_controls :: "string \<Rightarrow> string \<Rightarrow> jsval \<Rightarrow> company_call_any list" where
  "swg_controls i j d =
     [Call_Policy (Policy_Update i d), Call_Policy (Policy_Create d), Call_Policy (Policy_Delete i),
      Call_Policy (Policy_Toggle i)]"

definition applications_controls :: "string \<Rightarrow> string \<Rightarrow> jsval \<Rightarrow> company_call_any list" where
  "applications_controls i j d =
     [Call_App_Control (App_Control_Set_Control i d)]"

definition devices_controls :: "string \<Rightarrow> string \<Rightarrow> jsval \<Rightarrow> company_call_any list" where
  "devices_controls i j d =
     [Call_Device (Device_Revoke i)]"

definition access_requests_controls :: "string \<Rightarrow> string \<Rightarrow> jsval \<Rightarrow> company_call_any list" where
  "access_requests_controls i j d =
     [Call_Access_Request (Access_Request_Approve i d), Call_Access_Request (Access_Request_Deny i d),
      Call_Access_Request (Access_Request_Revoke i d)]"

definition open_controls :: "string \<Rightarrow> string \<Rightarrow> jsval \<Rightarrow> (string \<times> company_call_any list) list" where
  "open_controls i j d =
     [(''/dashboard/teams'', teams_controls i j d),
      (''/dashboard/categories'', categories_controls i j d),
      (''/dashboard/swg'', swg_controls i j d),
      (''/dashboard/applications'', applications_controls i j d),
      (''/dashboard/devices'', devices_controls i j d),
      (''/dashboard/access-requests'', access_requests_controls i j d)]"

section \<open>The two lists of permissions\<close>

text \<open>the panel and the API name the same permissions.\<close>

theorem ui_matches_api:
  "set (map snd ui_permissions) = set all_permissions \<and> distinct (map snd ui_permissions) \<and>
   distinct all_permissions \<and> set (map snd route_permissions) \<subseteq> set all_permissions \<and>
   (\<forall>r \<in> set assignable_roles. set (permissions_for_role r) \<subseteq> set all_permissions)"
  by code_simp

theorem ui_matches_api_witness:
  "role_has_permission ''analyst'' ''swg:write'' \<and> ''analyst'' \<in> set assignable_roles \<and>
   ''swg:write'' \<in> set all_permissions"
proof -
  have r: "''analyst'' \<in> set assignable_roles" and p: "''swg:write'' \<in> set (permissions_for_role ''analyst'')"
    by code_simp+
  with ui_matches_api show ?thesis
    unfolding role_has_permission_def by blast
qed

text \<open>
  each role has what its description grants: a manager rewrites no policy and adds no
  administrator, an analyst manages neither users nor settings, and read-only reads only.
\<close>

theorem roles_as_described:
  "\<not> role_has_permission ''manager'' ''policies:write'' \<and> \<not> role_has_permission ''manager'' ''users:write'' \<and>
   role_has_permission ''manager'' ''access_requests:write'' \<and>
   \<not> role_has_permission ''analyst'' ''users:read'' \<and> \<not> role_has_permission ''analyst'' ''users:write'' \<and>
   \<not> role_has_permission ''analyst'' ''settings:write'' \<and> role_has_permission ''analyst'' ''policies:write'' \<and>
   list_all (\<lambda>p. drop (length p - 5) p = '':read'') (permissions_for_role ''read_only'') \<and>
   \<not> role_has_permission ''employee'' p"
proof -
  have e: "permissions_for_role ''employee'' = []"
    by code_simp
  show ?thesis
    by (intro conjI; (code_simp | simp add: role_has_permission_def e))
qed

section \<open>The sidebar\<close>

lemma can_demo [simp]: "a_demo a \<Longrightarrow> can a p" and can_loading [simp]: "a_loading a \<Longrightarrow> can a p"
  by (simp_all add: can_def)

text \<open>
  the sidebar shows exactly the items whose permission the user has, in the order of the
  list, and no heading without items.
\<close>

theorem sidebar_shows_permitted:
  "concat (map g_items (visible_groups a)) = filter (visible_item a) (concat (map g_items nav_groups)) \<and>
   list_all (\<lambda>g. g_items g \<noteq> []) (visible_groups a)"
proof
  have "concat (map g_items (filter (\<lambda>g. g_items g \<noteq> []) (map (\<lambda>g. g\<lparr>g_items := filter P (g_items g)\<rparr>) gs))) =
      filter P (concat (map g_items gs))" for P gs
    by (induction gs) auto
  then show "concat (map g_items (visible_groups a)) = filter (visible_item a) (concat (map g_items nav_groups))"
    by (simp only: visible_groups_def)
qed (simp add: visible_groups_def list_all_iff)

text \<open>A visit of the dashboard: pages are opened and headings are clicked.\<close>

datatype sidebar_event = Go string | Click string

definition sidebar_step :: "string list \<Rightarrow> sidebar_event \<Rightarrow> string list" where
  "sidebar_step closed e = (case e of Go path \<Rightarrow> open_page path closed | Click i \<Rightarrow> toggle_group i closed)"

lemma prefixes_comparable:
  assumes "starts_with s p" "starts_with s q"
  shows "starts_with p q \<or> starts_with q p"
  using assms unfolding starts_with_iff by (auto simp: append_eq_append_conv2)

lemma active_prefix: "is_item_active path h \<Longrightarrow> starts_with path h"
  by (auto simp: is_item_active_def starts_with_def)

text \<open>No address of one group is a prefix of an address of another, so one page has one group.\<close>

lemma groups_apart:
  "list_all (\<lambda>g. list_all (\<lambda>h. g_id g = g_id h \<or>
      list_all (\<lambda>i. list_all (\<lambda>j. \<not> starts_with (n_href i) (n_href j) \<and> \<not> starts_with (n_href j) (n_href i)) (g_items h)) (g_items g))
    nav_groups) nav_groups"
  by code_simp

lemma one_active_group:
  assumes "g \<in> set nav_groups" "i \<in> set (g_items g)" "is_item_active path (n_href i)"
    and "h \<in> set nav_groups" "j \<in> set (g_items h)" "is_item_active path (n_href j)"
  shows "g_id g = g_id h"
  using groups_apart assms prefixes_comparable [of path "n_href i" "n_href j"]
  unfolding list_all_iff by (meson active_prefix)

lemma active_groupD:
  assumes "active_group path = Some g"
  shows "g \<in> set nav_groups \<and> (\<exists>i \<in> set (g_items g). is_item_active path (n_href i))"
  using assms unfolding active_group_def list_ex_iff by (auto simp: find_Some_iff in_set_conv_nth)

lemma active_groupI:
  assumes "g \<in> set nav_groups" "i \<in> set (g_items g)" "is_item_active path (n_href i)"
  shows "\<exists>h. active_group path = Some h \<and> g_id h = g_id g"
proof (cases "active_group path")
  case None
  then show ?thesis using assms by (auto simp: active_group_def find_None_iff list_ex_iff)
next
  case (Some h)
  then show ?thesis using active_groupD [OF Some] assms one_active_group by blast
qed

text \<open>
  after any clicks, opening a page leaves the heading of every item that is active there
  open; no heading is recorded twice; and a second click on a heading undoes the first.
\<close>

theorem active_page_never_hidden:
  assumes "g \<in> set nav_groups" "i \<in> set (g_items g)" "is_item_active path (n_href i)"
  shows "g_id g \<notin> set (foldl sidebar_step [] (es @ [Go path])) \<and> distinct (foldl sidebar_step [] es) \<and>
    set (toggle_group k (toggle_group k (foldl sidebar_step [] es))) = set (foldl sidebar_step [] es)"
proof (intro conjI)
  obtain h where h: "active_group path = Some h" "g_id h = g_id g"
    using active_groupI [OF assms] by blast
  then show "g_id g \<notin> set (foldl sidebar_step [] (es @ [Go path]))"
    by (simp add: sidebar_step_def open_page_def)
  show "distinct (foldl sidebar_step [] es)"
    by (induction es rule: rev_induct)
      (auto simp: sidebar_step_def open_page_def toggle_group_def split: sidebar_event.split option.split)
  show "set (toggle_group k (toggle_group k (foldl sidebar_step [] es))) = set (foldl sidebar_step [] es)"
    by (auto simp: toggle_group_def)
qed

theorem active_page_never_hidden_witness:
  "''policies'' \<notin> set (foldl sidebar_step [] ([Click ''policies'', Click ''insights''] @ [Go ''/dashboard/swg'']))"
proof -
  have "nav_groups ! 1 \<in> set nav_groups" "g_items (nav_groups ! 1) ! 1 \<in> set (g_items (nav_groups ! 1))"
    "is_item_active ''/dashboard/swg'' (n_href (g_items (nav_groups ! 1) ! 1))" "g_id (nav_groups ! 1) = ''policies''"
    by code_simp+
  with active_page_never_hidden [of "nav_groups ! 1" _ "''/dashboard/swg''" "[Click ''policies'', Click ''insights'']" "[]"]
  show ?thesis by metis
qed

section \<open>What each call requires\<close>

text \<open>The permission the route of a call requires.\<close>

definition required :: "company_call_any \<Rightarrow> string option" where
  "required c = Option.bind (company_handler_any c) (map_of route_permissions)"

text \<open>Whether the call has a route, and whether a role has what is required.\<close>

definition served :: "company_call_any \<Rightarrow> bool" where
  "served c = (list_all plain (company_ids_any c) \<and> company_handler_any c \<noteq> None)"

definition has :: "string \<Rightarrow> string option \<Rightarrow> bool" where
  "has r q = (case q of None \<Rightarrow> True | Some p \<Rightarrow> role_has_permission r p)"

lemma granted_iff: "served c \<Longrightarrow> granted r c \<longleftrightarrow> has r (required c)"
  by (auto simp: granted_def company_routed_any required_def admits_def has_def served_def split: option.splits)

definition pages :: "string list" where
  "pages = reachable_pages (signed_in ''org_admin'')"

text \<open>The permissions that the pages require, worked out once.\<close>

definition page_needs :: "(string \<times> string option list) list" where
  "page_needs =
     [(''/dashboard'', [Some ''reports:read'']),
      (''/dashboard/employees'', [Some ''employees:read'', Some ''teams:read'', Some ''employees:read'']),
      (''/dashboard/teams'', [Some ''teams:read'']),
      (''/dashboard/devices'', [Some ''devices:read'', Some ''devices:read'']),
      (''/dashboard/users'', [Some ''users:read'', Some ''teams:read'', Some ''users:read'']),
      (''/dashboard/categories'', [Some ''categories:read'']),
      (''/dashboard/swg'', [Some ''swg:read'', Some ''policies:read'', Some ''activity:read'',
         Some ''categories:read'', Some ''teams:read'', Some ''employees:read'']),
      (''/dashboard/applications'', [Some ''policies:read'', Some ''employees:read'']),
      (''/dashboard/dlp'', [Some ''activity:read'']),
      (''/dashboard/activity'', [Some ''activity:read'']),
      (''/dashboard/screenshots'', [Some ''monitoring:read'', Some ''monitoring:read'']),
      (''/dashboard/access-requests'', [Some ''access_requests:read'']),
      (''/dashboard/reports'', [Some ''reports:read'', Some ''reports:read'']),
      (''/dashboard/profile'', [Some ''settings:read'', Some ''settings:read'']),
      (''/dashboard/settings'', []),
      (''/dashboard/support'', [None])]"

lemma page_needs: "map (\<lambda>p. (p, map required (page_reads p))) pages = page_needs"
  by code_simp

lemma reads_served: "list_all served (layout_reads @ concat (map page_reads pages))"
  by code_simp

lemma layout_needs: "map required layout_reads = [Some ''activity:read'', Some ''access_requests:read'', None]"
  by code_simp

lemma needs_of:
  assumes "p \<in> set pages"
  shows "map_of page_needs p = Some (map required (page_reads p))"
proof -
  have "map_of (map (\<lambda>p. (p, map required (page_reads p))) ps) p = Some (map required (page_reads p))"
    if "p \<in> set ps" for ps
    using that by (induction ps) auto
  with assms page_needs show ?thesis by metis
qed

text \<open>Every read of a page is granted to a role that can reach it, apart from one page.\<close>

lemma page_check:
  "list_all (\<lambda>r. list_all (\<lambda>p. p \<in> set pages \<and>
      list_all (\<lambda>q. has r q = (\<not> (r = ''manager'' \<and> p = ''/dashboard/profile''))) (the (map_of page_needs p)))
    (reachable_pages (signed_in r))) assignable_roles"
  by code_simp

lemma layout_check:
  "list_all (\<lambda>r. list_all (has r) [Some ''activity:read'', Some ''access_requests:read'', None]) assignable_roles"
  by code_simp

lemma layout_granted:
  assumes "r \<in> set assignable_roles" "c \<in> set layout_reads"
  shows "granted r c"
proof -
  have "list_all (has r) (map required layout_reads)"
    using layout_check assms(1) unfolding layout_needs list_all_iff [of _ assignable_roles] by blast
  with assms(2) have "has r (required c)" by (simp add: list_all_iff)
  moreover have "served c" using reads_served assms(2) by (simp add: list_all_iff)
  ultimately show ?thesis by (simp add: granted_iff)
qed

lemma page_granted:
  assumes r: "r \<in> set assignable_roles" and p: "p \<in> set (reachable_pages (signed_in r))" and c: "c \<in> set (page_reads p)"
  shows "granted r c \<longleftrightarrow> \<not> (r = ''manager'' \<and> p = ''/dashboard/profile'')"
proof -
  have l: "p \<in> set pages \<and> list_all (\<lambda>q. has r q = (\<not> (r = ''manager'' \<and> p = ''/dashboard/profile''))) (the (map_of page_needs p))"
    using page_check r p unfolding list_all_iff by blast
  then have pp: "p \<in> set pages" by (rule conjunct1)
  have "list_all (\<lambda>q. has r q = (\<not> (r = ''manager'' \<and> p = ''/dashboard/profile''))) (map required (page_reads p))"
    using conjunct2 [OF l] unfolding needs_of [OF pp] option.sel .
  then have "has r (required c) = (\<not> (r = ''manager'' \<and> p = ''/dashboard/profile''))"
    using c by (auto simp: list_all_iff)
  moreover have "served c"
    using reads_served pp c unfolding list_all_iff by auto
  ultimately show ?thesis by (simp only: granted_iff)
qed



section \<open>Controls that are refused\<close>

lemma control_needs:
  "map (map required \<circ> snd) (open_controls i j d) =
     [replicate 5 (Some ''teams:write''), replicate 4 (Some ''categories:write''),
      replicate 4 (Some ''policies:write''), [Some ''policies:write''], [Some ''devices:write''],
      replicate 3 (Some ''access_requests:write'')]"
  by code_simp

lemma read_only_lacks:
  "list_all (list_all (\<lambda>q. \<not> has ''read_only'' q))
     [replicate 5 (Some ''teams:write''), replicate 4 (Some ''categories:write''),
      replicate 4 (Some ''policies:write''), [Some ''policies:write''], [Some ''devices:write''],
      replicate 3 (Some ''access_requests:write'')]"
  by code_simp

lemma controls_served:
  "plain i \<Longrightarrow> plain j \<Longrightarrow> list_all (list_all served \<circ> snd) (open_controls i j d)"
  by (simp add: served_def open_controls_def teams_controls_def categories_controls_def swg_controls_def
      applications_controls_def devices_controls_def access_requests_controls_def)

lemma control_pages:
  "list_all (\<lambda>(p, cs). p \<in> set (reachable_pages (signed_in ''read_only'')) \<and> cs \<noteq> []) (open_controls i j d)"
  by code_simp

text \<open>
  an auditor who may only read is shown the controls of six pages that create, change and
  delete, and the API refuses every one of them.
\<close>

theorem controls_shown_and_refused:
  assumes "plain i" "plain j"
  shows "list_all (\<lambda>(p, cs). p \<in> set (reachable_pages (signed_in ''read_only'')) \<and> cs \<noteq> [] \<and>
      list_all (\<lambda>c. \<not> granted ''read_only'' c) cs) (open_controls i j d)"
proof -
  have "list_all (list_all (\<lambda>q. \<not> has ''read_only'' q)) (map (map required \<circ> snd) (open_controls i j d))"
    unfolding control_needs by (rule read_only_lacks)
  then have "list_all (list_all (\<lambda>c. \<not> has ''read_only'' (required c)) \<circ> snd) (open_controls i j d)"
    by (simp add: list.pred_map comp_def)
  then show ?thesis
    using controls_served [OF assms, of d] control_pages [of i j d]
    by (auto simp: list_all_iff granted_iff)
qed

theorem controls_shown_and_refused_witness:
  "\<not> granted ''read_only'' (Call_Policy (Policy_Toggle ''7f3a''))"
proof -
  have "plain ''7f3a''" by code_simp
  with controls_shown_and_refused [of "''7f3a''" "''7f3a''" JUndef] show ?thesis
    by (simp add: open_controls_def swg_controls_def)
qed

section \<open>The settings page\<close>

text \<open>The permissions that the sections require, worked out once.\<close>

lemma tab_required:
  "map required [Call_Mfa Mfa_Status, Call_Company Company_Get, Call_Enforcement Enforcement_Get_Org_Schedule,
     Call_Company Company_Timezones, Call_Monitoring Monitoring_Get_Settings, Call_Company Company_Block_Page,
     Call_Mfa Mfa_Org_Policy, Call_Settings Settings_Get_Mitm, Call_Residency Residency_Get] = [None, Some ''settings:read'', Some ''settings:read'', Some ''settings:read'', Some ''settings:read'',
      Some ''settings:read'', Some ''users:read'', Some ''settings:read'', Some ''settings:read'']"
  by code_simp

lemma tab_served:
  "list_all served [Call_Mfa Mfa_Status, Call_Company Company_Get, Call_Enforcement Enforcement_Get_Org_Schedule,
     Call_Company Company_Timezones, Call_Monitoring Monitoring_Get_Settings, Call_Company Company_Block_Page,
     Call_Mfa Mfa_Org_Policy, Call_Settings Settings_Get_Mitm, Call_Residency Residency_Get]"
  by code_simp

definition tab_needs :: "access \<Rightarrow> string \<Rightarrow> string option list" where
  "tab_needs a t =
     (if t = ''two-factor'' then [None]
      else if t = ''notifications'' then [Some ''settings:read'']
      else if t = ''working-hours'' then [Some ''settings:read'', Some ''settings:read'']
      else if t = ''monitoring'' then [Some ''settings:read'']
      else if t = ''block-page'' then [Some ''settings:read'']
      else if t = ''org-security'' then (if can a (ui_permission ''usersWrite'') then [Some ''users:read''] else []) @ [Some ''settings:read'']
      else if t = ''data-residency'' then [Some ''settings:read'']
      else [])"

lemma tab_needs: "map required (tab_reads a t) = tab_needs a t" "list_all served (tab_reads a t)"
  using tab_required tab_served by (simp_all add: tab_reads_def tab_needs_def)

lemma hidden_check:
  "list_all (\<lambda>t. list_all (\<lambda>q. \<not> has ''manager'' q) (tab_needs (signed_in ''manager'') t))
     [''notifications'', ''working-hours'', ''monitoring'', ''block-page'', ''org-security'', ''data-residency'']"
  by code_simp

lemma shown_check:
  "list_all (\<lambda>r. list_all (\<lambda>t. list_all (has r) (tab_needs (signed_in r) t)) (shown_tabs (signed_in r))) assignable_roles"
  by code_simp

lemma hidden_needs:
  "list_all (\<lambda>t. list_all (\<lambda>c. served c \<and> \<not> has ''manager'' (required c)) (tab_reads (signed_in ''manager'') t))
     [''notifications'', ''working-hours'', ''monitoring'', ''block-page'', ''org-security'', ''data-residency'']"
  using hidden_check tab_needs(2) unfolding tab_needs(1) [symmetric] by (simp add: list_all_iff)

lemma shown_needs:
  "list_all (\<lambda>r. list_all (\<lambda>t. list_all (\<lambda>c. served c \<and> has r (required c)) (tab_reads (signed_in r) t))
      (shown_tabs (signed_in r))) assignable_roles"
  using shown_check tab_needs(2) unfolding tab_needs(1) [symmetric] by (simp add: list_all_iff)

text \<open>
  every section the settings page lists can be read by the role; yet the hash of the
  address opens the six sections that are hidden from a manager, whose reads are refused.
\<close>

theorem settings_tabs_permitted:
  "list_all (\<lambda>r. list_all (\<lambda>t. list_all (granted r) (tab_reads (signed_in r) t)) (shown_tabs (signed_in r))) assignable_roles \<and>
   list_all (\<lambda>t. t \<notin> set (shown_tabs (signed_in ''manager'')) \<and> tab_of_hash t ''password'' = t \<and>
       tab_reads (signed_in ''manager'') t \<noteq> [] \<and>
       list_all (\<lambda>c. \<not> granted ''manager'' c) (tab_reads (signed_in ''manager'') t))
     [''notifications'', ''working-hours'', ''monitoring'', ''block-page'', ''org-security'', ''data-residency'']"
proof
  show "list_all (\<lambda>r. list_all (\<lambda>t. list_all (granted r) (tab_reads (signed_in r) t)) (shown_tabs (signed_in r))) assignable_roles"
    using shown_needs by (simp add: list_all_iff granted_iff)
  have "list_all (\<lambda>t. t \<notin> set (shown_tabs (signed_in ''manager'')) \<and> tab_of_hash t ''password'' = t \<and> tab_reads (signed_in ''manager'') t \<noteq> [])
     [''notifications'', ''working-hours'', ''monitoring'', ''block-page'', ''org-security'', ''data-residency'']"
    by code_simp
  then show "list_all (\<lambda>t. t \<notin> set (shown_tabs (signed_in ''manager'')) \<and> tab_of_hash t ''password'' = t \<and>
       tab_reads (signed_in ''manager'') t \<noteq> [] \<and>
       list_all (\<lambda>c. \<not> granted ''manager'' c) (tab_reads (signed_in ''manager'') t))
     [''notifications'', ''working-hours'', ''monitoring'', ''block-page'', ''org-security'', ''data-residency'']"
    using hidden_needs unfolding list_all_iff by (blast dest: granted_iff)
qed

end
