(* ===== verification/Live_Feed.thy ===== *)
theory Live_Feed
  imports Prelude
begin

text \<open>
  The live feed that three components open the same way: the bells of the company dashboard and
  of the employee portal (\<^verbatim>\<open>components/layout/NotificationBell.tsx\<close>) and the activity page
  (\<^verbatim>\<open>app/dashboard/activity/page.tsx\<close>). An effect connects a WebSocket, connects again five
  seconds after it closed and closes it when it is cleaned up, that is when the token or, on the
  activity page, a filter changes. What a message does to the component is an argument.
\<close>

section \<open>Sockets, timers and the effect\<close>

datatype socket_state = Connecting | Open | Closing | Closed

text \<open>
  Each run of the effect has a number, the variable \<open>cancelled\<close> of the run is whether it is
  still the active one. A socket remembers the run that made it; \<open>ref_socket\<close> is \<open>wsRef\<close>, by the
  position among the sockets made; \<open>retries\<close> are the runs whose timers are pending.
\<close>

record 'l feed =
  sockets :: "(nat \<times> socket_state) list"
  ref_socket :: "nat option"
  active_run :: "nat option"
  runs :: nat
  retries :: "nat list"
  connected :: bool
  live :: 'l

definition fresh_feed :: "'l \<Rightarrow> 'l feed" where
  "fresh_feed l =
     \<lparr>sockets = [], ref_socket = None, active_run = None, runs = 0, retries = [], connected = False, live = l\<rparr>"

text \<open>\<open>connect\<close>\<close>

definition connect :: "nat \<Rightarrow> 'l feed \<Rightarrow> 'l feed" where
  "connect e s =
     (if active_run s \<noteq> Some e then s
      else s\<lparr>sockets := sockets s @ [(e, Connecting)], ref_socket := Some (length (sockets s))\<rparr>)"

definition set_state :: "nat \<Rightarrow> socket_state \<Rightarrow> 'l feed \<Rightarrow> 'l feed" where
  "set_state i st s = s\<lparr>sockets := (sockets s)[i := (fst (sockets s ! i), st)]\<rparr>"

definition state_of :: "'l feed \<Rightarrow> nat \<Rightarrow> socket_state" where
  "state_of s i = (if i < length (sockets s) then snd (sockets s ! i) else Closed)"

definition run_of :: "'l feed \<Rightarrow> nat \<Rightarrow> nat" where
  "run_of s i = fst (sockets s ! i)"

text \<open>\<open>close()\<close>: nothing on a socket that is closing or closed.\<close>

definition close_socket :: "nat \<Rightarrow> 'l feed \<Rightarrow> 'l feed" where
  "close_socket i s = (if state_of s i \<in> {Connecting, Open} then set_state i Closing s else s)"

definition start_effect :: "'l feed \<Rightarrow> 'l feed" where
  "start_effect s = connect (runs s) (s\<lparr>active_run := Some (runs s), runs := Suc (runs s)\<rparr>)"

definition clean_up :: "'l feed \<Rightarrow> 'l feed" where
  "clean_up s =
     (case ref_socket s of
        None \<Rightarrow> s\<lparr>active_run := None\<rparr>
      | Some i \<Rightarrow> close_socket i (s\<lparr>active_run := None\<rparr>))"

text \<open>\<open>onclose\<close>\<close>

definition on_close :: "nat \<Rightarrow> 'l feed \<Rightarrow> 'l feed" where
  "on_close i s =
     (let s1 = (set_state i Closed s)\<lparr>connected := False\<rparr>
      in if active_run s = Some (run_of s i) then s1\<lparr>retries := run_of s i # retries s\<rparr> else s1)"

text \<open>
  What can happen to a feed whose list the page can also set to one of \<open>resets\<close>: the effect runs or is cleaned up, a socket opens, fails, closes or brings a
  message, a timer fires. Messages reach a socket that is open only. The portal also clears its
  timer in the clean-up; a timer of a run that is over does nothing.
\<close>

inductive feed_step :: "('m \<Rightarrow> 'l \<Rightarrow> 'l) \<Rightarrow> 'l set \<Rightarrow> 'l feed \<Rightarrow> 'l feed \<Rightarrow> bool" for handle resets where
  Start: "active_run s = None \<Longrightarrow> feed_step handle resets s (start_effect s)"
| Clean: "active_run s \<noteq> None \<Longrightarrow> feed_step handle resets s (clean_up s)"
| Opened: "state_of s i = Connecting \<Longrightarrow> feed_step handle resets s ((set_state i Open s)\<lparr>connected := True\<rparr>)"
| Failed: "state_of s i \<in> {Connecting, Open} \<Longrightarrow> feed_step handle resets s (close_socket i s)"
| Closes: "state_of s i \<noteq> Closed \<Longrightarrow> feed_step handle resets s (on_close i s)"
| Brings: "state_of s i = Open \<Longrightarrow> feed_step handle resets s (s\<lparr>live := handle m (live s)\<rparr>)"
| Fires: "e \<in> set (retries s) \<Longrightarrow> feed_step handle resets s (connect e (s\<lparr>retries := remove1 e (retries s)\<rparr>))"
| Clears: "l \<in> resets \<Longrightarrow> feed_step handle resets s (s\<lparr>live := l\<rparr>)"
| Drops: "active_run s = None \<Longrightarrow> feed_step handle resets s (s\<lparr>retries := []\<rparr>)"

inductive feed_reach :: "('m \<Rightarrow> 'l \<Rightarrow> 'l) \<Rightarrow> 'l set \<Rightarrow> 'l \<Rightarrow> 'l feed \<Rightarrow> bool" for handle resets l where
  Init: "feed_reach handle resets l (fresh_feed l)"
| Step: "feed_reach handle resets l s \<Longrightarrow> feed_step handle resets s s' \<Longrightarrow> feed_reach handle resets l s'"

section \<open>Facts about the operations\<close>

lemma length_set_state [simp]: "length (sockets (set_state i st s)) = length (sockets s)"
  by (simp add: set_state_def)

lemma state_of_set_state [simp]:
  "state_of (set_state i st s) j = (if j = i \<and> i < length (sockets s) then st else state_of s j)"
  by (auto simp: state_of_def set_state_def)

lemma run_of_set_state [simp]: "run_of (set_state i st s) j = run_of s j"
  by (cases "i < length (sockets s)") (auto simp: run_of_def set_state_def nth_list_update list_update_beyond)

lemma set_state_fields [simp]:
  "ref_socket (set_state i st s) = ref_socket s" "active_run (set_state i st s) = active_run s"
  "runs (set_state i st s) = runs s" "retries (set_state i st s) = retries s"
  "connected (set_state i st s) = connected s" "live (set_state i st s) = live s"
  by (simp_all add: set_state_def)

lemma state_of_update [simp]:
  "state_of (s\<lparr>connected := c\<rparr>) i = state_of s i" "state_of (s\<lparr>live := v\<rparr>) i = state_of s i"
  "state_of (s\<lparr>retries := r\<rparr>) i = state_of s i" "state_of (s\<lparr>active_run := a\<rparr>) i = state_of s i"
  "state_of (s\<lparr>ref_socket := x\<rparr>) i = state_of s i" "state_of (s\<lparr>runs := n\<rparr>) i = state_of s i"
  by (simp_all add: state_of_def)

lemma run_of_update [simp]:
  "run_of (s\<lparr>connected := c\<rparr>) i = run_of s i" "run_of (s\<lparr>live := v\<rparr>) i = run_of s i"
  "run_of (s\<lparr>retries := r\<rparr>) i = run_of s i" "run_of (s\<lparr>active_run := a\<rparr>) i = run_of s i"
  "run_of (s\<lparr>ref_socket := x\<rparr>) i = run_of s i" "run_of (s\<lparr>runs := n\<rparr>) i = run_of s i"
  by (simp_all add: run_of_def)

lemma state_of_inside: "state_of s i \<noteq> Closed \<Longrightarrow> i < length (sockets s)"
  by (auto simp: state_of_def split: if_splits)

lemma state_of_append [simp]:
  "state_of (s\<lparr>sockets := sockets s @ [(e, st)]\<rparr>) i = (if i = length (sockets s) then st else state_of s i)"
  by (auto simp: state_of_def nth_append)

lemma run_of_append:
  "i \<le> length (sockets s) \<Longrightarrow>
     run_of (s\<lparr>sockets := sockets s @ [(e, st)]\<rparr>) i = (if i = length (sockets s) then e else run_of s i)"
  by (auto simp: run_of_def nth_append)

section \<open>One connection or one timer\<close>

text \<open>Socket \<open>i\<close> is the one of the active run \<open>e\<close>, and it is alive or one timer waits for it.\<close>

definition retired :: "'l feed \<Rightarrow> nat \<Rightarrow> nat \<Rightarrow> bool" where
  "retired s e j = (state_of s j = Closed \<or> state_of s j = Closing \<and> run_of s j \<noteq> e)"

definition serves :: "'l feed \<Rightarrow> nat \<Rightarrow> nat \<Rightarrow> bool" where
  "serves s e i =
     (e < runs s \<and> i < length (sockets s) \<and> ref_socket s = Some i \<and> run_of s i = e \<and>
      (\<forall>j. j \<noteq> i \<longrightarrow> retired s e j) \<and>
      count_list (retries s) e = (if state_of s i = Closed then 1 else 0))"

definition idle :: "'l feed \<Rightarrow> bool" where
  "idle s = (\<forall>j. state_of s j = Closed \<or> state_of s j = Closing)"

definition bounded :: "'l feed \<Rightarrow> bool" where
  "bounded s = ((\<forall>i < length (sockets s). run_of s i < runs s) \<and> (\<forall>e \<in> set (retries s). e < runs s))"

definition feed_ok :: "'l feed \<Rightarrow> bool" where
  "feed_ok s = (bounded s \<and> (active_run s = None \<longrightarrow> idle s) \<and> (\<forall>e. active_run s = Some e \<longrightarrow> (\<exists>i. serves s e i)))"

lemma frame [simp]:
  "retired (s\<lparr>connected := c\<rparr>) e j = retired s e j" "retired (s\<lparr>live := v\<rparr>) e j = retired s e j"
  "serves (s\<lparr>connected := c\<rparr>) e i = serves s e i" "serves (s\<lparr>live := v\<rparr>) e i = serves s e i"
  "idle (s\<lparr>connected := c\<rparr>) = idle s" "idle (s\<lparr>live := v\<rparr>) = idle s"
  "bounded (s\<lparr>connected := c\<rparr>) = bounded s" "bounded (s\<lparr>live := v\<rparr>) = bounded s"
  "feed_ok (s\<lparr>connected := c\<rparr>) = feed_ok s" "feed_ok (s\<lparr>live := v\<rparr>) = feed_ok s"
  by (simp_all add: retired_def serves_def idle_def bounded_def feed_ok_def)

lemma feed_okI_None: "bounded s \<Longrightarrow> idle s \<Longrightarrow> active_run s = None \<Longrightarrow> feed_ok s"
  by (simp add: feed_ok_def)

lemma feed_okI_Some: "bounded s \<Longrightarrow> serves s e i \<Longrightarrow> active_run s = Some e \<Longrightarrow> feed_ok s"
  by (auto simp: feed_ok_def)

lemma feed_ok_active:
  assumes "feed_ok s" "active_run s = Some e"
  obtains i where "serves s e i"
  using assms by (auto simp: feed_ok_def)

lemma feed_ok_idle: "feed_ok s \<Longrightarrow> active_run s = None \<Longrightarrow> idle s"
  by (simp add: feed_ok_def)

lemma idle_closed: "idle s \<Longrightarrow> state_of s j \<noteq> Connecting \<and> state_of s j \<noteq> Open"
  unfolding idle_def by (metis socket_state.distinct)

lemma feed_ok_bounded: "feed_ok s \<Longrightarrow> bounded s"
  by (simp add: feed_ok_def)

lemma bounded_run: "bounded s \<Longrightarrow> state_of s j \<noteq> Closed \<Longrightarrow> run_of s j < runs s"
  using state_of_inside [of s j] by (simp add: bounded_def)

lemma bounded_count: "bounded s \<Longrightarrow> count_list (retries s) (runs s) = 0"
  by (auto simp: bounded_def count_list_0_iff)

lemma bounded_set_state [simp]: "bounded (set_state i st s) = bounded s"
  by (simp add: bounded_def)

lemma serves_ref:
  assumes "serves s e i" "state_of s j = Connecting \<or> state_of s j = Open \<or> state_of s j \<noteq> Closed \<and> run_of s j = e"
  shows "j = i"
  using assms by (auto simp: serves_def retired_def)

lemma feed_ok_fresh [simp]: "feed_ok (fresh_feed l)"
  by (simp add: feed_ok_def fresh_feed_def bounded_def idle_def state_of_def)

lemma connect_fields [simp]:
  "runs (connect e s) = runs s" "retries (connect e s) = retries s" "active_run (connect e s) = active_run s"
  by (simp_all add: connect_def)

lemma bounded_connect: "bounded s \<Longrightarrow> e < runs s \<Longrightarrow> bounded (connect e s)"
  by (auto simp: bounded_def connect_def run_of_append less_Suc_eq)

text \<open>A new socket of the active run, none of whose sockets is left and for which no timer waits.\<close>

lemma serves_new_socket:
  assumes "active_run s = Some e" "e < runs s" "count_list (retries s) e = 0" "\<And>j. retired s e j"
  shows "serves (connect e s) e (length (sockets s))"
proof -
  have "retired (connect e s) e j" if "j \<noteq> length (sockets s)" for j
    using assms(4) [of j] assms(1) that state_of_inside [of s j]
    by (cases "j < length (sockets s)") (auto simp: retired_def connect_def run_of_append)
  then show ?thesis
    using assms(1-3) by (simp add: serves_def) (simp add: connect_def run_of_append)
qed

lemma feed_ok_start:
  assumes "feed_ok s" "active_run s = None"
  shows "feed_ok (start_effect s)"
proof -
  let ?t = "s\<lparr>active_run := Some (runs s), runs := Suc (runs s)\<rparr>"
  have b: "bounded s" and i: "idle s"
    using assms by (simp_all add: feed_ok_bounded feed_ok_idle)
  have "retired ?t (runs s) j" for j
  proof (cases "state_of s j = Closed")
    case False
    then show ?thesis using i bounded_run [OF b False] by (auto simp: retired_def idle_def)
  qed (simp add: retired_def)
  then have "serves (connect (runs s) ?t) (runs s) (length (sockets ?t))"
    by (intro serves_new_socket) (simp_all add: bounded_count [OF b])
  moreover have "bounded (connect (runs s) ?t)"
    using b by (intro bounded_connect) (auto simp: bounded_def intro: less_SucI)
  ultimately show ?thesis
    unfolding start_effect_def by (intro feed_okI_Some) auto
qed

lemma feed_ok_clean:
  assumes "feed_ok s" "active_run s \<noteq> None"
  shows "feed_ok (clean_up s)"
proof -
  obtain e where e: "active_run s = Some e" using assms(2) by auto
  obtain i where i: "serves s e i" using feed_ok_active [OF assms(1) e] .
  have "state_of (clean_up s) j \<in> {Closing, Closed}" for j
  proof (cases "j = i")
    case True
    then show ?thesis using i by (cases "state_of s i") (auto simp: clean_up_def close_socket_def serves_def)
  next
    case False
    then show ?thesis using i by (auto simp: clean_up_def close_socket_def serves_def retired_def)
  qed
  then have "idle (clean_up s)" by (auto simp: idle_def)
  moreover have "bounded (clean_up s)" "active_run (clean_up s) = None"
    using feed_ok_bounded [OF assms(1)]
    by (auto simp: clean_up_def close_socket_def bounded_def split: option.split)
  ultimately show ?thesis by (intro feed_okI_None)
qed

lemma feed_ok_state:
  assumes "feed_ok s" "state_of s i = Connecting \<or> state_of s i = Open" "st \<noteq> Closed"
  shows "feed_ok (set_state i st s)"
proof (cases "active_run s")
  case None
  then have "idle s" by (rule feed_ok_idle [OF assms(1)])
  then have "state_of s i = Closed \<or> state_of s i = Closing" by (simp add: idle_def)
  then show ?thesis using assms(2) by auto
next
  case (Some e)
  obtain k where k: "serves s e k" using feed_ok_active [OF assms(1) Some] .
  have "i = k" using assms(2) serves_ref [OF k] by blast
  then have "serves (set_state i st s) e k"
    using k assms(2,3) by (auto simp: serves_def retired_def)
  then show ?thesis
    using Some feed_ok_bounded [OF assms(1)] by (intro feed_okI_Some) auto
qed

lemma on_close_fields [simp]:
  "runs (on_close i s) = runs s" "active_run (on_close i s) = active_run s" "ref_socket (on_close i s) = ref_socket s"
  "sockets (on_close i s) = sockets (set_state i Closed s)"
  "retries (on_close i s) = (if active_run s = Some (run_of s i) then run_of s i # retries s else retries s)"
  by (simp_all add: on_close_def Let_def)

lemma on_close_state [simp]:
  "state_of (on_close i s) j = (if j = i then Closed else state_of s j)" "run_of (on_close i s) j = run_of s j"
proof -
  have "state_of (on_close i s) j = state_of (set_state i Closed s) j"
    "run_of (on_close i s) j = run_of (set_state i Closed s) j"
    by (simp_all only: state_of_def run_of_def on_close_fields)
  then show "state_of (on_close i s) j = (if j = i then Closed else state_of s j)"
    "run_of (on_close i s) j = run_of s j"
    by (auto simp: state_of_def [of s])
qed

lemma bounded_on_close: "bounded s \<Longrightarrow> state_of s i \<noteq> Closed \<Longrightarrow> bounded (on_close i s)"
  using bounded_run [of s i] by (auto simp: bounded_def)

lemma feed_ok_close:
  assumes "feed_ok s" "state_of s i \<noteq> Closed"
  shows "feed_ok (on_close i s)"
proof (cases "active_run s")
  case None
  then have "idle (on_close i s)" using feed_ok_idle [OF assms(1)] by (auto simp: idle_def)
  then show ?thesis
    using None bounded_on_close [OF feed_ok_bounded] assms by (intro feed_okI_None) auto
next
  case (Some e)
  obtain k where k: "serves s e k" using feed_ok_active [OF assms(1) Some] .
  have "run_of s i = e \<longleftrightarrow> i = k"
    using serves_ref [OF k, of i] assms(2) k by (auto simp: serves_def)
  then have "serves (on_close i s) e k"
    using k assms(2) Some by (auto simp: serves_def retired_def)
  then show ?thesis
    using Some bounded_on_close [OF feed_ok_bounded] assms by (intro feed_okI_Some) auto
qed

lemma count_remove1: "count_list (remove1 a xs) b = count_list xs b - (if a = b then 1 else 0)"
  by (induction xs) auto

lemma feed_ok_fires:
  assumes "feed_ok s" "e \<in> set (retries s)"
  shows "feed_ok (connect e (s\<lparr>retries := remove1 e (retries s)\<rparr>))"
proof -
  let ?t = "s\<lparr>retries := remove1 e (retries s)\<rparr>"
  have b: "bounded s" and e: "e < runs s"
    using assms feed_ok_bounded [OF assms(1)] by (auto simp: bounded_def)
  have "bounded ?t"
    using b set_remove1_subset [of e "retries s"] by (auto simp: bounded_def)
  then have bt: "bounded (connect e ?t)" using e by (intro bounded_connect) auto
  show ?thesis
  proof (cases "active_run s")
    case None
    then show ?thesis
      using bt feed_ok_idle [OF assms(1) None] by (intro feed_okI_None) (auto simp: connect_def idle_def)
  next
    case (Some d)
    obtain k where k: "serves s d k" using feed_ok_active [OF assms(1) Some] .
    have "\<exists>k. serves (connect e ?t) d k"
    proof (cases "e = d")
      case True
      have "count_list (retries s) d \<noteq> 0" using assms(2) True by (simp add: count_list_0_iff)
      then have c: "state_of s k = Closed" and n: "count_list (retries s) d = 1"
        using k by (auto simp: serves_def split: if_splits)
      have "retired ?t d j" for j
        using k c by (cases "j = k") (auto simp: serves_def retired_def)
      then have "serves (connect d ?t) d (length (sockets ?t))"
        using Some True n e by (intro serves_new_socket) (auto simp: count_remove1)
      then show ?thesis using True by blast
    next
      case False
      then have "connect e ?t = ?t" and "serves ?t d k"
        using k Some by (auto simp: connect_def serves_def count_remove1 retired_def)
      then show ?thesis by metis
    qed
    then show ?thesis using bt Some by (auto intro: feed_okI_Some)
  qed
qed

lemma feed_ok_step: "feed_step handle resets s s' \<Longrightarrow> feed_ok s \<Longrightarrow> feed_ok s'"
proof (induction rule: feed_step.induct)
  case (Drops s)
  then show ?case by (simp add: feed_ok_def idle_def bounded_def)
qed (auto simp: close_socket_def intro: feed_ok_start feed_ok_clean feed_ok_close feed_ok_fires feed_ok_state)

lemma feed_ok_reach: "feed_reach handle resets l s \<Longrightarrow> feed_ok s"
  by (induction rule: feed_reach.induct) (auto intro: feed_ok_step)

lemma live_step:
  "feed_step handle resets s s' \<Longrightarrow> live s' = live s \<or> live s' \<in> resets \<or> (\<exists>m. live s' = handle m (live s))"
  by (induction rule: feed_step.induct)
    (auto simp: start_effect_def connect_def clean_up_def close_socket_def on_close_def Let_def split: option.splits)

text \<open>A property of the list that messages and resets keep holds in every run.\<close>

lemma live_invariant:
  assumes "feed_reach handle resets l s" "Q l" "\<And>m l. Q l \<Longrightarrow> Q (handle m l)" "\<And>l. l \<in> resets \<Longrightarrow> Q l"
  shows "Q (live s)"
  using assms(1)
proof (induction rule: feed_reach.induct)
  case (Step s s')
  then show ?case using live_step [OF Step.hyps(2)] assms(3,4) by metis
qed (simp add: fresh_feed_def assms(2))

text \<open>
  C14: while the effect is active there is exactly one connection of it that is not closed and no
  timer, or exactly one timer and no such connection; and no socket of an earlier run, that is
  of an earlier token or filter, can bring a message.
\<close>

theorem one_connection_or_timer:
  assumes "feed_reach handle resets l s"
  shows "(\<forall>e. active_run s = Some e \<longrightarrow>
      card {j. state_of s j \<noteq> Closed \<and> run_of s j = e} + count_list (retries s) e = 1) \<and>
    (\<forall>j. state_of s j = Open \<longrightarrow> active_run s = Some (run_of s j) \<and> ref_socket s = Some j)"
proof (intro conjI allI impI)
  have ok: "feed_ok s" using assms by (rule feed_ok_reach)
  show "card {j. state_of s j \<noteq> Closed \<and> run_of s j = e} + count_list (retries s) e = 1"
    if e: "active_run s = Some e" for e
  proof -
    obtain i where i: "serves s e i" using feed_ok_active [OF ok e] .
    have "{j. state_of s j \<noteq> Closed \<and> run_of s j = e} = (if state_of s i = Closed then {} else {i})"
      using i by (auto simp: serves_def retired_def)
    then show ?thesis using i by (simp add: serves_def)
  qed
  fix j assume j: "state_of s j = Open"
  obtain e where e: "active_run s = Some e"
    using feed_ok_idle [OF ok] j idle_closed [of s j] by (cases "active_run s") auto
  obtain i where i: "serves s e i" using feed_ok_active [OF ok e] .
  have "j = i" using serves_ref [OF i, of j] j by blast
  then show "active_run s = Some (run_of s j)" "ref_socket s = Some j"
    using e i by (simp_all add: serves_def)
qed

text \<open>A visit in which the token is renewed while the feed is open.\<close>

definition opened :: "nat \<Rightarrow> 'l feed \<Rightarrow> 'l feed" where
  "opened i s = (set_state i Open s)\<lparr>connected := True\<rparr>"

definition renewed :: "'l \<Rightarrow> 'l feed" where
  "renewed l = opened 1 (start_effect (clean_up (opened 0 (start_effect (fresh_feed l)))))"

lemma renewal:
  "feed_reach handle resets l (renewed l) \<and> feed_reach handle resets l (on_close 0 (renewed l)) \<and>
   state_of (renewed l) 1 = Open \<and> active_run (renewed l) = Some 1"
proof -
  note defs = start_effect_def connect_def clean_up_def close_socket_def fresh_feed_def set_state_def
    state_of_def opened_def renewed_def
  have "feed_reach handle resets l (start_effect (fresh_feed l))"
    by (rule feed_reach.Step [OF feed_reach.Init feed_step.Start]) (simp add: fresh_feed_def)
  then have "feed_reach handle resets l (opened 0 (start_effect (fresh_feed l)))"
    unfolding opened_def by (rule feed_reach.Step [OF _ feed_step.Opened]) (simp add: defs)
  then have "feed_reach handle resets l (clean_up (opened 0 (start_effect (fresh_feed l))))"
    by (rule feed_reach.Step [OF _ feed_step.Clean]) (simp add: defs)
  then have "feed_reach handle resets l (start_effect (clean_up (opened 0 (start_effect (fresh_feed l)))))"
    by (rule feed_reach.Step [OF _ feed_step.Start]) (simp add: defs)
  then have r: "feed_reach handle resets l (renewed l)"
    unfolding renewed_def opened_def [of 1] by (rule feed_reach.Step [OF _ feed_step.Opened]) (simp add: defs)
  then have "feed_reach handle resets l (on_close 0 (renewed l))"
    by (rule feed_reach.Step [OF _ feed_step.Closes]) (simp add: defs)
  with r show ?thesis by (simp add: defs)
qed

theorem one_connection_or_timer_witness:
  "\<exists>s::(nat list) feed. active_run s = Some 1 \<and>
     card {j. state_of s j \<noteq> Closed \<and> run_of s j = 1} + count_list (retries s) 1 = 1"
proof -
  obtain s :: "(nat list) feed" where s: "feed_reach (\<lambda>(m::nat) ms. m # ms) {} [] s" "active_run s = Some 1"
    using renewal [of "\<lambda>(m::nat) ms. m # ms" "{}" "[]"] by metis
  with one_connection_or_timer [OF s(1)] show ?thesis by blast
qed

text \<open>
  when the token or the filter changes while the feed is open, the old socket can finish
  closing after the new one opened; the page then says that it is not live although it is.
\<close>

theorem late_close_hides_live:
  "\<exists>s. feed_reach handle resets l s \<and> (\<exists>j. state_of s j = Open \<and> active_run s = Some (run_of s j)) \<and> \<not> connected s"
proof -
  obtain s where s: "feed_reach handle resets l s" "feed_reach handle resets l (on_close 0 s)" "state_of s 1 = Open"
    "active_run s = Some 1"
    using renewal [of handle resets l] by metis
  have "active_run s = Some (run_of s 1)"
    using feed_ok_active [OF feed_ok_reach [OF s(1)] s(4)] s(3) feed_ok_reach [OF s(1)]
    by (metis s(4) serves_def serves_ref)
  then have "state_of (on_close 0 s) 1 = Open \<and> active_run (on_close 0 s) = Some (run_of (on_close 0 s) 1) \<and> \<not> connected (on_close 0 s)"
    using s(3) by (simp add: on_close_def Let_def)
  with s(2) show ?thesis by blast
qed

end
