(* ===== verification/Notifications.thy ===== *)
theory Notifications
  imports Prelude Js_Sort Live_Feed
begin

text \<open>
  The bells of the company dashboard and of the employee portal
  (\<^verbatim>\<open>components/layout/NotificationBell.tsx\<close>). The first merges what the live feed brought with two
  polled lists, drops repetitions, sorts by time and keeps 25; the second shows what the API
  sends. Parsing a time is an argument, in milliseconds; times that do not parse are outside the
  model, and the entries of the polled lists are objects.
\<close>

section \<open>What a notification says\<close>

record notification =
  n_id :: jsval
  n_kind :: string
  n_title :: string
  n_detail :: string
  n_at :: jsval
  n_href :: string

definition time_ago :: "int \<Rightarrow> int \<Rightarrow> string" where
  "time_ago now at =
     (let mins = (now - at) div 60000; hours = mins div 60
      in if mins < 1 then ''just now''
         else if mins < 60 then show_int mins @ ''m ago''
         else if hours < 24 then show_int hours @ ''h ago''
         else show_int (hours div 24) @ ''d ago'')"

definition text_or_empty :: "jsval \<Rightarrow> string" where
  "text_or_empty v = js_to_string (or_nullish v (JStr []))"

definition employee_name :: "jsval \<Rightarrow> jsval" where
  "employee_name emp =
     (if \<not> truthy emp then JStr ''Someone''
      else or_falsy
        (JStr (trim (text_or_empty (jget emp ''first_name'') @ '' '' @ text_or_empty (jget emp ''last_name''))))
        (or_falsy (jget emp ''email'') (JStr ''Someone'')))"

text \<open>The long dash and the middle dot of the texts stand as an ASCII dash and a dot.\<close>

definition to_incident_notification :: "jsval \<Rightarrow> jsval \<Rightarrow> notification" where
  "to_incident_notification now ev =
     (let target = or_falsy (jget ev ''target_app'')
            (or_falsy (jget ev ''target_domain'') (or_falsy (jget ev ''target'') (JStr ''an unknown destination'')));
          what = (if truthy (jget ev ''operation'')
                  then js_to_string (jget ev ''operation'') @ '' . '' @ js_to_string target
                  else js_to_string target);
          kind = (if jget ev ''action'' = JStr ''blocked'' then ''blocked'' else ''alerted'')
      in \<lparr>n_id = jget ev ''id'', n_kind = kind,
          n_title = js_to_string (employee_name (jget ev ''employee'')) @ '' - '' @ kind,
          n_detail = what @ (if truthy (jget ev ''policy_name'')
                             then '' . '' @ js_to_string (jget ev ''policy_name'') else []),
          n_at = or_falsy (jget ev ''timestamp'') (or_falsy (jget ev ''created_at'') now),
          n_href = ''/dashboard/activity''\<rparr>)"

definition request_notification :: "jsval \<Rightarrow> notification" where
  "request_notification r =
     \<lparr>n_id = JStr (''req-'' @ js_to_string (jget r ''id'')), n_kind = ''access_request'',
      n_title = js_to_string (employee_name (jget r ''employee'')) @ '' requested access'',
      n_detail =
        js_to_string (or_falsy (jget r ''label'') (or_falsy (jget r ''domain'') (or_falsy (jget r ''resource'') (JStr [])))) @
        (if truthy (jget r ''reason'') then '' - '' @ [CHR 0x22] @ js_to_string (jget r ''reason'') @ [CHR 0x22] else []),
      n_at = jget r ''created_at'', n_href = ''/dashboard/access-requests''\<rparr>"

section \<open>The list\<close>

text \<open>A message of the feed: JSON that may not parse, and the time of its arrival.\<close>

definition bell_message :: "jsval option \<times> jsval \<Rightarrow> notification list \<Rightarrow> notification list" where
  "bell_message m l =
     (case m of
        (None, now) \<Rightarrow> l
      | (Some msg, now) \<Rightarrow>
          (let ev = jget msg ''payload''
           in if jget msg ''type'' \<noteq> JStr ''activity_event'' then l
              else if jget ev ''action'' \<noteq> JStr ''blocked'' \<and> jget ev ''action'' \<noteq> JStr ''alerted'' then l
              else take 20 (to_incident_notification now ev # l)))"

definition merged :: "jsval \<Rightarrow> notification list \<Rightarrow> jsval \<Rightarrow> jsval \<Rightarrow> notification list" where
  "merged now l incidents requests =
     l @ map (to_incident_notification now) (arr_items (jget (jget incidents ''data'') ''data'')) @
     map request_notification (arr_items (jget (jget requests ''data'') ''data''))"

definition newest_first :: "(jsval \<Rightarrow> int) \<Rightarrow> notification \<Rightarrow> notification \<Rightarrow> int" where
  "newest_first ms a b = ms (n_at b) - ms (n_at a)"

definition notifications :: "(jsval \<Rightarrow> int) \<Rightarrow> notification list \<Rightarrow> notification list" where
  "notifications ms ns = take 25 (sort_by (newest_first ms) (first_of_each n_id [] ns))"

interpretation newest: comparison "newest_first ms" for ms
  by unfold_locales (auto simp: newest_first_def)

section \<open>The bell\<close>

record bell =
  b_open :: bool
  b_last_seen :: int
  b_stored :: int

definition unread :: "(jsval \<Rightarrow> int) \<Rightarrow> notification list \<Rightarrow> bell \<Rightarrow> nat" where
  "unread ms ns b = length (filter (\<lambda>n. ms (n_at n) > b_last_seen b) (notifications ms ns))"

definition badge :: "nat \<Rightarrow> string" where
  "badge u = (if u > 9 then ''9+'' else show_nat u)"

definition mark_all_read :: "int \<Rightarrow> bell \<Rightarrow> bell" where
  "mark_all_read now b = b\<lparr>b_stored := now, b_last_seen := now\<rparr>"

definition toggle_bell :: "(jsval \<Rightarrow> int) \<Rightarrow> notification list \<Rightarrow> int \<Rightarrow> bell \<Rightarrow> bell" where
  "toggle_bell ms ns now b =
     (let b1 = b\<lparr>b_open := \<not> b_open b\<rparr>
      in if \<not> b_open b \<and> unread ms ns b > 0 then mark_all_read now b1 else b1)"

text \<open>On mount the mark is read from the storage; an absent one is 0.\<close>

definition mount_bell :: "jsval \<Rightarrow> bell option" where
  "mount_bell stored =
     map_option (\<lambda>n. \<lparr>b_open = False, b_last_seen = n, b_stored = n\<rparr>)
       (js_to_number (or_nullish stored (JNum 0)))"

section \<open>The portal's bell\<close>

record portal_item =
  i_id :: string
  i_read :: bool

text \<open>
  The cached answer, the calls made: marking all as read shows the result at once, and every
  mark fetches the list again when it is settled.
\<close>

datatype bell_call = Mark_All | Mark_One string | Fetch

record portal_bell =
  pb_open :: bool
  pb_data :: "(portal_item list \<times> nat) option"
  pb_calls :: "bell_call list"

datatype portal_event = Portal_Toggle | Portal_Read_All | Portal_Item portal_item | Portal_Settled | Portal_Answer "portal_item list" nat
  | Portal_Message "jsval option"

definition portal_wants :: "jsval option \<Rightarrow> bool" where
  "portal_wants m =
     (case m of
        None \<Rightarrow> False
      | Some msg \<Rightarrow>
          jget msg ''type'' = JStr ''notification'' \<or>
          jget msg ''type'' = JStr ''activity_event'' \<and>
          (jget (jget msg ''payload'') ''action'' = JStr ''blocked'' \<or>
           jget (jget msg ''payload'') ''action'' = JStr ''alerted''))"

fun portal_step :: "portal_event \<Rightarrow> portal_bell \<Rightarrow> portal_bell" where
  "portal_step Portal_Toggle s = s\<lparr>pb_open := \<not> pb_open s\<rparr>"
| "portal_step Portal_Read_All s =
     s\<lparr>pb_data := map_option (\<lambda>(is, n). (map (\<lambda>i. i\<lparr>i_read := True\<rparr>) is, 0)) (pb_data s),
       pb_calls := pb_calls s @ [Mark_All]\<rparr>"
| "portal_step (Portal_Item i) s =
     (if \<not> i_read i \<and> \<not> starts_with (i_id i) ''ev-''
      then s\<lparr>pb_open := False, pb_calls := pb_calls s @ [Mark_One (i_id i)]\<rparr>
      else s\<lparr>pb_open := False\<rparr>)"
| "portal_step Portal_Settled s = s\<lparr>pb_calls := pb_calls s @ [Fetch]\<rparr>"
| "portal_step (Portal_Answer is n) s = s\<lparr>pb_data := Some (is, n)\<rparr>"
| "portal_step (Portal_Message m) s = (if portal_wants m then s\<lparr>pb_calls := pb_calls s @ [Fetch]\<rparr> else s)"

section \<open>The list shows the newest\<close>

lemma set_merged_ids: "n_id ` set (first_of_each n_id [] ns) = n_id ` set ns"
  by (simp add: first_of_each_keys)

lemma length_first_of_each: "length (first_of_each n_id [] ns) = card (n_id ` set ns)"
  using first_of_each_keys [of n_id "[]" ns] by (metis distinct_card length_map list.set_map Diff_empty list.set(1))

text \<open>
  the list shows every notification once, the newest first, at most 25 of them; what it
  leaves out is not newer than anything it shows.
\<close>

theorem bell_shows_newest:
  "distinct (map n_id (notifications ms ns)) \<and> set (notifications ms ns) \<subseteq> set ns \<and>
   sorted_wrt (\<lambda>a b. ms (n_at b) \<le> ms (n_at a)) (notifications ms ns) \<and>
   length (notifications ms ns) = min 25 (card (n_id ` set ns)) \<and>
   (\<forall>n \<in> set (first_of_each n_id [] ns) - set (notifications ms ns).
      \<forall>m \<in> set (notifications ms ns). ms (n_at n) \<le> ms (n_at m))"
proof (intro conjI ballI)
  let ?all = "sort_by (newest_first ms) (first_of_each n_id [] ns)"
  show "distinct (map n_id (notifications ms ns))"
    unfolding notifications_def take_map [symmetric]
    by (intro distinct_take) (simp add: first_of_each_keys)
  show "set (notifications ms ns) \<subseteq> set ns"
    using set_take_subset [of 25 ?all] first_of_each_subset [of n_id "[]" ns] by (auto simp: notifications_def)
  show "sorted_wrt (\<lambda>a b. ms (n_at b) \<le> ms (n_at a)) (notifications ms ns)"
    using sorted_wrt_take [OF newest.sorted_sort_by] by (simp add: notifications_def newest_first_def)
  show "length (notifications ms ns) = min 25 (card (n_id ` set ns))"
    by (simp add: notifications_def length_first_of_each min.commute)
  fix n m assume n: "n \<in> set (first_of_each n_id [] ns) - set (notifications ms ns)" and m: "m \<in> set (notifications ms ns)"
  have "set ?all = set (take 25 ?all) \<union> set (drop 25 ?all)"
    by (metis append_take_drop_id set_append)
  then have "n \<in> set (drop 25 ?all)" using n by (auto simp: notifications_def)
  then have "newest_first ms m n \<le> 0"
    using m newest.cut_sort_by unfolding notifications_def by blast
  then show "ms (n_at n) \<le> ms (n_at m)" by (simp add: newest_first_def)
qed

theorem bell_shows_newest_witness:
  "map n_id (notifications (\<lambda>v. the (js_to_number v))
     [\<lparr>n_id = JStr ''a'', n_kind = ''blocked'', n_title = [], n_detail = [], n_at = JNum 1, n_href = []\<rparr>,
      \<lparr>n_id = JStr ''b'', n_kind = ''blocked'', n_title = [], n_detail = [], n_at = JNum 2, n_href = []\<rparr>,
      \<lparr>n_id = JStr ''a'', n_kind = ''alerted'', n_title = [], n_detail = [], n_at = JNum 3, n_href = []\<rparr>]) =
   [JStr ''b'', JStr ''a''] \<and>
   length (notifications (\<lambda>v. 0) []) = 0"
  using bell_shows_newest [of "\<lambda>v. 0" "[]"] by (simp add: notifications_def newest_first_def)

text \<open>The live notifications never exceed 20 and come from blocked and alerted events only.\<close>

lemma bell_message_spec:
  assumes "length l \<le> 20" "list_all (\<lambda>n. n_kind n \<in> {''blocked'', ''alerted''}) l"
  shows "length (bell_message m l) \<le> 20 \<and> list_all (\<lambda>n. n_kind n \<in> {''blocked'', ''alerted''}) (bell_message m l)"
proof -
  have "list_all P (take 19 l)" if "list_all P l" for P
    using that set_take_subset [of 19 l] by (auto simp: list_all_iff)
  then show ?thesis
    using assms
    by (cases m) (auto simp: bell_message_def to_incident_notification_def Let_def split: option.split)
qed

lemma live_notifications:
  assumes "feed_reach bell_message {} [] s"
  shows "length (live s) \<le> 20 \<and> list_all (\<lambda>n. n_kind n \<in> {''blocked'', ''alerted''}) (live s)"
  using assms by (rule live_invariant) (simp, rule bell_message_spec, simp_all)

text \<open>
  opening the bell clears its badge when no notification is from the future of the browser's
  clock, and whatever opens and closes the bell, the mark in the storage is the mark used.
\<close>

theorem opening_clears_badge:
  assumes "\<not> b_open b" "\<forall>n \<in> set (notifications ms ns). ms (n_at n) \<le> now"
  shows "unread ms ns (toggle_bell ms ns now b) = 0 \<and> b_open (toggle_bell ms ns now b) \<and>
    (b_stored b = b_last_seen b \<longrightarrow> b_stored (toggle_bell ms ns now b) = b_last_seen (toggle_bell ms ns now b))"
  using assms by (auto simp: toggle_bell_def Let_def mark_all_read_def unread_def filter_empty_conv)

theorem opening_clears_badge_witness:
  "unread (\<lambda>v. 5) [] (toggle_bell (\<lambda>v. 5) [] 7 \<lparr>b_open = False, b_last_seen = 0, b_stored = 0\<rparr>) = 0"
  using opening_clears_badge [of "\<lparr>b_open = False, b_last_seen = 0, b_stored = 0\<rparr>" "\<lambda>v. 5" "[]" 7]
  by (simp add: notifications_def)

section \<open>The portal marks what is stored\<close>

definition portal_run :: "portal_event list \<Rightarrow> portal_bell \<Rightarrow> portal_bell" where
  "portal_run es s = foldl (\<lambda>s e. portal_step e s) s es"

text \<open>
  the portal marks stored notifications only, never activity items; marking all shows no
  unread item until the next answer.
\<close>

theorem portal_marks_stored:
  assumes "\<forall>i. Mark_One i \<in> set (pb_calls s) \<longrightarrow> \<not> starts_with i ''ev-''"
  shows "(\<forall>i. Mark_One i \<in> set (pb_calls (portal_run es s)) \<longrightarrow> \<not> starts_with i ''ev-'') \<and>
    (\<forall>is n. (\<forall>e \<in> set es. \<forall>js k. e \<noteq> Portal_Answer js k) \<longrightarrow>
       pb_data (portal_run (Portal_Read_All # es) s) = Some (is, n) \<longrightarrow> n = 0 \<and> list_all i_read is)"
proof (intro conjI allI impI)
  have "portal_run (es @ [e]) s = portal_step e (portal_run es s)" for e es
    by (simp add: portal_run_def)
  note run = this
  show "Mark_One i \<in> set (pb_calls (portal_run es s)) \<Longrightarrow> \<not> starts_with i ''ev-''" for i
  proof (induction es rule: rev_induct)
    case (snoc e es)
    then show ?case by (cases e) (auto simp: run split: if_splits)
  qed (use assms in \<open>simp add: portal_run_def\<close>)
  have "\<forall>is n. pb_data (portal_run (Portal_Read_All # es) s) = Some (is, n) \<longrightarrow> n = 0 \<and> list_all i_read is"
    if "\<forall>e \<in> set es. \<forall>js k. e \<noteq> Portal_Answer js k" for es
    using that
  proof (induction es rule: rev_induct)
    case (snoc e es)
    have "portal_run (Portal_Read_All # es @ [e]) s = portal_step e (portal_run (Portal_Read_All # es) s)"
      by (simp add: portal_run_def)
    then show ?case using snoc by (cases e) (auto simp: list_all_iff)
  qed (auto simp: portal_run_def list_all_iff)
  then show "n = 0" "list_all i_read is"
    if "\<forall>e \<in> set es. \<forall>js k. e \<noteq> Portal_Answer js k" "pb_data (portal_run (Portal_Read_All # es) s) = Some (is, n)" for "is" n
    using that by blast+
qed

end
