(* ===== verification/Activity_Feed.thy ===== *)
theory Activity_Feed
  imports Prelude Js_Sort Live_Feed
begin

text \<open>
  The activity page of the company dashboard (\<^verbatim>\<open>app/dashboard/activity/page.tsx\<close>): the tabs and
  filters, the rows the live feed brings and those of the API, and where the data of a DLP
  incident went. Next to it the filter of the API for a tab
  (\<^verbatim>\<open>internal/handlers/activity.go\<close>, \<^verbatim>\<open>internal/dataplane/sqlstore.go\<close>), which the page mirrors for
  the rows it gets live.
\<close>

section \<open>Events\<close>

record metadata =
  md_request_source :: "string option"
  md_app_name :: "string option"
  md_site :: "string option"
  md_service :: "string option"

record activity_event =
  ae_id :: string
  ae_type :: string
  ae_action :: string
  ae_category :: "string option"
  ae_target_domain :: "string option"
  ae_target_app :: "string option"
  ae_process_name :: "string option"
  ae_metadata :: "metadata option"

definition category_of :: "activity_event \<Rightarrow> string" where
  "category_of ev = to_lower (case ae_category ev of None \<Rightarrow> [] | Some c \<Rightarrow> c)"

text \<open>The page's mirror of the API's filter.\<close>

definition matches_source :: "string \<Rightarrow> activity_event \<Rightarrow> bool" where
  "matches_source source ev =
     (let cat = category_of ev; ty = ae_type ev
      in if source = [] then True
         else if source = ''web_gateway''
         then ty \<in> {''web_request'', ''dns_query''} \<and>
           cat \<notin> {''dlp'', ''malware'', ''malware_detection'', ''device_posture'', ''application_control''}
         else if source = ''dlp'' then cat = ''dlp''
         else if source = ''malware'' then cat = ''malware'' \<or> cat = ''malware_detection''
         else if source = ''application''
         then ty = ''process_start'' \<or> ty = ''app_launch'' \<or> ty = ''app_install'' \<or> cat = ''application_control''
         else if source = ''device_posture'' then cat = ''device_posture''
         else if source = ''device'' then ty \<in> {''device_connect'', ''device_disconnect'', ''device_uninstall''}
         else True)"

section \<open>The filter of the API\<close>

record event_clause =
  ec_types :: "string list"
  ec_categories :: "string list"
  ec_not_categories :: "string list"

text \<open>The clauses of a source; none is no filter.\<close>

definition activity_source_scope :: "string \<Rightarrow> event_clause list" where
  "activity_source_scope source =
     (let s = to_lower (trim source)
      in if s = ''web_gateway'' \<or> s = ''swg''
         then [\<lparr>ec_types = [''web_request'', ''dns_query''], ec_categories = [],
           ec_not_categories = [''dlp'', ''malware'', ''malware_detection'', ''device_posture'', ''application_control'']\<rparr>]
         else if s = ''dlp'' then [\<lparr>ec_types = [], ec_categories = [''dlp''], ec_not_categories = []\<rparr>]
         else if s = ''malware'' \<or> s = ''download''
         then [\<lparr>ec_types = [], ec_categories = [''malware'', ''malware_detection''], ec_not_categories = []\<rparr>]
         else if s = ''application'' \<or> s = ''app_control''
         then [\<lparr>ec_types = [''process_start'', ''app_launch'', ''app_install''], ec_categories = [], ec_not_categories = []\<rparr>,
           \<lparr>ec_types = [], ec_categories = [''application_control''], ec_not_categories = []\<rparr>]
         else if s = ''device_posture'' \<or> s = ''posture''
         then [\<lparr>ec_types = [], ec_categories = [''device_posture''], ec_not_categories = []\<rparr>]
         else if s = ''device''
         then [\<lparr>ec_types = [''device_connect'', ''device_disconnect'', ''device_uninstall''], ec_categories = [],
           ec_not_categories = []\<rparr>]
         else [])"

text \<open>The rows of the store that a clause keeps; a category may be null.\<close>

definition clause_holds :: "event_clause \<Rightarrow> activity_event \<Rightarrow> bool" where
  "clause_holds c ev =
     ((ec_types c = [] \<or> ae_type ev \<in> set (ec_types c)) \<and>
      (ec_categories c = [] \<or> (\<exists>k. ae_category ev = Some k \<and> k \<in> set (ec_categories c))) \<and>
      (ec_not_categories c = [] \<or> ae_category ev = None \<or> the (ae_category ev) \<notin> set (ec_not_categories c)))"

definition in_scope :: "event_clause list \<Rightarrow> activity_event \<Rightarrow> bool" where
  "in_scope cs ev = (cs = [] \<or> list_ex (\<lambda>c. clause_holds c ev) cs)"

definition split_csv :: "string \<Rightarrow> string list" where
  "split_csv raw = filter (\<lambda>v. v \<noteq> []) (map trim (split_on (CHR '','') raw))"

section \<open>The page\<close>

definition sources :: "string list" where
  "sources = [[], ''web_gateway'', ''dlp'', ''application'', ''malware'', ''device_posture'', ''device'']"

definition actions :: "string list" where
  "actions = [[], ''blocked'', ''alerted'', ''blocked,alerted'']"

definition wanted :: "string \<Rightarrow> string list" where
  "wanted action_filter = filter (\<lambda>v. v \<noteq> []) (split_on (CHR '','') action_filter)"

text \<open>A message: None when it is not JSON or not an activity event.\<close>

definition activity_message ::
  "string \<Rightarrow> string \<Rightarrow> activity_event option \<Rightarrow> activity_event list \<Rightarrow> activity_event list" where
  "activity_message action_filter source m l =
     (case m of
        None \<Rightarrow> l
      | Some ev \<Rightarrow>
          (if wanted action_filter \<noteq> [] \<and> ae_action ev \<notin> set (wanted action_filter) then l
           else if \<not> matches_source source ev then l
           else take 50 (ev # l)))"

definition display_events :: "activity_event list \<Rightarrow> activity_event list \<Rightarrow> activity_event list" where
  "display_events l events = first_by_index ae_id (l @ events)"

text \<open>
  The filters; \<open>ap_feed\<close> is the feed, whose effect runs again when the action or the source
  changes. React applies a click and the effects it causes before the next message.
\<close>

record activity_page =
  ap_search :: string
  ap_days :: int
  ap_page :: int
  ap_limit :: int
  ap_action :: string
  ap_source :: string
  ap_feed :: "activity_event list feed"

definition fresh_activity :: activity_page where
  "fresh_activity =
     \<lparr>ap_search = [], ap_days = 7, ap_page = 1, ap_limit = 10, ap_action = [], ap_source = [],
      ap_feed = fresh_feed []\<rparr>"

text \<open>The effect runs again when one of its dependencies changed.\<close>

definition rerun :: "activity_event list feed \<Rightarrow> activity_event list feed" where
  "rerun f = (if active_run f = None then f else start_effect (clean_up f))"

inductive page_step :: "activity_page \<Rightarrow> activity_page \<Rightarrow> bool" where
  Search: "page_step s (s\<lparr>ap_search := q, ap_page := 1\<rparr>)"
| Days: "page_step s (s\<lparr>ap_days := d, ap_page := 1\<rparr>)"
| Page: "page_step s (s\<lparr>ap_page := p\<rparr>)"
| Limit: "page_step s (s\<lparr>ap_limit := n, ap_page := 1\<rparr>)"
| Source_Tab: "src \<in> set sources \<Longrightarrow>
    page_step s (s\<lparr>ap_source := src, ap_page := 1,
      ap_feed := (if src = ap_source s then ap_feed s else rerun (ap_feed s))\<lparr>live := []\<rparr>\<rparr>)"
| Action_Tab: "a \<in> set actions \<Longrightarrow>
    page_step s (s\<lparr>ap_action := a, ap_page := 1,
      ap_feed := (if a = ap_action s then ap_feed s else rerun (ap_feed s))\<lparr>live := []\<rparr>\<rparr>)"
| Feed: "feed_step (activity_message (ap_action s) (ap_source s)) {[]} (ap_feed s) f \<Longrightarrow>
    page_step s (s\<lparr>ap_feed := f\<rparr>)"

inductive page_reach :: "activity_page \<Rightarrow> bool" where
  Fresh: "page_reach fresh_activity"
| Next: "page_reach s \<Longrightarrow> page_step s s' \<Longrightarrow> page_reach s'"

text \<open>Where the data of a DLP incident went: the source, the name shown and the site beside it.\<close>

definition text_or :: "string option \<Rightarrow> string \<Rightarrow> string" where
  "text_or a b = (case a of None \<Rightarrow> b | Some x \<Rightarrow> if x = [] then b else x)"

definition dlp_destination :: "activity_event \<Rightarrow> (string \<times> string \<times> string) option" where
  "dlp_destination ev =
     (if ae_category ev \<noteq> Some ''dlp'' then None
      else
        (let md = (\<lambda>f. Option.bind (ae_metadata ev) f); src = md md_request_source
         in if src = Some ''app''
            then Some (''App'', text_or (md md_app_name) (text_or (ae_process_name ev) ''Desktop app''), [])
            else if src = Some ''browser''
            then
              (let site = text_or (ae_target_domain ev) (text_or (md md_site) ''-'');
                   primary = text_or (md md_service) (text_or (ae_target_app ev) site)
               in Some (''Browser'', primary, if primary \<noteq> site then site else []))
            else None))"

section \<open>The mirror and the API agree\<close>

definition lower_category :: "activity_event \<Rightarrow> bool" where
  "lower_category ev = (case ae_category ev of None \<Rightarrow> True | Some c \<Rightarrow> to_lower c = c)"

lemma category_of_lower:
  "lower_category ev \<Longrightarrow> category_of ev = (case ae_category ev of None \<Rightarrow> [] | Some c \<Rightarrow> c)"
  by (auto simp: lower_category_def category_of_def to_lower_def split: option.splits)

lemma scopes:
  "activity_source_scope [] = []"
  "activity_source_scope ''web_gateway'' =
     [\<lparr>ec_types = [''web_request'', ''dns_query''], ec_categories = [],
       ec_not_categories = [''dlp'', ''malware'', ''malware_detection'', ''device_posture'', ''application_control'']\<rparr>]"
  "activity_source_scope ''dlp'' = [\<lparr>ec_types = [], ec_categories = [''dlp''], ec_not_categories = []\<rparr>]"
  "activity_source_scope ''application'' =
     [\<lparr>ec_types = [''process_start'', ''app_launch'', ''app_install''], ec_categories = [], ec_not_categories = []\<rparr>,
      \<lparr>ec_types = [], ec_categories = [''application_control''], ec_not_categories = []\<rparr>]"
  "activity_source_scope ''malware'' =
     [\<lparr>ec_types = [], ec_categories = [''malware'', ''malware_detection''], ec_not_categories = []\<rparr>]"
  "activity_source_scope ''device_posture'' = [\<lparr>ec_types = [], ec_categories = [''device_posture''], ec_not_categories = []\<rparr>]"
  "activity_source_scope ''device'' =
     [\<lparr>ec_types = [''device_connect'', ''device_disconnect'', ''device_uninstall''], ec_categories = [],
       ec_not_categories = []\<rparr>]"
  by code_simp+

lemma clause_holds_simps:
  "clause_holds \<lparr>ec_types = ts, ec_categories = [], ec_not_categories = []\<rparr> ev = (ts = [] \<or> ae_type ev \<in> set ts)"
  "clause_holds \<lparr>ec_types = [], ec_categories = c # cs, ec_not_categories = []\<rparr> ev =
     (\<exists>k. ae_category ev = Some k \<and> k \<in> set (c # cs))"
  "clause_holds \<lparr>ec_types = ts, ec_categories = [], ec_not_categories = n # ns\<rparr> ev =
     ((ts = [] \<or> ae_type ev \<in> set ts) \<and> (ae_category ev = None \<or> the (ae_category ev) \<notin> set (n # ns)))"
  by (simp_all add: clause_holds_def)

lemma source_cases:
  "s \<in> set sources \<longleftrightarrow> s = [] \<or> s = ''web_gateway'' \<or> s = ''dlp'' \<or> s = ''application'' \<or> s = ''malware'' \<or>
     s = ''device_posture'' \<or> s = ''device''"
  by (simp add: sources_def)

lemma matches_source_scope:
  assumes "s \<in> set sources" "lower_category ev"
  shows "matches_source s ev = in_scope (activity_source_scope s) ev"
  using assms(1) unfolding source_cases matches_source_def category_of_lower [OF assms(2)] Let_def
  by (elim disjE; cases "ae_category ev"; simp add: scopes in_scope_def clause_holds_simps)

lemma wanted_actions: "a \<in> set actions \<Longrightarrow> wanted a = split_csv a"
proof -
  have "list_all (\<lambda>a. wanted a = split_csv a) actions" by code_simp
  then show "a \<in> set actions \<Longrightarrow> wanted a = split_csv a" by (simp add: list_all_iff)
qed

text \<open>The rows of the API for an action and a source: those asked for, and never allowed traffic.\<close>

definition api_keeps :: "string \<Rightarrow> string \<Rightarrow> activity_event \<Rightarrow> bool" where
  "api_keeps action source ev =
     ((action = [] \<or> ae_action ev \<in> set (split_csv action)) \<and> ae_action ev \<noteq> ''allowed'' \<and>
      in_scope (activity_source_scope source) ev)"

definition passes_filters :: "string \<Rightarrow> string \<Rightarrow> activity_event \<Rightarrow> bool" where
  "passes_filters action source ev =
     ((wanted action = [] \<or> ae_action ev \<in> set (wanted action)) \<and> matches_source source ev)"

lemma activity_message_passes:
  "list_all (passes_filters a src) l \<Longrightarrow> length l \<le> 50 \<Longrightarrow>
     list_all (passes_filters a src) (activity_message a src m l) \<and> length (activity_message a src m l) \<le> 50"
  using set_take_subset [of 49 l]
  by (auto simp: activity_message_def passes_filters_def list_all_iff split: option.splits)

lemma passes_filters_api:
  assumes "a \<in> set actions" "src \<in> set sources" "lower_category ev" "ae_action ev \<noteq> ''allowed''"
  shows "passes_filters a src ev = api_keeps a src ev"
proof -
  have "wanted a = [] \<longleftrightarrow> a = []" using assms(1) by (auto simp: actions_def wanted_def)
  then show ?thesis
    using assms wanted_actions [OF assms(1)] by (auto simp: passes_filters_def api_keeps_def matches_source_scope)
qed

text \<open>
  C35: for the tabs the page offers, an event whose category is written in lower case passes the
  page's mirror exactly when the API's filter for the tab keeps it.
\<close>

theorem live_mirror_matches_api:
  assumes "a \<in> set actions" "src \<in> set sources" "lower_category ev" "ae_action ev \<noteq> ''allowed''"
  shows "passes_filters a src ev = api_keeps a src ev"
  using assms by (rule passes_filters_api)

definition sample :: activity_event where
  "sample =
     \<lparr>ae_id = ''e1'', ae_type = ''web_request'', ae_action = ''blocked'', ae_category = Some ''url_category'',
      ae_target_domain = Some ''example.com'', ae_target_app = None, ae_process_name = None, ae_metadata = None\<rparr>"

theorem live_mirror_matches_api_witness:
  "passes_filters ''blocked,alerted'' ''web_gateway'' sample \<and> api_keeps ''blocked,alerted'' ''web_gateway'' sample"
proof -
  have "''blocked,alerted'' \<in> set actions" "''web_gateway'' \<in> set sources" "lower_category sample"
    "ae_action sample \<noteq> ''allowed''" "passes_filters ''blocked,alerted'' ''web_gateway'' sample"
    by code_simp+
  then show ?thesis using live_mirror_matches_api by blast
qed

section \<open>The live rows belong to the tab\<close>

lemma rerun_live [simp]: "live (rerun f) = live f"
  by (simp add: rerun_def start_effect_def connect_def clean_up_def close_socket_def split: option.split)

lemma page_live:
  assumes "page_reach s"
  shows "list_all (passes_filters (ap_action s) (ap_source s)) (live (ap_feed s)) \<and> length (live (ap_feed s)) \<le> 50"
  using assms
proof (induction rule: page_reach.induct)
  case (Next s s')
  from Next.hyps(2) Next.IH show ?case
  proof (induction rule: page_step.induct)
    case (Feed s f)
    then show ?case
      using live_step [OF Feed.hyps] activity_message_passes by auto
  qed auto
qed (simp add: fresh_activity_def fresh_feed_def)

lemma feed_ok_rerun: "feed_ok f \<Longrightarrow> feed_ok (rerun f)"
proof -
  have "active_run (clean_up f) = None"
    by (simp add: clean_up_def close_socket_def split: option.split)
  then show "feed_ok f \<Longrightarrow> feed_ok (rerun f)"
    by (auto simp: rerun_def intro: feed_ok_start feed_ok_clean)
qed

lemma page_feed_ok: "page_reach s \<Longrightarrow> feed_ok (ap_feed s)"
proof (induction rule: page_reach.induct)
  case (Next s s')
  from Next.hyps(2) Next.IH show ?case
    by (induction rule: page_step.induct) (auto intro: feed_ok_rerun feed_ok_step)
qed (simp add: fresh_activity_def)

lemma page_filters: "page_reach s \<Longrightarrow> ap_action s \<in> set actions \<and> ap_source s \<in> set sources"
proof (induction rule: page_reach.induct)
  case (Next s s')
  from Next.hyps(2) Next.IH show ?case by (induction rule: page_step.induct) auto
qed (simp add: fresh_activity_def actions_def sources_def)

text \<open>
  whatever is typed, chosen and received, every live row is one the API would list under the
  chosen action and tab, there are at most 50, and the table shows no event twice.
\<close>

theorem live_rows_belong_to_tab:
  assumes "page_reach s" "ev \<in> set (live (ap_feed s))" "lower_category ev" "ae_action ev \<noteq> ''allowed''"
  shows "api_keeps (ap_action s) (ap_source s) ev \<and> length (live (ap_feed s)) \<le> 50 \<and>
    distinct (map ae_id (display_events (live (ap_feed s)) rows))"
proof (intro conjI)
  have "passes_filters (ap_action s) (ap_source s) ev"
    using page_live [OF assms(1)] assms(2) by (simp add: list_all_iff)
  then show "api_keeps (ap_action s) (ap_source s) ev"
    using page_filters [OF assms(1)] assms(3,4) passes_filters_api by blast
  show "length (live (ap_feed s)) \<le> 50" using page_live [OF assms(1)] by simp
  show "distinct (map ae_id (display_events (live (ap_feed s)) rows))"
    by (simp add: display_events_def first_by_index_eq first_of_each_keys)
qed

text \<open>A busy_visit in which an event arrives, a text is searched and the second page is opened.\<close>

definition busy_visit :: "string \<Rightarrow> int \<Rightarrow> activity_page" where
  "busy_visit q p =
     fresh_activity\<lparr>ap_search := q, ap_page := p,
       ap_feed := (opened 0 (start_effect (fresh_feed [])))\<lparr>live := [sample]\<rparr>\<rparr>"

lemma feed_moves:
  assumes "page_reach (fresh_activity\<lparr>ap_feed := f\<rparr>)" "feed_step (activity_message [] []) {[]} f f'"
  shows "page_reach (fresh_activity\<lparr>ap_feed := f'\<rparr>)"
  using page_reach.Next [OF assms(1) page_step.Feed, of f'] assms(2) by (simp add: fresh_activity_def)

lemma busy_visit_reach: "page_reach (busy_visit q p)"
proof -
  let ?f0 = "fresh_feed [] :: activity_event list feed"
  note defs = start_effect_def connect_def fresh_feed_def opened_def set_state_def state_of_def
  have "page_reach (fresh_activity\<lparr>ap_feed := ?f0\<rparr>)"
    using page_reach.Fresh by (simp add: fresh_activity_def)
  then have "page_reach (fresh_activity\<lparr>ap_feed := start_effect ?f0\<rparr>)"
    by (rule feed_moves) (rule feed_step.Start, simp add: fresh_feed_def)
  then have "page_reach (fresh_activity\<lparr>ap_feed := opened 0 (start_effect ?f0)\<rparr>)"
    by (rule feed_moves) (unfold opened_def, rule feed_step.Opened, simp add: defs)
  then have "page_reach (fresh_activity\<lparr>ap_feed := (opened 0 (start_effect ?f0))\<lparr>live := [sample]\<rparr>\<rparr>)"
  proof (rule feed_moves)
    have "activity_message [] [] (Some sample) (live (opened 0 (start_effect ?f0))) = [sample]"
      by (simp add: defs) code_simp
    then show "feed_step (activity_message [] []) {[]} (opened 0 (start_effect ?f0))
        ((opened 0 (start_effect ?f0))\<lparr>live := [sample]\<rparr>)"
      using feed_step.Brings [of "opened 0 (start_effect ?f0)" 0 "activity_message [] []" "{[]}" "Some sample"]
      by (simp add: defs)
  qed
  then have "page_reach (fresh_activity\<lparr>ap_feed := (opened 0 (start_effect ?f0))\<lparr>live := [sample]\<rparr>, ap_search := q, ap_page := 1\<rparr>)"
    by (rule page_reach.Next) (rule page_step.Search)
  then have "page_reach (fresh_activity\<lparr>ap_feed := (opened 0 (start_effect ?f0))\<lparr>live := [sample]\<rparr>, ap_search := q, ap_page := 1, ap_page := p\<rparr>)"
    by (rule page_reach.Next) (rule page_step.Page)
  then show ?thesis by (simp add: busy_visit_def fresh_activity_def)
qed

theorem live_rows_belong_to_tab_witness:
  "api_keeps [] [] sample \<and> length (live (ap_feed (busy_visit [] 1))) \<le> 50"
proof -
  have "sample \<in> set (live (ap_feed (busy_visit [] 1)))" by (simp add: busy_visit_def)
  moreover have "lower_category sample" "ae_action sample \<noteq> ''allowed''" by code_simp+
  moreover have "ap_action (busy_visit [] 1) = []" "ap_source (busy_visit [] 1) = []"
    by (simp_all add: busy_visit_def fresh_activity_def)
  ultimately show ?thesis
    using live_rows_belong_to_tab [OF busy_visit_reach [of "[]" 1], of sample] by simp
qed

text \<open>
  a live row is shown whatever is searched for and on every page, and no answer of the API
  removes it: here one whose domain does not contain the text, on the second page.
\<close>

theorem live_rows_escape_search:
  "\<exists>s. page_reach s \<and> ap_search s = ''intranet'' \<and> ap_page s = 2 \<and>
     ae_target_domain sample = Some ''example.com'' \<and> \<not> str_includes ''example.com'' (ap_search s) \<and>
     (\<forall>rows. sample \<in> set (display_events (live (ap_feed s)) rows))"
proof -
  have "\<not> str_includes ''example.com'' ''intranet''" by code_simp
  moreover have "sample \<in> set (display_events [sample] rows)" for rows
    by (simp add: display_events_def first_by_index_eq)
  moreover have "ap_search (busy_visit ''intranet'' 2) = ''intranet''" "ap_page (busy_visit ''intranet'' 2) = 2"
    "live (ap_feed (busy_visit ''intranet'' 2)) = [sample]" "ae_target_domain sample = Some ''example.com''"
    by (simp_all add: busy_visit_def sample_def)
  ultimately show ?thesis
    by (intro exI [of _ "busy_visit ''intranet'' 2"]) (simp add: busy_visit_reach)
qed

end
