(* ===== verification/Mfa_Card.thy ===== *)
theory Mfa_Card
  imports Prelude
begin

text \<open>
  The second factor of an account: the card of the settings page
  (\<^verbatim>\<open>components/security/MFACard.tsx\<close>) and the handlers of the API behind it
  (\<^verbatim>\<open>internal/handlers/mfa.go\<close>, with \<^verbatim>\<open>internal/auth/totp.go\<close> and \<^verbatim>\<open>internal/secretbox\<close>). The
  cipher, the hash of a code, the passwords and the random secrets and codes are arguments.
  Copying and downloading the recovery codes is not modelled.
\<close>

section \<open>The account\<close>

record account =
  acc_enabled :: bool
  acc_secret :: string
  acc_codes :: "string list"
  acc_password :: string
  acc_required :: bool

text \<open>
  \<open>totpAt\<close>: spaces and dashes are dropped and the letters raised, and a text with a character
  outside the base32 alphabet is no secret; \<open>otp\<close> gives the code of a secret at a step.
\<close>

definition upper_char :: "char \<Rightarrow> char" where
  "upper_char c = (let n = of_char c :: nat in if 97 \<le> n \<and> n \<le> 122 then char_of (n - 32) else c)"

definition base32_char :: "char \<Rightarrow> bool" where
  "base32_char c = (c \<in> set ''ABCDEFGHIJKLMNOPQRSTUVWXYZ234567'' \<or> c = CHR 0x0A \<or> c = CHR 0x0D)"

definition totp_at :: "(string \<Rightarrow> int \<Rightarrow> string option) \<Rightarrow> string \<Rightarrow> int \<Rightarrow> string option" where
  "totp_at otp secret counter =
     (let normalized = map upper_char (filter (\<lambda>c. c \<noteq> CHR '' '' \<and> c \<noteq> CHR ''-'') secret)
      in if list_all base32_char normalized then otp normalized counter else None)"

definition verify_totp :: "(string \<Rightarrow> int \<Rightarrow> string option) \<Rightarrow> int \<Rightarrow> string \<Rightarrow> string \<Rightarrow> bool" where
  "verify_totp otp now secret code =
     (let c = trim (filter (\<lambda>x. x \<noteq> CHR '' '') code); counter = now div 30
      in length c = 6 \<and>
         (case totp_at otp secret (counter - 1) of
            None \<Rightarrow> False
          | Some c1 \<Rightarrow> c1 = c \<or>
              (case totp_at otp secret counter of
                 None \<Rightarrow> False
               | Some c2 \<Rightarrow> c2 = c \<or>
                   (case totp_at otp secret (counter + 1) of None \<Rightarrow> False | Some c3 \<Rightarrow> c3 = c))))"

text \<open>\<open>Seal\<close>: the version prefix and the encoded cipher text.\<close>

definition sealed :: "(string \<Rightarrow> string) \<Rightarrow> string \<Rightarrow> string" where
  "sealed encrypt s = ''v1:'' @ encrypt s"

text \<open>What can happen when new recovery codes are made: all are stored, none is made, or some are stored.\<close>

datatype issuing = All_Stored | None_Made | Some_Stored nat

definition issue_codes :: "issuing \<Rightarrow> string list \<Rightarrow> account \<Rightarrow> string list option \<times> account" where
  "issue_codes o1 fresh a =
     (case o1 of
        All_Stored \<Rightarrow> (Some fresh, a\<lparr>acc_codes := fresh\<rparr>)
      | None_Made \<Rightarrow> (None, a)
      | Some_Stored n \<Rightarrow> (None, a\<lparr>acc_codes := take n fresh\<rparr>))"

text \<open>What the API and its surroundings contribute to one answer.\<close>

record circumstances =
  ci_now :: int
  ci_secret :: "string option"
  ci_fresh :: "string list"
  ci_issuing :: issuing

datatype request = Req_Setup | Req_Enable string | Req_Disable string | Req_Regenerate string

datatype answer = Setup_Data string | Codes "string list" | Turned_Off | Refused string


fun serve_mfa ::
  "(string \<Rightarrow> int \<Rightarrow> string option) \<Rightarrow> (string \<Rightarrow> string) \<Rightarrow> circumstances \<Rightarrow> request \<Rightarrow> account \<Rightarrow> answer \<times> account"
where
  "serve_mfa otp enc ci Req_Setup a =
     (if acc_enabled a
      then (Refused ''Two-factor authentication is already on. Turn it off first to re-enrol.'', a)
      else
        (case ci_secret ci of
           None \<Rightarrow> (Refused ''Could not start setup'', a)
         | Some s \<Rightarrow> (Setup_Data s, a\<lparr>acc_secret := sealed enc s\<rparr>)))"
| "serve_mfa otp enc ci (Req_Enable code) a =
     (if acc_enabled a then (Refused ''Two-factor authentication is already on'', a)
      else if acc_secret a = [] then (Refused ''Start setup first'', a)
      else if code = [] then (Refused ''Code is required'', a)
      else if \<not> verify_totp otp (ci_now ci) (acc_secret a) code then (Refused ''That code did not match'', a)
      else
        (case issue_codes (ci_issuing ci) (ci_fresh ci) (a\<lparr>acc_enabled := True\<rparr>) of
           (None, a') \<Rightarrow> (Refused ''Enabled, but recovery codes could not be generated'', a')
         | (Some cs, a') \<Rightarrow> (Codes cs, a')))"
| "serve_mfa otp enc ci (Req_Regenerate pw) a =
     (if \<not> acc_enabled a then (Refused ''Two-factor authentication is not on'', a)
      else if pw = [] then (Refused ''Password is required'', a)
      else if pw \<noteq> acc_password a then (Refused ''That password is incorrect'', a)
      else
        (case issue_codes (ci_issuing ci) (ci_fresh ci) a of
           (None, a') \<Rightarrow> (Refused ''Could not generate new codes'', a')
         | (Some cs, a') \<Rightarrow> (Codes cs, a')))"
| "serve_mfa otp enc ci (Req_Disable pw) a =
     (if pw = [] then (Refused ''Password is required'', a)
      else if pw \<noteq> acc_password a then (Refused ''That password is incorrect'', a)
      else if acc_required a then (Refused ''Your organization requires two-factor authentication.'', a)
      else (Turned_Off, a\<lparr>acc_enabled := False, acc_secret := [], acc_codes := []\<rparr>))"

section \<open>The card\<close>

datatype card_step = Idle | Scan | Show_Codes

text \<open>
  \<open>k_requests\<close> are the requests under way, each with its number; the button of an action is
  disabled while its latest request is one of them. \<open>k_status\<close> is what the status query last
  said: whether the second factor is on and whether the organisation requires it.
\<close>

record card =
  k_step :: card_step
  k_setup :: "string option"
  k_code :: string
  k_codes :: "string list"
  k_show_secret :: bool
  k_confirm :: bool
  k_regenerating :: bool
  k_password :: string
  k_status :: "(bool \<times> bool) option"
  k_requests :: "(nat \<times> request) list"
  k_made :: nat

definition fresh_card :: card where
  "fresh_card =
     \<lparr>k_step = Idle, k_setup = None, k_code = [], k_codes = [], k_show_secret = False, k_confirm = False,
      k_regenerating = False, k_password = [], k_status = None, k_requests = [], k_made = 0\<rparr>"

definition send :: "request \<Rightarrow> card \<Rightarrow> card" where
  "send r k = k\<lparr>k_requests := k_requests k @ [(k_made k, r)], k_made := Suc (k_made k)\<rparr>"

definition is_enable :: "request \<Rightarrow> bool" where
  "is_enable r = (case r of Req_Enable _ \<Rightarrow> True | _ \<Rightarrow> False)"

definition prompts :: "request \<Rightarrow> bool" where
  "prompts r = (case r of Req_Disable _ \<Rightarrow> True | Req_Regenerate _ \<Rightarrow> True | _ \<Rightarrow> False)"

definition under_way :: "(request \<Rightarrow> bool) \<Rightarrow> card \<Rightarrow> bool" where
  "under_way P k = list_ex (\<lambda>(n, r). P r) (k_requests k)"

datatype card_event =
    Status bool bool
  | Set_Up
  | Toggle_Secret
  | Type_Code string
  | Enter_Code
  | Verify
  | Cancel_Scan
  | Saved
  | New_Codes
  | Turn_Off
  | Type_Password string
  | Close_Prompt
  | Confirm

text \<open>A control counts only where the card shows it; Enter in the code field does not look at a request under way.\<close>

fun on_card :: "card_event \<Rightarrow> card \<Rightarrow> card" where
  "on_card (Status e r) k = k\<lparr>k_status := Some (e, r)\<rparr>"
| "on_card Set_Up k =
     (if k_step k = Idle \<and> (\<exists>r. k_status k = Some (False, r)) \<and> \<not> under_way ((=) Req_Setup) k
      then send Req_Setup k else k)"
| "on_card Toggle_Secret k =
     (if k_step k = Scan \<and> k_setup k \<noteq> None then k\<lparr>k_show_secret := \<not> k_show_secret k\<rparr> else k)"
| "on_card (Type_Code c) k = (if k_step k = Scan \<and> k_setup k \<noteq> None then k\<lparr>k_code := c\<rparr> else k)"
| "on_card Enter_Code k =
     (if k_step k = Scan \<and> k_setup k \<noteq> None \<and> trim (k_code k) \<noteq> [] then send (Req_Enable (k_code k)) k else k)"
| "on_card Verify k =
     (if k_step k = Scan \<and> k_setup k \<noteq> None \<and> trim (k_code k) \<noteq> [] \<and> \<not> under_way is_enable k
      then send (Req_Enable (k_code k)) k else k)"
| "on_card Cancel_Scan k =
     (if k_step k = Scan \<and> k_setup k \<noteq> None then k\<lparr>k_step := Idle, k_setup := None\<rparr> else k)"
| "on_card Saved k =
     (if k_step k = Show_Codes then k\<lparr>k_step := Idle, k_codes := [], k_setup := None\<rparr> else k)"
| "on_card New_Codes k =
     (if k_step k = Idle \<and> (\<exists>r. k_status k = Some (True, r)) then k\<lparr>k_regenerating := True, k_password := []\<rparr> else k)"
| "on_card Turn_Off k =
     (if k_step k = Idle \<and> k_status k = Some (True, False) then k\<lparr>k_confirm := True, k_password := []\<rparr> else k)"
| "on_card (Type_Password p) k = (if k_confirm k \<or> k_regenerating k then k\<lparr>k_password := p\<rparr> else k)"
| "on_card Close_Prompt k =
     (if k_confirm k \<or> k_regenerating k
      then k\<lparr>k_confirm := False, k_regenerating := False, k_password := []\<rparr> else k)"
| "on_card Confirm k =
     (if (k_confirm k \<or> k_regenerating k) \<and> k_password k \<noteq> [] \<and> \<not> under_way prompts k
      then send (if k_confirm k then Req_Disable (k_password k) else Req_Regenerate (k_password k)) k else k)"

text \<open>What an answer does; an error is only shown.\<close>

fun card_answer :: "request \<Rightarrow> answer \<Rightarrow> card \<Rightarrow> card" where
  "card_answer r (Refused msg) k = k"
| "card_answer r (Setup_Data s) k = k\<lparr>k_setup := Some s, k_step := Scan, k_code := []\<rparr>"
| "card_answer (Req_Regenerate p) (Codes cs) k =
     k\<lparr>k_codes := cs, k_step := Show_Codes, k_regenerating := False, k_password := []\<rparr>"
| "card_answer r (Codes cs) k = k\<lparr>k_codes := cs, k_step := Show_Codes\<rparr>"
| "card_answer r Turned_Off k = k\<lparr>k_confirm := False, k_password := [], k_step := Idle\<rparr>"

section \<open>The card and the API together\<close>

text \<open>
  The card with an account: an event of the card, or one of its requests, in any order, is
  served and answered. The circumstances are those the environment allows.
\<close>

inductive mfa_step ::
  "(string \<Rightarrow> int \<Rightarrow> string option) \<Rightarrow> (string \<Rightarrow> string) \<Rightarrow> (circumstances \<Rightarrow> bool) \<Rightarrow>
   card \<times> account \<Rightarrow> card \<times> account \<Rightarrow> bool" for otp enc allowed
where
  Event: "mfa_step otp enc allowed (k, a) (on_card e k, a)"
| Answer: "(n, r) \<in> set (k_requests k) \<Longrightarrow> allowed ci \<Longrightarrow> serve_mfa otp enc ci r a = (ans, a') \<Longrightarrow>
    mfa_step otp enc allowed (k, a)
      (card_answer r ans (k\<lparr>k_requests := filter (\<lambda>q. fst q \<noteq> n) (k_requests k)\<rparr>), a')"

inductive mfa_reach ::
  "(string \<Rightarrow> int \<Rightarrow> string option) \<Rightarrow> (string \<Rightarrow> string) \<Rightarrow> (circumstances \<Rightarrow> bool) \<Rightarrow> account \<Rightarrow>
   card \<times> account \<Rightarrow> bool" for otp enc allowed a0
where
  Begin: "mfa_reach otp enc allowed a0 (fresh_card, a0)"
| More: "mfa_reach otp enc allowed a0 s \<Longrightarrow> mfa_step otp enc allowed s s' \<Longrightarrow> mfa_reach otp enc allowed a0 s'"

inductive_cases mfa_stepE: "mfa_step otp enc allowed s s'"

lemma mfa_invariant:
  assumes "mfa_reach otp enc allowed a0 s" "P fresh_card a0"
    and "\<And>k a e. P k a \<Longrightarrow> P (on_card e k) a"
    and "\<And>k a n r ci ans a'. P k a \<Longrightarrow> (n, r) \<in> set (k_requests k) \<Longrightarrow> allowed ci \<Longrightarrow>
           serve_mfa otp enc ci r a = (ans, a') \<Longrightarrow>
           P (card_answer r ans (k\<lparr>k_requests := filter (\<lambda>q. fst q \<noteq> n) (k_requests k)\<rparr>)) a'"
  shows "P (fst s) (snd s)"
  using assms(1)
proof (induction rule: mfa_reach.induct)
  case (More s s')
  then show ?case by (auto elim!: mfa_stepE intro: assms(3,4))
qed (simp add: assms(2))

section \<open>Codes on screen are the account's\<close>

lemma issue_codes_simps [simp]:
  "issue_codes All_Stored fresh a = (Some fresh, a\<lparr>acc_codes := fresh\<rparr>)"
  "issue_codes None_Made fresh a = (None, a)"
  "issue_codes (Some_Stored n) fresh a = (None, a\<lparr>acc_codes := take n fresh\<rparr>)"
  by (simp_all add: issue_codes_def)

lemma send_fields [simp]:
  "k_step (send r k) = k_step k" "k_codes (send r k) = k_codes k" "k_status (send r k) = k_status k"
  "set (k_requests (send r k)) = insert (k_made k, r) (set (k_requests k))"
  by (auto simp: send_def)

lemma on_card_shows: "k_step (on_card e k) = Show_Codes \<Longrightarrow> k_step k = Show_Codes \<and> k_codes (on_card e k) = k_codes k"
  by (cases e) (auto split: if_splits)

definition shown_valid :: "card \<Rightarrow> account \<Rightarrow> bool" where
  "shown_valid k a = (k_step k = Show_Codes \<longrightarrow> acc_enabled a \<and> k_codes k = acc_codes a)"

lemma shown_valid_answer:
  assumes "shown_valid k a" "serve_mfa otp enc ci r a = (ans, a')" "\<And>n. ci_issuing ci \<noteq> Some_Stored n"
  shows "shown_valid (card_answer r ans k) a'"
  using assms
  by (cases r; cases "ci_issuing ci") (auto simp: shown_valid_def split: if_splits option.splits)

lemma shown_valid_requests [simp]: "shown_valid (k\<lparr>k_requests := rs\<rparr>) a = shown_valid k a"
  by (simp add: shown_valid_def)


section \<open>A sealed secret verifies no code\<close>

lemma verify_sealed: "\<not> verify_totp otp now (sealed enc s) code"
proof -
  have "\<not> base32_char (upper_char (CHR '':''))" by code_simp
  then have "totp_at otp (sealed enc s) n = None" for n
    by (simp add: totp_at_def sealed_def)
  then show ?thesis by (simp add: verify_totp_def Let_def)
qed

definition never_on :: "(string \<Rightarrow> string) \<Rightarrow> card \<Rightarrow> account \<Rightarrow> bool" where
  "never_on enc k a =
     (\<not> acc_enabled a \<and> (acc_secret a = [] \<or> (\<exists>s. acc_secret a = sealed enc s)) \<and> k_step k \<noteq> Show_Codes)"

lemma never_on_answer:
  assumes "never_on enc k a" "serve_mfa otp enc ci r a = (ans, a')"
  shows "never_on enc (card_answer r ans (k\<lparr>k_requests := rs\<rparr>)) a'"
  using assms verify_sealed [of otp "ci_now ci" enc]
  by (cases r) (auto simp: never_on_def split: if_splits option.splits)

text \<open>
  C1: starting without a second factor, no run of the card turns it on, whatever code is typed
  and whatever the authenticator shows: the API checks codes against the sealed secret.
\<close>

theorem mfa_cannot_be_turned_on:
  assumes "mfa_reach otp enc allowed a0 (k, a)" "\<not> acc_enabled a0" "acc_secret a0 = []"
  shows "\<not> acc_enabled a \<and> k_step k \<noteq> Show_Codes"
proof -
  have "never_on enc (fst (k, a)) (snd (k, a))"
    using assms(1)
  proof (rule mfa_invariant)
    show "never_on enc fresh_card a0" using assms(2,3) by (simp add: never_on_def fresh_card_def)
    show "never_on enc (on_card e k) a" if "never_on enc k a" for k a e
      using that on_card_shows [of e k] by (auto simp: never_on_def)
  qed (rule never_on_answer)
  then show ?thesis by (simp add: never_on_def)
qed

section \<open>What is sent\<close>

definition request_ok :: "request \<Rightarrow> bool" where
  "request_ok r =
     (case r of Req_Setup \<Rightarrow> True | Req_Enable c \<Rightarrow> trim c \<noteq> [] | Req_Disable p \<Rightarrow> p \<noteq> [] | Req_Regenerate p \<Rightarrow> p \<noteq> [])"

definition requests_ok :: "card \<Rightarrow> bool" where
  "requests_ok k =
     (list_all (\<lambda>(n, r). request_ok r) (k_requests k) \<and>
      length (filter (\<lambda>(n, r). prompts r) (k_requests k)) \<le> 1 \<and>
      length (filter (\<lambda>(n, r). r = Req_Setup) (k_requests k)) \<le> 1)"

lemma not_under_way: "\<not> under_way P k \<Longrightarrow> filter (\<lambda>(n, r). P r) (k_requests k) = []"
  by (auto simp: under_way_def list_ex_iff filter_empty_conv)

lemma requests_ok_send:
  assumes "requests_ok k" "request_ok r" "prompts r \<Longrightarrow> \<not> under_way prompts k"
    and "r = Req_Setup \<Longrightarrow> \<not> under_way ((=) Req_Setup) k"
  shows "requests_ok (send r k)"
  using assms not_under_way [of prompts k] not_under_way [of "(=) Req_Setup" k]
  by (auto simp: requests_ok_def send_def eq_commute [of Req_Setup])

lemma requests_ok_fields [simp]:
  "requests_ok (k\<lparr>k_step := a\<rparr>) = requests_ok k" "requests_ok (k\<lparr>k_setup := b\<rparr>) = requests_ok k"
  "requests_ok (k\<lparr>k_code := c\<rparr>) = requests_ok k" "requests_ok (k\<lparr>k_codes := d\<rparr>) = requests_ok k"
  "requests_ok (k\<lparr>k_show_secret := e\<rparr>) = requests_ok k" "requests_ok (k\<lparr>k_confirm := f\<rparr>) = requests_ok k"
  "requests_ok (k\<lparr>k_regenerating := g\<rparr>) = requests_ok k" "requests_ok (k\<lparr>k_password := h\<rparr>) = requests_ok k"
  "requests_ok (k\<lparr>k_status := i\<rparr>) = requests_ok k"
  by (simp_all add: requests_ok_def)

lemma requests_ok_fresh: "requests_ok fresh_card"
  by (simp add: requests_ok_def fresh_card_def)

lemma requests_ok_event: "requests_ok k \<Longrightarrow> requests_ok (on_card e k)"
  by (cases e) (auto intro!: requests_ok_send simp: request_ok_def prompts_def)

lemma card_answer_requests [simp]: "k_requests (card_answer r ans k) = k_requests k"
  by (cases ans; cases r) auto

lemma requests_ok_answer:
  assumes "requests_ok k"
  shows "requests_ok (card_answer r ans (k\<lparr>k_requests := filter P (k_requests k)\<rparr>))"
proof -
  have "length (filter Q (filter P rs)) \<le> length (filter Q rs)" for Q and rs :: "(nat \<times> request) list"
    by (induction rs) auto
  note le = this [of _ "k_requests k"]
  show ?thesis
    using assms order_trans [OF le] by (simp add: requests_ok_def list_all_iff)
qed

lemma serve_turns_off:
  "serve_mfa otp enc ci r a = (ans, a') \<Longrightarrow> acc_enabled a \<Longrightarrow> \<not> acc_enabled a' \<Longrightarrow>
     r = Req_Disable (acc_password a) \<and> \<not> acc_required a"
  by (cases r; cases "ci_issuing ci") (auto split: if_splits option.splits)

text \<open>
  every request under way has its code or password, at most one request that needs the
  password and one set-up are under way at once; and the second factor goes off only by a
  request with the password of the account, when the organisation does not require it.
\<close>

theorem mfa_requests_guarded:
  assumes "mfa_reach otp enc allowed a0 (k, a)"
  shows "list_all (\<lambda>(n, r). request_ok r) (k_requests k) \<and>
    length (filter (\<lambda>(n, r). prompts r) (k_requests k)) \<le> 1 \<and>
    (\<forall>n r ci ans a'. (n, r) \<in> set (k_requests k) \<longrightarrow> serve_mfa otp enc ci r a = (ans, a') \<longrightarrow>
       acc_enabled a \<longrightarrow> \<not> acc_enabled a' \<longrightarrow> r = Req_Disable (acc_password a) \<and> \<not> acc_required a)"
proof -
  have "requests_ok (fst (k, a))"
    using assms by (rule mfa_invariant [where P = "\<lambda>k a. requests_ok k"])
      (simp_all add: requests_ok_fresh requests_ok_event requests_ok_answer)
  then show ?thesis using serve_turns_off by (auto simp: requests_ok_def)
qed

section \<open>Runs of the card\<close>

text \<open>Events of the card and answers to its oldest request, from a fresh card.\<close>

datatype act = Do card_event | Serve circumstances

fun perform :: "(string \<Rightarrow> int \<Rightarrow> string option) \<Rightarrow> (string \<Rightarrow> string) \<Rightarrow> act \<Rightarrow> card \<times> account \<Rightarrow> card \<times> account" where
  "perform otp enc (Do e) (k, a) = (on_card e k, a)"
| "perform otp enc (Serve ci) (k, a) =
     (case k_requests k of
        [] \<Rightarrow> (k, a)
      | (n, r) # rs \<Rightarrow>
          (case serve_mfa otp enc ci r a of
             (ans, a') \<Rightarrow> (card_answer r ans (k\<lparr>k_requests := filter (\<lambda>q. fst q \<noteq> n) (k_requests k)\<rparr>), a')))"

lemma perform_reach:
  assumes "mfa_reach otp enc allowed a0 s" "\<And>ci. x = Serve ci \<Longrightarrow> allowed ci"
  shows "mfa_reach otp enc allowed a0 (perform otp enc x s)"
proof (cases x)
  case (Do e)
  then show ?thesis using assms(1) mfa_reach.More [OF assms(1)] mfa_step.Event by (cases s) auto
next
  case (Serve ci)
  obtain k a where s: "s = (k, a)" by (cases s)
  show ?thesis
  proof (cases "k_requests k")
    case Nil
    then show ?thesis using assms(1) Serve s by simp
  next
    case (Cons q rs)
    obtain n r where q: "q = (n, r)" by (cases q)
    obtain ans a' where "serve_mfa otp enc ci r a = (ans, a')" by (cases "serve_mfa otp enc ci r a")
    then show ?thesis
      using mfa_reach.More [OF assms(1), unfolded s, OF mfa_step.Answer [of n r k allowed ci]] assms(2) [OF Serve]
      by (simp add: s Serve Cons q)
  qed
qed

lemma performs_reach:
  assumes "list_all (\<lambda>x. case x of Do e \<Rightarrow> True | Serve ci \<Rightarrow> allowed ci) xs"
  shows "mfa_reach otp enc allowed a0 (foldl (\<lambda>s x. perform otp enc x s) (fresh_card, a0) xs)"
  using assms
proof (induction xs rule: rev_induct)
  case (snoc x xs)
  then show ?case by (auto intro: perform_reach split: act.splits)
qed (simp add: mfa_reach.Begin)

definition plain_account :: account where
  "plain_account =
     \<lparr>acc_enabled = False, acc_secret = [], acc_codes = [], acc_password = ''pw'', acc_required = False\<rparr>"

definition usual :: circumstances where
  "usual = \<lparr>ci_now = 0, ci_secret = Some ''ABCDEFGH'', ci_fresh = [''AAAAA-BBBBB''], ci_issuing = All_Stored\<rparr>"

text \<open>Setting up with the code the authenticator shows for the secret.\<close>

definition set_up_run :: "act list" where
  "set_up_run = [Do (Status False False), Do Set_Up, Serve usual, Do (Type_Code ''123456''), Do Verify, Serve usual]"

definition right_code :: "string \<Rightarrow> int \<Rightarrow> string option" where
  "right_code s n = (if s = ''ABCDEFGH'' then Some ''123456'' else None)"

theorem mfa_cannot_be_turned_on_witness:
  "verify_totp right_code 0 ''ABCDEFGH'' ''123456'' \<and>
   k_setup (fst (foldl (\<lambda>s x. perform right_code (\<lambda>s. s) x s) (fresh_card, plain_account) set_up_run)) = Some ''ABCDEFGH'' \<and>
   \<not> acc_enabled (snd (foldl (\<lambda>s x. perform right_code (\<lambda>s. s) x s) (fresh_card, plain_account) set_up_run))"
proof -
  let ?s = "foldl (\<lambda>s x. perform right_code (\<lambda>s. s) x s) (fresh_card, plain_account) set_up_run"
  have "mfa_reach right_code (\<lambda>s. s) (\<lambda>ci. True) plain_account (fst ?s, snd ?s)"
    using performs_reach [of "\<lambda>ci. True" set_up_run right_code "\<lambda>s. s" plain_account]
    by (simp add: set_up_run_def)
  moreover have "\<not> acc_enabled plain_account" "acc_secret plain_account = []"
    by (simp_all add: plain_account_def)
  ultimately have "\<not> acc_enabled (snd ?s)"
    using mfa_cannot_be_turned_on by blast
  moreover have "verify_totp right_code 0 ''ABCDEFGH'' ''123456''" "k_setup (fst ?s) = Some ''ABCDEFGH''"
    by code_simp+
  ultimately show ?thesis by blast
qed

text \<open>An account whose second factor is on gets new codes with its password.\<close>

definition enrolled :: account where
  "enrolled = plain_account\<lparr>acc_enabled := True, acc_secret := ''ABCDEFGH'', acc_codes := [''OLD'']\<rparr>"

definition new_codes_run :: "act list" where
  "new_codes_run = [Do (Status True False), Do New_Codes, Do (Type_Password ''pw''), Do Confirm, Serve usual]"

lemma new_codes_reach:
  "mfa_reach otp enc (\<lambda>ci. ci_issuing ci = All_Stored) enrolled
     (foldl (\<lambda>s x. perform otp enc x s) (fresh_card, enrolled) new_codes_run)"
  by (rule performs_reach) (simp add: new_codes_run_def usual_def)


theorem mfa_requests_guarded_witness:
  "list_all (\<lambda>(n, r). request_ok r)
     (k_requests (fst (foldl (\<lambda>s x. perform right_code (\<lambda>s. s) x s) (fresh_card, enrolled) (butlast new_codes_run)))) \<and>
   k_requests (fst (foldl (\<lambda>s x. perform right_code (\<lambda>s. s) x s) (fresh_card, enrolled) (butlast new_codes_run))) =
     [(0, Req_Regenerate ''pw'')]"
proof -
  let ?s = "foldl (\<lambda>s x. perform right_code (\<lambda>s. s) x s) (fresh_card, enrolled) (butlast new_codes_run)"
  have "mfa_reach right_code (\<lambda>s. s) (\<lambda>ci. True) enrolled (fst ?s, snd ?s)"
    using performs_reach [of "\<lambda>ci. True" "butlast new_codes_run" right_code "\<lambda>s. s" enrolled]
    by (simp add: new_codes_run_def)
  then have "list_all (\<lambda>(n, r). request_ok r) (k_requests (fst ?s))"
    using mfa_requests_guarded by blast
  moreover have "k_requests (fst ?s) = [(0, Req_Regenerate ''pw'')]" by code_simp
  ultimately show ?thesis by blast
qed

end
