(* ===== verification/Selection.thy ===== *)
theory Selection
  imports Prelude
begin

text \<open>
  Choosing rows of a table, as the employees page and the teams page do it with the same code
  (\<^verbatim>\<open>app/dashboard/employees/page.tsx\<close>, \<^verbatim>\<open>app/dashboard/teams/page.tsx\<close>): the boxes of the rows, the
  box in the head of the table, the dialog that deletes. A JavaScript \<open>Set\<close> is the list of its
  elements in the order of insertion.
\<close>

record selection =
  sl_rows :: "string list"
  sl_selected :: "string list"
  sl_delete :: "string list"
  sl_busy :: bool
  sl_requests :: "string list list"

definition fresh_selection :: selection where
  "fresh_selection = \<lparr>sl_rows = [], sl_selected = [], sl_delete = [], sl_busy = False, sl_requests = []\<rparr>"

definition toggle_select :: "string \<Rightarrow> string list \<Rightarrow> string list" where
  "toggle_select i sel = (if i \<in> set sel then filter (\<lambda>j. j \<noteq> i) sel else sel @ [i])"

definition toggle_all :: "string list \<Rightarrow> string list \<Rightarrow> string list" where
  "toggle_all rows sel = (if length sel = length rows then [] else rev (remdups (rev rows)))"

definition header_checked :: "selection \<Rightarrow> bool" where
  "header_checked s = (length (sl_selected s) = length (sl_rows s) \<and> sl_rows s \<noteq> [])"

text \<open>
  \<open>Rows\<close> is an answer for another page, another filter or after a change; a box is clicked on a
  row that is shown; the dialog is opened for the selection or for one row.
\<close>

datatype selection_event =
    Rows "string list"
  | Toggle string
  | Toggle_All
  | Clear
  | Delete_Selected
  | Delete_Row string
  | Cancel_Delete
  | Confirm_Delete
  | Delete_Answer bool

fun select_step :: "selection_event \<Rightarrow> selection \<Rightarrow> selection" where
  "select_step (Rows rs) s = s\<lparr>sl_rows := rs\<rparr>"
| "select_step (Toggle i) s =
     (if i \<in> set (sl_rows s) then s\<lparr>sl_selected := toggle_select i (sl_selected s)\<rparr> else s)"
| "select_step Toggle_All s = s\<lparr>sl_selected := toggle_all (sl_rows s) (sl_selected s)\<rparr>"
| "select_step Clear s = s\<lparr>sl_selected := []\<rparr>"
| "select_step Delete_Selected s = (if sl_selected s = [] then s else s\<lparr>sl_delete := sl_selected s\<rparr>)"
| "select_step (Delete_Row i) s = (if i \<in> set (sl_rows s) then s\<lparr>sl_delete := [i]\<rparr> else s)"
| "select_step Cancel_Delete s = s\<lparr>sl_delete := []\<rparr>"
| "select_step Confirm_Delete s =
     (if sl_delete s = [] \<or> sl_busy s then s
      else s\<lparr>sl_busy := True, sl_requests := sl_requests s @ [sl_delete s]\<rparr>)"
| "select_step (Delete_Answer ok) s =
     (if \<not> sl_busy s then s
      else if ok then s\<lparr>sl_busy := False, sl_delete := [], sl_selected := []\<rparr>
      else s\<lparr>sl_busy := False\<rparr>)"

definition select_run :: "selection_event list \<Rightarrow> selection" where
  "select_run es = foldl (\<lambda>s e. select_step e s) fresh_selection es"

text \<open>The rows that were shown in a run.\<close>

definition shown_rows :: "selection_event list \<Rightarrow> string set" where
  "shown_rows es = (\<Union>rs \<in> {rs. Rows rs \<in> set es}. set rs)"

lemma select_run_snoc [simp]: "select_run (es @ [e]) = select_step e (select_run es)"
  by (simp add: select_run_def)

lemma set_toggle_all: "set (toggle_all rows sel) \<subseteq> set rows"
  by (simp add: toggle_all_def)

lemma distinct_toggles: "distinct sel \<Longrightarrow> distinct (toggle_select i sel) \<and> distinct (toggle_all rows sel)"
  by (simp add: toggle_select_def toggle_all_def)

lemma shown_rows_snoc: "shown_rows es \<subseteq> shown_rows (es @ [e])"
  by (auto simp: shown_rows_def)

definition select_ok :: "string set \<Rightarrow> selection \<Rightarrow> bool" where
  "select_ok shown s =
     (set (sl_rows s) \<subseteq> shown \<and> set (sl_selected s) \<subseteq> shown \<and> distinct (sl_selected s) \<and>
      set (sl_delete s) \<subseteq> shown \<and> distinct (sl_delete s) \<and>
      list_all (\<lambda>ids. ids \<noteq> [] \<and> distinct ids \<and> set ids \<subseteq> shown) (sl_requests s))"

lemma select_ok_mono: "select_ok A s \<Longrightarrow> A \<subseteq> B \<Longrightarrow> select_ok B s"
  unfolding select_ok_def list_all_iff by (meson order_trans)

lemma select_ok_step:
  assumes "select_ok A s" "\<And>rs. e = Rows rs \<Longrightarrow> set rs \<subseteq> A"
  shows "select_ok A (select_step e s)"
  using assms set_toggle_all [of "sl_rows s" "sl_selected s"] distinct_toggles [of "sl_selected s"]
  by (cases e) (auto simp: select_ok_def toggle_select_def)

lemma select_run_ok: "select_ok (shown_rows es) (select_run es)"
proof (induction es rule: rev_induct)
  case (snoc e es)
  have "select_ok (shown_rows (es @ [e])) (select_run es)"
    using snoc shown_rows_snoc by (rule select_ok_mono)
  then show ?case
    by (auto simp: shown_rows_def intro: select_ok_step)
qed (simp add: select_run_def select_ok_def fresh_selection_def)

text \<open>
  in every run, each deletion asked for names at least one row, none twice, and only rows
  that the table showed at some time.
\<close>

theorem deletions_were_shown:
  "list_all (\<lambda>ids. ids \<noteq> [] \<and> distinct ids \<and> set ids \<subseteq> shown_rows es) (sl_requests (select_run es)) \<and>
   distinct (sl_selected (select_run es))"
  using select_run_ok [of es] by (simp add: select_ok_def)

text \<open>
  when two pages have the same number of rows, choosing all rows of the first leaves the box
  in the head of the second checked although none of its rows is chosen; clicking it there
  drops the choice of the first page instead of choosing the second.
\<close>

theorem header_box_counts_only:
  assumes "distinct p1" "p1 \<noteq> []" "length p2 = length p1" "set p1 \<inter> set p2 = {}"
  shows "header_checked (select_run [Rows p1, Toggle_All, Rows p2]) \<and>
    set (sl_selected (select_run [Rows p1, Toggle_All, Rows p2])) \<inter> set p2 = {} \<and>
    sl_selected (select_run [Rows p1, Toggle_All, Rows p2, Toggle_All]) = []"
proof -
  have "rev (remdups (rev p1)) = p1"
    using assms(1) by (simp add: distinct_remdups_id)
  then have "toggle_all p1 [] = p1" using assms(2) by (simp add: toggle_all_def)
  then show ?thesis
    using assms by (auto simp: select_run_def fresh_selection_def header_checked_def toggle_all_def)
qed

theorem header_box_counts_only_witness:
  "header_checked (select_run [Rows [''a'', ''b''], Toggle_All, Rows [''c'', ''d'']])"
  using header_box_counts_only [of "[''a'', ''b'']" "[''c'', ''d'']"] by simp

end
