(* ===== verification/Employees.thy ===== *)
theory Employees
  imports Prelude Selection
begin

text \<open>
  The employees page of the company dashboard (\<^verbatim>\<open>app/dashboard/employees/page.tsx\<close>): the form
  with its requests, the import and what the page says of it; and the handlers of the API for
  them (\<^verbatim>\<open>internal/handlers/employees.go\<close>), on the employees and teams of one organisation.
  Reading and writing CSV, the check of an e-mail address and of a UUID, and fresh identifiers
  are arguments. Choosing and deleting rows is the theory \<^verbatim>\<open>Selection\<close>.
\<close>

section \<open>The organisation\<close>

record employee =
  em_id :: string
  em_first :: string
  em_last :: string
  em_email :: string
  em_phone :: string
  em_department :: string
  em_job :: string
  em_team :: "string option"
  em_status :: string
  em_avatar :: string
  em_badge :: "string option"

record org =
  o_employees :: "employee list"
  o_teams :: "string list"

text \<open>The body of a request; a key that is left out is the empty text.\<close>

record employee_request =
  er_first :: string
  er_last :: string
  er_email :: string
  er_phone :: string
  er_department :: string
  er_job :: string
  er_badge :: string
  er_team :: string
  er_status :: string
  er_avatar :: string

text \<open>
  The validator of an address in the API and in the browser, the parser of a UUID, and the
  values that the type of the status column admits.
\<close>

record library =
  is_email :: "string \<Rightarrow> bool"
  browser_email :: "string \<Rightarrow> bool"
  is_uuid :: "string \<Rightarrow> bool"
  is_status :: "string \<Rightarrow> bool"

definition binds :: "library \<Rightarrow> employee_request \<Rightarrow> bool" where
  "binds lib r = (er_first r \<noteq> [] \<and> er_last r \<noteq> [] \<and> er_email r \<noteq> [] \<and> is_email lib (er_email r))"

datatype refusal = Bad_Request | Conflict | No_Team | Unknown_Team | Not_Found | Store_Failed

text \<open>\<open>Create\<close>, with the identifiers of the new record.\<close>

definition create_employee ::
  "library \<Rightarrow> string \<Rightarrow> string \<Rightarrow> employee_request \<Rightarrow> org \<Rightarrow> (refusal + employee) \<times> org" where
  "create_employee lib new_id new_badge r s =
     (if \<not> binds lib r then (Inl Bad_Request, s)
      else if list_ex (\<lambda>e. em_email e = er_email r) (o_employees s) then (Inl Conflict, s)
      else if \<not> is_uuid lib (er_team r) then (Inl No_Team, s)
      else if er_team r \<notin> set (o_teams s) then (Inl Unknown_Team, s)
      else if er_status r \<noteq> [] \<and> \<not> is_status lib (er_status r) then (Inl Store_Failed, s)
      else
        (let e = \<lparr>em_id = new_id, em_first = er_first r, em_last = er_last r, em_email = er_email r,
           em_phone = er_phone r, em_department = er_department r, em_job = er_job r,
           em_team = Some (er_team r), em_status = (if er_status r = [] then ''active'' else er_status r),
           em_avatar = er_avatar r,
           em_badge = Some (if er_badge r \<noteq> [] \<and> is_uuid lib (er_badge r) then er_badge r else new_badge)\<rparr>
         in (Inr e, s\<lparr>o_employees := o_employees s @ [e]\<rparr>)))"

definition changed :: "library \<Rightarrow> employee_request \<Rightarrow> employee \<Rightarrow> employee" where
  "changed lib r e =
     e\<lparr>em_first := er_first r, em_last := er_last r, em_email := er_email r, em_phone := er_phone r,
       em_department := er_department r, em_job := er_job r,
       em_team := (if er_team r \<noteq> [] \<and> is_uuid lib (er_team r) then Some (er_team r) else None),
       em_avatar := er_avatar r,
       em_badge := (if er_badge r \<noteq> [] \<and> is_uuid lib (er_badge r) then Some (er_badge r) else em_badge e),
       em_status := (if er_status r \<noteq> [] then er_status r else em_status e)\<rparr>"

text \<open>\<open>Update\<close>\<close>

definition update_employee ::
  "library \<Rightarrow> string \<Rightarrow> employee_request \<Rightarrow> org \<Rightarrow> (refusal + employee) \<times> org" where
  "update_employee lib i r s =
     (case find (\<lambda>e. em_id e = i) (o_employees s) of
        None \<Rightarrow> (Inl Not_Found, s)
      | Some e \<Rightarrow>
          (if \<not> binds lib r then (Inl Bad_Request, s)
           else if list_ex (\<lambda>x. em_email x = er_email r \<and> em_id x \<noteq> i) (o_employees s) then (Inl Conflict, s)
           else if er_status r \<noteq> [] \<and> \<not> is_status lib (er_status r) then (Inl Store_Failed, s)
           else
             (Inr (changed lib r e),
              s\<lparr>o_employees := map (\<lambda>x. if em_id x = i then changed lib r x else x) (o_employees s)\<rparr>)))"

definition delete_employee :: "string \<Rightarrow> org \<Rightarrow> (refusal + unit) \<times> org" where
  "delete_employee i s =
     (if list_ex (\<lambda>e. em_id e = i) (o_employees s)
      then (Inr (), s\<lparr>o_employees := filter (\<lambda>e. em_id e \<noteq> i) (o_employees s)\<rparr>)
      else (Inl Not_Found, s))"

section \<open>Import and export\<close>

text \<open>One row of the file: the columns are name, last name, address, phone, department, job.\<close>

definition csv_field :: "string list \<Rightarrow> nat \<Rightarrow> string" where
  "csv_field row n = (if n < length row then trim (row ! n) else [])"

definition import_row :: "string \<Rightarrow> string list \<Rightarrow> employee list \<times> nat \<times> nat \<Rightarrow> employee list \<times> nat \<times> nat" where
  "import_row new_id row acc =
     (case acc of
        (es, created, skipped) \<Rightarrow>
          (if length row < 3 \<or> trim (row ! 2) = [] \<or> list_ex (\<lambda>e. em_email e = trim (row ! 2)) es
           then (es, created, skipped + 1)
           else
             (es @ [\<lparr>em_id = new_id, em_first = csv_field row 0, em_last = csv_field row 1, em_email = csv_field row 2,
                em_phone = csv_field row 3, em_department = csv_field row 4, em_job = csv_field row 5, em_team = None,
                em_status = ''active'', em_avatar = [], em_badge = None\<rparr>],
              created + 1, skipped)))"

text \<open>
  \<open>ImportCSV\<close> on the records read from the file and the identifiers of the new employees: the
  answer counts created, skipped and all rows. None when there are fewer than two records.
\<close>

definition import_csv :: "string list \<Rightarrow> string list list \<Rightarrow> org \<Rightarrow> (string \<times> nat) list option \<times> org" where
  "import_csv new_ids records s =
     (if length records < 2 then (None, s)
      else
        (case foldl (\<lambda>acc (i, row). import_row i row acc) (o_employees s, 0, 0) (zip new_ids (tl records)) of
           (es, created, skipped) \<Rightarrow>
             (Some [(''created'', created), (''skipped'', skipped), (''total'', length records - 1)],
              s\<lparr>o_employees := es\<rparr>)))"

definition export_header :: "string list" where
  "export_header =
     [''ID'', ''First Name'', ''Last Name'', ''Email'', ''Phone'', ''Department'', ''Job Title'', ''Team'', ''Status'',
      ''Risk Score'', ''Created At'']"

text \<open>A row of the export; the name of the team, the risk score and the date are arguments.\<close>

definition export_row :: "(employee \<Rightarrow> string \<times> string \<times> string) \<Rightarrow> employee \<Rightarrow> string list" where
  "export_row info e =
     (case info e of
        (team, risk, created) \<Rightarrow>
          [em_id e, em_first e, em_last e, em_email e, em_phone e, em_department e, em_job e, team, em_status e, risk, created])"

definition export_csv :: "(employee \<Rightarrow> string \<times> string \<times> string) \<Rightarrow> org \<Rightarrow> string list list" where
  "export_csv info s = export_header # map (export_row info) (o_employees s)"

section \<open>The page\<close>

record employee_form =
  f_first :: string
  f_last :: string
  f_email :: string
  f_department :: string
  f_job :: string
  f_phone :: string
  f_team :: string
  f_status :: string

definition empty_employee :: employee_form where
  "empty_employee =
     \<lparr>f_first = [], f_last = [], f_email = [], f_department = [], f_job = [], f_phone = [], f_team = [],
      f_status = ''active''\<rparr>"

definition open_employee :: "employee \<Rightarrow> employee_form" where
  "open_employee e =
     \<lparr>f_first = em_first e, f_last = em_last e, f_email = em_email e, f_department = em_department e,
      f_job = em_job e, f_phone = em_phone e, f_team = (case em_team e of None \<Rightarrow> [] | Some t \<Rightarrow> t),
      f_status = em_status e\<rparr>"

text \<open>
  What the browser requires: it does not look at the address while editing, because the field is
  disabled then, and the team is required only for a new employee.
\<close>

definition form_complete :: "library \<Rightarrow> bool \<Rightarrow> employee_form \<Rightarrow> bool" where
  "form_complete lib editing f =
     (f_first f \<noteq> [] \<and> f_last f \<noteq> [] \<and>
      (editing \<or> f_email f \<noteq> [] \<and> browser_email lib (f_email f) \<and> f_team f \<noteq> []))"

definition employee_payload :: "employee_form \<Rightarrow> employee_request" where
  "employee_payload f =
     \<lparr>er_first = f_first f, er_last = f_last f, er_email = f_email f, er_phone = f_phone f,
      er_department = f_department f, er_job = f_job f, er_badge = [], er_team = f_team f,
      er_status = f_status f, er_avatar = []\<rparr>"

record employees_page =
  ep_show :: bool
  ep_edit :: "string option"
  ep_form :: employee_form
  ep_saving :: bool
  ep_sent :: "(string option \<times> employee_request) list"

datatype employees_event =
    New_Employee
  | Edit_Employee employee
  | Type_Form employee_form
  | Close_Form
  | Submit_Form
  | Saved_Employee bool

definition closed_form :: "employees_page \<Rightarrow> employees_page" where
  "closed_form s = s\<lparr>ep_show := False, ep_edit := None, ep_form := empty_employee\<rparr>"

text \<open>The address cannot be changed while editing.\<close>

definition typed :: "employees_page \<Rightarrow> employee_form \<Rightarrow> employee_form" where
  "typed s f = (if ep_edit s \<noteq> None then f\<lparr>f_email := f_email (ep_form s)\<rparr> else f)"

fun employees_step :: "library \<Rightarrow> employees_event \<Rightarrow> employees_page \<Rightarrow> employees_page" where
  "employees_step lib New_Employee s = s\<lparr>ep_show := True, ep_edit := None, ep_form := empty_employee\<rparr>"
| "employees_step lib (Edit_Employee e) s = s\<lparr>ep_show := True, ep_edit := Some (em_id e), ep_form := open_employee e\<rparr>"
| "employees_step lib (Type_Form f) s = (if ep_show s then s\<lparr>ep_form := typed s f\<rparr> else s)"
| "employees_step lib Close_Form s = closed_form s"
| "employees_step lib Submit_Form s =
     (if ep_show s \<and> \<not> ep_saving s \<and> form_complete lib (ep_edit s \<noteq> None) (ep_form s)
      then s\<lparr>ep_saving := True, ep_sent := ep_sent s @ [(ep_edit s, employee_payload (ep_form s))]\<rparr> else s)"
| "employees_step lib (Saved_Employee ok) s =
     (if \<not> ep_saving s then s
      else if ok then (closed_form s)\<lparr>ep_saving := False\<rparr>
      else s\<lparr>ep_saving := False\<rparr>)"

text \<open>What the page says of an import: it reads the key \<open>imported\<close> of the answer.\<close>

definition import_toast :: "(string \<times> nat) list \<Rightarrow> string" where
  "import_toast ans =
     ''Imported '' @ show_nat (case map_of ans ''imported'' of None \<Rightarrow> 0 | Some n \<Rightarrow> n) @ '' employees''"

section \<open>The records of the organisation\<close>

text \<open>The requests in the order the API serves them; identifiers of new records are fresh.\<close>

inductive org_reach :: "library \<Rightarrow> org \<Rightarrow> bool" for lib where
  no_employees: "org_reach lib \<lparr>o_employees = [], o_teams = ts\<rparr>"
| created: "org_reach lib s \<Longrightarrow> i \<notin> set (map em_id (o_employees s)) \<Longrightarrow>
    org_reach lib (snd (create_employee lib i b r s))"
| updated: "org_reach lib s \<Longrightarrow> org_reach lib (snd (update_employee lib i r s))"
| deleted: "org_reach lib s \<Longrightarrow> org_reach lib (snd (delete_employee i s))"
| imported: "org_reach lib s \<Longrightarrow> distinct is \<Longrightarrow> set is \<inter> set (map em_id (o_employees s)) = {} \<Longrightarrow>
    org_reach lib (snd (import_csv is records s))"

definition records_ok :: "employee list \<Rightarrow> bool" where
  "records_ok es = (distinct (map em_email es) \<and> distinct (map em_id es) \<and> [] \<notin> set (map em_email es))"

lemma find_id:
  "distinct (map em_id es) \<Longrightarrow> e \<in> set es \<Longrightarrow> find (\<lambda>x. em_id x = em_id e) es = Some e"
  by (induction es) auto

lemma map_replace:
  "distinct (map em_id es) \<Longrightarrow> e \<in> set es \<Longrightarrow>
     map (\<lambda>x. if em_id x = em_id e then f x else x) es = map (\<lambda>x. if x = e then f e else x) es"
  by (rule map_cong) (auto simp: distinct_map inj_on_def)

lemma records_ok_add:
  "records_ok es \<Longrightarrow> em_email e \<notin> em_email ` set es \<Longrightarrow> em_id e \<notin> em_id ` set es \<Longrightarrow> em_email e \<noteq> [] \<Longrightarrow>
     records_ok (es @ [e])"
  by (auto simp: records_ok_def)

lemma records_ok_filter: "records_ok es \<Longrightarrow> records_ok (filter P es)"
  by (auto simp: records_ok_def distinct_map_filter)

lemma records_ok_change:
  assumes "records_ok es" "\<forall>x \<in> set es. em_id x \<noteq> i \<longrightarrow> em_email x \<noteq> m" "m \<noteq> []"
    and "\<And>x. em_id (f x) = em_id x" "\<And>x. em_email (f x) = m"
  shows "records_ok (map (\<lambda>x. if em_id x = i then f x else x) es)"
  using assms by (induction es) (auto simp: records_ok_def image_iff split: if_splits)

lemma changed_simps [simp]: "em_id (changed lib r e) = em_id e" "em_email (changed lib r e) = er_email r"
  by (simp_all add: changed_def)

lemma created_ok:
  assumes "records_ok (o_employees s)" "i \<notin> set (map em_id (o_employees s))"
  shows "records_ok (o_employees (snd (create_employee lib i b r s)))"
  using assms by (auto simp: create_employee_def Let_def binds_def list_ex_iff intro!: records_ok_add)

lemma updated_ok:
  assumes "records_ok (o_employees s)"
  shows "records_ok (o_employees (snd (update_employee lib i r s)))"
  using assms
  by (auto simp: update_employee_def binds_def list_ex_iff split: option.split intro!: records_ok_change)

lemma deleted_ok: "records_ok (o_employees s) \<Longrightarrow> records_ok (o_employees (snd (delete_employee i s)))"
  by (simp add: delete_employee_def records_ok_filter)

lemma import_row_ok:
  assumes "records_ok (fst acc)" "i \<notin> set (map em_id (fst acc))"
  shows "records_ok (fst (import_row i row acc)) \<and>
    set (map em_id (fst (import_row i row acc))) \<subseteq> insert i (set (map em_id (fst acc)))"
  using assms by (cases acc) (auto simp: import_row_def csv_field_def list_ex_iff intro!: records_ok_add)

lemma import_rows_ok:
  assumes "records_ok (fst acc)" "distinct (map fst ps)" "set (map fst ps) \<inter> set (map em_id (fst acc)) = {}"
  shows "records_ok (fst (foldl (\<lambda>a (i, row). import_row i row a) acc ps))"
  using assms
proof (induction ps arbitrary: acc)
  case (Cons p ps)
  obtain i row where p: "p = (i, row)" by (cases p)
  have r: "records_ok (fst (import_row i row acc))"
      "set (map em_id (fst (import_row i row acc))) \<subseteq> insert i (set (map em_id (fst acc)))"
    using import_row_ok [of acc i row] Cons.prems by (auto simp: p)
  have q: "i \<notin> set (map fst ps)" "set (map fst ps) \<inter> set (map em_id (fst acc)) = {}" "distinct (map fst ps)"
    using Cons.prems by (auto simp: p)
  then have "set (map fst ps) \<inter> set (map em_id (fst (import_row i row acc))) = {}"
    using r(2) by blast
  then show ?case
    using Cons.IH [OF r(1) q(3)] by (simp add: p)
qed simp

lemma fst_zip_take: "distinct is \<Longrightarrow> distinct (map fst (zip is rs)) \<and> set (map fst (zip is rs)) \<subseteq> set is"
  by (metis distinct_take map_fst_zip_take set_take_subset)

lemma imported_ok:
  assumes "records_ok (o_employees s)" "distinct is" "set is \<inter> set (map em_id (o_employees s)) = {}"
  shows "records_ok (o_employees (snd (import_csv is records s)))"
proof -
  have "records_ok (fst (foldl (\<lambda>a (i, row). import_row i row a) (o_employees s, 0, 0) (zip is (tl records))))"
    using assms fst_zip_take [of "is" "tl records"] by (intro import_rows_ok) auto
  then show ?thesis
    using assms(1) by (auto simp: import_csv_def split: prod.split)
qed

lemma reach_records_ok: "org_reach lib s \<Longrightarrow> records_ok (o_employees s)"
  by (induction rule: org_reach.induct)
    (simp_all add: records_ok_def [of "[]"] created_ok updated_ok deleted_ok imported_ok)

lemma emails_ids:
  assumes "org_reach lib s"
  shows "distinct (map em_email (o_employees s))" "distinct (map em_id (o_employees s))"
  using reach_records_ok [OF assms] by (simp_all add: records_ok_def)

text \<open>
  C32: whatever requests the API has served, no two employees of an organisation share an address
  or an identifier and every employee has an address: each of create, update and import checks
  what it stores.
\<close>

theorem emails_stay_distinct:
  assumes "org_reach lib s"
  shows "distinct (map em_email (o_employees s)) \<and> distinct (map em_id (o_employees s)) \<and>
    [] \<notin> set (map em_email (o_employees s))"
  using reach_records_ok [OF assms] by (simp add: records_ok_def)

definition plain_library :: library where
  "plain_library =
     \<lparr>is_email = (\<lambda>s. CHR ''@'' \<in> set s), browser_email = (\<lambda>s. CHR ''@'' \<in> set s), is_uuid = (\<lambda>s. length s = 2),
      is_status = (\<lambda>s. s \<in> set [''active'', ''inactive'', ''suspended'', ''pending''])\<rparr>"

definition ann_form :: employee_form where
  "ann_form = empty_employee\<lparr>f_first := ''Ann'', f_last := ''Lee'', f_email := ''a@b'', f_team := ''t1''\<rparr>"

definition small_org :: org where
  "small_org = snd (create_employee plain_library ''e1'' ''b1'' (employee_payload ann_form) \<lparr>o_employees = [], o_teams = [''t1'']\<rparr>)"

lemma small_org_eq:
  "small_org =
     \<lparr>o_employees =
        [\<lparr>em_id = ''e1'', em_first = ''Ann'', em_last = ''Lee'', em_email = ''a@b'', em_phone = [], em_department = [],
          em_job = [], em_team = Some ''t1'', em_status = ''active'', em_avatar = [], em_badge = Some ''b1''\<rparr>],
      o_teams = [''t1'']\<rparr>"
  by code_simp

lemma small_org_reach: "org_reach plain_library small_org"
  unfolding small_org_def by (intro org_reach.intros) simp

theorem emails_stay_distinct_witness: "map em_email (o_employees small_org) = [''a@b''] \<and> distinct (map em_email (o_employees small_org))"
  using emails_stay_distinct [OF small_org_reach] by (simp add: small_org_eq)

section \<open>Editing\<close>

text \<open>
  an employee who is opened in the form and saved unchanged keeps everything but the
  picture, which the form does not send and the API then empties.
\<close>

theorem employee_edit_keeps:
  assumes "org_reach lib s" "e \<in> set (o_employees s)" "binds lib (employee_payload (open_employee e))"
    and "\<forall>t. em_team e = Some t \<longrightarrow> t \<noteq> [] \<and> is_uuid lib t"
    and "em_status e \<noteq> [] \<longrightarrow> is_status lib (em_status e)"
  shows "update_employee lib (em_id e) (employee_payload (open_employee e)) s =
    (Inr (e\<lparr>em_avatar := []\<rparr>),
     s\<lparr>o_employees := map (\<lambda>x. if x = e then e\<lparr>em_avatar := []\<rparr> else x) (o_employees s)\<rparr>)"
proof -
  note d = emails_ids [OF assms(1)]
  let ?r = "employee_payload (open_employee e)"
  have c: "changed lib ?r e = e\<lparr>em_avatar := []\<rparr>"
    using assms(4) by (cases e) (auto simp: changed_def employee_payload_def open_employee_def split: option.split)
  have "er_email ?r = em_email e" "er_status ?r = em_status e"
    by (simp_all add: employee_payload_def open_employee_def)
  moreover have "\<not> list_ex (\<lambda>x. em_email x = em_email e \<and> em_id x \<noteq> em_id e) (o_employees s)"
    using d assms(2) by (auto simp: list_ex_iff distinct_map inj_on_def)
  ultimately show ?thesis
    using assms(3,5) find_id [OF d(2) assms(2)] map_replace [OF d(2) assms(2), of "changed lib ?r"]
    unfolding update_employee_def by (auto simp: c)
qed

theorem employee_edit_keeps_witness:
  "fst (update_employee plain_library ''e1'' (employee_payload ann_form) small_org) =
     Inr (hd (o_employees small_org))"
proof -
  let ?e = "hd (o_employees small_org)"
  have "employee_payload (open_employee ?e) = employee_payload ann_form" "em_id ?e = ''e1''"
    "?e\<lparr>em_avatar := []\<rparr> = ?e" "?e \<in> set (o_employees small_org)" "binds plain_library (employee_payload ann_form)"
    "em_team ?e = Some ''t1''" "is_uuid plain_library ''t1''" "is_status plain_library (em_status ?e)"
    by (simp_all add: small_org_eq ann_form_def employee_payload_def open_employee_def empty_employee_def binds_def plain_library_def)
  then show ?thesis
    using employee_edit_keeps [OF small_org_reach, of ?e] by simp
qed

text \<open>
  the update of an employee takes any team that is written as an identifier, also one that is
  not a team of the organisation, which the creation of an employee refuses.
\<close>

theorem update_takes_foreign_team:
  assumes "binds lib r" "er_team r \<notin> set (o_teams s)" "is_uuid lib (er_team r)" "er_team r \<noteq> []"
    and "find (\<lambda>e. em_id e = i) (o_employees s) = Some e"
    and "\<forall>x \<in> set (o_employees s). em_email x = er_email r \<longrightarrow> em_id x = i"
    and "er_status r = []"
  shows "(\<exists>e'. fst (update_employee lib i r s) = Inr e' \<and> em_team e' = Some (er_team r)) \<and>
    (\<exists>why. fst (create_employee lib j b r s) = Inl why)"
  using assms by (auto simp: update_employee_def create_employee_def changed_def list_ex_iff)

theorem update_takes_foreign_team_witness:
  "\<exists>e'. fst (update_employee plain_library ''e1''
      (employee_payload (ann_form\<lparr>f_team := ''x9'', f_status := []\<rparr>)) small_org) = Inr e' \<and>
    em_team e' = Some ''x9''"
  using update_takes_foreign_team [of plain_library "employee_payload (ann_form\<lparr>f_team := ''x9'', f_status := []\<rparr>)" small_org
      "''e1''" "hd (o_employees small_org)" "[]" "[]"]
  by (simp add: small_org_eq ann_form_def employee_payload_def empty_employee_def binds_def plain_library_def)

section \<open>Importing\<close>

lemma import_counts:
  "foldl (\<lambda>a (i, row). import_row i row a) (es, c, k) ps = (es', c', k') \<Longrightarrow>
     c' + k' = c + k + length ps \<and> length es' = length es + (c' - c) \<and> c \<le> c'"
proof (induction ps arbitrary: es c k)
  case (Cons p ps)
  obtain i row where p: "p = (i, row)" by (cases p)
  obtain es1 c1 k1 where q: "import_row i row (es, c, k) = (es1, c1, k1)" by (cases "import_row i row (es, c, k)")
  have "c1 + k1 = c + k + 1 \<and> length es1 = length es + (c1 - c) \<and> c \<le> c1"
    using q by (auto simp: import_row_def split: if_splits)
  then show ?case using Cons.prems Cons.IH [of es1 c1 k1] by (auto simp: p q)
qed auto

text \<open>
  the answer of an import counts what it made, what it skipped and all rows, and the three
  agree; the page, which reads another key, says that nothing was imported.
\<close>

theorem import_answer_and_toast:
  assumes "length ids = length records - 1" "import_csv ids records s = (Some ans, s')"
  shows "\<exists>c k. ans = [(''created'', c), (''skipped'', k), (''total'', length records - 1)] \<and>
    c + k = length records - 1 \<and> length (o_employees s') = length (o_employees s) + c \<and>
    import_toast ans = ''Imported 0 employees''"
proof -
  obtain es c k where f: "foldl (\<lambda>a (i, row). import_row i row a) (o_employees s, 0, 0) (zip ids (tl records)) = (es, c, k)"
    by (cases "foldl (\<lambda>a (i, row). import_row i row a) (o_employees s, 0, 0) (zip ids (tl records))")
  have "c + k = length records - 1 \<and> length es = length (o_employees s) + c"
    using import_counts [OF f] assms(1) by simp
  moreover have "ans = [(''created'', c), (''skipped'', k), (''total'', length records - 1)]" "o_employees s' = es"
    using assms(2) f by (auto simp: import_csv_def split: if_splits)
  ultimately show ?thesis by (simp add: import_toast_def show_nat.simps digit_char_def)
qed

definition two_rows :: "string list list" where
  "two_rows = [[''First'', ''Last'', ''Email''], [''Bo'', ''Ek'', '' not an address ''], [''Cy'', ''Do'', ''a@b'']]"

theorem import_answer_and_toast_witness:
  "\<exists>ans. fst (import_csv [''e2'', ''e3''] two_rows small_org) = Some ans \<and> import_toast ans = ''Imported 0 employees''"
proof -
  obtain ans s' where r: "import_csv [''e2'', ''e3''] two_rows small_org = (Some ans, s')"
    by (cases "import_csv [''e2'', ''e3''] two_rows small_org")
      (auto simp: import_csv_def two_rows_def split: prod.splits)
  show ?thesis
    using import_answer_and_toast [OF _ r] r by (auto simp: two_rows_def)
qed

text \<open>
  an import does not check what it takes for an address, and the form does not let an address
  be changed: an employee imported with something else can be opened, but no edit of it is
  accepted.
\<close>

theorem imported_not_editable:
  assumes "org_reach lib s" "e \<in> set (o_employees s)" "\<not> is_email lib (em_email e)"
    and "f_email f = f_email (open_employee e)"
  shows "update_employee lib (em_id e) (employee_payload f) s = (Inl Bad_Request, s)"
  using assms find_id [OF emails_ids(2) [OF assms(1)] assms(2)]
  by (simp add: update_employee_def binds_def employee_payload_def open_employee_def)

theorem imported_not_editable_witness:
  "org_reach plain_library (snd (import_csv [''e2'', ''e3''] two_rows small_org)) \<and>
   fst (update_employee plain_library ''e2''
     (employee_payload (ann_form\<lparr>f_email := ''not an address''\<rparr>)) (snd (import_csv [''e2'', ''e3''] two_rows small_org))) =
     Inl Bad_Request"
proof -
  let ?s = "snd (import_csv [''e2'', ''e3''] two_rows small_org)"
  have "o_employees ?s = o_employees small_org @
      [\<lparr>em_id = ''e2'', em_first = ''Bo'', em_last = ''Ek'', em_email = ''not an address'', em_phone = [], em_department = [],
        em_job = [], em_team = None, em_status = ''active'', em_avatar = [], em_badge = None\<rparr>]"
    by (simp only: small_org_eq two_rows_def) code_simp
  moreover have r: "org_reach plain_library ?s"
    by (rule org_reach.imported [OF small_org_reach]) (auto simp: small_org_eq)
  ultimately show ?thesis
    using imported_not_editable [OF r, of "last (o_employees ?s)" "ann_form\<lparr>f_email := ''not an address''\<rparr>"]
    by (simp add: open_employee_def plain_library_def)
qed

text \<open>
  a file that the page exports is not one that it imports: the identifier is taken for the
  first name, the last name for the address, the address for the phone number.
\<close>

theorem export_import_shifts:
  assumes "em_last e \<noteq> []" "trim (em_last e) = em_last e"
  shows "import_row i (export_row info e) ([], 0, 0) =
    ([\<lparr>em_id = i, em_first = trim (em_id e), em_last = trim (em_first e), em_email = em_last e,
       em_phone = trim (em_email e), em_department = trim (em_phone e), em_job = trim (em_department e),
       em_team = None, em_status = ''active'', em_avatar = [], em_badge = None\<rparr>], 1, 0)"
  using assms by (simp add: import_row_def export_row_def csv_field_def split: prod.split)

theorem export_import_shifts_witness:
  "fst (import_row ''e9'' (export_row (\<lambda>_. ([], [], [])) (hd (o_employees small_org))) ([], 0, 0)) =
     [\<lparr>em_id = ''e9'', em_first = ''e1'', em_last = ''Ann'', em_email = ''Lee'', em_phone = ''a@b'', em_department = [],
       em_job = [], em_team = None, em_status = ''active'', em_avatar = [], em_badge = None\<rparr>]"
proof -
  have "trim ''Lee'' = ''Lee''" "trim ''e1'' = ''e1''" "trim ''Ann'' = ''Ann''" "trim ''a@b'' = ''a@b''" "trim [] = []"
    by code_simp+
  then show ?thesis
    using export_import_shifts [of "hd (o_employees small_org)" "''e9''" "\<lambda>_. ([], [], [])"] by (simp add: small_org_eq)
qed

section \<open>The form\<close>

definition fresh_employees :: employees_page where
  "fresh_employees = \<lparr>ep_show = False, ep_edit = None, ep_form = empty_employee, ep_saving = False, ep_sent = []\<rparr>"

definition employees_run :: "library \<Rightarrow> employees_event list \<Rightarrow> employees_page" where
  "employees_run lib es = foldl (\<lambda>s e. employees_step lib e s) fresh_employees es"

lemma employees_run_snoc [simp]: "employees_run lib (es @ [e]) = employees_step lib e (employees_run lib es)"
  by (simp add: employees_run_def)

text \<open>A request of the form: a complete new employee, or a change that keeps the address.\<close>

fun request_ok :: "library \<Rightarrow> employees_event list \<Rightarrow> string option \<times> employee_request \<Rightarrow> bool" where
  "request_ok lib es (None, r) =
     (er_first r \<noteq> [] \<and> er_last r \<noteq> [] \<and> er_email r \<noteq> [] \<and> browser_email lib (er_email r) \<and> er_team r \<noteq> [])"
| "request_ok lib es (Some i, r) =
     (er_first r \<noteq> [] \<and> er_last r \<noteq> [] \<and>
      list_ex (\<lambda>ev. case ev of Edit_Employee e \<Rightarrow> em_id e = i \<and> em_email e = er_email r | _ \<Rightarrow> False) es)"

definition form_ok :: "library \<Rightarrow> employees_event list \<Rightarrow> employees_page \<Rightarrow> bool" where
  "form_ok lib es s =
     ((\<forall>i. ep_edit s = Some i \<longrightarrow>
        list_ex (\<lambda>ev. case ev of Edit_Employee e \<Rightarrow> em_id e = i \<and> em_email e = f_email (ep_form s) | _ \<Rightarrow> False) es) \<and>
      list_all (request_ok lib es) (ep_sent s))"

lemma request_ok_snoc: "request_ok lib es q \<Longrightarrow> request_ok lib (es @ [e]) q"
  by (cases q; cases "fst q") auto

lemma form_ok_snoc: "form_ok lib es s \<Longrightarrow> form_ok lib (es @ [e]) s"
  by (auto simp: form_ok_def list_all_iff request_ok_snoc)

lemma form_ok_step:
  assumes "form_ok lib (es @ [e]) s"
  shows "form_ok lib (es @ [e]) (employees_step lib e s)"
proof (cases e)
  case Submit_Form
  then show ?thesis
    using assms
    by (cases "ep_edit s") (auto simp: form_ok_def form_complete_def employee_payload_def)
qed (use assms in \<open>auto simp: form_ok_def closed_form_def typed_def open_employee_def split: if_splits\<close>)

text \<open>
  in every run of the page, each request for a new employee has both names, an address that
  the browser accepts and a team, and each change has both names and the address the employee had
  when the form was opened.
\<close>

theorem employee_requests_ok: "list_all (request_ok lib es) (ep_sent (employees_run lib es))"
proof -
  have "form_ok lib es (employees_run lib es)"
  proof (induction es rule: rev_induct)
    case (snoc e es)
    then show ?case using form_ok_step [OF form_ok_snoc] by simp
  qed (simp add: employees_run_def fresh_employees_def form_ok_def)
  then show ?thesis by (simp add: form_ok_def)
qed

text \<open>
  an answer that arrives after the form was closed and opened again closes the form that is
  open now, and what was typed there is lost.
\<close>

theorem late_answer_closes_form:
  assumes "form_complete lib False f"
  shows "ep_show (employees_run lib [New_Employee, Type_Form f, Submit_Form, Close_Form, New_Employee, Type_Form g]) \<and>
    employees_run lib [New_Employee, Type_Form f, Submit_Form, Close_Form, New_Employee, Type_Form g, Saved_Employee True] =
      fresh_employees\<lparr>ep_sent := [(None, employee_payload f)]\<rparr>"
  using assms by (simp add: employees_run_def fresh_employees_def typed_def closed_form_def)

theorem late_answer_closes_form_witness:
  "\<not> ep_show (employees_run plain_library
     [New_Employee, Type_Form ann_form, Submit_Form, Close_Form, New_Employee, Type_Form ann_form, Saved_Employee True])"
  using late_answer_closes_form [of plain_library ann_form ann_form]
  by (simp add: form_complete_def ann_form_def empty_employee_def plain_library_def fresh_employees_def)

end
