(* ===== verification/Markdown_Loop.thy ===== *)
theory Markdown_Loop
  imports Markdown "HOL-Library.While_Combinator"
begin

text \<open>
  The parser of \<^verbatim>\<open>website/src/lib/markdown.tsx\<close> with its loops as they are written: an index into
  the array of lines, which each loop moves on. A loop is \<open>while_option\<close> or a partial function,
  so that a loop that does not end would be None. The theory shows that the parser ends on every
  text and gives the blocks of \<^verbatim>\<open>Markdown\<close>, whose functions walk down the list of lines.
\<close>

section \<open>The loops\<close>

text \<open>\<open>lines[i]\<close>, undefined past the end.\<close>

definition line_at :: "string list \<Rightarrow> nat \<Rightarrow> string option" where
  "line_at ls i = (if i < length ls then Some (ls ! i) else None)"

text \<open>\<open>while (i < lines.length && p(lines[i])) acc.push(f(lines[i++]))\<close>\<close>

definition collect ::
  "(string \<Rightarrow> bool) \<Rightarrow> (string \<Rightarrow> 'a) \<Rightarrow> string list \<Rightarrow> nat \<Rightarrow> (nat \<times> 'a list) option" where
  "collect p f ls i =
     while_option (\<lambda>(j, acc). j < length ls \<and> p (ls ! j)) (\<lambda>(j, acc). (Suc j, acc @ [f (ls ! j)])) (i, [])"

text \<open>The loop of a paragraph: its first line is taken whatever it starts.\<close>

definition paragraph_loop :: "string list \<Rightarrow> nat \<Rightarrow> (nat \<times> string list) option" where
  "paragraph_loop ls i =
     while_option
       (\<lambda>(j, text). j < length ls \<and> \<not> blank (ls ! j) \<and>
          (text = [] \<or> \<not> starts_block (ls ! j) (line_at ls (Suc j))))
       (\<lambda>(j, text). (Suc j, text @ [trim (ls ! j)])) (i, [])"

text \<open>\<open>items[items.length - 1] += " " + t\<close>\<close>

definition append_last :: "string list \<Rightarrow> string \<Rightarrow> string list" where
  "append_last xs t = (if xs = [] then [] else butlast xs @ [last xs @ '' '' @ t])"

partial_function (option) list_loop ::
  "(string \<Rightarrow> string option) \<Rightarrow> string list \<Rightarrow> nat \<Rightarrow> string list \<Rightarrow> (nat \<times> string list) option" where
  "list_loop marker ls i items =
     (if i < length ls \<and> \<not> blank (ls ! i)
      then
        (case marker (ls ! i) of
           Some r \<Rightarrow> list_loop marker ls (Suc i) (items @ [r])
         | None \<Rightarrow>
             if starts_block (ls ! i) (line_at ls (Suc i)) then Some (i, items)
             else list_loop marker ls (Suc i) (append_last items (trim (ls ! i))))
      else Some (i, items))"

text \<open>The body of the outer loop at a line that is not blank: the block, the next index, the identifiers.\<close>

definition block_at ::
  "string list \<Rightarrow> nat \<Rightarrow> (string \<times> nat) list \<Rightarrow> (block \<times> nat \<times> (string \<times> nat) list) option" where
  "block_at ls i used =
     (let l = ls ! i
      in if starts_with l fence
           then map_option (\<lambda>(j, code). (Code_Block (join [CHR 0x0A] code), Suc j, used))
             (collect (\<lambda>x. \<not> starts_with x fence) (\<lambda>x. x) ls (Suc i))
         else
           (case heading_of l of
              Some (k, t) \<Rightarrow>
                (let base = (if heading_id t = [] then ''section'' else heading_id t);
                     n = used_count used base
                 in Some (Heading (max 2 k) t (numbered_id base n), Suc i, obj_put used base (n + 1)))
            | None \<Rightarrow>
                if thematic l then Some (Rule, Suc i, used)
                else if starts_with l ''>''
                  then map_option (\<lambda>(j, text). (Quote (trim (join '' '' text)), j, used))
                    (collect (\<lambda>x. starts_with x ''>'') unquote ls i)
                else if numbered l \<noteq> None \<or> bullet l \<noteq> None
                  then map_option (\<lambda>(j, items). (Listing (numbered l \<noteq> None) items, j, used))
                    (list_loop (if numbered l \<noteq> None then numbered else bullet) ls i [])
                else if starts_with (trim l) ''|'' \<and>
                    table_rule (case line_at ls (Suc i) of None \<Rightarrow> [] | Some n \<Rightarrow> n)
                  then map_option (\<lambda>(j, rows). (Table (cells l) rows, j, used))
                    (collect (\<lambda>x. starts_with (trim x) ''|'') cells ls (Suc (Suc i)))
                else map_option (\<lambda>(j, text). (Paragraph (join '' '' text), j, used))
                  (paragraph_loop ls i)))"

partial_function (option) parse_loop ::
  "string list \<Rightarrow> nat \<Rightarrow> block list \<Rightarrow> (string \<times> nat) list \<Rightarrow> block list option" where
  "parse_loop ls i blocks used =
     (if i < length ls
      then
        (if blank (ls ! i) then parse_loop ls (Suc i) blocks used
         else Option.bind (block_at ls i used) (\<lambda>(b, j, used'). parse_loop ls j (blocks @ [b]) used'))
      else Some blocks)"

definition parse_source :: "string \<Rightarrow> block list option" where
  "parse_source source = parse_loop (split_on (CHR 0x0A) (crlf source)) 0 [] []"

section \<open>What each loop gives\<close>

lemma drop_at: "i < length ls \<Longrightarrow> drop i ls = ls ! i # drop (Suc i) ls"
  by (simp add: Cons_nth_drop_Suc)

lemma line_at_drop: "line_at ls i = next_line (drop i ls)"
  by (simp add: line_at_def next_line_def drop_at)

lemma collect_from:
  "while_option (\<lambda>(j, acc). j < length ls \<and> p (ls ! j)) (\<lambda>(j, acc). (Suc j, acc @ [f (ls ! j)])) (i, acc) =
     Some (i + length (takeWhile p (drop i ls)), acc @ map f (takeWhile p (drop i ls)))"
proof (induction "length ls - i" arbitrary: i acc)
  case (Suc n)
  then show ?case
    by (subst while_option_unfold) (simp add: drop_at)
qed (subst while_option_unfold, simp)

lemma collect_eq [simp]:
  "collect p f ls i = Some (i + length (takeWhile p (drop i ls)), map f (takeWhile p (drop i ls)))"
  by (simp add: collect_def collect_from)

lemma drop_takeWhile: "drop (i + length (takeWhile p (drop i ls))) ls = dropWhile p (drop i ls)"
  by (simp add: dropWhile_eq_drop add.commute)

lemma paragraph_from:
  assumes "acc \<noteq> []"
  shows "\<exists>j. while_option
       (\<lambda>(j, text). j < length ls \<and> \<not> blank (ls ! j) \<and>
          (text = [] \<or> \<not> starts_block (ls ! j) (line_at ls (Suc j))))
       (\<lambda>(j, text). (Suc j, text @ [trim (ls ! j)])) (i, acc) =
         Some (j, acc @ fst (paragraph_lines (drop i ls))) \<and>
      drop j ls = snd (paragraph_lines (drop i ls)) \<and> i \<le> j"
  using assms
proof (induction "length ls - i" arbitrary: i acc)
  case (Suc n)
  then have i: "i < length ls" and n: "n = length ls - Suc i" by simp_all
  show ?case
  proof (cases "blank (ls ! i) \<or> starts_block (ls ! i) (line_at ls (Suc i))")
    case False
    obtain j where "while_option
       (\<lambda>(j, text). j < length ls \<and> \<not> blank (ls ! j) \<and>
          (text = [] \<or> \<not> starts_block (ls ! j) (line_at ls (Suc j))))
       (\<lambda>(j, text). (Suc j, text @ [trim (ls ! j)])) (Suc i, acc @ [trim (ls ! i)]) =
         Some (j, (acc @ [trim (ls ! i)]) @ fst (paragraph_lines (drop (Suc i) ls)))"
      "drop j ls = snd (paragraph_lines (drop (Suc i) ls))" "Suc i \<le> j"
      using Suc.hyps(1) [OF n, of "acc @ [trim (ls ! i)]"] by auto
    then show ?thesis
      using False i
      by (subst while_option_unfold) (auto simp: drop_at [OF i] line_at_drop split: prod.split)
  next
    case True
    then show ?thesis
      using i Suc.prems by (subst while_option_unfold) (auto simp: drop_at [OF i] line_at_drop)
  qed
qed (subst while_option_unfold, simp)

lemma paragraph_loop_eq:
  assumes "i < length ls" "\<not> blank (ls ! i)"
  shows "\<exists>j. paragraph_loop ls i = Some (j, trim (ls ! i) # fst (paragraph_lines (drop (Suc i) ls))) \<and>
      drop j ls = snd (paragraph_lines (drop (Suc i) ls)) \<and> i < j"
  using paragraph_from [of "[trim (ls ! i)]" ls "Suc i"] assms
  unfolding paragraph_loop_def by (subst while_option_unfold) auto

lemma append_last_rev: "append_last (rev acc) t = rev (extend_last acc t)"
  by (cases acc) (simp_all add: append_last_def)

lemma list_loop_eq:
  "\<exists>j. list_loop marker ls i (rev acc) = Some (j, fst (list_items marker acc (drop i ls))) \<and>
     drop j ls = snd (list_items marker acc (drop i ls)) \<and> i \<le> j"
proof (induction "length ls - i" arbitrary: i acc)
  case (Suc n)
  then have i: "i < length ls" and n: "n = length ls - Suc i" by simp_all
  have IH: "\<exists>j. list_loop marker ls (Suc i) (rev acc') = Some (j, fst (list_items marker acc' (drop (Suc i) ls))) \<and>
      drop j ls = snd (list_items marker acc' (drop (Suc i) ls)) \<and> i \<le> j" for acc'
    using Suc.hyps(1) [OF n, of acc'] by auto
  show ?case
    using IH [of "the (marker (ls ! i)) # acc"] IH [of "extend_last acc (trim (ls ! i))"] i
    by (subst list_loop.simps) (auto simp: drop_at [OF i] line_at_drop append_last_rev split: option.split)
qed (subst list_loop.simps, simp)

section \<open>The parser\<close>

lemma no_table_rule: "\<not> table_rule []"
  by code_simp

lemma table_test:
  "table_rule (case line_at ls i of None \<Rightarrow> [] | Some n \<Rightarrow> n) \<longleftrightarrow> drop i ls \<noteq> [] \<and> table_rule (hd (drop i ls))"
  by (simp add: line_at_def no_table_rule hd_drop_conv_nth)

lemma tl_drop_takeWhile: "drop (Suc (i + length (takeWhile p (drop i ls)))) ls = tl (dropWhile p (drop i ls))"
  by (simp add: drop_Suc tl_drop flip: drop_takeWhile)

lemma list_loop_first:
  "\<exists>j. list_loop marker ls i [] = Some (j, fst (list_items marker [] (drop i ls))) \<and>
     drop j ls = snd (list_items marker [] (drop i ls))"
  using list_loop_eq [of marker ls i "[]"] by auto

lemma block_at_eq:
  assumes i: "i < length ls" and nb: "\<not> blank (ls ! i)"
  shows "\<exists>b j used'. block_at ls i used = Some (b, j, used') \<and>
     next_block used (ls ! i) (drop (Suc i) ls) = (b, drop j ls, used')"
proof -
  let ?l = "ls ! i" and ?r = "drop (Suc i) ls"
  have d: "drop i ls = ?l # ?r" using i by (rule drop_at)
  have t: "drop (Suc (Suc i)) ls = tl ?r" by (simp add: drop_Suc tl_drop)
  consider (code) "starts_with ?l fence" | (plain) "\<not> starts_with ?l fence" by blast
  then show ?thesis
  proof cases
    case code
    then show ?thesis
      using tl_drop_takeWhile [of "Suc i" "\<lambda>x. \<not> starts_with x fence" ls]
      by (simp add: block_at_def next_block_def Let_def)
  next
    case plain
    show ?thesis
      using plain list_loop_first [of numbered ls i] list_loop_first [of bullet ls i]
        paragraph_loop_eq [OF i nb] drop_takeWhile [of i "\<lambda>x. starts_with x ''>''" ls]
        drop_takeWhile [of "Suc (Suc i)" "\<lambda>x. starts_with (trim x) ''|''" ls]
      by (cases "heading_of ?l")
        (auto simp: block_at_def next_block_def Let_def table_test d t split: prod.split simp del: list_items.simps)
  qed
qed

lemma parse_loop_eq: "parse_loop ls i blocks used = Some (blocks @ parse_blocks used (drop i ls))"
proof (induction "length ls - i" arbitrary: i blocks used rule: less_induct)
  case less
  show ?case
  proof (cases "i < length ls")
    case i: True
    show ?thesis
    proof (cases "blank (ls ! i)")
      case True
      then show ?thesis
        using i less.hyps [of "Suc i" blocks used] by (subst parse_loop.simps) (simp add: drop_at [OF i])
    next
      case False
      obtain b j used' where b: "block_at ls i used = Some (b, j, used')"
          "next_block used (ls ! i) (drop (Suc i) ls) = (b, drop j ls, used')"
        using block_at_eq [OF i False] by blast
      have "length (drop j ls) \<le> length (drop (Suc i) ls)"
        using next_block_progress [OF False, of used "drop (Suc i) ls"] by (simp add: b(2))
      then have "length ls - j < length ls - i" using i by simp
      then have "parse_loop ls j (blocks @ [b]) used' = Some ((blocks @ [b]) @ parse_blocks used' (drop j ls))"
        by (rule less.hyps)
      then show ?thesis
        using i False by (subst parse_loop.simps) (simp add: drop_at [OF i] b)
    qed
  qed (subst parse_loop.simps, simp)
qed

text \<open>
  C29: the parser ends on every text, with none of its loops running for ever, and gives the blocks
  that the recursive functions give.
\<close>

theorem parser_returns: "parse_source source = Some (parse_markdown source)"
  by (simp add: parse_source_def parse_markdown_def parse_loop_eq)

end
