(* ===== verification/Report_Table.thy ===== *)
theory Report_Table
  imports Prelude Js_Sort Markdown "HOL-Library.List_Lexorder" "HOL-Library.Char_ord"
begin

text \<open>
  The reports page of the company dashboard (\<^verbatim>\<open>app/dashboard/reports/page.tsx\<close>): the rows shown
  under a search and a sorted column, the state of its controls, the three exports and the written
  briefing; with what the API does for an export (\<^verbatim>\<open>internal/handlers/reports_catalog.go\<close>). The
  comparison \<open>localeCompare\<close> of the browser is an argument; numbers in a cell are whole.
\<close>

section \<open>Rows\<close>

datatype table_cell = Num int | Txt string | Null

type_synonym row = "table_cell list"

text \<open>\<open>String(c ?? "")\<close>, and \<open>a[i]\<close> which is undefined past the end.\<close>

fun cell_text :: "table_cell \<Rightarrow> string" where
  "cell_text (Num n) = show_int n"
| "cell_text (Txt s) = s"
| "cell_text Null = []"

definition cell_at :: "nat \<Rightarrow> row \<Rightarrow> table_cell" where
  "cell_at i r = (if i < length r then r ! i else Null)"

definition row_matches :: "string \<Rightarrow> row \<Rightarrow> bool" where
  "row_matches q r = list_ex (\<lambda>c. str_includes (to_lower (cell_text c)) (to_lower q)) r"

fun compare_cells :: "(string \<Rightarrow> string \<Rightarrow> int) \<Rightarrow> table_cell \<Rightarrow> table_cell \<Rightarrow> int" where
  "compare_cells collate (Num x) (Num y) = x - y"
| "compare_cells collate x y = collate (cell_text x) (cell_text y)"

definition compare_rows :: "(string \<Rightarrow> string \<Rightarrow> int) \<Rightarrow> nat \<Rightarrow> int \<Rightarrow> row \<Rightarrow> row \<Rightarrow> int" where
  "compare_rows collate i dir a b = compare_cells collate (cell_at i a) (cell_at i b) * dir"

definition searched :: "string \<Rightarrow> row list \<Rightarrow> row list" where
  "searched q rows = (if trim q \<noteq> [] then filter (row_matches q) rows else rows)"

definition visible ::
  "(string \<Rightarrow> string \<Rightarrow> int) \<Rightarrow> string \<Rightarrow> (nat \<times> int) option \<Rightarrow> row list \<Rightarrow> row list" where
  "visible collate q srt rows =
     (case srt of
        None \<Rightarrow> searched q rows
      | Some (i, dir) \<Rightarrow> sort_by (compare_rows collate i dir) (searched q rows))"

definition paged :: "nat \<Rightarrow> nat \<Rightarrow> row list \<Rightarrow> row list" where
  "paged page limit rows = take limit (drop ((page - 1) * limit) rows)"

section \<open>The order of a column\<close>

text \<open>
  A comparison that gives the opposite sign when its arguments are exchanged can be turned round.
\<close>

locale two_way = comparison cmp for cmp :: "'a \<Rightarrow> 'a \<Rightarrow> int" +
  assumes exchange: "0 \<le> cmp a b \<longleftrightarrow> cmp b a \<le> 0"
begin

lemma directed: "dir = 1 \<or> dir = -1 \<Longrightarrow> comparison (\<lambda>a b. cmp a b * dir)"
proof (elim disjE)
  assume "dir = -1"
  moreover have "comparison (\<lambda>a b. - cmp a b)"
  proof
    show "0 < - cmp a b \<Longrightarrow> - cmp b a \<le> 0" for a b using exchange [of b a] by linarith
    show "- cmp a b \<le> 0 \<Longrightarrow> - cmp b c \<le> 0 \<Longrightarrow> - cmp a c \<le> 0" for a b c
      using compare_trans [of c b a] by (simp add: exchange)
  qed
  ultimately show ?thesis by simp
qed (simp add: comparison_axioms)

end

interpretation whole_numbers: two_way "\<lambda>x y :: int. x - y"
  by unfold_locales auto

text \<open>A column of numbers, and one that holds none.\<close>

fun is_num :: "table_cell \<Rightarrow> bool" where
  "is_num (Num n) = True"
| "is_num _ = False"

definition uniform :: "nat \<Rightarrow> row list \<Rightarrow> bool" where
  "uniform i rows =
     (list_all (\<lambda>r. is_num (cell_at i r)) rows \<or> list_all (\<lambda>r. \<not> is_num (cell_at i r)) rows)"

definition num_of :: "table_cell \<Rightarrow> int" where
  "num_of c = (case c of Num n \<Rightarrow> n | _ \<Rightarrow> 0)"

lemma insert_by_cong:
  "(\<And>y. y \<in> set ys \<Longrightarrow> c x y = d x y) \<Longrightarrow> insert_by c x ys = insert_by d x ys"
  by (induction ys) auto

lemma sort_by_cong:
  "(\<And>x y. x \<in> set xs \<Longrightarrow> y \<in> set xs \<Longrightarrow> c x y = d x y) \<Longrightarrow> sort_by c xs = sort_by d xs"
  by (induction xs) (auto intro!: insert_by_cong)

lemma comparison_key: "comparison cmp \<Longrightarrow> comparison (\<lambda>a b. cmp (f a) (f b))"
  unfolding comparison_def by blast

lemma sorted_rows:
  assumes "two_way collate" "dir = 1 \<or> dir = -1" "uniform i rows"
  shows "sorted_wrt (\<lambda>a b. compare_rows collate i dir a b \<le> 0) (sort_by (compare_rows collate i dir) rows)"
proof -
  define nums where "nums = (\<lambda>a b. (num_of (cell_at i a) - num_of (cell_at i b)) * dir)"
  define words where "words = (\<lambda>a b. collate (cell_text (cell_at i a)) (cell_text (cell_at i b)) * dir)"
  have c: "comparison nums" "comparison words"
    unfolding nums_def words_def
    using comparison_key [OF whole_numbers.directed [OF assms(2)], of "\<lambda>r. num_of (cell_at i r)"]
      comparison_key [OF two_way.directed [OF assms(1,2)], of "\<lambda>r. cell_text (cell_at i r)"] by simp_all
  have "(\<forall>a \<in> set rows. \<forall>b \<in> set rows. compare_rows collate i dir a b = nums a b) \<or>
      (\<forall>a \<in> set rows. \<forall>b \<in> set rows. compare_rows collate i dir a b = words a b)"
  proof -
    have "compare_cells collate x y = num_of x - num_of y" if "is_num x" "is_num y" for x y
      using that by (cases x; cases y) (simp_all add: num_of_def)
    moreover have "compare_cells collate x y = collate (cell_text x) (cell_text y)" if "\<not> is_num x" for x y
      using that by (cases x) simp_all
    ultimately show ?thesis
      using assms(3) by (auto simp: uniform_def list_all_iff compare_rows_def nums_def words_def)
  qed
  then obtain d where d: "comparison d" "\<forall>a \<in> set rows. \<forall>b \<in> set rows. compare_rows collate i dir a b = d a b"
    using c by blast
  have "sort_by (compare_rows collate i dir) rows = sort_by d rows"
    using d(2) by (intro sort_by_cong) simp
  moreover have "sorted_wrt (\<lambda>a b. d a b \<le> 0) (sort_by d rows)"
    by (rule comparison.sorted_sort_by [OF d(1)])
  ultimately show ?thesis
    using d(2) by (auto intro: sorted_wrt_mono_rel [rotated])
qed

definition code_units :: "string \<Rightarrow> string \<Rightarrow> int" where
  "code_units a b = (if a < b then - 1 else if a = b then 0 else 1)"

interpretation unit_order: two_way code_units
  by unfold_locales (auto simp: code_units_def split: if_splits)

definition two_people :: "row list" where
  "two_people = [[Txt ''Ann'', Num 2], [Txt ''Bo'', Num 10], [Txt ''Cy'', Num 7]]"

section \<open>The controls\<close>

record report_page =
  rp_report :: string
  rp_control :: string
  rp_start :: string
  rp_end :: string
  rp_columns :: "string list"
  rp_rows :: "row list"
  rp_query :: string
  rp_sort :: "(nat \<times> int) option"
  rp_page :: nat
  rp_limit :: nat

text \<open>
  \<open>Report_Answer\<close> brings the columns and the rows of the report that is chosen. A choice that
  changes nothing does not run the effect that resets the table.
\<close>

datatype report_event =
    Choose_Report string
  | Choose_Control string
  | Choose_Period string string
  | Report_Answer "string list" "row list"
  | Search_Rows string
  | Click_Column nat
  | Go_To nat
  | Set_Limit nat

definition reset_table :: "report_page \<Rightarrow> report_page \<Rightarrow> report_page" where
  "reset_table s t =
     (if (rp_report s, rp_control s, rp_start s, rp_end s) = (rp_report t, rp_control t, rp_start t, rp_end t) then t
      else t\<lparr>rp_columns := [], rp_rows := [], rp_page := 1, rp_sort := None, rp_query := []\<rparr>)"

text \<open>A click on the head of a column: descending, ascending, unsorted.\<close>

definition clicked :: "nat \<Rightarrow> (nat \<times> int) option \<Rightarrow> (nat \<times> int) option" where
  "clicked i srt =
     (let dir = (case srt of Some (j, d) \<Rightarrow> if j = i then d else 0 | None \<Rightarrow> 0)
      in if dir = 0 then Some (i, - 1) else if dir = - 1 then Some (i, 1) else None)"

definition page_total :: "(string \<Rightarrow> string \<Rightarrow> int) \<Rightarrow> report_page \<Rightarrow> nat" where
  "page_total collate s =
     max 1 ((length (visible collate (rp_query s) (rp_sort s) (rp_rows s)) + rp_limit s - 1) div rp_limit s)"

fun report_step :: "(string \<Rightarrow> string \<Rightarrow> int) \<Rightarrow> report_event \<Rightarrow> report_page \<Rightarrow> report_page" where
  "report_step collate (Choose_Report r) s = reset_table s (s\<lparr>rp_report := r\<rparr>)"
| "report_step collate (Choose_Control c) s =
     (if rp_report s = ''incidents'' then reset_table s (s\<lparr>rp_control := c\<rparr>) else s)"
| "report_step collate (Choose_Period a b) s = reset_table s (s\<lparr>rp_start := a, rp_end := b\<rparr>)"
| "report_step collate (Report_Answer cols rows) s = s\<lparr>rp_columns := cols, rp_rows := rows\<rparr>"
| "report_step collate (Search_Rows q) s = s\<lparr>rp_query := q, rp_page := 1\<rparr>"
| "report_step collate (Click_Column i) s =
     (if i < length (rp_columns s) then s\<lparr>rp_sort := clicked i (rp_sort s)\<rparr> else s)"
| "report_step collate (Go_To p) s =
     (if 1 \<le> p \<and> p \<le> page_total collate s then s\<lparr>rp_page := p\<rparr> else s)"
| "report_step collate (Set_Limit n) s =
     (if n \<in> {25, 50, 100} then s\<lparr>rp_limit := n, rp_page := 1\<rparr> else s)"

definition fresh_report :: "string \<Rightarrow> string \<Rightarrow> string \<Rightarrow> string \<Rightarrow> report_page" where
  "fresh_report r c a b =
     \<lparr>rp_report = r, rp_control = c, rp_start = a, rp_end = b, rp_columns = [], rp_rows = [], rp_query = [],
      rp_sort = None, rp_page = 1, rp_limit = 25\<rparr>"

definition report_run :: "(string \<Rightarrow> string \<Rightarrow> int) \<Rightarrow> report_event list \<Rightarrow> report_page \<Rightarrow> report_page" where
  "report_run collate es s = foldl (\<lambda>s e. report_step collate e s) s es"

text \<open>The parameters of the request: the control only narrows the report of incidents.\<close>

definition report_params :: "report_page \<Rightarrow> (string \<times> string) list \<Rightarrow> (string \<times> string) list" where
  "report_params s period_params =
     period_params @ (if rp_report s = ''incidents'' \<and> rp_control s \<noteq> [] then [(''control'', rp_control s)] else [])"

text \<open>The columns and the rows of one report; the API gives every report its own.\<close>

definition table_ok :: "(string \<Rightarrow> string \<Rightarrow> int) \<Rightarrow> report_page \<Rightarrow> bool" where
  "table_ok collate s =
     (rp_limit s \<in> {25, 50, 100} \<and> 1 \<le> rp_page s \<and>
      (case rp_sort s of None \<Rightarrow> True | Some (i, d) \<Rightarrow> (d = 1 \<or> d = - 1)))"

lemma table_ok_step: "table_ok collate s \<Longrightarrow> table_ok collate (report_step collate e s)"
  by (cases e) (auto simp: table_ok_def reset_table_def clicked_def Let_def split: option.splits prod.splits if_splits)

lemma table_ok_run: "table_ok collate s \<Longrightarrow> table_ok collate (report_run collate es s)"
proof (induction es arbitrary: s)
  case (Cons e es)
  then show ?case using table_ok_step by (simp add: report_run_def)
qed (simp add: report_run_def)

lemma table_ok_fresh: "table_ok collate (fresh_report r c a b)"
  by (simp add: table_ok_def fresh_report_def)

lemma visible_length:
  "length (visible collate q (Some p) rows) = length (searched q rows)"
  "length (visible collate q None rows) = length (searched q rows)"
  by (auto simp: visible_def split: prod.split)

text \<open>
  in every run of the page the rows are those of the report that contain what is searched for, each
  as often; and when a column of numbers, or of texts, is chosen they are in its order or the
  opposite one.
\<close>

theorem rows_in_order:
  assumes "two_way collate" "s = report_run collate es (fresh_report r c a b)"
    and "rp_sort s = Some (i, dir)" "uniform i (rp_rows s)"
  shows "mset (visible collate (rp_query s) (rp_sort s) (rp_rows s)) = mset (visible collate (rp_query s) None (rp_rows s)) \<and>
    set (visible collate (rp_query s) (rp_sort s) (rp_rows s)) =
      {x \<in> set (rp_rows s). trim (rp_query s) = [] \<or> row_matches (rp_query s) x} \<and>
    sorted_wrt (\<lambda>x y. compare_rows collate i dir x y \<le> 0) (visible collate (rp_query s) (rp_sort s) (rp_rows s)) \<and>
    (dir = 1 \<or> dir = - 1)"
proof -
  have dir: "dir = 1 \<or> dir = - 1"
    using table_ok_run [OF table_ok_fresh, of collate es r c a b] assms(2,3) by (simp add: table_ok_def)
  have "uniform i (searched (rp_query s) (rp_rows s))"
    using assms(4) by (auto simp: uniform_def searched_def list_all_iff)
  then show ?thesis
    using sorted_rows [OF assms(1) dir] dir by (auto simp: assms(3) visible_def searched_def)
qed

theorem rows_in_order_witness:
  "sorted_wrt (\<lambda>x y. compare_rows code_units 1 (- 1) x y \<le> 0)
     (visible code_units ''n'' (Some (1, - 1)) two_people)"
proof -
  let ?s = "report_run code_units [Report_Answer [''Name'', ''Count''] two_people, Search_Rows ''n'', Click_Column 1]
      (fresh_report ''web'' [] ''a'' ''b'')"
  have "rp_query ?s = ''n''" "rp_sort ?s = Some (1, - 1)" "rp_rows ?s = two_people"
    by (simp_all add: report_run_def fresh_report_def clicked_def)
  moreover have "uniform 1 two_people" by code_simp
  ultimately show ?thesis
    using rows_in_order [OF unit_order.two_way_axioms refl, of "[Report_Answer [''Name'', ''Count''] two_people, Search_Rows ''n'', Click_Column 1]"
        "''web''" "[]" "''a''" "''b''" 1 "- 1"] by simp
qed

text \<open>
  in every run of the page: three clicks on the head of a column leave the rows in the order
  of the API, a search starts on the first page again, and when another report or period is
  chosen its rows are shown from the first page on, unsorted and whole.
\<close>

theorem table_controls:
  assumes "s = report_run collate es (fresh_report r c a b)" "rp_sort s = None" "i < length (rp_columns s)"
    and "r' \<noteq> rp_report s"
  shows "report_run collate [Click_Column i, Click_Column i, Click_Column i] s = s \<and>
    (let t = report_run collate [Choose_Report r', Report_Answer cols rows] s
     in paged (rp_page t) (rp_limit t) (visible collate (rp_query t) (rp_sort t) (rp_rows t)) = take (rp_limit s) rows) \<and>
    (let t = report_step collate (Search_Rows q) s
     in paged (rp_page t) (rp_limit t) (visible collate (rp_query t) (rp_sort t) (rp_rows t)) =
          take (rp_limit s) (visible collate q (rp_sort s) (rp_rows s)))"
  using assms(2-4)
  by (auto simp: report_run_def clicked_def reset_table_def paged_def visible_def searched_def trim_def Let_def)

theorem table_controls_witness:
  "(let s = report_run code_units [Report_Answer [''Name'', ''Count''] two_people] (fresh_report ''web'' [] ''a'' ''b'')
    in report_run code_units [Click_Column 1, Click_Column 1, Click_Column 1] s = s)"
  using table_controls [OF refl, of code_units "[Report_Answer [''Name'', ''Count''] two_people]" "''web''" "[]" "''a''" "''b''"
      1 "''apps''" "[]" "[]" "[]"]
  by (simp add: Let_def report_run_def fresh_report_def)

section \<open>Exports\<close>

text \<open>The shape of a report in the API, and which rows an export has.\<close>

datatype format = On_Screen | As_Csv | As_Xlsx

definition row_limit :: "format \<Rightarrow> nat" where
  "row_limit f = (if f = On_Screen then 5000 else 100000)"

definition truncated :: "format \<Rightarrow> nat \<Rightarrow> bool \<Rightarrow> bool" where
  "truncated f n scan_cut = (row_limit f \<le> n \<or> scan_cut)"

definition csv_safe :: "string \<Rightarrow> string" where
  "csv_safe t = (if t \<noteq> [] \<and> hd t \<in> set ''=+-@'' \<union> {CHR 0x09, CHR 0x0D} then CHR 0x27 # t else t)"

definition csv_rows :: "row list \<Rightarrow> string list list" where
  "csv_rows rows = map (map (\<lambda>c. csv_safe (cell_text c))) rows"

definition pdf_limit :: nat where
  "pdf_limit = 2000"

text \<open>The table of the PDF and the numbers it writes over the table: all rows, and the note.\<close>

definition pdf_table :: "row list \<Rightarrow> string list list \<times> nat \<times> nat option" where
  "pdf_table rows =
     (map (map cell_text) (take pdf_limit rows), length rows,
      if pdf_limit < length rows then Some pdf_limit else None)"

text \<open>What the page hands to the PDF.\<close>

definition pdf_rows :: "(string \<Rightarrow> string \<Rightarrow> int) \<Rightarrow> report_page \<Rightarrow> row list" where
  "pdf_rows collate s =
     (if rp_sort s \<noteq> None \<or> rp_query s \<noteq> [] then visible collate (rp_query s) (rp_sort s) (rp_rows s)
      else rp_rows s)"

text \<open>
  The name of the file in the API, and what the page reads of it: \<open>/filename="?([^"]+)"?/\<close>.
\<close>

definition export_filename :: "string \<Rightarrow> string \<Rightarrow> string \<Rightarrow> string \<Rightarrow> string \<Rightarrow> string" where
  "export_filename report employee start stop ext =
     ''aavishield_'' @ report @
     (if employee = [] then [] else CHR ''_'' # strip_dashes (dash_runs False (to_lower employee))) @
     ''_'' @ start @ ''_to_'' @ stop @ ''.'' @ ext"

definition quote :: char where
  "quote = CHR 0x22"

definition disposition :: "string \<Rightarrow> string" where
  "disposition name = ''attachment; filename='' @ [quote] @ name @ [quote]"

definition name_here :: "string \<Rightarrow> string" where
  "name_here s =
     (if starts_with s ''filename=''
      then (let r = drop 9 s in takeWhile (\<lambda>c. c \<noteq> quote) (if starts_with r [quote] then tl r else r))
      else [])"

fun filename_match :: "string \<Rightarrow> string option" where
  "filename_match [] = None"
| "filename_match (c # cs) = (if name_here (c # cs) \<noteq> [] then Some (name_here (c # cs)) else filename_match cs)"

definition filename_from :: "string option \<Rightarrow> string \<Rightarrow> string" where
  "filename_from d fallback =
     (case d of None \<Rightarrow> fallback | Some t \<Rightarrow> (case filename_match t of None \<Rightarrow> fallback | Some n \<Rightarrow> n))"

lemma set_dash_runs: "set (dash_runs b t) \<subseteq> insert (CHR ''-'') {c. id_char c}"
  by (induction b t rule: dash_runs.induct) auto

lemma no_quote_slug: "quote \<notin> set (strip_dashes (dash_runs b t))"
  using set_strip_dashes [of "dash_runs b t"] set_dash_runs [of b t] by (auto simp: quote_def id_char_def)

lemma filename_match_disposition:
  assumes "name \<noteq> []" "quote \<notin> set name"
  shows "filename_match (disposition name) = Some name"
proof -
  have "takeWhile (\<lambda>c. c \<noteq> quote) (name @ [quote]) = name"
    using assms(2) by (subst takeWhile_append2) auto
  then show ?thesis
    using assms(1) by (simp add: disposition_def name_here_def)
qed

text \<open>
  the name under which the page saves an export is the one the API gave it, whatever the name
  of the employee the report is about: the characters that the page could not read are gone.
\<close>

theorem saved_name:
  assumes "quote \<notin> set (report @ start @ stop @ ext)"
  shows "filename_from (Some (disposition (export_filename report employee start stop ext))) fallback =
    export_filename report employee start stop ext"
proof -
  have "quote \<notin> set (export_filename report employee start stop ext)"
    using assms no_quote_slug by (auto simp: export_filename_def quote_def)
  then show ?thesis
    using filename_match_disposition [of "export_filename report employee start stop ext"]
    by (simp add: filename_from_def export_filename_def)
qed

theorem saved_name_witness:
  "filename_from (Some (disposition (export_filename ''web'' (''Ann '' @ [quote] @ ''x'') ''2026-01-01'' ''2026-01-31'' ''csv''))) [] =
     ''aavishield_web_ann-x_2026-01-01_to_2026-01-31.csv''"
proof -
  have "export_filename ''web'' (''Ann '' @ [quote] @ ''x'') ''2026-01-01'' ''2026-01-31'' ''csv'' =
      ''aavishield_web_ann-x_2026-01-01_to_2026-01-31.csv''"
    by code_simp
  then show ?thesis
    using saved_name [of "''web''" "''2026-01-01''" "''2026-01-31''" "''csv''" "''Ann '' @ [quote] @ ''x''" "[]"]
    by (simp add: quote_def)
qed

text \<open>
  no cell of a CSV export starts with a character that a spreadsheet takes for a formula, and
  a cell that does not either is left as it is.
\<close>

theorem csv_cells_safe:
  "(\<forall>r \<in> set (csv_rows rows). \<forall>t \<in> set r. t = [] \<or> hd t \<notin> set ''=+-@'' \<union> {CHR 0x09, CHR 0x0D}) \<and>
   map length (csv_rows rows) = map length rows"
  by (auto simp: csv_rows_def csv_safe_def)

theorem csv_cells_safe_witness:
  "csv_rows [[Txt ''=HYPERLINK(1)'', Num (- 3), Null]] = [[CHR 0x27 # ''=HYPERLINK(1)'', CHR 0x27 # ''-3'', []]] \<and>
   map length (csv_rows [[Txt ''=HYPERLINK(1)'', Num (- 3), Null]]) = [3]"
  using csv_cells_safe [of "[[Txt ''=HYPERLINK(1)'', Num (- 3), Null]]"]
  by (simp add: csv_rows_def csv_safe_def show_int_def show_nat.simps digit_char_def)

text \<open>
  the PDF has the rows that are on the page, in their order, at most 2000, and says when it
  leaves some out.
\<close>

theorem pdf_shows_the_page:
  "fst (pdf_table (pdf_rows collate s)) = map (map cell_text) (take 2000 (visible collate (rp_query s) (rp_sort s) (rp_rows s))) \<and>
   (snd (snd (pdf_table (pdf_rows collate s))) = None \<longleftrightarrow>
      fst (pdf_table (pdf_rows collate s)) = map (map cell_text) (visible collate (rp_query s) (rp_sort s) (rp_rows s)))"
proof -
  have "pdf_rows collate s = visible collate (rp_query s) (rp_sort s) (rp_rows s)"
    by (cases "rp_sort s") (auto simp: pdf_rows_def visible_def searched_def trim_def)
  moreover have "map f (take n xs) = map f xs \<longleftrightarrow> length xs \<le> n" for f :: "row \<Rightarrow> string list" and n xs
    by (metis length_map length_take min.absorb_iff1 min.commute take_all)
  ultimately show ?thesis by (simp add: pdf_table_def pdf_limit_def)
qed

section \<open>The briefing\<close>

text \<open>
  \<open>AIBriefing\<close>: it asks for a text about the period shown; an effect clears the text when the
  period changes. It stays on the page only when the report of the new period is in the cache of
  queries; otherwise the page shows a placeholder, and the component starts afresh. A request is
  known by its number.
\<close>

record briefing =
  br_period :: string
  br_summary :: string
  br_pending :: "nat option"
  br_asked :: "string list"

datatype briefing_event =
    Write_Briefing
  | Period_Changes bool string
  | Briefing_Answer nat string
  | Briefing_Fails nat

fun briefing_step :: "briefing_event \<Rightarrow> briefing \<Rightarrow> briefing" where
  "briefing_step Write_Briefing s =
     (if br_pending s \<noteq> None then s
      else s\<lparr>br_pending := Some (length (br_asked s)), br_summary := [], br_asked := br_asked s @ [br_period s]\<rparr>)"
| "briefing_step (Period_Changes cached p) s =
     (if p = br_period s then s
      else s\<lparr>br_period := p, br_summary := [], br_pending := (if cached then br_pending s else None)\<rparr>)"
| "briefing_step (Briefing_Answer n t) s =
     (if br_pending s = Some n then s\<lparr>br_summary := t, br_pending := None\<rparr> else s)"
| "briefing_step (Briefing_Fails n) s =
     (if br_pending s = Some n then s\<lparr>br_pending := None\<rparr> else s)"

definition briefing_run :: "briefing_event list \<Rightarrow> briefing \<Rightarrow> briefing" where
  "briefing_run es s = foldl (\<lambda>s e. briefing_step e s) s es"

text \<open>
  a briefing that arrives after the period was changed is shown under the new period when its
  report was in the cache, although the change had cleared the text; otherwise it is dropped.
\<close>

theorem stale_briefing:
  assumes "q \<noteq> br_period s" "br_pending s = None"
  shows "(let t = briefing_run [Write_Briefing, Period_Changes cached q, Briefing_Answer (length (br_asked s)) text] s
    in br_period t = q \<and> last (br_asked t) = br_period s \<and> br_summary t = (if cached then text else []))"
  using assms by (simp add: briefing_run_def)

theorem stale_briefing_witness:
  "br_summary (briefing_run [Write_Briefing, Period_Changes True ''June'', Briefing_Answer 0 ''Quiet month.'']
     \<lparr>br_period = ''May'', br_summary = [], br_pending = None, br_asked = []\<rparr>) = ''Quiet month.''"
  using stale_briefing [of "''June''" "\<lparr>br_period = ''May'', br_summary = [], br_pending = None, br_asked = []\<rparr>"
      True "''Quiet month.''"] by (simp add: Let_def)

end
