(* ===== verification/Teams_Access.thy ===== *)
theory Teams_Access
  imports Prelude
begin

text \<open>
  Who may sign in to the company dashboard and whose people they see: the users page and the
  teams page (\<^verbatim>\<open>app/dashboard/users/page.tsx\<close>, \<^verbatim>\<open>app/dashboard/teams/page.tsx\<close>) with the handlers
  of the API for them (\<^verbatim>\<open>orgusers.go\<close>, \<^verbatim>\<open>teams.go\<close>, \<^verbatim>\<open>scoping.go\<close> under
  \<^verbatim>\<open>internal/handlers\<close>), on one organisation. Hashing a password and making one are arguments.
\<close>

section \<open>The organisation\<close>

record dash_user =
  du_id :: string
  du_email :: string
  du_first :: string
  du_last :: string
  du_job :: string
  du_role :: string
  du_status :: string
  du_hash :: string

record team =
  tm_id :: string
  tm_name :: string
  tm_description :: string
  tm_color :: string

text \<open>The links of users with teams, and the team of each employee.\<close>

record org_access =
  ac_users :: "dash_user list"
  ac_links :: "(string \<times> string) list"
  ac_teams :: "team list"
  ac_people :: "(string \<times> string option) list"

definition grantable :: "string list" where
  "grantable = [''org_admin'', ''manager'', ''analyst'', ''read_only'']"

text \<open>\<open>scopedTeamIDs\<close>: None is the whole organisation.\<close>

definition teams_of :: "org_access \<Rightarrow> string \<Rightarrow> string list" where
  "teams_of s u = map snd (filter (\<lambda>l. fst l = u) (ac_links s))"

definition scope :: "org_access \<Rightarrow> string \<Rightarrow> string \<Rightarrow> string list option" where
  "scope s role u = (if role \<noteq> ''manager'' \<or> teams_of s u = [] then None else Some (teams_of s u))"

text \<open>\<open>applyTeamScope\<close> on the employees.\<close>

definition sees :: "org_access \<Rightarrow> string \<Rightarrow> string \<Rightarrow> string list" where
  "sees s role u =
     (case scope s role u of
        None \<Rightarrow> map fst (ac_people s)
      | Some ts \<Rightarrow> map fst (filter (\<lambda>p. case snd p of None \<Rightarrow> False | Some t \<Rightarrow> t \<in> set ts) (ac_people s)))"

section \<open>Users\<close>

text \<open>A key that is left out of a request is the empty text; the teams may be left out.\<close>

record user_request =
  ur_email :: string
  ur_first :: string
  ur_last :: string
  ur_role :: string
  ur_job :: string
  ur_password :: string
  ur_status :: string
  ur_teams :: "string list option"

datatype user_refusal =
    Bad_Email
  | Bad_Role
  | Taken
  | Short_Password
  | No_User
  | Own_Role
  | Last_Admin
  | Bad_Status
  | Own_Account

text \<open>\<open>replaceTeams\<close>; a team that does not exist is skipped, and a second link to the same one fails.\<close>

definition replace_teams :: "string \<Rightarrow> string \<Rightarrow> string list \<Rightarrow> org_access \<Rightarrow> org_access" where
  "replace_teams u role ts s =
     s\<lparr>ac_links := filter (\<lambda>l. fst l \<noteq> u) (ac_links s) @
         (if role \<noteq> ''manager'' then []
          else map (Pair u) (rev (remdups (rev (filter (\<lambda>t. t \<in> tm_id ` set (ac_teams s)) ts)))))\<rparr>"

definition orelse_teams :: "string list option \<Rightarrow> string list" where
  "orelse_teams ts = (case ts of None \<Rightarrow> [] | Some l \<Rightarrow> l)"

definition create_user ::
  "(string \<Rightarrow> string) \<Rightarrow> string \<Rightarrow> string \<Rightarrow> user_request \<Rightarrow> org_access \<Rightarrow> (user_refusal + string option) \<times> org_access" where
  "create_user hash new_id generated r s =
     (let email = to_lower (trim (ur_email r));
          role = trim (ur_role r);
          auto = (trim (ur_password r) = []);
          password = (if auto then generated else ur_password r)
      in if email = [] \<or> CHR ''@'' \<notin> set email then (Inl Bad_Email, s)
         else if role \<notin> set grantable then (Inl Bad_Role, s)
         else if list_ex (\<lambda>u. to_lower (du_email u) = email) (ac_users s) then (Inl Taken, s)
         else if length password < 8 then (Inl Short_Password, s)
         else
           (Inr (if auto then Some password else None),
            replace_teams new_id role (orelse_teams (ur_teams r))
              (s\<lparr>ac_users := ac_users s @
                 [\<lparr>du_id = new_id, du_email = email, du_first = trim (ur_first r), du_last = trim (ur_last r),
                   du_job = trim (ur_job r), du_role = role, du_status = ''active'', du_hash = hash password\<rparr>]\<rparr>)))"

definition find_user :: "string \<Rightarrow> org_access \<Rightarrow> dash_user option" where
  "find_user i s = find (\<lambda>u. du_id u = i) (ac_users s)"

definition active_admin :: "dash_user \<Rightarrow> bool" where
  "active_admin u = (du_role u = ''org_admin'' \<and> du_status u = ''active'')"

definition last_admin :: "string \<Rightarrow> org_access \<Rightarrow> bool" where
  "last_admin excluding s = (\<not> list_ex (\<lambda>u. active_admin u \<and> du_id u \<noteq> excluding) (ac_users s))"

definition put_user :: "dash_user \<Rightarrow> org_access \<Rightarrow> org_access" where
  "put_user u s = s\<lparr>ac_users := map (\<lambda>x. if du_id x = du_id u then u else x) (ac_users s)\<rparr>"

text \<open>An empty text in a request for a change means to leave the field as it is.\<close>

definition keep_or :: "string \<Rightarrow> string \<Rightarrow> string" where
  "keep_or new old = (if new \<noteq> [] then trim new else old)"

definition changed_user :: "(string \<Rightarrow> string) \<Rightarrow> user_request \<Rightarrow> dash_user \<Rightarrow> dash_user" where
  "changed_user hash r u =
     u\<lparr>du_first := keep_or (ur_first r) (du_first u), du_last := keep_or (ur_last r) (du_last u),
       du_job := keep_or (ur_job r) (du_job u), du_role := keep_or (ur_role r) (du_role u),
       du_status := keep_or (ur_status r) (du_status u),
       du_hash := (if trim (ur_password r) \<noteq> [] then hash (ur_password r) else du_hash u)\<rparr>"

definition refuse_update :: "string \<Rightarrow> user_request \<Rightarrow> dash_user \<Rightarrow> org_access \<Rightarrow> user_refusal option" where
  "refuse_update actor r u s =
     (let role = trim (ur_role r); status = trim (ur_status r)
      in if ur_role r \<noteq> [] \<and> role \<notin> set grantable then Some Bad_Role
         else if ur_role r \<noteq> [] \<and> actor = du_id u \<and> role \<noteq> ''org_admin'' then Some Own_Role
         else if ur_role r \<noteq> [] \<and> du_role u = ''org_admin'' \<and> role \<noteq> ''org_admin'' \<and> last_admin (du_id u) s
           then Some Last_Admin
         else if ur_status r \<noteq> [] \<and> status \<notin> set [''active'', ''inactive'', ''suspended''] then Some Bad_Status
         else if ur_status r \<noteq> [] \<and> actor = du_id u \<and> status \<noteq> ''active'' then Some Own_Account
         else if trim (ur_password r) \<noteq> [] \<and> length (ur_password r) < 8 then Some Short_Password
         else None)"

definition update_user ::
  "(string \<Rightarrow> string) \<Rightarrow> string \<Rightarrow> string \<Rightarrow> user_request \<Rightarrow> org_access \<Rightarrow> (user_refusal + dash_user) \<times> org_access" where
  "update_user hash actor i r s =
     (case find_user i s of
        None \<Rightarrow> (Inl No_User, s)
      | Some u \<Rightarrow>
          (case refuse_update actor r u s of
             Some why \<Rightarrow> (Inl why, s)
           | None \<Rightarrow>
               (let v = changed_user hash r u; t = put_user v s
                in (Inr v,
                    if ur_teams r \<noteq> None \<or> du_role v \<noteq> ''manager''
                    then replace_teams (du_id u) (du_role v) (orelse_teams (ur_teams r)) t else t))))"

definition delete_user :: "string \<Rightarrow> string \<Rightarrow> org_access \<Rightarrow> (user_refusal + unit) \<times> org_access" where
  "delete_user actor i s =
     (case find_user i s of
        None \<Rightarrow> (Inl No_User, s)
      | Some u \<Rightarrow>
          (if actor = i then (Inl Own_Account, s)
           else if du_role u = ''org_admin'' \<and> last_admin i s then (Inl Last_Admin, s)
           else
             (Inr (), s\<lparr>ac_links := filter (\<lambda>l. fst l \<noteq> i) (ac_links s),
                ac_users := filter (\<lambda>x. du_id x \<noteq> i) (ac_users s)\<rparr>)))"

section \<open>Teams\<close>

datatype team_refusal = No_Name | Name_Taken | No_Such_Team

record team_request =
  tr_name :: string
  tr_description :: string
  tr_color :: string

definition create_team :: "string \<Rightarrow> team_request \<Rightarrow> org_access \<Rightarrow> (team_refusal + team) \<times> org_access" where
  "create_team new_id r s =
     (if tr_name r = [] then (Inl No_Name, s)
      else if list_ex (\<lambda>t. tm_name t = tr_name r) (ac_teams s) then (Inl Name_Taken, s)
      else
        (let t = \<lparr>tm_id = new_id, tm_name = tr_name r, tm_description = tr_description r,
               tm_color = (if tr_color r = [] then ''#0048A0'' else tr_color r)\<rparr>
         in (Inr t, s\<lparr>ac_teams := ac_teams s @ [t]\<rparr>)))"

definition update_team :: "string \<Rightarrow> team_request \<Rightarrow> org_access \<Rightarrow> (team_refusal + unit) \<times> org_access" where
  "update_team i r s =
     (if \<not> list_ex (\<lambda>t. tm_id t = i) (ac_teams s) then (Inl No_Such_Team, s)
      else if tr_name r = [] then (Inl No_Name, s)
      else if list_ex (\<lambda>t. tm_name t = tr_name r \<and> tm_id t \<noteq> i) (ac_teams s) then (Inl Name_Taken, s)
      else
        (Inr (),
         s\<lparr>ac_teams := map (\<lambda>t. if tm_id t = i
             then t\<lparr>tm_name := tr_name r, tm_description := tr_description r,
                    tm_color := (if tr_color r = [] then tm_color t else tr_color r)\<rparr>
             else t) (ac_teams s)\<rparr>))"

text \<open>\<open>Delete\<close>: the employees lose their team; the links of the users are not touched.\<close>

definition delete_team :: "string \<Rightarrow> org_access \<Rightarrow> (team_refusal + unit) \<times> org_access" where
  "delete_team i s =
     (if \<not> list_ex (\<lambda>t. tm_id t = i) (ac_teams s) then (Inl No_Such_Team, s)
      else
        (Inr (), s\<lparr>ac_people := map (\<lambda>p. if snd p = Some i then (fst p, None) else p) (ac_people s),
           ac_teams := filter (\<lambda>t. tm_id t \<noteq> i) (ac_teams s)\<rparr>))"

definition assign_employees :: "string \<Rightarrow> string list \<Rightarrow> bool \<Rightarrow> org_access \<Rightarrow> (team_refusal + nat) \<times> org_access" where
  "assign_employees i es replace s =
     (if \<not> list_ex (\<lambda>t. tm_id t = i) (ac_teams s) then (Inl No_Such_Team, s)
      else
        (let people = (if replace then map (\<lambda>p. if snd p = Some i then (fst p, None) else p) (ac_people s)
              else ac_people s)
         in (Inr (length (filter (\<lambda>p. fst p \<in> set es) people)),
             s\<lparr>ac_people := map (\<lambda>p. if fst p \<in> set es then (fst p, Some i) else p) people\<rparr>)))"

text \<open>\<open>RemoveEmployee\<close>: the team in the address of the request is not looked at.\<close>

definition remove_employee :: "string \<Rightarrow> string \<Rightarrow> org_access \<Rightarrow> org_access" where
  "remove_employee i e s = s\<lparr>ac_people := map (\<lambda>p. if fst p = e then (e, None) else p) (ac_people s)\<rparr>"

section \<open>The forms\<close>

record user_form =
  uf_email :: string
  uf_first :: string
  uf_last :: string
  uf_job :: string
  uf_role :: string
  uf_password :: string
  uf_status :: string
  uf_teams :: "string list"

definition empty_user :: user_form where
  "empty_user =
     \<lparr>uf_email = [], uf_first = [], uf_last = [], uf_job = [], uf_role = ''analyst'', uf_password = [],
      uf_status = ''active'', uf_teams = []\<rparr>"

definition open_user :: "org_access \<Rightarrow> dash_user \<Rightarrow> user_form" where
  "open_user s u =
     \<lparr>uf_email = du_email u, uf_first = du_first u, uf_last = du_last u, uf_job = du_job u, uf_role = du_role u,
      uf_password = [], uf_status = du_status u, uf_teams = teams_of s (du_id u)\<rparr>"

definition toggle_team :: "string \<Rightarrow> user_form \<Rightarrow> user_form" where
  "toggle_team t f =
     f\<lparr>uf_teams := (if t \<in> set (uf_teams f) then filter (\<lambda>x. x \<noteq> t) (uf_teams f) else uf_teams f @ [t])\<rparr>"

text \<open>
  \<open>submit\<close>. The catalog of roles, which comes with the list of users, calls only managers
  team-scoped.
\<close>

definition user_payload :: "bool \<Rightarrow> user_form \<Rightarrow> user_request" where
  "user_payload editing f =
     \<lparr>ur_email = (if editing then [] else uf_email f), ur_first = uf_first f, ur_last = uf_last f,
      ur_role = uf_role f, ur_job = uf_job f, ur_password = uf_password f,
      ur_status = (if editing then uf_status f else []),
      ur_teams = Some (if uf_role f = ''manager'' then uf_teams f else [])\<rparr>"

text \<open>
  The dialog that puts employees into a team. The list it offers is what the API answers to a
  request for \<open>n\<close> of the active employees: \<open>List\<close> takes more than 100 for 20.
\<close>

definition list_limit :: "nat \<Rightarrow> nat" where
  "list_limit n = (if n < 1 \<or> 100 < n then 20 else n)"

definition first_page :: "nat \<Rightarrow> 'a list \<Rightarrow> 'a list" where
  "first_page n rows = take (list_limit n) rows"

definition assign_choices :: "'a list \<Rightarrow> 'a list" where
  "assign_choices active = first_page 200 active"

definition policy_choices :: "'a list \<Rightarrow> 'a list" where
  "policy_choices all = first_page 500 all"

definition filter_teams :: "string \<Rightarrow> team list \<Rightarrow> team list" where
  "filter_teams search ts =
     (let q = to_lower (trim search)
      in if q = [] then ts
         else filter (\<lambda>t. str_includes (to_lower (tm_name t @ '' '' @ tm_description t)) q) ts)"

section \<open>What holds in every organisation\<close>

text \<open>Requests for users come from an administrator who is active; new identifiers are fresh.\<close>

inductive access_reach :: "(string \<Rightarrow> string) \<Rightarrow> org_access \<Rightarrow> bool" for hash where
  registered: "active_admin u \<Longrightarrow> access_reach hash \<lparr>ac_users = [u], ac_links = [], ac_teams = [], ac_people = []\<rparr>"
| user_created: "access_reach hash s \<Longrightarrow> i \<notin> du_id ` set (ac_users s) \<union> fst ` set (ac_links s) \<Longrightarrow>
    access_reach hash (snd (create_user hash i p r s))"
| user_updated: "access_reach hash s \<Longrightarrow> a \<in> set (ac_users s) \<Longrightarrow> active_admin a \<Longrightarrow>
    access_reach hash (snd (update_user hash (du_id a) i r s))"
| user_deleted: "access_reach hash s \<Longrightarrow> a \<in> set (ac_users s) \<Longrightarrow> active_admin a \<Longrightarrow>
    access_reach hash (snd (delete_user (du_id a) i s))"
| team_created: "access_reach hash s \<Longrightarrow> i \<notin> tm_id ` set (ac_teams s) \<Longrightarrow> access_reach hash (snd (create_team i tr s))"
| team_updated: "access_reach hash s \<Longrightarrow> access_reach hash (snd (update_team i tr s))"
| team_deleted: "access_reach hash s \<Longrightarrow> access_reach hash (snd (delete_team i s))"
| assigned: "access_reach hash s \<Longrightarrow> access_reach hash (snd (assign_employees i es b s))"
| removed: "access_reach hash s \<Longrightarrow> access_reach hash (remove_employee i e s)"
| hired: "access_reach hash s \<Longrightarrow> access_reach hash (s\<lparr>ac_people := ps\<rparr>)"

definition users_ok :: "dash_user list \<Rightarrow> (string \<times> string) list \<Rightarrow> bool" where
  "users_ok us links =
     (distinct (map du_id us) \<and> (\<exists>u \<in> set us. active_admin u) \<and>
      (\<forall>l \<in> set links. \<exists>u \<in> set us. du_id u = fst l \<and> du_role u = ''manager'') \<and> distinct links)"

definition teams_ok :: "team list \<Rightarrow> bool" where
  "teams_ok ts = (distinct (map tm_id ts) \<and> distinct (map tm_name ts) \<and> [] \<notin> set (map tm_name ts))"

lemma team_ops_users [simp]:
  "ac_users (snd (create_team i tr s)) = ac_users s" "ac_links (snd (create_team i tr s)) = ac_links s"
  "ac_users (snd (update_team i tr s)) = ac_users s" "ac_links (snd (update_team i tr s)) = ac_links s"
  "ac_users (snd (delete_team i s)) = ac_users s" "ac_links (snd (delete_team i s)) = ac_links s"
  "ac_users (snd (assign_employees i es b s)) = ac_users s" "ac_links (snd (assign_employees i es b s)) = ac_links s"
  "ac_users (remove_employee i e s) = ac_users s" "ac_links (remove_employee i e s) = ac_links s"
  by (simp_all add: create_team_def update_team_def delete_team_def assign_employees_def remove_employee_def Let_def)

lemma user_ops_teams [simp]:
  "ac_teams (snd (create_user hash i p r s)) = ac_teams s"
  "ac_teams (snd (update_user hash a i r s)) = ac_teams s"
  "ac_teams (snd (delete_user a i s)) = ac_teams s"
  "ac_teams (snd (assign_employees i es b s)) = ac_teams s"
  "ac_teams (remove_employee i e s) = ac_teams s"
  by (simp_all add: create_user_def update_user_def delete_user_def assign_employees_def remove_employee_def
      replace_teams_def put_user_def Let_def split: option.split)

lemma find_user_SomeD: "find_user i s = Some u \<Longrightarrow> u \<in> set (ac_users s) \<and> du_id u = i"
  by (auto simp: find_user_def find_Some_iff)

lemma same_user: "distinct (map du_id us) \<Longrightarrow> u \<in> set us \<Longrightarrow> v \<in> set us \<Longrightarrow> du_id u = du_id v \<Longrightarrow> u = v"
  by (auto simp: distinct_map inj_on_def)

lemma changed_user_id [simp]: "du_id (changed_user hash r u) = du_id u" "du_email (changed_user hash r u) = du_email u"
  by (simp_all add: changed_user_def)

lemma set_put: "distinct (map du_id us) \<Longrightarrow> u \<in> set us \<Longrightarrow> du_id v = du_id u \<Longrightarrow>
    set (map (\<lambda>x. if du_id x = du_id v then v else x) us) = insert v (set us - {u})"
proof -
  assume d: "distinct (map du_id us)" and u: "u \<in> set us" and i: "du_id v = du_id u"
  have "\<forall>x \<in> set us. (du_id x = du_id v) = (x = u)"
    using d u i by (auto dest: same_user)
  then show ?thesis using u by (auto simp: image_iff)
qed

lemma ids_put: "map du_id (map (\<lambda>x. if du_id x = du_id v then v else x) us) = map du_id us"
  by (induction us) auto

lemma distinct_links:
  "distinct ls \<Longrightarrow> distinct (filter (\<lambda>l. fst l \<noteq> u) ls @ map (Pair u) (rev (remdups (rev ts))))"
  by (auto simp: distinct_map inj_on_def)

lemma users_ok_replace:
  assumes "users_ok us ls" "u \<in> set us" "du_id v = du_id u" "\<exists>x \<in> insert v (set us - {u}). active_admin x"
  shows "users_ok (map (\<lambda>x. if du_id x = du_id v then v else x) us)
    (filter (\<lambda>l. fst l \<noteq> du_id u) ls @ (if du_role v \<noteq> ''manager'' then [] else map (Pair (du_id u)) (rev (remdups (rev ts)))))"
proof -
  have d: "distinct (map du_id us)" and l: "distinct ls"
    and m: "\<forall>l \<in> set ls. \<exists>u \<in> set us. du_id u = fst l \<and> du_role u = ''manager''"
    using assms(1) by (auto simp: users_ok_def)
  let ?new = "if du_role v \<noteq> ''manager'' then [] else map (Pair (du_id u)) (rev (remdups (rev ts)))"
  have "distinct (filter (\<lambda>l. fst l \<noteq> du_id u) ls @ ?new)"
    using distinct_links [OF l, of "du_id u" ts] l by auto
  moreover have "\<exists>x \<in> insert v (set us - {u}). du_id x = fst l \<and> du_role x = ''manager''"
    if "l \<in> set (filter (\<lambda>l. fst l \<noteq> du_id u) ls @ ?new)" for l
  proof (cases "l \<in> set ls \<and> fst l \<noteq> du_id u")
    case True
    then obtain x where "x \<in> set us" "du_id x = fst l" "du_role x = ''manager''" using m by blast
    then show ?thesis using True by auto
  next
    case False
    then show ?thesis using that assms(3) by (auto split: if_splits)
  qed
  ultimately show ?thesis
    unfolding users_ok_def ids_put set_put [OF d assms(2,3)] using d assms(4) by blast
qed

lemma users_ok_put:
  assumes "users_ok us ls" "u \<in> set us" "du_id v = du_id u" "\<exists>x \<in> insert v (set us - {u}). active_admin x"
    and "du_role v = ''manager''"
  shows "users_ok (map (\<lambda>x. if du_id x = du_id v then v else x) us) ls"
proof -
  have d: "distinct (map du_id us)" and l: "distinct ls"
    and m: "\<forall>l \<in> set ls. \<exists>u \<in> set us. du_id u = fst l \<and> du_role u = ''manager''"
    using assms(1) by (auto simp: users_ok_def)
  have "\<exists>x \<in> insert v (set us - {u}). du_id x = fst l \<and> du_role x = ''manager''" if ll: "l \<in> set ls" for l
  proof -
    obtain x where "x \<in> set us" "du_id x = fst l" "du_role x = ''manager''" using m ll by blast
    then show ?thesis using assms(3,5) by (cases "x = u") auto
  qed
  then show ?thesis
    unfolding users_ok_def ids_put set_put [OF d assms(2,3)] using d l assms(4) by blast
qed

lemma admin_stays:
  assumes "users_ok us ls" "a \<in> set us" "active_admin a" "u \<in> set us" "refuse_update (du_id a) r u s = None"
  shows "\<exists>x \<in> insert (changed_user hash r u) (set us - {u}). active_admin x"
proof (cases "u = a")
  case True
  have "refuse_update (du_id a) r u s \<noteq> None" if "ur_role r \<noteq> []" "trim (ur_role r) \<noteq> ''org_admin''"
    using that True by (simp add: refuse_update_def Let_def)
  moreover have "refuse_update (du_id a) r u s \<noteq> None" if "ur_status r \<noteq> []" "trim (ur_status r) \<noteq> ''active''"
    using that True by (simp add: refuse_update_def Let_def)
  ultimately have "ur_role r \<noteq> [] \<longrightarrow> trim (ur_role r) = ''org_admin''" "ur_status r \<noteq> [] \<longrightarrow> trim (ur_status r) = ''active''"
    using assms(5) by blast+
  then have "active_admin (changed_user hash r u)"
    using assms(3) True by (simp add: active_admin_def changed_user_def keep_or_def)
  then show ?thesis by blast
qed (use assms in blast)

lemma update_user_ok:
  assumes "users_ok (ac_users s) (ac_links s)" "a \<in> set (ac_users s)" "active_admin a"
  shows "users_ok (ac_users (snd (update_user hash (du_id a) i r s))) (ac_links (snd (update_user hash (du_id a) i r s)))"
proof (cases "find_user i s")
  case (Some u)
  show ?thesis
  proof (cases "refuse_update (du_id a) r u s")
    case None
    let ?v = "changed_user hash r u"
    have u: "u \<in> set (ac_users s)" using find_user_SomeD [OF Some] by simp
    have admin: "\<exists>x \<in> insert ?v (set (ac_users s) - {u}). active_admin x"
      using assms u None by (rule admin_stays)
    show ?thesis
      using users_ok_put [OF assms(1) u _ admin]
        users_ok_replace [OF assms(1) u _ admin, of "filter (\<lambda>t. t \<in> tm_id ` set (ac_teams s)) (orelse_teams (ur_teams r))"]
      by (cases "du_role ?v = ''manager''")
        (simp_all add: update_user_def Some None Let_def put_user_def replace_teams_def)
  qed (simp add: update_user_def Some assms(1))
qed (simp add: update_user_def assms(1))

lemma users_ok_add:
  assumes "users_ok us ls" "du_id u \<notin> du_id ` set us \<union> fst ` set ls"
  shows "users_ok (us @ [u])
    (ls @ (if du_role u \<noteq> ''manager'' then [] else map (Pair (du_id u)) (rev (remdups (rev ts)))))"
proof -
  let ?new = "if du_role u \<noteq> ''manager'' then [] else map (Pair (du_id u)) (rev (remdups (rev ts)))"
  have "(du_id u, t) \<notin> set ls" for t
    using assms(2) by force
  then have "distinct (ls @ ?new)"
    using assms(1) by (auto simp: users_ok_def distinct_map inj_on_def)
  moreover have "\<exists>x \<in> set (us @ [u]). du_id x = fst l \<and> du_role x = ''manager''" if "l \<in> set (ls @ ?new)" for l
    using that assms(1) by (auto simp: users_ok_def split: if_splits)
  moreover have "distinct (map du_id (us @ [u]))" "\<exists>x \<in> set (us @ [u]). active_admin x"
    using assms by (auto simp: users_ok_def)
  ultimately show ?thesis unfolding users_ok_def by blast
qed

lemma create_user_ok:
  assumes "users_ok (ac_users s) (ac_links s)" "i \<notin> du_id ` set (ac_users s) \<union> fst ` set (ac_links s)"
  shows "users_ok (ac_users (snd (create_user hash i p r s))) (ac_links (snd (create_user hash i p r s)))"
proof -
  have f: "filter (\<lambda>l. fst l \<noteq> i) (ac_links s) = ac_links s"
    using assms(2) by (auto simp: filter_id_conv)
  have m: "users_ok (ac_users s @ [u]) (ac_links s @ map (Pair i) (rev (remdups (rev ts))))"
    if "du_id u = i" "du_role u = ''manager''" for u ts
    using users_ok_add [OF assms(1), of u ts] assms(2) that by simp
  have n: "users_ok (ac_users s @ [u]) (ac_links s)" if "du_id u = i" "du_role u \<noteq> ''manager''" for u
    using users_ok_add [OF assms(1), of u] assms(2) that by simp
  show ?thesis
    using assms(1) by (auto simp: create_user_def replace_teams_def Let_def f intro: m n simp del: distinct_append)
qed

lemma delete_user_ok:
  assumes "users_ok (ac_users s) (ac_links s)" "a \<in> set (ac_users s)" "active_admin a"
  shows "users_ok (ac_users (snd (delete_user (du_id a) i s))) (ac_links (snd (delete_user (du_id a) i s)))"
proof -
  have "users_ok (filter (\<lambda>x. du_id x \<noteq> i) (ac_users s)) (filter (\<lambda>l. fst l \<noteq> i) (ac_links s))" if "du_id a \<noteq> i"
  proof -
    have "a \<in> set (filter (\<lambda>x. du_id x \<noteq> i) (ac_users s))" using assms(2) that by simp
    moreover have "\<exists>u \<in> set (filter (\<lambda>x. du_id x \<noteq> i) (ac_users s)). du_id u = fst l \<and> du_role u = ''manager''"
      if l: "l \<in> set (filter (\<lambda>l. fst l \<noteq> i) (ac_links s))" for l
      using assms(1) l unfolding users_ok_def by fastforce
    ultimately show ?thesis
      using assms(1,3) unfolding users_ok_def by (auto simp: distinct_map_filter)
  qed
  then show ?thesis using assms(1) by (simp add: delete_user_def split: option.split)
qed

lemma reach_users_ok: "access_reach hash s \<Longrightarrow> users_ok (ac_users s) (ac_links s)"
proof (induction rule: access_reach.induct)
  case (registered u)
  then show ?case by (simp add: users_ok_def)
qed (simp_all add: create_user_ok update_user_ok delete_user_ok)

text \<open>
  C15: as long as users are changed by an administrator who is active, an organisation always has an active
  administrator, whatever is created, changed, deleted and assigned; and only managers are
  limited to teams, so that nobody keeps a limit from a role held before.
\<close>

theorem an_admin_remains:
  assumes "access_reach hash s"
  shows "list_ex active_admin (ac_users s) \<and> distinct (map du_id (ac_users s)) \<and>
    list_all (\<lambda>l. list_ex (\<lambda>u. du_id u = fst l \<and> du_role u = ''manager'') (ac_users s)) (ac_links s)"
  using reach_users_ok [OF assms] by (auto simp: users_ok_def list_ex_iff list_all_iff)

definition ada :: dash_user where
  "ada = \<lparr>du_id = ''u1'', du_email = ''ada@x'', du_first = ''Ada'', du_last = ''B'', du_job = [], du_role = ''org_admin'',
     du_status = ''active'', du_hash = ''h''\<rparr>"

definition small_access :: org_access where
  "small_access =
     snd (create_user (\<lambda>p. p) ''u2'' ''password''
       \<lparr>ur_email = ''mo@x'', ur_first = ''Mo'', ur_last = ''C'', ur_role = ''manager'', ur_job = [], ur_password = [],
        ur_status = [], ur_teams = Some [''t1'']\<rparr>
       (snd (create_team ''t1'' \<lparr>tr_name = ''Red'', tr_description = [], tr_color = []\<rparr>
         \<lparr>ac_users = [ada], ac_links = [], ac_teams = [], ac_people = [(''e1'', Some ''t1''), (''e2'', None)]\<rparr>)))"

definition mo :: dash_user where
  "mo = \<lparr>du_id = ''u2'', du_email = ''mo@x'', du_first = ''Mo'', du_last = ''C'', du_job = [], du_role = ''manager'',
     du_status = ''active'', du_hash = ''password''\<rparr>"

lemma small_access_eq:
  "small_access =
     \<lparr>ac_users = [ada, mo], ac_links = [(''u2'', ''t1'')],
      ac_teams = [\<lparr>tm_id = ''t1'', tm_name = ''Red'', tm_description = [], tm_color = ''#0048A0''\<rparr>],
      ac_people = [(''e1'', Some ''t1''), (''e2'', None)]\<rparr>"
  by code_simp

lemma ada_admin: "active_admin ada"
  by (simp add: active_admin_def ada_def)

lemma small_access_reach: "access_reach (\<lambda>p. p) small_access"
proof -
  have "access_reach (\<lambda>p. p)
      (\<lparr>ac_users = [ada], ac_links = [], ac_teams = [], ac_people = []\<rparr>\<lparr>ac_people := [(''e1'', Some ''t1''), (''e2'', None)]\<rparr>)"
    by (intro access_reach.hired access_reach.registered ada_admin)
  then show ?thesis
    unfolding small_access_def
    by (intro access_reach.user_created access_reach.team_created) (simp_all add: ada_def)
qed

theorem an_admin_remains_witness:
  "map du_role (ac_users small_access) = [''org_admin'', ''manager''] \<and> list_ex active_admin (ac_users small_access)"
  using an_admin_remains [OF small_access_reach] by (simp add: small_access_eq ada_def mo_def)

definition suspend :: "dash_user \<Rightarrow> user_request" where
  "suspend u =
     \<lparr>ur_email = [], ur_first = du_first u, ur_last = du_last u, ur_role = du_role u, ur_job = du_job u,
      ur_password = [], ur_status = ''suspended'', ur_teams = Some []\<rparr>"

text \<open>
  two administrators who each suspend the other leave none: the check for the last
  administrator is made when the role is taken away and on deletion, not when the status is changed, and
  the second request still carries the token of an administrator.
\<close>

theorem admins_lock_out:
  assumes "ac_users s = [a, b]" "active_admin a" "active_admin b" "du_id a \<noteq> du_id b"
  shows "let t = snd (update_user hash (du_id b) (du_id a) (suspend a) (snd (update_user hash (du_id a) (du_id b) (suspend b) s)))
    in map du_status (ac_users t) = [''suspended'', ''suspended''] \<and>
       fst (update_user hash (du_id b) (du_id a) ((suspend a)\<lparr>ur_status := [], ur_role := ''analyst''\<rparr>)
         (snd (update_user hash (du_id a) (du_id b) (suspend b) s))) = Inl Last_Admin"
proof -
  have t: "trim ''suspended'' = ''suspended''" "trim ''org_admin'' = ''org_admin''" "trim ''analyst'' = ''analyst''" "trim [] = []"
    by code_simp+
  show ?thesis
    using assms t
    by (auto simp: Let_def update_user_def find_user_def refuse_update_def suspend_def active_admin_def grantable_def
        put_user_def replace_teams_def changed_user_def keep_or_def last_admin_def)
qed

theorem admins_lock_out_witness:
  "let bo = ada\<lparr>du_id := ''u3''\<rparr>; s = small_access\<lparr>ac_users := [ada, bo]\<rparr>;
       t = snd (update_user (\<lambda>p. p) ''u3'' ''u1'' (suspend ada) (snd (update_user (\<lambda>p. p) ''u1'' ''u3'' (suspend bo) s)))
   in map du_status (ac_users t) = [''suspended'', ''suspended'']"
  using admins_lock_out [of "small_access\<lparr>ac_users := [ada, ada\<lparr>du_id := ''u3''\<rparr>]\<rparr>" ada "ada\<lparr>du_id := ''u3''\<rparr>" "\<lambda>p. p"]
    ada_admin
  by (simp add: Let_def active_admin_def ada_def)

section \<open>Opening and saving a user\<close>

definition tidy :: "dash_user \<Rightarrow> bool" where
  "tidy u =
     (trim (du_first u) = du_first u \<and> trim (du_last u) = du_last u \<and> trim (du_job u) = du_job u \<and>
      du_role u \<in> set grantable \<and> du_status u \<in> set [''active'', ''inactive'', ''suspended''])"

lemma trim_words:
  "r \<in> set grantable \<Longrightarrow> trim r = r \<and> r \<noteq> []"
  "r \<in> set [''active'', ''inactive'', ''suspended''] \<Longrightarrow> trim r = r \<and> r \<noteq> []"
proof -
  have "list_all (\<lambda>r. trim r = r \<and> r \<noteq> []) (grantable @ [''active'', ''inactive'', ''suspended''])"
    by code_simp
  then show "r \<in> set grantable \<Longrightarrow> trim r = r \<and> r \<noteq> []"
    "r \<in> set [''active'', ''inactive'', ''suspended''] \<Longrightarrow> trim r = r \<and> r \<noteq> []"
    by (auto simp: list_all_iff)
qed

lemma keep_or_same: "trim x = x \<Longrightarrow> keep_or x x = x"
  by (simp add: keep_or_def)

lemma find_self: "distinct (map du_id us) \<Longrightarrow> u \<in> set us \<Longrightarrow> find (\<lambda>x. du_id x = du_id u) us = Some u"
  by (induction us) auto

lemma put_same: "distinct (map du_id us) \<Longrightarrow> u \<in> set us \<Longrightarrow> map (\<lambda>x. if du_id x = du_id u then u else x) us = us"
  by (rule map_idI) (auto dest: same_user)

lemma links_replaced:
  "teams_of (s\<lparr>ac_links := filter (\<lambda>l. fst l \<noteq> u) (ac_links s) @ map (Pair u) ts\<rparr>) v =
     (if v = u then ts else teams_of s v)"
proof (cases "v = u")
  case False
  then show ?thesis
    by (auto simp: teams_of_def intro!: arg_cong [where f = "map snd"] filter_cong)
qed (auto simp: teams_of_def filter_empty_conv o_def)

lemma remdups_back: "distinct ts \<Longrightarrow> rev (remdups (rev ts)) = ts"
  by (simp add: distinct_remdups_id)

lemma distinct_teams_of: "distinct (ac_links s) \<Longrightarrow> distinct (teams_of s u)"
  by (auto simp: teams_of_def distinct_map inj_on_def)


lemma tidy_mo: "tidy mo"
  by code_simp


text \<open>
  C22: deleting the only team of a manager leaves the manager seeing nobody, because the links of
  the users stay; opening that manager in the form and saving it unchanged then lets the
  manager see everybody.
\<close>

theorem saving_widens_manager:
  assumes "access_reach hash s" "u \<in> set (ac_users s)" "du_role u = ''manager''" "tidy u" "teams_of s (du_id u) = [t]"
    and "tm_id tm = t" "tm \<in> set (ac_teams s)" "actor \<noteq> du_id u"
  shows "sees (snd (delete_team t s)) ''manager'' (du_id u) = [] \<and>
    (let gone = snd (delete_team t s);
         saved = snd (update_user hash actor (du_id u) (user_payload True (open_user gone u)) gone)
     in sees saved ''manager'' (du_id u) = map fst (ac_people s))"
proof -
  define g where "g = snd (delete_team t s)"
  note ok = reach_users_ok [OF assms(1)]
  have d: "distinct (map du_id (ac_users s))" using ok by (simp add: users_ok_def)
  have g: "ac_users g = ac_users s" "ac_links g = ac_links s" "ac_teams g = filter (\<lambda>x. tm_id x \<noteq> t) (ac_teams s)"
    "ac_people g = map (\<lambda>p. if snd p = Some t then (fst p, None) else p) (ac_people s)"
    using assms(6,7) by (auto simp: g_def delete_team_def list_ex_iff)
  have tg: "teams_of g x = teams_of s x" for x by (simp add: teams_of_def g)
  have "sees g ''manager'' (du_id u) = []"
    by (auto simp: sees_def scope_def tg assms(5) g filter_empty_conv split: option.split)
  moreover have "fst (update_user hash actor (du_id u) (user_payload True (open_user g u)) g) = Inr u \<and>
      teams_of (snd (update_user hash actor (du_id u) (user_payload True (open_user g u)) g)) (du_id u) = [] \<and>
      ac_people (snd (update_user hash actor (du_id u) (user_payload True (open_user g u)) g)) = ac_people g"
  proof -
    let ?r = "user_payload True (open_user g u)"
    have f: "find_user (du_id u) g = Some u" using find_self [OF d assms(2)] by (simp add: find_user_def g)
    have w: "trim (du_role u) = du_role u" "trim (du_status u) = du_status u" "trim [] = []"
      "trim (du_first u) = du_first u" "trim (du_last u) = du_last u" "trim (du_job u) = du_job u"
      using assms(4) trim_words by (simp_all add: tidy_def trim_def)
    have v: "changed_user hash ?r u = u"
      by (simp add: changed_user_def user_payload_def open_user_def keep_or_same w)
    have n: "refuse_update actor ?r u g = None"
      using assms(3,4,8) w by (auto simp: refuse_update_def user_payload_def open_user_def tidy_def Let_def)
    have tr: "ur_teams ?r = Some [t]" by (simp add: user_payload_def open_user_def assms(3,5) tg)
    show ?thesis
      by (auto simp: update_user_def f n v Let_def tr replace_teams_def orelse_teams_def put_user_def g teams_of_def assms(3)
          filter_empty_conv)
  qed
  ultimately show ?thesis
    by (simp add: g_def [symmetric] Let_def sees_def scope_def g o_def if_distrib cong: if_cong)
qed

theorem saving_widens_manager_witness:
  "sees small_access ''manager'' ''u2'' = [''e1''] \<and>
   sees (snd (delete_team ''t1'' small_access)) ''manager'' ''u2'' = [] \<and>
   (let gone = snd (delete_team ''t1'' small_access);
        saved = snd (update_user (\<lambda>p. p) ''u1'' ''u2'' (user_payload True (open_user gone mo)) gone)
    in sees saved ''manager'' ''u2'' = [''e1'', ''e2''])"
proof -
  have "mo \<in> set (ac_users small_access)" "du_id mo = ''u2''" "du_role mo = ''manager''"
    "teams_of small_access ''u2'' = [''t1'']" "sees small_access ''manager'' ''u2'' = [''e1'']"
    "map fst (ac_people small_access) = [''e1'', ''e2'']"
    by (simp_all add: small_access_eq teams_of_def mo_def sees_def scope_def)
  then show ?thesis
    using saving_widens_manager [OF small_access_reach, of mo "''t1''" "hd (ac_teams small_access)" "''u1''"] tidy_mo
    by (simp add: small_access_eq)
qed

section \<open>Teams\<close>

lemma teams_ok_create:
  "teams_ok (ac_teams s) \<Longrightarrow> i \<notin> tm_id ` set (ac_teams s) \<Longrightarrow> teams_ok (ac_teams (snd (create_team i r s)))"
  by (auto simp: teams_ok_def create_team_def list_ex_iff Let_def)

lemma teams_ok_rename:
  assumes "teams_ok ts" "n \<noteq> []" "\<forall>t \<in> set ts. tm_id t \<noteq> i \<longrightarrow> tm_name t \<noteq> n"
    and "\<And>t. tm_id (f t) = tm_id t" "\<And>t. tm_name (f t) = n"
  shows "teams_ok (map (\<lambda>t. if tm_id t = i then f t else t) ts)"
  using assms by (induction ts) (auto simp: teams_ok_def image_iff split: if_splits)

lemma teams_ok_update:
  "teams_ok (ac_teams s) \<Longrightarrow> teams_ok (ac_teams (snd (update_team i r s)))"
  by (auto simp: update_team_def list_ex_iff intro!: teams_ok_rename)

lemma teams_ok_delete: "teams_ok (ac_teams s) \<Longrightarrow> teams_ok (ac_teams (snd (delete_team i s)))"
  by (auto simp: teams_ok_def delete_team_def distinct_map_filter)

text \<open>
  no two teams of an organisation ever have the same name or identifier, and none is without a name.
\<close>

theorem team_names_distinct:
  assumes "access_reach hash s"
  shows "distinct (map tm_name (ac_teams s)) \<and> distinct (map tm_id (ac_teams s)) \<and> [] \<notin> set (map tm_name (ac_teams s))"
proof -
  have "teams_ok (ac_teams s)"
    using assms
    by (induction rule: access_reach.induct)
      (simp_all add: teams_ok_create teams_ok_update teams_ok_delete teams_ok_def [of "[]"])
  then show ?thesis by (simp add: teams_ok_def)
qed

theorem team_names_distinct_witness: "distinct (map tm_name (ac_teams small_access)) \<and> map tm_name (ac_teams small_access) = [''Red'']"
  using team_names_distinct [OF small_access_reach] by (simp add: small_access_eq)

text \<open>
  removing an employee from a team whose list is out of date removes the employee from the
  team he or she has been moved to.
\<close>

theorem remove_ignores_team:
  assumes "ac_people s = [(e, Some a)]" "tm_id ta = a" "tm_id tb = b" "ta \<in> set (ac_teams s)" "tb \<in> set (ac_teams s)" "a \<noteq> b"
  shows "ac_people (snd (assign_employees b [e] False s)) = [(e, Some b)] \<and>
    ac_people (remove_employee a e (snd (assign_employees b [e] False s))) = [(e, None)]"
  using assms by (auto simp: assign_employees_def remove_employee_def list_ex_iff)

theorem remove_ignores_team_witness:
  "let s = \<lparr>ac_users = [], ac_links = [],
       ac_teams = [\<lparr>tm_id = ''a'', tm_name = ''A'', tm_description = [], tm_color = []\<rparr>,
         \<lparr>tm_id = ''b'', tm_name = ''B'', tm_description = [], tm_color = []\<rparr>],
       ac_people = [(''e'', Some ''a'')]\<rparr>
   in ac_people (remove_employee ''a'' ''e'' (snd (assign_employees ''b'' [''e''] False s))) = [(''e'', None)]"
  using remove_ignores_team [of "\<lparr>ac_users = [], ac_links = [],
       ac_teams = [\<lparr>tm_id = ''a'', tm_name = ''A'', tm_description = [], tm_color = []\<rparr>,
         \<lparr>tm_id = ''b'', tm_name = ''B'', tm_description = [], tm_color = []\<rparr>],
       ac_people = [(''e'', Some ''a'')]\<rparr>" "''e''" "''a''" "\<lparr>tm_id = ''a'', tm_name = ''A'', tm_description = [], tm_color = []\<rparr>"
       "\<lparr>tm_id = ''b'', tm_name = ''B'', tm_description = [], tm_color = []\<rparr>" "''b''"]
  by (simp add: Let_def)

text \<open>
  the dialogs that ask the API for 200 employees to put into a team, and for 500 to aim a policy at,
  get twenty: in an organisation with more, all others can be chosen nowhere in them.
\<close>

theorem pickers_offer_twenty:
  assumes "distinct people" "20 < length people"
  shows "length (assign_choices people) = 20 \<and> policy_choices people = assign_choices people \<and>
    (\<forall>e \<in> set (drop 20 people). e \<notin> set (assign_choices people) \<and> e \<notin> set (policy_choices people)) \<and>
    drop 20 people \<noteq> []"
  using assms set_take_disj_set_drop_if_distinct [OF assms(1), of 20 20]
  by (auto simp: assign_choices_def policy_choices_def first_page_def list_limit_def)

theorem pickers_offer_twenty_witness: "(20::nat) \<notin> set (assign_choices [0..<21]) \<and> length (assign_choices [0::nat..<21]) = 20"
  using pickers_offer_twenty [of "[0..<21]"] by simp

end
