(* ===== verification/Content_Editor.thy ===== *)
theory Content_Editor
  imports Cms "HOL-Library.List_Lexorder" "HOL-Library.Char_ord"
begin

text \<open>
  Writing the articles of the website: the editor of the superadmin panel
  (\<^verbatim>\<open>superadmin/src/app/dashboard/content/[kind]/[id]/page.tsx\<close>) and the handlers of the API
  (\<^verbatim>\<open>internal/handlers/content.go\<close>). A time is its date, written as text, and the seconds of the day;
  the API runs in UTC. A text is a list of bytes; the preview is the theory \<^verbatim>\<open>Markdown\<close>.
\<close>

section \<open>Posts in the API\<close>

type_synonym stamp = "string \<times> nat"

record content_post =
  cp_id :: string
  cp_kind :: string
  cp_slug :: string
  cp_title :: string
  cp_excerpt :: string
  cp_body :: string
  cp_category :: string
  cp_tags :: "string list"
  cp_author :: string
  cp_cover :: string
  cp_thumbnail :: string
  cp_seo_title :: string
  cp_seo_description :: string
  cp_featured :: bool
  cp_order :: int
  cp_status :: string
  cp_published :: "stamp option"
  cp_minutes :: nat

record content_request =
  rq_kind :: "string option"
  rq_slug :: "string option"
  rq_title :: "string option"
  rq_excerpt :: "string option"
  rq_body :: "string option"
  rq_category :: "string option"
  rq_tags :: "string list option"
  rq_author :: "string option"
  rq_cover :: "string option"
  rq_thumbnail :: "string option"
  rq_seo_title :: "string option"
  rq_seo_description :: "string option"
  rq_featured :: "bool option"
  rq_order :: "int option"
  rq_status :: "string option"
  rq_published :: "string option"

definition clip :: "nat \<Rightarrow> string \<Rightarrow> string" where
  "clip n t = take n (trim t)"

definition content_kinds :: "string list" where
  "content_kinds = [''blog'', ''guide'']"

text \<open>\<open>^[a-z0-9]+(?:-[a-z0-9]+)*$\<close>, and not longer than 120.\<close>

definition slug_ok :: "string \<Rightarrow> bool" where
  "slug_ok t = (list_all (\<lambda>p. p \<noteq> [] \<and> list_all id_char p) (split_on (CHR ''-'') t) \<and> length t \<le> 120)"

definition go_slugify :: "string \<Rightarrow> string" where
  "go_slugify t = strip_dashes (dash_runs False (to_lower (trim t)))"

text \<open>\<open>parseOptionalDateTime\<close> on what the editor sends, a date.\<close>

definition parse_when :: "(string \<Rightarrow> bool) \<Rightarrow> string \<Rightarrow> stamp option" where
  "parse_when is_date d = (if is_date d then Some (d, 0) else None)"

definition pick_text :: "string option \<Rightarrow> nat \<Rightarrow> string \<Rightarrow> string" where
  "pick_text new n old = (case new of None \<Rightarrow> old | Some t \<Rightarrow> clip n (trim t))"

definition kept_tags :: "string list \<Rightarrow> string list" where
  "kept_tags ts = take 12 (filter (\<lambda>t. t \<noteq> []) (map (clip 40) ts))"

text \<open>\<open>contentRequest.apply\<close>: a message when a value is refused, else the post.\<close>

definition texts_applied :: "content_request \<Rightarrow> content_post \<Rightarrow> content_post" where
  "texts_applied r p =
     p\<lparr>cp_title := pick_text (rq_title r) 200 (cp_title p), cp_excerpt := pick_text (rq_excerpt r) 500 (cp_excerpt p),
       cp_category := pick_text (rq_category r) 60 (cp_category p), cp_author := pick_text (rq_author r) 120 (cp_author p),
       cp_cover := pick_text (rq_cover r) 500 (cp_cover p), cp_thumbnail := pick_text (rq_thumbnail r) 500 (cp_thumbnail p),
       cp_seo_title := pick_text (rq_seo_title r) 200 (cp_seo_title p),
       cp_seo_description := pick_text (rq_seo_description r) 320 (cp_seo_description p),
       cp_body := (case rq_body r of None \<Rightarrow> cp_body p | Some b \<Rightarrow> b),
       cp_minutes := (case rq_body r of None \<Rightarrow> cp_minutes p | Some b \<Rightarrow> minutes b)\<rparr>"

definition new_slug :: "content_request \<Rightarrow> content_post \<Rightarrow> string" where
  "new_slug r p =
     (let t = (case rq_slug r of None \<Rightarrow> cp_slug p | Some t \<Rightarrow> trim (to_lower t))
      in if t = [] then strip_dashes (clip 120 (go_slugify (cp_title p))) else t)"

definition rest_applied :: "(string \<Rightarrow> bool) \<Rightarrow> stamp \<Rightarrow> content_request \<Rightarrow> content_post \<Rightarrow> content_post" where
  "rest_applied is_date now r p =
     (let status = (case rq_status r of None \<Rightarrow> cp_status p | Some t \<Rightarrow> t);
          at = (case rq_published r of None \<Rightarrow> cp_published p | Some d \<Rightarrow> if d = [] then None else parse_when is_date d)
      in p\<lparr>cp_tags := (case rq_tags r of None \<Rightarrow> cp_tags p | Some ts \<Rightarrow> kept_tags ts),
           cp_featured := (case rq_featured r of None \<Rightarrow> cp_featured p | Some b \<Rightarrow> b),
           cp_order := (case rq_order r of None \<Rightarrow> cp_order p | Some n \<Rightarrow> n),
           cp_status := status,
           cp_published := (if status = ''published'' \<and> at = None then Some now else at)\<rparr>)"

definition apply_request ::
  "(string \<Rightarrow> bool) \<Rightarrow> stamp \<Rightarrow> content_request \<Rightarrow> content_post \<Rightarrow> string + content_post" where
  "apply_request is_date now r item =
     (let p = texts_applied r item;
          q = p\<lparr>cp_kind := (case rq_kind r of None \<Rightarrow> cp_kind p | Some k \<Rightarrow> k), cp_slug := new_slug r p\<rparr>;
          f = rest_applied is_date now r q
      in if rq_kind r \<noteq> None \<and> the (rq_kind r) \<notin> set content_kinds then Inl ''Kind must be blog or guide''
         else if \<not> slug_ok (cp_slug q) then Inl ''Slug may only use lowercase letters, numbers and single hyphens''
         else if rq_status r \<noteq> None \<and> the (rq_status r) \<notin> set [''draft'', ''published'']
           then Inl ''Status must be draft or published''
         else if cp_title f = [] then Inl ''Title is required''
         else Inr f)"

definition slug_taken :: "content_post \<Rightarrow> content_post list \<Rightarrow> bool" where
  "slug_taken p ps = list_ex (\<lambda>x. cp_kind x = cp_kind p \<and> cp_slug x = cp_slug p \<and> cp_id x \<noteq> cp_id p) ps"

definition fresh_post :: "string \<Rightarrow> content_post" where
  "fresh_post i =
     \<lparr>cp_id = i, cp_kind = [], cp_slug = [], cp_title = [], cp_excerpt = [], cp_body = [], cp_category = [],
      cp_tags = [], cp_author = [], cp_cover = [], cp_thumbnail = [], cp_seo_title = [], cp_seo_description = [],
      cp_featured = False, cp_order = 0, cp_status = ''draft'', cp_published = None, cp_minutes = 0\<rparr>"

definition taken_message :: string where
  "taken_message = ''Another post already uses this slug''"

definition create_post ::
  "(string \<Rightarrow> bool) \<Rightarrow> stamp \<Rightarrow> string \<Rightarrow> content_request \<Rightarrow> content_post list \<Rightarrow> (string + content_post) \<times> content_post list" where
  "create_post is_date now i r ps =
     (if rq_kind r = None then (Inl ''Kind is required'', ps)
      else
        (case apply_request is_date now r (fresh_post i) of
           Inl why \<Rightarrow> (Inl why, ps)
         | Inr p \<Rightarrow> if slug_taken p ps then (Inl taken_message, ps) else (Inr p, ps @ [p])))"

definition update_post ::
  "(string \<Rightarrow> bool) \<Rightarrow> stamp \<Rightarrow> string \<Rightarrow> content_request \<Rightarrow> content_post list \<Rightarrow> (string + content_post) \<times> content_post list" where
  "update_post is_date now i r ps =
     (case find (\<lambda>p. cp_id p = i) ps of
        None \<Rightarrow> (Inl ''Post not found'', ps)
      | Some item \<Rightarrow>
          (case apply_request is_date now r item of
             Inl why \<Rightarrow> (Inl why, ps)
           | Inr p \<Rightarrow>
               if slug_taken p ps then (Inl taken_message, ps)
               else (Inr p, map (\<lambda>x. if cp_id x = i then p else x) ps)))"

definition delete_post :: "string \<Rightarrow> content_post list \<Rightarrow> content_post list" where
  "delete_post i ps = filter (\<lambda>p. cp_id p \<noteq> i) ps"

text \<open>What the website reads of the blog: published posts, newest first. The clock never runs backwards.\<close>

definition stamp_before :: "stamp \<Rightarrow> stamp \<Rightarrow> bool" where
  "stamp_before a b = (fst a < fst b \<or> fst a = fst b \<and> snd a < snd b)"

definition newest_post :: "content_post \<Rightarrow> content_post \<Rightarrow> int" where
  "newest_post p q =
     (case (cp_published p, cp_published q) of
        (Some a, Some b) \<Rightarrow> if stamp_before b a then - 1 else if a = b then 0 else 1
      | (None, None) \<Rightarrow> 0
      | (None, _) \<Rightarrow> - 1
      | (_, None) \<Rightarrow> 1)"

definition public_blog :: "content_post list \<Rightarrow> content_post list" where
  "public_blog ps =
     take 500 (sort_by newest_post (filter (\<lambda>p. cp_status p = ''published'' \<and> cp_kind p = ''blog'') ps))"

definition public_get :: "string \<Rightarrow> string \<Rightarrow> content_post list \<Rightarrow> content_post option" where
  "public_get kind t ps = find (\<lambda>p. cp_status p = ''published'' \<and> cp_kind p = kind \<and> cp_slug p = t) ps"

section \<open>The editor\<close>

record content_form =
  cf_title :: string
  cf_slug :: string
  cf_excerpt :: string
  cf_body :: string
  cf_category :: string
  cf_tags :: string
  cf_author :: string
  cf_cover :: string
  cf_thumbnail :: string
  cf_seo_title :: string
  cf_seo_description :: string
  cf_featured :: bool
  cf_order :: int
  cf_published :: string

definition empty_content :: content_form where
  "empty_content =
     \<lparr>cf_title = [], cf_slug = [], cf_excerpt = [], cf_body = [], cf_category = [], cf_tags = [],
      cf_author = ''Aavishield team'', cf_cover = [], cf_thumbnail = [], cf_seo_title = [],
      cf_seo_description = [], cf_featured = False, cf_order = 0, cf_published = []\<rparr>"

definition js_slugify :: "string \<Rightarrow> string" where
  "js_slugify t = take 120 (strip_dashes (dash_runs False (to_lower t)))"

text \<open>\<open>.toLowerCase().replace(/[^a-z0-9-]/g, "-")\<close>, on the field of the slug.\<close>

definition typed_slug :: "string \<Rightarrow> string" where
  "typed_slug t = map (\<lambda>c. if id_char c \<or> c = CHR ''-'' then c else CHR ''-'') (to_lower t)"

definition open_post :: "content_post \<Rightarrow> content_form" where
  "open_post p =
     \<lparr>cf_title = cp_title p, cf_slug = cp_slug p, cf_excerpt = cp_excerpt p, cf_body = cp_body p,
      cf_category = cp_category p, cf_tags = join '', '' (cp_tags p), cf_author = cp_author p,
      cf_cover = cp_cover p, cf_thumbnail = cp_thumbnail p, cf_seo_title = cp_seo_title p,
      cf_seo_description = cp_seo_description p, cf_featured = cp_featured p, cf_order = cp_order p,
      cf_published = (case cp_published p of None \<Rightarrow> [] | Some at \<Rightarrow> fst at)\<rparr>"

definition content_payload :: "string \<Rightarrow> string \<Rightarrow> content_form \<Rightarrow> content_request" where
  "content_payload kind status f =
     \<lparr>rq_kind = Some kind, rq_slug = Some (cf_slug f), rq_title = Some (cf_title f),
      rq_excerpt = Some (cf_excerpt f), rq_body = Some (cf_body f), rq_category = Some (cf_category f),
      rq_tags = Some (filter (\<lambda>t. t \<noteq> []) (map trim (split_on (CHR '','') (cf_tags f)))),
      rq_author = Some (cf_author f), rq_cover = Some (cf_cover f), rq_thumbnail = Some (cf_thumbnail f),
      rq_seo_title = Some (cf_seo_title f), rq_seo_description = Some (cf_seo_description f),
      rq_featured = Some (cf_featured f), rq_order = Some (cf_order f), rq_status = Some status,
      rq_published = (if cf_published f = [] then None else Some (cf_published f))\<rparr>"

record content_editor =
  ce_form :: content_form
  ce_touched :: bool
  ce_dirty :: bool
  ce_saving :: bool
  ce_post :: "content_post option"
  ce_sent :: "content_request list"

text \<open>
  \<open>Shown\<close> is an answer about the post, the first one or a later one; the effect runs when it differs from
  the one before. \<open>Saved_Post\<close> puts its answer into the cache of queries, so that it is shown too; it has a new time of change.
\<close>

datatype content_event =
    Type_Title string
  | Type_Slug string
  | Type_Body string
  | Type_Rest content_form
  | Save_As string
  | Saved_Post content_post
  | Save_Fails
  | Shown content_post

definition show_post :: "content_post \<Rightarrow> content_editor \<Rightarrow> content_editor" where
  "show_post p s =
     (if ce_post s = Some p then s else s\<lparr>ce_post := Some p, ce_form := open_post p, ce_dirty := False\<rparr>)"

fun content_step :: "string \<Rightarrow> content_event \<Rightarrow> content_editor \<Rightarrow> content_editor" where
  "content_step kind (Type_Title t) s =
     s\<lparr>ce_dirty := True,
       ce_form := (ce_form s)\<lparr>cf_title := t, cf_slug := (if ce_touched s then cf_slug (ce_form s) else js_slugify t)\<rparr>\<rparr>"
| "content_step kind (Type_Slug t) s =
     s\<lparr>ce_dirty := True, ce_touched := True, ce_form := (ce_form s)\<lparr>cf_slug := typed_slug t\<rparr>\<rparr>"
| "content_step kind (Type_Body t) s = s\<lparr>ce_dirty := True, ce_form := (ce_form s)\<lparr>cf_body := t\<rparr>\<rparr>"
| "content_step kind (Type_Rest f) s =
     s\<lparr>ce_dirty := True,
       ce_form := f\<lparr>cf_title := cf_title (ce_form s), cf_slug := cf_slug (ce_form s), cf_body := cf_body (ce_form s)\<rparr>\<rparr>"
| "content_step kind (Save_As status) s =
     (if ce_saving s then s
      else s\<lparr>ce_saving := True, ce_sent := ce_sent s @ [content_payload kind status (ce_form s)]\<rparr>)"
| "content_step kind (Saved_Post p) s =
     (if ce_saving s
      then s\<lparr>ce_saving := False, ce_post := Some p, ce_form := open_post p, ce_dirty := False\<rparr> else s)"
| "content_step kind Save_Fails s = s\<lparr>ce_saving := False\<rparr>"
| "content_step kind (Shown p) s = show_post p s"

definition content_run :: "string \<Rightarrow> content_event list \<Rightarrow> content_editor \<Rightarrow> content_editor" where
  "content_run kind es s = foldl (\<lambda>s e. content_step kind e s) s es"

section \<open>What the store keeps\<close>

inductive posts_reach :: "(string \<Rightarrow> bool) \<Rightarrow> content_post list \<Rightarrow> bool" for is_date where
  no_posts: "posts_reach is_date []"
| post_created: "posts_reach is_date ps \<Longrightarrow> i \<notin> cp_id ` set ps \<Longrightarrow>
    posts_reach is_date (snd (create_post is_date now i r ps))"
| post_updated: "posts_reach is_date ps \<Longrightarrow> posts_reach is_date (snd (update_post is_date now i r ps))"
| post_deleted: "posts_reach is_date ps \<Longrightarrow> posts_reach is_date (delete_post i ps)"

definition post_ok :: "content_post \<Rightarrow> bool" where
  "post_ok p =
     (cp_kind p \<in> set content_kinds \<and> slug_ok (cp_slug p) \<and> cp_title p \<noteq> [] \<and>
      cp_status p \<in> set [''draft'', ''published''] \<and> (cp_status p = ''published'' \<longrightarrow> cp_published p \<noteq> None) \<and>
      length (cp_title p) \<le> 200)"

definition place :: "content_post \<Rightarrow> string \<times> string" where
  "place p = (cp_kind p, cp_slug p)"

definition store_ok :: "content_post list \<Rightarrow> bool" where
  "store_ok ps = (distinct (map cp_id ps) \<and> distinct (map place ps) \<and> list_all post_ok ps)"

lemma pick_text_length: "length old \<le> n \<Longrightarrow> length (pick_text new n old) \<le> n"
  by (simp add: pick_text_def clip_def split: option.split)

lemma rest_applied_simps [simp]:
  "cp_id (rest_applied is_date now r p) = cp_id p" "cp_kind (rest_applied is_date now r p) = cp_kind p"
  "cp_slug (rest_applied is_date now r p) = cp_slug p" "cp_title (rest_applied is_date now r p) = cp_title p"
  "cp_status (rest_applied is_date now r p) = (case rq_status r of None \<Rightarrow> cp_status p | Some t \<Rightarrow> t)"
  by (simp_all add: rest_applied_def Let_def)

lemma texts_applied_simps [simp]:
  "cp_id (texts_applied r p) = cp_id p" "cp_kind (texts_applied r p) = cp_kind p"
  "cp_slug (texts_applied r p) = cp_slug p" "cp_status (texts_applied r p) = cp_status p"
  "cp_title (texts_applied r p) = pick_text (rq_title r) 200 (cp_title p)"
  by (simp_all add: texts_applied_def)

lemma published_has_date:
  "cp_status (rest_applied is_date now r p) = ''published'' \<Longrightarrow> cp_published (rest_applied is_date now r p) \<noteq> None"
  by (simp add: rest_applied_def Let_def)

lemma apply_InrD:
  assumes "apply_request is_date now r p = Inr q"
  shows "cp_id q = cp_id p" "cp_kind q = (case rq_kind r of None \<Rightarrow> cp_kind p | Some k \<Rightarrow> k)"
    "rq_kind r = None \<or> the (rq_kind r) \<in> set content_kinds" "slug_ok (cp_slug q)"
    "rq_status r = None \<or> the (rq_status r) \<in> set [''draft'', ''published'']"
    "cp_status q = (case rq_status r of None \<Rightarrow> cp_status p | Some t \<Rightarrow> t)"
    "cp_title q \<noteq> []" "cp_title q = pick_text (rq_title r) 200 (cp_title p)"
    "cp_status q = ''published'' \<longrightarrow> cp_published q \<noteq> None"
proof -
  define x where "x = (texts_applied r p)\<lparr>cp_kind := (case rq_kind r of None \<Rightarrow> cp_kind (texts_applied r p) | Some k \<Rightarrow> k),
      cp_slug := new_slug r (texts_applied r p)\<rparr>"
  have x: "cp_id x = cp_id p" "cp_kind x = (case rq_kind r of None \<Rightarrow> cp_kind p | Some k \<Rightarrow> k)"
    "cp_status x = cp_status p" "cp_title x = pick_text (rq_title r) 200 (cp_title p)"
    by (simp_all add: x_def split: option.split)
  have a: "q = rest_applied is_date now r x" "rq_kind r = None \<or> the (rq_kind r) \<in> set content_kinds" "slug_ok (cp_slug x)"
    "rq_status r = None \<or> the (rq_status r) \<in> set [''draft'', ''published'']" "cp_title x \<noteq> []"
    using assms unfolding apply_request_def Let_def x_def by (auto split: if_split_asm)
  show "cp_id q = cp_id p" "cp_kind q = (case rq_kind r of None \<Rightarrow> cp_kind p | Some k \<Rightarrow> k)"
    "rq_kind r = None \<or> the (rq_kind r) \<in> set content_kinds" "slug_ok (cp_slug q)"
    "rq_status r = None \<or> the (rq_status r) \<in> set [''draft'', ''published'']"
    "cp_status q = (case rq_status r of None \<Rightarrow> cp_status p | Some t \<Rightarrow> t)"
    "cp_title q \<noteq> []" "cp_title q = pick_text (rq_title r) 200 (cp_title p)"
    using a x by (simp_all split: option.split)
  show "cp_status q = ''published'' \<longrightarrow> cp_published q \<noteq> None"
    unfolding a(1) using published_has_date by blast
qed

lemma apply_ok:
  assumes "apply_request is_date now r p = Inr q"
    and "rq_kind r \<noteq> None \<or> cp_kind p \<in> set content_kinds" "cp_status p \<in> set [''draft'', ''published'']"
    and "length (cp_title p) \<le> 200"
  shows "post_ok q"
  using apply_InrD [OF assms(1)] assms(2-) pick_text_length [of "cp_title p" 200 "rq_title r"]
  unfolding post_ok_def by (cases "rq_kind r"; cases "rq_status r") simp_all

lemma not_taken:
  "\<not> slug_taken p ps \<Longrightarrow> x \<in> set ps \<Longrightarrow> cp_id x \<noteq> cp_id p \<Longrightarrow> place x \<noteq> place p"
  by (auto simp: slug_taken_def place_def list_ex_iff)

lemma store_ok_add:
  assumes "store_ok ps" "post_ok p" "cp_id p \<notin> cp_id ` set ps" "\<not> slug_taken p ps"
  shows "store_ok (ps @ [p])"
proof -
  have "place p \<notin> place ` set ps"
  proof
    assume "place p \<in> place ` set ps"
    then obtain x where x: "x \<in> set ps" "place p = place x" by blast
    then have "cp_id x \<noteq> cp_id p" using assms(3) by (auto simp: image_iff)
    then show False using not_taken [OF assms(4) x(1)] x(2) by simp
  qed
  then show ?thesis using assms by (simp add: store_ok_def)
qed

lemma distinct_put:
  assumes "distinct (map f xs)" "distinct (map k xs)" "\<forall>x \<in> set xs. k x \<noteq> k p \<longrightarrow> f p \<noteq> f x"
  shows "distinct (map f (map (\<lambda>x. if k x = k p then p else x) xs))"
  using assms
proof (induction xs)
  case (Cons a xs)
  have IH: "distinct (map f (map (\<lambda>x. if k x = k p then p else x) xs))"
    using Cons by simp
  have d: "k a \<notin> k ` set xs" "f a \<notin> f ` set xs" "\<forall>x \<in> set (a # xs). k x \<noteq> k p \<longrightarrow> f p \<noteq> f x"
    using Cons.prems by simp_all
  show ?case
  proof (cases "k a = k p")
    case True
    then have "\<forall>x \<in> set xs. k x \<noteq> k p" using d(1) by (auto simp: image_iff)
    then have "map (\<lambda>x. if k x = k p then p else x) xs = xs" "f p \<notin> f ` set xs"
      using d(3) by (auto intro: map_idI)
    then show ?thesis using True IH by simp
  next
    case False
    have "f a \<noteq> f (if k x = k p then p else x)" if "x \<in> set xs" for x
      using d(2,3) False that by (cases "k x = k p") (auto simp: image_iff)
    then show ?thesis using False IH by auto
  qed
qed simp

lemma store_ok_put:
  assumes "store_ok ps" "post_ok p" "cp_id p = i" "\<not> slug_taken p ps"
  shows "store_ok (map (\<lambda>x. if cp_id x = i then p else x) ps)"
proof -
  have "\<forall>x \<in> set ps. cp_id x \<noteq> cp_id p \<longrightarrow> place p \<noteq> place x"
    using not_taken [OF assms(4)] by metis
  then have "distinct (map place (map (\<lambda>x. if cp_id x = i then p else x) ps))"
    "distinct (map cp_id (map (\<lambda>x. if cp_id x = i then p else x) ps))"
    using assms(1,3) distinct_put [of place ps cp_id p] distinct_put [of cp_id ps cp_id p]
    by (auto simp: store_ok_def)
  then show ?thesis using assms(1,2) by (auto simp: store_ok_def list_all_iff)
qed

lemma find_post: "find (\<lambda>p. cp_id p = i) ps = Some p \<Longrightarrow> p \<in> set ps \<and> cp_id p = i"
  by (auto simp: find_Some_iff)

lemma reach_store_ok: "posts_reach is_date ps \<Longrightarrow> store_ok ps"
proof (induction rule: posts_reach.induct)
  case (post_created ps i now r)
  show ?case
  proof (cases "apply_request is_date now r (fresh_post i)")
    case (Inr p)
    have "cp_id p = i" using apply_InrD(1) [OF Inr] by (simp add: fresh_post_def)
    moreover have "post_ok p" if "rq_kind r \<noteq> None"
      using that by (intro apply_ok [OF Inr]) (simp_all add: fresh_post_def)
    ultimately show ?thesis
      using post_created by (auto simp: create_post_def Inr intro: store_ok_add)
  qed (use post_created in \<open>simp add: create_post_def\<close>)
next
  case (post_updated ps now i r)
  show ?case
  proof (cases "find (\<lambda>p. cp_id p = i) ps")
    case (Some item)
    show ?thesis
    proof (cases "apply_request is_date now r item")
      case (Inr p)
      have item: "post_ok item" "cp_id item = i"
        using find_post [OF Some] post_updated.IH by (auto simp: store_ok_def list_all_iff)
      then have "post_ok p" by (intro apply_ok [OF Inr]) (auto simp: post_ok_def)
      moreover have "cp_id p = i" using apply_InrD(1) [OF Inr] item by simp
      ultimately show ?thesis
        using post_updated.IH by (auto simp: update_post_def Some Inr intro: store_ok_put)
    qed (use post_updated Some in \<open>simp add: update_post_def\<close>)
  qed (use post_updated in \<open>simp add: update_post_def\<close>)
next
  case (post_deleted ps i)
  then show ?case
    by (auto simp: delete_post_def store_ok_def distinct_map_filter list_all_iff)
qed (simp add: store_ok_def)

text \<open>
  C31: whatever is created, changed and deleted, no two articles of a kind have the same address, each address
  is made of lower-case words and single hyphens, every article has a title, and a published one
  has its date. So the address of an article finds this article.
\<close>

theorem addresses_distinct:
  assumes "posts_reach is_date ps"
  shows "distinct (map place ps) \<and> list_all post_ok ps \<and>
    (\<forall>p \<in> set ps. cp_status p = ''published'' \<longrightarrow> public_get (cp_kind p) (cp_slug p) ps = Some p)"
proof -
  have ok: "distinct (map place ps)" "list_all post_ok ps"
    using reach_store_ok [OF assms] by (simp_all add: store_ok_def)
  have "public_get (cp_kind p) (cp_slug p) ps = Some p" if "p \<in> set ps" "cp_status p = ''published''" for p
    using that ok(1) unfolding public_get_def
    by (induction ps) (auto simp: place_def image_iff)
  then show ?thesis using ok by blast
qed

definition note_request :: content_request where
  "note_request = content_payload ''blog'' ''published''
     (empty_content\<lparr>cf_title := ''A note'', cf_slug := ''a-note'', cf_tags := ''dlp, ai'', cf_published := ''2026-05-01''\<rparr>)"

definition some_date :: "string \<Rightarrow> bool" where
  "some_date d = (length d = 10)"

definition note_store :: "content_post list" where
  "note_store = snd (create_post some_date (''2026-05-01'', 36000) ''p1'' note_request [])"

lemma note_store_eq:
  "note_store =
     [\<lparr>cp_id = ''p1'', cp_kind = ''blog'', cp_slug = ''a-note'', cp_title = ''A note'', cp_excerpt = [], cp_body = [],
       cp_category = [], cp_tags = [''dlp'', ''ai''], cp_author = ''Aavishield team'', cp_cover = [], cp_thumbnail = [],
       cp_seo_title = [], cp_seo_description = [], cp_featured = False, cp_order = 0, cp_status = ''published'',
       cp_published = Some (''2026-05-01'', 0), cp_minutes = 1\<rparr>]"
  by code_simp

lemma note_store_reach: "posts_reach some_date note_store"
  unfolding note_store_def by (intro posts_reach.intros) simp

theorem addresses_distinct_witness:
  "public_get ''blog'' ''a-note'' note_store = Some (hd note_store) \<and> map place note_store = [(''blog'', ''a-note'')]"
  using addresses_distinct [OF note_store_reach] by (simp add: note_store_eq place_def)

section \<open>Opening and saving\<close>

definition tidy_text :: "nat \<Rightarrow> string \<Rightarrow> bool" where
  "tidy_text n t = (trim t = t \<and> length t \<le> n)"

text \<open>An article as the editor writes it: its texts have no blanks around them, its tags no commas.\<close>

definition tidy_post :: "content_post \<Rightarrow> bool" where
  "tidy_post p =
     (tidy_text 200 (cp_title p) \<and> tidy_text 500 (cp_excerpt p) \<and> tidy_text 60 (cp_category p) \<and>
      tidy_text 120 (cp_author p) \<and> tidy_text 500 (cp_cover p) \<and> tidy_text 500 (cp_thumbnail p) \<and>
      tidy_text 200 (cp_seo_title p) \<and> tidy_text 320 (cp_seo_description p) \<and>
      list_all (\<lambda>t. tidy_text 40 t \<and> t \<noteq> [] \<and> CHR '','' \<notin> set t) (cp_tags p) \<and> length (cp_tags p) \<le> 12)"

lemma pick_text_tidy: "tidy_text n t \<Longrightarrow> pick_text (Some t) n old = t"
  by (simp add: pick_text_def clip_def tidy_text_def)

lemma set_join: "set (join sep xs) \<subseteq> set sep \<union> (\<Union>x \<in> set xs. set x)"
  by (induction sep xs rule: join.induct) auto

lemma slug_chars:
  assumes "slug_ok t" "c \<in> set t"
  shows "id_char c \<or> c = CHR ''-''"
proof -
  have "set t \<subseteq> {CHR ''-''} \<union> (\<Union>x \<in> set (split_on (CHR ''-'') t). set x)"
    using set_join [of "[CHR ''-'']" "split_on (CHR ''-'') t"] by (simp add: join_split_on)
  then show ?thesis using assms by (auto simp: slug_ok_def list_all_iff)
qed

lemma id_chars_plain:
  assumes "id_char c \<or> c = CHR ''-''"
  shows "lower_char c = c" "\<not> is_ws c"
proof -
  have l: "list_all (\<lambda>c. lower_char c = c \<and> \<not> is_ws c) ''abcdefghijklmnopqrstuvwxyz0123456789-''"
    by code_simp
  have m: "c \<in> set ''abcdefghijklmnopqrstuvwxyz0123456789-''"
    using assms by (auto simp: id_char_def)
  show "lower_char c = c" "\<not> is_ws c"
    using bspec [OF l [unfolded list_all_iff] m] by blast+
qed

lemma slug_plain: "slug_ok t \<Longrightarrow> trim (to_lower t) = t"
proof -
  assume t: "slug_ok t"
  have "to_lower t = t"
    unfolding to_lower_def by (rule map_idI) (auto dest: slug_chars [OF t] intro: id_chars_plain)
  moreover have "trim t = t" using slug_chars [OF t] id_chars_plain(2) by (intro trim_id) blast
  ultimately show ?thesis by simp
qed

lemma split_joined_tags:
  "xs \<noteq> [] \<Longrightarrow> \<forall>t \<in> set xs. CHR '','' \<notin> set t \<Longrightarrow>
     split_on (CHR '','') (join '', '' xs) = hd xs # map ((#) (CHR '' '')) (tl xs)"
proof (induction xs)
  case more: (Cons x xs)
  show ?case
  proof (cases xs)
    case Nil
    then show ?thesis using more.prems by (simp add: split_on_no_sep)
  next
    case (Cons y ys)
    then have "split_on (CHR '','') (join '', '' xs) = y # map ((#) (CHR '' '')) ys"
      using more.IH more.prems by simp
    then show ?thesis
      using Cons more.prems by (simp add: split_on_append_sep)
  qed
qed simp

lemma tags_kept:
  assumes "list_all (\<lambda>t. tidy_text 40 t \<and> t \<noteq> [] \<and> CHR '','' \<notin> set t) ts" "length ts \<le> 12"
  shows "kept_tags (filter (\<lambda>t. t \<noteq> []) (map trim (split_on (CHR '','') (join '', '' ts)))) = ts"
proof -
  have "filter (\<lambda>t. t \<noteq> []) (map trim (split_on (CHR '','') (join '', '' ts))) = ts"
  proof (cases "ts = []")
    case False
    have b: "trim (CHR '' '' # t) = trim t" for t by (simp add: trim_def is_ws_def)
    have "map trim (split_on (CHR '','') (join '', '' ts)) = map trim ts"
      using split_joined_tags [OF False] assms(1) False by (cases ts) (auto simp: list_all_iff b)
    also have "\<dots> = ts" using assms(1) by (intro map_idI) (auto simp: list_all_iff tidy_text_def)
    finally show ?thesis using assms(1) by (auto simp: list_all_iff filter_id_conv)
  qed (simp add: trim_def)
  moreover have "map (clip 40) ts = ts"
    using assms(1) by (intro map_idI) (auto simp: list_all_iff tidy_text_def clip_def)
  ultimately show ?thesis
    using assms by (auto simp: kept_tags_def list_all_iff filter_id_conv)
qed

text \<open>
  an article that is opened in the editor and saved as it is keeps everything, except that its time of
  publication becomes the midnight before.
\<close>

theorem article_edit_keeps:
  assumes "posts_reach is_date ps" "p \<in> set ps" "tidy_post p" "cp_minutes p = minutes (cp_body p)"
    and "\<forall>at. cp_published p = Some at \<longrightarrow> is_date (fst at) \<and> fst at \<noteq> []"
  shows "fst (update_post is_date now (cp_id p) (content_payload (cp_kind p) (cp_status p) (open_post p)) ps) =
    Inr (p\<lparr>cp_published := map_option (\<lambda>at. (fst at, 0)) (cp_published p)\<rparr>)"
proof -
  let ?r = "content_payload (cp_kind p) (cp_status p) (open_post p)"
  let ?q = "p\<lparr>cp_published := map_option (\<lambda>at. (fst at, 0)) (cp_published p)\<rparr>"
  have ok: "post_ok p" "distinct (map cp_id ps)" "distinct (map place ps)"
    using reach_store_ok [OF assms(1)] assms(2) by (auto simp: store_ok_def list_all_iff)
  have f: "find (\<lambda>x. cp_id x = cp_id p) ps = Some p"
    using ok(2) assms(2) by (induction ps) auto
  have t: "texts_applied ?r p = p"
    using assms(3,4) by (cases p) (simp add: texts_applied_def content_payload_def open_post_def tidy_post_def pick_text_tidy)
  have slug: "new_slug ?r p = cp_slug p"
    using slug_plain ok(1) by (simp add: new_slug_def content_payload_def open_post_def post_ok_def Let_def)
      (auto simp: slug_ok_def)
  have rest: "rest_applied is_date now ?r p = ?q"
    using assms(3,5) ok(1) tags_kept [of "cp_tags p"]
    by (cases p; cases "cp_published p")
      (auto simp: rest_applied_def content_payload_def open_post_def tidy_post_def post_ok_def parse_when_def Let_def)
  have sent: "rq_kind ?r = Some (cp_kind p)" "rq_status ?r = Some (cp_status p)"
    by (simp_all add: content_payload_def)
  have same: "p\<lparr>cp_kind := cp_kind p, cp_slug := cp_slug p\<rparr> = p" by (cases p) simp
  have "apply_request is_date now ?r p = Inr ?q"
    using ok(1) by (simp add: apply_request_def Let_def t slug sent same rest post_ok_def)
  moreover have "\<not> slug_taken ?q ps"
    using ok(3) assms(2) by (auto simp: slug_taken_def list_ex_iff place_def distinct_map inj_on_def)
  ultimately show ?thesis by (simp add: update_post_def f)
qed

theorem article_edit_keeps_witness:
  "fst (update_post some_date (''2026-06-01'', 0) ''p1'' (content_payload ''blog'' ''published'' (open_post (hd note_store))) note_store) =
     Inr (hd note_store)"
proof -
  have "tidy_post (hd note_store)" unfolding note_store_eq by code_simp
  moreover have "cp_minutes (hd note_store) = minutes (cp_body (hd note_store))" unfolding note_store_eq by code_simp
  moreover have "hd note_store \<in> set note_store" "cp_id (hd note_store) = ''p1''" "cp_kind (hd note_store) = ''blog''"
    "cp_status (hd note_store) = ''published''" "cp_published (hd note_store) = Some (''2026-05-01'', 0)"
    "(hd note_store)\<lparr>cp_published := Some (''2026-05-01'', 0)\<rparr> = hd note_store"
    by (simp_all add: note_store_eq)
  ultimately show ?thesis
    using article_edit_keeps [OF note_store_reach, of "hd note_store" "(''2026-06-01'', 0)"] by (simp add: some_date_def)
qed

text \<open>
  of two blog posts that were published on one day, saving the newer one unchanged moves it
  behind the older one, although the date of a post is meant to be kept through edits.
\<close>

theorem edit_reorders_blog:
  assumes "post_ok p" "post_ok q" "cp_kind p = ''blog''" "cp_kind q = ''blog''" "cp_status p = ''published''" "cp_status q = ''published''"
    and "cp_published p = Some (d, n)" "cp_published q = Some (d, m)" "0 < m" "m < n"
  shows "public_blog [p, q] = [p, q] \<and>
    public_blog [p\<lparr>cp_published := map_option (\<lambda>at. (fst at, 0)) (cp_published p)\<rparr>, q] =
      [q, p\<lparr>cp_published := Some (d, 0)\<rparr>]"
  using assms by (simp add: public_blog_def newest_post_def stamp_before_def)

theorem edit_reorders_blog_witness:
  "let p = (hd note_store)\<lparr>cp_published := Some (''2026-05-01'', 50000)\<rparr>;
       q = (hd note_store)\<lparr>cp_slug := ''b'', cp_published := Some (''2026-05-01'', 40000)\<rparr>
   in map cp_slug (public_blog [p, q]) = [''a-note'', ''b''] \<and>
      map cp_slug (public_blog [p\<lparr>cp_published := map_option (\<lambda>at. (fst at, 0)) (cp_published p)\<rparr>, q]) = [''b'', ''a-note'']"
proof -
  let ?p = "(hd note_store)\<lparr>cp_published := Some (''2026-05-01'', 50000)\<rparr>"
  let ?q = "(hd note_store)\<lparr>cp_slug := ''b'', cp_published := Some (''2026-05-01'', 40000)\<rparr>"
  have n: "post_ok (hd note_store)"
    using reach_store_ok [OF note_store_reach] by (simp add: store_ok_def note_store_eq)
  have "slug_ok ''b''" by code_simp
  then have ok: "post_ok ?p" "post_ok ?q" using n by (simp_all add: post_ok_def)
  have "public_blog [?p, ?q] = [?p, ?q] \<and>
      public_blog [?p\<lparr>cp_published := map_option (\<lambda>at. (fst at, 0)) (cp_published ?p)\<rparr>, ?q] =
        [?q, ?p\<lparr>cp_published := Some (''2026-05-01'', 0)\<rparr>]"
    by (rule edit_reorders_blog [OF ok, where d = "''2026-05-01''" and m = 40000 and n = 50000]) (simp_all add: note_store_eq)
  then show ?thesis by (simp add: note_store_eq)
qed

lemma trim_ends:
  assumes "s \<noteq> []" "\<not> is_ws (hd s)" "\<not> is_ws (last s)"
  shows "trim s = s"
proof -
  have "dropWhile is_ws s = s" "dropWhile is_ws (rev s) = rev s"
    using assms by (simp_all add: dropWhile_eq_self_iff hd_rev)
  then show ?thesis by (simp add: trim_def)
qed

lemma strip_ends:
  assumes "s \<noteq> []" "hd s \<noteq> CHR ''-''" "last s \<noteq> CHR ''-''"
  shows "strip_dashes s = s" "strip_dashes (s @ ''-'') = s"
proof -
  have d: "dropWhile (\<lambda>c. c = CHR ''-'') s = s" "dropWhile (\<lambda>c. c = CHR ''-'') (rev s) = rev s"
    using assms by (simp_all add: dropWhile_eq_self_iff hd_rev)
  have "dropWhile (\<lambda>c. c = CHR ''-'') (s @ ''-'') = s @ ''-''"
    using assms by (cases s) simp_all
  then show "strip_dashes s = s" "strip_dashes (s @ ''-'') = s"
    using d by (simp_all add: strip_dashes_def)
qed

lemma id_not_dash: "id_char c \<Longrightarrow> c \<noteq> CHR ''-''"
  by (auto simp: id_char_def)

lemma dash_runs_word: "\<forall>c \<in> set w. id_char c \<Longrightarrow> dash_runs False (w @ t) = w @ dash_runs False t"
  by (induction w) auto

lemma word_split: "\<forall>c \<in> set w. id_char c \<Longrightarrow> split_on (CHR ''-'') (w @ ''-'') = [w, []]"
  using id_not_dash by (subst split_on_append_sep) auto

text \<open>
  for a title of 119 letters with another word behind, the editor suggests an address that the API refuses: it
  cuts after it has taken the hyphens off, the API the other way round.
\<close>

theorem suggested_address_refused:
  assumes "\<forall>c \<in> set w. id_char c" "length w = 119" "id_char x"
  shows "js_slugify (w @ '' '' @ [x]) = w @ ''-'' \<and> \<not> slug_ok (w @ ''-'') \<and>
    strip_dashes (clip 120 (go_slugify (w @ '' '' @ [x]))) = w"
proof -
  define title where "title = w @ '' '' @ [x]"
  define long where "long = w @ ''-'' @ [x]"
  have w: "w \<noteq> []" using assms(2) by auto
  have c: "id_char (hd w)" "id_char (last w)" using assms(1) w by simp_all
  then have h: "hd w \<noteq> CHR ''-''" "last w \<noteq> CHR ''-''" "x \<noteq> CHR ''-''" using assms(3) id_not_dash by blast+
  have space: "\<not> id_char (CHR '' '')" by (simp add: id_char_def)
  have blank: "lower_char (CHR '' '') = CHR '' ''" by code_simp
  have "lower_char y = y" if "y \<in> set title" for y
  proof -
    have "y \<in> set w \<or> y = CHR '' '' \<or> y = x" using that by (auto simp: title_def)
    then have "id_char y \<or> y = CHR '' ''" using assms(1,3) by blast
    then show ?thesis using blank id_chars_plain(1) by blast
  qed
  then have lower: "to_lower title = title" unfolding to_lower_def by (intro map_idI)
  have runs: "dash_runs False title = long"
    using dash_runs_word [OF assms(1), of "'' '' @ [x]"] space assms(3) by (simp add: title_def long_def)
  have strip: "strip_dashes long = long" "strip_dashes (w @ ''-'') = w"
    using strip_ends [of long] strip_ends [of w] w h by (simp_all add: long_def)
  have tr: "trim title = title" "trim long = long"
    using trim_ends [of title] trim_ends [of long] w c assms(3) id_chars_plain(2) by (simp_all add: title_def long_def)
  have cut: "take 120 long = w @ ''-''" using assms(2) by (simp add: long_def)
  have "js_slugify title = w @ ''-''" by (simp add: js_slugify_def lower runs strip cut)
  moreover have "strip_dashes (clip 120 (go_slugify title)) = w"
    by (simp add: go_slugify_def clip_def lower runs strip tr cut)
  moreover have "\<not> slug_ok (w @ ''-'')" using word_split [OF assms(1)] by (simp add: slug_ok_def)
  ultimately show ?thesis unfolding title_def by blast
qed

theorem suggested_address_refused_witness:
  "\<not> slug_ok (js_slugify (replicate 119 (CHR ''a'') @ '' '' @ ''b''))"
proof -
  have "id_char (CHR ''a'')" "id_char (CHR ''b'')" by (simp_all add: id_char_def)
  then show ?thesis
    using suggested_address_refused [of "replicate 119 (CHR ''a'')" "CHR ''b''"] by simp
qed

text \<open>
  what is typed while a save is under way is lost when the answer comes: it replaces the whole form, and the
  mark of unsaved changes goes out.
\<close>

theorem typing_during_save_lost:
  assumes "\<not> ce_saving s" "cp_body p = cf_body (ce_form s)" "t \<noteq> cp_body p"
  shows "let before = content_run kind [Save_As status, Type_Body t] s;
             after = content_run kind [Save_As status, Type_Body t, Saved_Post p] s
    in cf_body (ce_form before) = t \<and> ce_dirty before \<and> cf_body (ce_form after) = cf_body (ce_form s) \<and>
       \<not> ce_dirty after \<and> ce_sent after = ce_sent s @ [content_payload kind status (ce_form s)]"
  using assms by (simp add: content_run_def show_post_def open_post_def Let_def)

theorem typing_during_save_lost_witness:
  "let s = \<lparr>ce_form = empty_content, ce_touched = True, ce_dirty = True, ce_saving = False, ce_post = None, ce_sent = []\<rparr>
   in cf_body (ce_form (content_run ''blog'' [Save_As ''draft'', Type_Body ''more'', Saved_Post (hd note_store)] s)) = []"
  using typing_during_save_lost
    [of "\<lparr>ce_form = empty_content, ce_touched = True, ce_dirty = True, ce_saving = False, ce_post = None, ce_sent = []\<rparr>"
      "hd note_store" "''more''" "''blog''" "''draft''"]
  by (simp add: Let_def note_store_eq empty_content_def)

definition editor_ok :: "content_editor \<Rightarrow> bool" where
  "editor_ok s =
     ((\<not> ce_dirty s \<longrightarrow> ce_form s = (case ce_post s of None \<Rightarrow> empty_content | Some p \<Rightarrow> open_post p)) \<and>
      (\<not> ce_touched s \<and> ce_post s = None \<longrightarrow> cf_slug (ce_form s) = js_slugify (cf_title (ce_form s))))"

definition fresh_editor :: "bool \<Rightarrow> content_editor" where
  "fresh_editor is_new =
     \<lparr>ce_form = empty_content, ce_touched = \<not> is_new, ce_dirty = False, ce_saving = False, ce_post = None, ce_sent = []\<rparr>"

text \<open>
  in every run of the editor, the mark of unsaved changes is out only while the form shows the
  article as it was last answered; and as long as the address is not touched it follows the title of a new article.
\<close>

theorem clean_form_is_shown:
  "editor_ok (content_run kind es (fresh_editor is_new))"
proof (induction es rule: rev_induct)
  case (snoc e es)
  then show ?case
    by (cases e) (auto simp: content_run_def editor_ok_def show_post_def)
qed (simp add: content_run_def editor_ok_def fresh_editor_def empty_content_def js_slugify_def strip_dashes_def to_lower_def)

end
