(* ===== verification/Access_Requests.thy ===== *)
theory Access_Requests
  imports Prelude
begin

text \<open>
  Requests for access, on the side of the API: \<^verbatim>\<open>handlers/access_requests.go\<close>,
  \<^verbatim>\<open>handlers/access_scope.go\<close> and \<open>withAccess\<close> of \<^verbatim>\<open>handlers/portal.go\<close>. An employee asks for
  the thing an own activity was stopped for, a request is decided, revoked or withdrawn, and what
  is approved is what the rules of the devices leave open. The pages that show this are in
  \<^verbatim>\<open>Access_Pages\<close>.

  Requests stand in the order in which they were made, activities newest first. Identifiers
  (\<open>uuid.Parse\<close>) and the host of an address (\<open>url.Parse\<close>) are arguments, as are new identifiers
  and the clock. Mails, notices to the portal and the audit log are not modelled.
\<close>

section \<open>Data\<close>

datatype req_kind = Website | Application | Extension | Download | Dlp

datatype req_status = Pending | Approved | Denied | Revoked

fun kind_name :: "req_kind \<Rightarrow> string" where
  "kind_name Website = ''website''"
| "kind_name Application = ''application''"
| "kind_name Extension = ''browser_extension''"
| "kind_name Download = ''download''"
| "kind_name Dlp = ''dlp''"

fun status_name :: "req_status \<Rightarrow> string" where
  "status_name Pending = ''pending''"
| "status_name Approved = ''approved''"
| "status_name Denied = ''denied''"
| "status_name Revoked = ''revoked''"

record access_event =
  ae_id :: string
  ae_employee :: "string option"
  ae_type :: string
  ae_action :: string
  ae_category :: string
  ae_operation :: string
  ae_target :: string
  ae_domain :: string
  ae_policy :: "string option"
  ae_meta :: "(string \<times> string) list"

record request =
  rq_id :: string
  rq_org :: string
  rq_employee :: string
  rq_kind :: req_kind
  rq_resource :: string
  rq_label :: string
  rq_event :: string
  rq_policy :: "string option"
  rq_domain :: string
  rq_reason :: string
  rq_status :: req_status
  rq_created :: int
  rq_reviewer :: "string option"
  rq_reviewed :: "int option"
  rq_note :: string

section \<open>What an activity can be asked for\<close>

text \<open>\<open>strings.TrimSpace\<close>, which takes the next-line character for a space, as \<open>trim\<close> does not.\<close>

definition go_space :: "char \<Rightarrow> bool" where
  "go_space c = (is_ws c \<or> c = CHR 0x85)"

definition go_trim :: "string \<Rightarrow> string" where
  "go_trim s = rev (dropWhile go_space (rev (dropWhile go_space s)))"

lemma dropWhile_go_space: "CHR 0x85 \<notin> set s \<Longrightarrow> dropWhile go_space s = dropWhile is_ws s"
  by (rule dropWhile_cong) (auto simp: go_space_def)

lemma go_trim_trim: "CHR 0x85 \<notin> set s \<Longrightarrow> go_trim s = trim s"
proof -
  assume a: "CHR 0x85 \<notin> set s"
  then have "CHR 0x85 \<notin> set (rev (dropWhile is_ws s))"
    by (auto dest: set_dropWhileD)
  with a show ?thesis by (simp add: go_trim_def trim_def dropWhile_go_space)
qed

definition trim_suffix :: "string \<Rightarrow> string \<Rightarrow> string" where
  "trim_suffix s p = (if ends_with s p then take (length s - length p) s else s)"

definition trim_prefix :: "string \<Rightarrow> string \<Rightarrow> string" where
  "trim_prefix s p = (if starts_with s p then drop (length p) s else s)"

definition norm_domain :: "string \<Rightarrow> string" where
  "norm_domain d = trim_prefix (trim_suffix (to_lower (go_trim d)) ''.'') ''www.''"

definition meta_str :: "access_event \<Rightarrow> string \<Rightarrow> string" where
  "meta_str ev k = (case map_of (ae_meta ev) k of None \<Rightarrow> [] | Some v \<Rightarrow> go_trim v)"

text \<open>\<open>url_host\<close> is the host name of an address that has one.\<close>

definition event_host :: "(string \<Rightarrow> string option) \<Rightarrow> access_event \<Rightarrow> string" where
  "event_host url_host ev =
     norm_domain
       (if ae_domain ev \<noteq> [] then ae_domain ev
        else (case url_host (ae_target ev) of Some h \<Rightarrow> h | None \<Rightarrow> ae_target ev))"

definition first_filled :: "string list \<Rightarrow> string" where
  "first_filled xs = (case filter (\<lambda>x. x \<noteq> []) xs of [] \<Rightarrow> [] | x # _ \<Rightarrow> x)"

definition requestable_from ::
  "(string \<Rightarrow> string option) \<Rightarrow> (string \<Rightarrow> string option) \<Rightarrow> access_event \<Rightarrow> (req_kind \<times> string \<times> string) option" where
  "requestable_from uuid_of url_host ev =
     (let cat = to_lower (ae_category ev)
      in if cat = ''malware'' \<or> cat = ''malware_detection'' then
           (if ae_action ev \<noteq> ''blocked'' \<or> meta_str ev ''sha256'' = [] then None
            else Some (Download, to_lower (meta_str ev ''sha256''),
                       if ae_target ev = [] then ''Blocked download'' else ae_target ev))
         else if cat = ''dlp'' then
           (let desc = first_filled [meta_str ev ''service'', meta_str ev ''destination'', meta_str ev ''app_name'', ae_domain ev]
            in Some (Dlp, ae_id ev,
                 ''Sensitive data sent'' @ (if desc \<noteq> [] then '' to '' @ desc else []) @
                 (if ae_target ev \<noteq> [] then '' ('' @ ae_target ev @ '')'' else [])))
         else if meta_str ev ''kind'' = ''browser_extension'' then
           (if ae_operation ev \<noteq> ''VPN browser extension installed'' \<or> meta_str ev ''extension_id'' = [] then None
            else Some (Extension, meta_str ev ''extension_id'', ae_target ev))
         else if ae_type ev = ''process_start'' \<or> ae_type ev = ''app_launch'' then
           (if ae_action ev \<noteq> ''blocked'' \<and> ae_action ev \<noteq> ''alerted'' then None
            else if uuid_of (meta_str ev ''app_id'') = None then None
            else Some (Application, meta_str ev ''app_id'', ae_target ev))
         else if ae_type ev = ''web_request'' \<or> ae_type ev = ''dns_query'' then
           (if ae_action ev \<noteq> ''blocked'' then None
            else if event_host url_host ev = [] then None
            else Some (Website, event_host url_host ev, event_host url_host ev))
         else None)"

section \<open>Asking\<close>

datatype 'a answer = Answer nat 'a | Refusal nat string

record asking =
  as_event :: string
  as_domain :: string
  as_reason :: string

definition max_pending_per_employee :: nat where
  "max_pending_per_employee = 25"

definition open_status :: "req_status \<Rightarrow> bool" where
  "open_status st = (st = Pending \<or> st = Approved)"

definition own_events :: "string \<Rightarrow> access_event list \<Rightarrow> access_event list" where
  "own_events emp evs = filter (\<lambda>e. ae_employee e = Some emp) evs"

text \<open>The activity a request names, or the refusal.\<close>

definition asked_event ::
  "(string \<Rightarrow> string option) \<Rightarrow> string \<Rightarrow> access_event list \<Rightarrow> asking \<Rightarrow> nat \<times> string + access_event" where
  "asked_event uuid_of emp evs a =
     (if as_event a \<noteq> [] then
        (case uuid_of (as_event a) of
           None \<Rightarrow> Inl (400, ''Invalid event_id'')
         | Some i \<Rightarrow>
             (case filter (\<lambda>e. ae_id e = i) (own_events emp evs) of
                [] \<Rightarrow> Inl (404, ''That activity was not found on your account'')
              | e # _ \<Rightarrow> Inr e))
      else if as_domain a \<noteq> [] then
        (let d = norm_domain (as_domain a)
         in case filter (\<lambda>e. ae_type e = ''web_request'' \<and> ae_action e = ''blocked'' \<and> (d = [] \<or> ae_domain e = d))
                   (own_events emp evs) of
              [] \<Rightarrow> Inl (404, ''That activity was not found on your account'')
            | e # _ \<Rightarrow> Inr e)
      else Inl (400, ''event_id is required''))"

definition open_request :: "string \<Rightarrow> req_kind \<Rightarrow> string \<Rightarrow> request list \<Rightarrow> request option" where
  "open_request emp k res rs =
     find (\<lambda>r. rq_employee r = emp \<and> rq_kind r = k \<and> rq_resource r = res \<and> open_status (rq_status r)) rs"

definition pending_of :: "string \<Rightarrow> request list \<Rightarrow> request list" where
  "pending_of emp rs = filter (\<lambda>r. rq_employee r = emp \<and> rq_status r = Pending) rs"

text \<open>
  \<open>Create\<close> up to the insertion: an answer, or the request to insert. Its identifier and time are
  given by the insertion.
\<close>

definition create_check ::
  "(string \<Rightarrow> string option) \<Rightarrow> (string \<Rightarrow> string option) \<Rightarrow> string \<Rightarrow> string \<Rightarrow> access_event list \<Rightarrow> asking \<Rightarrow>
   request list \<Rightarrow> request answer + request" where
  "create_check uuid_of url_host org emp evs a rs =
     (let reason = take 1000 (go_trim (as_reason a))
      in if length (go_trim (as_reason a)) < 5
         then Inl (Refusal 400 ''Tell your company why you need this (a few words at least)'')
         else case asked_event uuid_of emp evs a of
           Inl (n, e) \<Rightarrow> Inl (Refusal n e)
         | Inr ev \<Rightarrow>
             (case requestable_from uuid_of url_host ev of
                None \<Rightarrow> Inl (Refusal 422 ''There is nothing to request for this activity'')
              | Some (k, res, label) \<Rightarrow>
                  (case open_request emp k res rs of
                     Some r \<Rightarrow> Inl (Answer 200 r)
                   | None \<Rightarrow>
                       if length (pending_of emp rs) \<ge> max_pending_per_employee
                       then Inl (Refusal 429 ''You have too many requests waiting. Wait for your company to review them first.'')
                       else Inr \<lparr>rq_id = [], rq_org = org, rq_employee = emp, rq_kind = k, rq_resource = res,
                              rq_label = label, rq_event = ae_id ev, rq_policy = ae_policy ev,
                              rq_domain = (if k = Website then res else []), rq_reason = reason, rq_status = Pending,
                              rq_created = 0, rq_reviewer = None, rq_reviewed = None, rq_note = []\<rparr>)))"

definition insert_request :: "string \<Rightarrow> int \<Rightarrow> request \<Rightarrow> request list \<Rightarrow> request list" where
  "insert_request i now r rs = rs @ [r\<lparr>rq_id := i, rq_created := now\<rparr>]"

definition create ::
  "(string \<Rightarrow> string option) \<Rightarrow> (string \<Rightarrow> string option) \<Rightarrow> string \<Rightarrow> int \<Rightarrow> string \<Rightarrow> string \<Rightarrow> access_event list \<Rightarrow> asking \<Rightarrow>
   request list \<Rightarrow> request answer \<times> request list" where
  "create uuid_of url_host i now org emp evs a rs =
     (case create_check uuid_of url_host org emp evs a rs of
        Inl ans \<Rightarrow> (ans, rs)
      | Inr r \<Rightarrow> (Answer 201 (r\<lparr>rq_id := i, rq_created := now\<rparr>), insert_request i now r rs))"

definition list_mine :: "string \<Rightarrow> request list \<Rightarrow> request list" where
  "list_mine emp rs = take 200 (rev (filter (\<lambda>r. rq_employee r = emp) rs))"

definition withdraw :: "string \<Rightarrow> string \<Rightarrow> request list \<Rightarrow> bool answer \<times> request list" where
  "withdraw emp i rs =
     (let gone = (\<lambda>r. rq_id r = i \<and> rq_employee r = emp \<and> rq_status r = Pending)
      in if filter gone rs = [] then (Refusal 404 ''No open request to withdraw'', rs)
         else (Answer 200 True, filter (\<lambda>r. \<not> gone r) rs))"

section \<open>Deciding\<close>

definition find_request :: "string \<Rightarrow> string \<Rightarrow> request list \<Rightarrow> request option" where
  "find_request org i rs = find (\<lambda>r. rq_id r = i \<and> rq_org r = org) rs"

text \<open>\<open>resolve\<close> in two steps, since other calls can come between its two statements.\<close>

definition resolve_read :: "string \<Rightarrow> string \<Rightarrow> req_status \<Rightarrow> request list \<Rightarrow> request answer + request" where
  "resolve_read org i st rs =
     (case find_request org i rs of
        None \<Rightarrow> Inl (Refusal 404 ''Access request not found'')
      | Some r \<Rightarrow>
          if rq_status r \<noteq> st then Inl (Refusal 409 (''This request is already '' @ status_name (rq_status r)))
          else Inr r)"

definition decided :: "string \<Rightarrow> int \<Rightarrow> string \<Rightarrow> req_status \<Rightarrow> request \<Rightarrow> request" where
  "decided uid now remark st r =
     r\<lparr>rq_status := st, rq_reviewer := Some uid, rq_reviewed := Some now, rq_note := remark\<rparr>"

definition resolve_write ::
  "string \<Rightarrow> int \<Rightarrow> string \<Rightarrow> request \<Rightarrow> req_status \<Rightarrow> request list \<Rightarrow> request answer \<times> request list" where
  "resolve_write uid now remark ar st rs =
     (let hit = (\<lambda>r. rq_id r = rq_id ar \<and> rq_status r = rq_status ar);
          rs' = map (\<lambda>r. if hit r then decided uid now (go_trim remark) st r else r) rs
      in if filter hit rs = [] then (Refusal 409 ''Someone else just reviewed this request'', rs)
         else case find (\<lambda>r. rq_id r = rq_id ar) rs' of
           None \<Rightarrow> (Answer 200 ar, rs')
         | Some r \<Rightarrow> (Answer 200 r, rs'))"

definition resolve ::
  "string \<Rightarrow> string \<Rightarrow> int \<Rightarrow> string \<Rightarrow> string \<Rightarrow> req_status \<Rightarrow> req_status \<Rightarrow> request list \<Rightarrow> request answer \<times> request list" where
  "resolve org uid now i remark st st' rs =
     (case resolve_read org i st rs of
        Inl a \<Rightarrow> (a, rs)
      | Inr ar \<Rightarrow> resolve_write uid now remark ar st' rs)"

datatype decision = Approve | Deny | Revoke

fun decides_from :: "decision \<Rightarrow> req_status" where
  "decides_from Approve = Pending"
| "decides_from Deny = Pending"
| "decides_from Revoke = Approved"

fun decides_to :: "decision \<Rightarrow> req_status" where
  "decides_to Approve = Approved"
| "decides_to Deny = Denied"
| "decides_to Revoke = Revoked"

definition decide ::
  "decision \<Rightarrow> string \<Rightarrow> string \<Rightarrow> int \<Rightarrow> string \<Rightarrow> string \<Rightarrow> request list \<Rightarrow> request answer \<times> request list" where
  "decide d org uid now i remark rs = resolve org uid now i remark (decides_from d) (decides_to d) rs"

section \<open>The list of the company\<close>

text \<open>\<open>matches\<close> is the search over the request and its employee.\<close>

definition api_page :: "int option \<Rightarrow> int" where
  "api_page p = (case p of None \<Rightarrow> 1 | Some n \<Rightarrow> if n < 1 then 1 else n)"

definition api_limit :: "int option \<Rightarrow> int" where
  "api_limit l = (case l of None \<Rightarrow> 50 | Some n \<Rightarrow> if n < 1 \<or> n > 200 then 50 else n)"

record req_listing =
  li_data :: "request list"
  li_total :: nat
  li_pages :: int
  li_counts :: "req_status \<Rightarrow> nat"

definition list_requests ::
  "(string \<Rightarrow> request \<Rightarrow> bool) \<Rightarrow> string \<Rightarrow> req_status list \<Rightarrow> req_kind option \<Rightarrow> string \<Rightarrow> int option \<Rightarrow> int option \<Rightarrow>
   request list \<Rightarrow> req_listing" where
  "list_requests matches org sts kind search pg lim rs =
     (let base = filter (\<lambda>r. rq_org r = org \<and> (kind = None \<or> kind = Some (rq_kind r)) \<and>
                   (go_trim search = [] \<or> matches (to_lower (go_trim search)) r)) rs;
          q = filter (\<lambda>r. sts = [] \<or> rq_status r \<in> set sts) base;
          limit = nat (api_limit lim); offset = nat (api_page pg - 1) * limit
      in \<lparr>li_data = take limit (drop offset (rev q)), li_total = length q,
          li_pages = (int (length q) + api_limit lim - 1) div api_limit lim,
          li_counts = (\<lambda>st. length (filter (\<lambda>r. rq_status r = st) base))\<rparr>)"

section \<open>What an employee sees of it\<close>

record portal_access =
  pa_kind :: req_kind
  pa_label :: string
  pa_request :: "(req_status \<times> string \<times> string) option"

text \<open>\<open>withAccess\<close>: each activity with the latest request for the same thing.\<close>

definition latest_request :: "string \<Rightarrow> req_kind \<Rightarrow> string \<Rightarrow> request list \<Rightarrow> request option" where
  "latest_request emp k res rs =
     find (\<lambda>r. rq_employee r = emp \<and> kind_name (rq_kind r) @ ''|'' @ rq_resource r = kind_name k @ ''|'' @ res) (rev rs)"

definition with_access ::
  "(string \<Rightarrow> string option) \<Rightarrow> (string \<Rightarrow> string option) \<Rightarrow> string \<Rightarrow> request list \<Rightarrow> access_event \<Rightarrow> portal_access option" where
  "with_access uuid_of url_host emp rs ev =
     (case requestable_from uuid_of url_host ev of
        None \<Rightarrow> None
      | Some (k, res, label) \<Rightarrow>
          Some \<lparr>pa_kind = k, pa_label = label,
                pa_request = (case latest_request emp k res rs of
                   None \<Rightarrow> None
                 | Some r \<Rightarrow> Some (rq_status r, rq_id r, rq_note r))\<rparr>)"

section \<open>What an approval opens\<close>

record grants =
  g_websites :: "string list"
  g_apps :: "string list"
  g_extensions :: "string list"
  g_downloads :: "string list"

definition approved_of :: "string \<Rightarrow> req_kind \<Rightarrow> request list \<Rightarrow> request list" where
  "approved_of emp k rs = filter (\<lambda>r. rq_employee r = emp \<and> rq_status r = Approved \<and> rq_kind r = k) rs"

definition website_host :: "request \<Rightarrow> string" where
  "website_host r = norm_domain (if rq_resource r = [] then rq_domain r else rq_resource r)"

definition approved_grants :: "(string \<Rightarrow> string option) \<Rightarrow> string option \<Rightarrow> request list \<Rightarrow> grants" where
  "approved_grants uuid_of emp rs =
     (case emp of
        None \<Rightarrow> \<lparr>g_websites = [], g_apps = [], g_extensions = [], g_downloads = []\<rparr>
      | Some e \<Rightarrow>
          \<lparr>g_websites = filter (\<lambda>h. h \<noteq> []) (map website_host (approved_of e Website rs)),
           g_apps = List.map_filter (\<lambda>r. uuid_of (rq_resource r)) (approved_of e Application rs),
           g_extensions = map rq_resource (approved_of e Extension rs),
           g_downloads = map (\<lambda>r. to_lower (rq_resource r)) (approved_of e Download rs)\<rparr>)"

record managed_app =
  ma_org :: "string option"
  ma_domains :: "string list"

text \<open>The order of the hosts does not matter: they are the keys of a map.\<close>

definition website_bundle :: "managed_app list \<Rightarrow> string \<Rightarrow> string \<Rightarrow> string list" where
  "website_bundle apps org host =
     (let key = filter (\<lambda>c. c \<noteq> CHR 0x22) host;
          found = filter (\<lambda>a. (ma_org a = None \<or> ma_org a = Some org) \<and> key \<in> set (ma_domains a)) apps
      in remdups (host # filter (\<lambda>d. d \<noteq> []) (map norm_domain (concat (map ma_domains found)))))"

datatype rule_action = Block | Allow | Alert | Log_Only

record domain_rule =
  ru_org :: "string option"
  ru_domain :: string
  ru_action :: rule_action
  ru_category :: string
  ru_reason :: string
  ru_enabled :: bool

definition allowed_hosts :: "managed_app list \<Rightarrow> string \<Rightarrow> grants \<Rightarrow> string list" where
  "allowed_hosts apps org g = remdups (concat (map (website_bundle apps org) (g_websites g)))"

definition platform_block :: "domain_rule \<Rightarrow> bool" where
  "platform_block r = (ru_org r = None \<and> ru_action r = Block)"

definition allow_rule :: "string \<Rightarrow> string \<Rightarrow> domain_rule" where
  "allow_rule org host =
     \<lparr>ru_org = Some org, ru_domain = host, ru_action = Allow, ru_category = ''access_request'',
      ru_reason = ''Access approved by your company'', ru_enabled = True\<rparr>"

definition filter_approved_exceptions ::
  "(string \<Rightarrow> string option) \<Rightarrow> managed_app list \<Rightarrow> request list \<Rightarrow> domain_rule list \<Rightarrow> string \<Rightarrow> string \<Rightarrow> domain_rule list" where
  "filter_approved_exceptions uuid_of apps rs rules org emp =
     (let g = approved_grants uuid_of (Some emp) rs; allowed = allowed_hosts apps org g;
          blocked = map (\<lambda>r. norm_domain (ru_domain r)) (filter platform_block rules)
      in if g_websites g = [] then rules
         else filter (\<lambda>r. platform_block r \<or> \<not> (norm_domain (ru_domain r) \<in> set allowed \<and> ru_action r \<noteq> Allow)) rules @
              map (allow_rule org) (filter (\<lambda>h. h \<notin> set blocked) allowed))"

section \<open>What holds of all requests\<close>

text \<open>
  Calls served one after the other. \<open>org_of\<close> is the organisation of an employee, \<open>evs\<close> all
  activities ever recorded, of which each call sees some; new identifiers are fresh.
\<close>

inductive requests_reach ::
  "(string \<Rightarrow> string option) \<Rightarrow> (string \<Rightarrow> string option) \<Rightarrow> (string \<Rightarrow> string) \<Rightarrow> access_event set \<Rightarrow> request list \<Rightarrow> bool"
  for uuid_of url_host org_of evs where
  no_requests: "requests_reach uuid_of url_host org_of evs []"
| asked: "requests_reach uuid_of url_host org_of evs rs \<Longrightarrow> i \<notin> rq_id ` set rs \<Longrightarrow> set seen \<subseteq> evs \<Longrightarrow>
    requests_reach uuid_of url_host org_of evs (snd (create uuid_of url_host i now (org_of emp) emp seen a rs))"
| withdrawn: "requests_reach uuid_of url_host org_of evs rs \<Longrightarrow>
    requests_reach uuid_of url_host org_of evs (snd (withdraw emp i rs))"
| reviewed: "requests_reach uuid_of url_host org_of evs rs \<Longrightarrow>
    requests_reach uuid_of url_host org_of evs (snd (decide d org uid now i remark rs))"

definition thing :: "request \<Rightarrow> string \<times> req_kind \<times> string" where
  "thing r = (rq_employee r, rq_kind r, rq_resource r)"

text \<open>A request is about what an own activity of its employee can be asked for.\<close>

definition founded ::
  "(string \<Rightarrow> string option) \<Rightarrow> (string \<Rightarrow> string option) \<Rightarrow> (string \<Rightarrow> string) \<Rightarrow> access_event set \<Rightarrow> request \<Rightarrow> bool" where
  "founded uuid_of url_host org_of evs r =
     (rq_org r = org_of (rq_employee r) \<and> 5 \<le> length (rq_reason r) \<and> length (rq_reason r) \<le> 1000 \<and>
      (\<exists>ev \<in> evs. ae_employee ev = Some (rq_employee r) \<and> ae_id ev = rq_event r \<and>
         requestable_from uuid_of url_host ev = Some (rq_kind r, rq_resource r, rq_label r)))"

definition review_ok :: "request \<Rightarrow> bool" where
  "review_ok r = ((rq_reviewer r = None) = (rq_status r = Pending) \<and> (rq_reviewed r = None) = (rq_status r = Pending))"

definition closed_before :: "request \<Rightarrow> request \<Rightarrow> bool" where
  "closed_before r r' = (thing r = thing r' \<longrightarrow> \<not> open_status (rq_status r))"

definition requests_ok :: "request list \<Rightarrow> bool" where
  "requests_ok rs =
     (distinct (map rq_id rs) \<and> sorted_wrt closed_before rs \<and>
      (\<forall>emp. length (pending_of emp rs) \<le> max_pending_per_employee) \<and> list_all review_ok rs)"

lemma filter_Cons_member: "filter P xs = y # ys \<Longrightarrow> y \<in> set xs \<and> P y"
  by (metis filter_set list.set_intros(1) mem_Collect_eq set_filter)

lemma asked_event_own: "asked_event uuid_of emp evs a = Inr ev \<Longrightarrow> ev \<in> set evs \<and> ae_employee ev = Some emp"
  unfolding asked_event_def own_events_def Let_def
  by (auto split: if_splits option.splits list.splits dest!: filter_Cons_member)

lemma open_request_None:
  "open_request emp k res rs = None \<longleftrightarrow>
     (\<forall>r \<in> set rs. thing r = (emp, k, res) \<longrightarrow> \<not> open_status (rq_status r))"
  by (auto simp: open_request_def find_None_iff thing_def)

lemma create_check_Inr:
  assumes "create_check uuid_of url_host org emp evs a rs = Inr r"
  obtains ev where "asked_event uuid_of emp evs a = Inr ev"
    "requestable_from uuid_of url_host ev = Some (rq_kind r, rq_resource r, rq_label r)"
    "rq_event r = ae_id ev" "rq_employee r = emp" "rq_org r = org"
    "open_request emp (rq_kind r) (rq_resource r) rs = None"
    "length (pending_of emp rs) < max_pending_per_employee"
    "rq_status r = Pending" "rq_reviewer r = None" "rq_reviewed r = None"
    "5 \<le> length (rq_reason r)" "length (rq_reason r) \<le> 1000"
  using assms unfolding create_check_def Let_def
  by (auto split: if_splits sum.splits option.splits prod.splits)

lemma pending_of_append: "pending_of emp (rs @ [r]) =
    pending_of emp rs @ (if rq_employee r = emp \<and> rq_status r = Pending then [r] else [])"
  by (simp add: pending_of_def)

lemma requests_ok_insert:
  assumes "requests_ok rs" "i \<notin> rq_id ` set rs" "create_check uuid_of url_host org emp evs a rs = Inr r"
  shows "requests_ok (insert_request i now r rs)"
proof -
  obtain ev where r: "rq_employee r = emp" "open_request emp (rq_kind r) (rq_resource r) rs = None"
    "length (pending_of emp rs) < max_pending_per_employee" "rq_status r = Pending" "rq_reviewer r = None"
    "rq_reviewed r = None"
    using assms(3) by (rule create_check_Inr)
  have "\<forall>r' \<in> set rs. closed_before r' (r\<lparr>rq_id := i, rq_created := now\<rparr>)"
    using r(1,2) by (auto simp: open_request_None closed_before_def thing_def)
  moreover have "\<forall>e. length (pending_of e (insert_request i now r rs)) \<le> max_pending_per_employee"
    using assms(1) r(1,3) by (auto simp: requests_ok_def insert_request_def pending_of_append)
  ultimately show ?thesis
    using assms(1,2) r by (simp add: requests_ok_def insert_request_def sorted_wrt_append review_ok_def)
qed

lemma requests_ok_filter: "requests_ok rs \<Longrightarrow> requests_ok (filter P rs)"
proof -
  assume a: "requests_ok rs"
  have "length (pending_of e (filter P rs)) \<le> length (pending_of e rs)" for e
    by (induction rs) (auto simp: pending_of_def)
  then have "\<forall>e. length (pending_of e (filter P rs)) \<le> max_pending_per_employee"
    using a by (meson order.trans requests_ok_def)
  then show ?thesis
    using a by (auto simp: requests_ok_def sorted_wrt_filter list_all_iff distinct_map inj_on_def)
qed

text \<open>A change of one request that keeps what it is about and opens nothing.\<close>

definition review_change :: "(request \<Rightarrow> request) \<Rightarrow> bool" where
  "review_change f =
     (\<forall>r. rq_id (f r) = rq_id r \<and> thing (f r) = thing r \<and> (open_status (rq_status (f r)) \<longrightarrow> open_status (rq_status r)) \<and>
        (rq_status (f r) = Pending \<longrightarrow> rq_status r = Pending) \<and> (review_ok r \<longrightarrow> review_ok (f r)))"

lemma review_changeD:
  assumes "review_change f"
  shows "rq_id (f r) = rq_id r" "thing (f r) = thing r" "rq_employee (f r) = rq_employee r"
    "open_status (rq_status (f r)) \<Longrightarrow> open_status (rq_status r)"
    "rq_status (f r) = Pending \<Longrightarrow> rq_status r = Pending" "review_ok r \<Longrightarrow> review_ok (f r)"
  using assms by (auto simp: review_change_def thing_def)

lemma requests_ok_change:
  assumes "requests_ok rs" "review_change f"
  shows "requests_ok (map f rs)"
proof -
  note f = review_changeD [OF assms(2)]
  have "map rq_id (map f rs) = map rq_id rs"
    by (simp add: f)
  moreover have "sorted_wrt closed_before (map f rs)"
    unfolding sorted_wrt_map
    by (rule sorted_wrt_mono_rel [of _ closed_before])
       (use assms(1) f in \<open>auto simp: requests_ok_def closed_before_def\<close>)
  moreover have "length (pending_of e (map f rs)) \<le> length (pending_of e rs)" for e
    by (induction rs) (auto simp: pending_of_def f)
  then have "\<forall>e. length (pending_of e (map f rs)) \<le> max_pending_per_employee"
    using assms(1) by (meson order.trans requests_ok_def)
  moreover have "list_all review_ok (map f rs)"
    using assms(1) f(6) by (auto simp: requests_ok_def list_all_iff)
  ultimately show ?thesis
    using assms(1) by (simp add: requests_ok_def del: map_map)
qed

lemma decided_fields [simp]:
  "rq_id (decided uid now remark st r) = rq_id r" "thing (decided uid now remark st r) = thing r"
  "rq_org (decided uid now remark st r) = rq_org r" "rq_status (decided uid now remark st r) = st"
  "founded uuid_of url_host org_of evs (decided uid now remark st r) = founded uuid_of url_host org_of evs r"
  by (simp_all add: decided_def thing_def founded_def)

definition review_of :: "decision \<Rightarrow> string \<Rightarrow> int \<Rightarrow> string \<Rightarrow> string \<Rightarrow> request \<Rightarrow> request" where
  "review_of d uid now remark i r =
     (if rq_id r = i \<and> rq_status r = decides_from d then decided uid now (go_trim remark) (decides_to d) r else r)"

lemma review_of_id [simp]: "rq_id (review_of d uid now remark i r) = rq_id r"
  by (simp add: review_of_def)

lemma review_of_change: "review_change (review_of d uid now remark i)"
  by (cases d) (auto simp: review_change_def review_of_def open_status_def review_ok_def decided_def thing_def)

lemma review_of_simps [simp]:
  "rq_employee (review_of d uid now remark i r) = rq_employee r" "rq_kind (review_of d uid now remark i r) = rq_kind r"
  "rq_resource (review_of d uid now remark i r) = rq_resource r"
  by (simp_all add: review_of_def decided_def)

lemma resolve_write_eq:
  assumes "rq_status ar = decides_from d" "\<exists>r \<in> set rs. rq_id r = rq_id ar \<and> rq_status r = decides_from d"
  shows "snd (resolve_write uid now remark ar (decides_to d) rs) = map (review_of d uid now remark (rq_id ar)) rs"
  using assms by (auto simp: resolve_write_def Let_def filter_empty_conv review_of_def split: option.split)

lemma decide_eq:
  "decide d org uid now i remark rs =
     (case find_request org i rs of
        None \<Rightarrow> (Refusal 404 ''Access request not found'', rs)
      | Some r \<Rightarrow>
          if rq_status r \<noteq> decides_from d
          then (Refusal 409 (''This request is already '' @ status_name (rq_status r)), rs)
          else resolve_write uid now remark r (decides_to d) rs)"
  by (simp add: decide_def resolve_def resolve_read_def split: option.split)

lemma find_request_SomeD: "find_request org i rs = Some r \<Longrightarrow> r \<in> set rs \<and> rq_id r = i \<and> rq_org r = org"
  by (auto simp: find_request_def find_Some_iff)

lemma decide_store:
  "snd (decide d org uid now i remark rs) \<in> {rs, map (review_of d uid now remark i) rs}"
proof (cases "find_request org i rs")
  case (Some r)
  show ?thesis
  proof (cases "rq_status r = decides_from d")
    case True
    then show ?thesis
      using Some find_request_SomeD [OF Some] resolve_write_eq [OF True, of rs uid now remark]
      by (auto simp: decide_eq)
  qed (simp add: decide_eq Some)
qed (simp add: decide_eq)

lemma create_cases:
  obtains (refused) "snd (create uuid_of url_host i now org emp evs a rs) = rs"
  | (inserted) r where "create_check uuid_of url_host org emp evs a rs = Inr r"
      "snd (create uuid_of url_host i now org emp evs a rs) = insert_request i now r rs"
  by (cases "create_check uuid_of url_host org emp evs a rs") (simp_all add: create_def that)

lemma withdraw_filter: "\<exists>P. snd (withdraw emp i rs) = filter P rs"
  by (auto simp: withdraw_def Let_def intro: exI [of _ "\<lambda>_. True"])

lemma reach_requests_ok: "requests_reach uuid_of url_host org_of evs rs \<Longrightarrow> requests_ok rs"
proof (induction rule: requests_reach.induct)
  case (asked rs i seen now emp a)
  show ?case
    by (rule create_cases [of uuid_of url_host i now "org_of emp" emp seen a rs])
       (use asked in \<open>auto intro: requests_ok_insert\<close>)
next
  case (withdrawn rs emp i)
  then show ?case using withdraw_filter [of emp i rs] by (auto intro: requests_ok_filter)
next
  case (reviewed rs d org uid now i remark)
  then show ?case
    using decide_store [of d org uid now i remark rs] by (auto simp: requests_ok_change [OF _ review_of_change])
qed (simp add: requests_ok_def pending_of_def)

lemma reach_founded:
  "requests_reach uuid_of url_host org_of evs rs \<Longrightarrow> r \<in> set rs \<Longrightarrow> founded uuid_of url_host org_of evs r"
proof (induction arbitrary: r rule: requests_reach.induct)
  case (asked rs i seen now emp a)
  show ?case
  proof (rule create_cases [of uuid_of url_host i now "org_of emp" emp seen a rs])
    fix r' assume c: "create_check uuid_of url_host (org_of emp) emp seen a rs = Inr r'"
      "snd (create uuid_of url_host i now (org_of emp) emp seen a rs) = insert_request i now r' rs"
    have "founded uuid_of url_host org_of evs (r'\<lparr>rq_id := i, rq_created := now\<rparr>)"
      using c(1) asked.hyps(3) by (auto elim!: create_check_Inr simp: founded_def dest!: asked_event_own)
    then show ?thesis using asked c(2) by (auto simp: insert_request_def)
  qed (use asked in auto)
next
  case (withdrawn rs emp i)
  then show ?case using withdraw_filter [of emp i rs] by auto
next
  case (reviewed rs d org uid now i remark)
  then show ?case
    using decide_store [of d org uid now i remark rs] by (auto simp: review_of_def)
qed simp

lemma open_things_distinct:
  assumes "requests_ok rs"
  shows "distinct (map thing (filter (\<lambda>r. open_status (rq_status r)) rs))"
proof -
  have "sorted_wrt closed_before (filter (\<lambda>r. open_status (rq_status r)) rs)"
    using assms by (simp add: requests_ok_def sorted_wrt_filter)
  then show ?thesis
    by (induction rs) (auto simp: closed_before_def image_iff)
qed

lemma open_once:
  assumes "requests_ok rs" "q \<in> set rs" "r \<in> set rs" "thing q = thing r" "open_status (rq_status q)" "open_status (rq_status r)"
  shows "q = r"
  using open_things_distinct [OF assms(1)] assms(2-) by (simp add: distinct_map inj_on_def)


definition payroll_event :: access_event where
  "payroll_event =
     \<lparr>ae_id = ''e1'', ae_employee = Some ''riya'', ae_type = ''web_request'', ae_action = ''blocked'',
      ae_category = ''url_category'', ae_operation = [], ae_target = ''https://payroll.razorpay.com'',
      ae_domain = ''payroll.razorpay.com'', ae_policy = None, ae_meta = []\<rparr>"

definition payroll_asking :: asking where
  "payroll_asking = \<lparr>as_event = ''e1'', as_domain = [], as_reason = '' Salary slips ''\<rparr>"

definition payroll_request :: request where
  "payroll_request =
     \<lparr>rq_id = ''r1'', rq_org = ''acme'', rq_employee = ''riya'', rq_kind = Website, rq_resource = ''payroll.razorpay.com'',
      rq_label = ''payroll.razorpay.com'', rq_event = ''e1'', rq_policy = None, rq_domain = ''payroll.razorpay.com'',
      rq_reason = ''Salary slips'', rq_status = Pending, rq_created = 5, rq_reviewer = None, rq_reviewed = None,
      rq_note = []\<rparr>"

lemma payroll_check:
  "create_check Some (\<lambda>_. None) ''acme'' ''riya'' [payroll_event] payroll_asking [] =
     Inr (payroll_request\<lparr>rq_id := [], rq_created := 0\<rparr>)"
  by code_simp

lemma payroll_reach:
  "requests_reach Some (\<lambda>_. None) (\<lambda>_. ''acme'') {payroll_event} [payroll_request]"
  using asked [OF no_requests, of "''r1''" "[payroll_event]" "{payroll_event}" Some "\<lambda>_. None" "\<lambda>_. ''acme''" 5
    "''riya''" payroll_asking]
  by (simp add: create_def payroll_check insert_request_def payroll_request_def)


section \<open>Two administrators at once\<close>

text \<open>
  The two statements of \<open>resolve\<close> as steps of their own: \<open>se_reads\<close> are the calls between them,
  \<open>se_log\<close> the decisions that were answered with success.
\<close>

record access_server =
  se_requests :: "request list"
  se_reads :: "(decision \<times> string \<times> string \<times> request) list"
  se_log :: "(string \<times> decision) list"

fun is_answer :: "'a answer \<Rightarrow> bool" where
  "is_answer (Answer n a) = True"
| "is_answer (Refusal n e) = False"

inductive server_reach ::
  "(string \<Rightarrow> string option) \<Rightarrow> (string \<Rightarrow> string option) \<Rightarrow> (string \<Rightarrow> string) \<Rightarrow> access_event set \<Rightarrow> access_server \<Rightarrow> bool"
  for uuid_of url_host org_of evs where
  Started: "server_reach uuid_of url_host org_of evs \<lparr>se_requests = [], se_reads = [], se_log = []\<rparr>"
| Asks: "server_reach uuid_of url_host org_of evs s \<Longrightarrow> i \<notin> rq_id ` set (se_requests s) \<Longrightarrow> set seen \<subseteq> evs \<Longrightarrow>
    server_reach uuid_of url_host org_of evs
      (s\<lparr>se_requests := snd (create uuid_of url_host i now (org_of emp) emp seen a (se_requests s))\<rparr>)"
| Withdraws: "server_reach uuid_of url_host org_of evs s \<Longrightarrow>
    server_reach uuid_of url_host org_of evs (s\<lparr>se_requests := snd (withdraw emp i (se_requests s))\<rparr>)"
| Reads: "server_reach uuid_of url_host org_of evs s \<Longrightarrow>
    resolve_read org i (decides_from d) (se_requests s) = Inr ar \<Longrightarrow>
    server_reach uuid_of url_host org_of evs (s\<lparr>se_reads := (d, uid, remark, ar) # se_reads s\<rparr>)"
| Writes: "server_reach uuid_of url_host org_of evs s \<Longrightarrow> (d, uid, remark, ar) \<in> set (se_reads s) \<Longrightarrow>
    resolve_write uid now remark ar (decides_to d) (se_requests s) = (ans, rs') \<Longrightarrow>
    server_reach uuid_of url_host org_of evs
      (s\<lparr>se_requests := rs', se_reads := remove1 (d, uid, remark, ar) (se_reads s),
         se_log := (if is_answer ans then se_log s @ [(rq_id ar, d)] else se_log s)\<rparr>)"

fun path_to :: "req_status \<Rightarrow> decision list" where
  "path_to Pending = []"
| "path_to Approved = [Approve]"
| "path_to Denied = [Deny]"
| "path_to Revoked = [Approve, Revoke]"

lemma path_to_decides [simp]: "path_to (decides_to d) = path_to (decides_from d) @ [d]"
  by (cases d) simp_all

definition decisions :: "(string \<times> decision) list \<Rightarrow> string \<Rightarrow> decision list" where
  "decisions l i = map snd (filter (\<lambda>e. fst e = i) l)"

definition log_ok :: "(string \<times> decision) list \<Rightarrow> request list \<Rightarrow> bool" where
  "log_ok l rs =
     (distinct (map rq_id rs) \<and> (\<forall>r \<in> set rs. decisions l (rq_id r) = path_to (rq_status r)) \<and>
      (\<forall>i. i \<notin> rq_id ` set rs \<longrightarrow> decisions l i = []))"

lemma resolve_write_cases:
  assumes "resolve_write uid now remark ar (decides_to d) rs = (ans, rs')" "rq_status ar = decides_from d"
  shows "(if is_answer ans
     then \<exists>r \<in> set rs. rq_id r = rq_id ar \<and> rq_status r = decides_from d \<and> rs' = map (review_of d uid now remark (rq_id ar)) rs
     else rs' = rs)"
proof (cases "\<exists>r \<in> set rs. rq_id r = rq_id ar \<and> rq_status r = decides_from d")
  case True
  then have "is_answer ans"
    using assms by (auto simp: resolve_write_def Let_def filter_empty_conv split: if_splits option.splits)
  then show ?thesis using True resolve_write_eq [OF assms(2) True, of uid now remark] assms(1) by auto
next
  case False
  then have "filter (\<lambda>r. rq_id r = rq_id ar \<and> rq_status r = rq_status ar) rs = []"
    using assms(2) by (simp add: filter_empty_conv)
  then show ?thesis using assms(1) by (auto simp: resolve_write_def Let_def)
qed

lemma written_alone:
  assumes "distinct (map rq_id rs)" "r \<in> set rs" "rq_status r = decides_from d"
  shows "snd (decide d (rq_org r) uid now (rq_id r) remark rs) = map (review_of d uid now remark (rq_id r)) rs"
proof -
  have "find_request (rq_org r) (rq_id r) rs = Some r"
    using assms(1,2) by (induction rs) (auto simp: find_request_def)
  then show ?thesis
    using assms resolve_write_eq [of r d rs uid now remark] by (auto simp: decide_eq)
qed

lemma server_reads: "server_reach uuid_of url_host org_of evs s \<Longrightarrow> (d, uid, remark, ar) \<in> set (se_reads s) \<Longrightarrow>
    rq_status ar = decides_from d"
proof (induction arbitrary: d uid remark ar rule: server_reach.induct)
  case (Reads s org i d' ar' uid' remark')
  then show ?case by (auto simp: resolve_read_def split: option.splits if_splits)
next
  case (Writes s d' uid' remark' ar' now ans rs')
  then show ?case by (auto dest: set_mp [OF set_remove1_subset])
qed simp_all

lemma server_serial:
  "server_reach uuid_of url_host org_of evs s \<Longrightarrow> requests_reach uuid_of url_host org_of evs (se_requests s)"
proof (induction rule: server_reach.induct)
  case (Writes s d uid remark ar now ans rs')
  note w = resolve_write_cases [OF Writes.hyps(3) server_reads [OF Writes.hyps(1,2)]]
  show ?case
  proof (cases "is_answer ans")
    case True
    with w obtain r where r: "r \<in> set (se_requests s)" "rq_id r = rq_id ar" "rq_status r = decides_from d"
      "rs' = map (review_of d uid now remark (rq_id ar)) (se_requests s)" by auto
    moreover have "distinct (map rq_id (se_requests s))"
      using reach_requests_ok [OF Writes.IH] by (simp add: requests_ok_def)
    ultimately have "rs' = snd (decide d (rq_org r) uid now (rq_id r) remark (se_requests s))"
      using written_alone by metis
    then show ?thesis using reviewed [OF Writes.IH] by simp
  qed (use w Writes.IH in simp)
qed (auto intro: requests_reach.intros)

lemma decisions_snoc: "decisions (l @ [(j, d)]) i = decisions l i @ (if j = i then [d] else [])"
  by (simp add: decisions_def)

lemma log_ok_same:
  assumes "log_ok l rs" "\<forall>r \<in> set rs'. rq_status r = Pending \<or> r \<in> set rs" "distinct (map rq_id rs')"
    "\<forall>r \<in> set rs'. r \<notin> set rs \<longrightarrow> rq_id r \<notin> rq_id ` set rs"
    "\<forall>r \<in> set rs. rq_id r \<notin> rq_id ` set rs' \<longrightarrow> rq_status r = Pending"
  shows "log_ok l rs'"
  unfolding log_ok_def
proof (intro conjI ballI allI impI)
  fix r assume "r \<in> set rs'"
  then show "decisions l (rq_id r) = path_to (rq_status r)"
    using assms(1,2,4) by (cases "r \<in> set rs") (auto simp: log_ok_def)
next
  fix i assume "i \<notin> rq_id ` set rs'"
  then show "decisions l i = []"
    using assms(1,5) by (cases "i \<in> rq_id ` set rs") (auto simp: log_ok_def)
qed (rule assms(3))

lemma log_ok_write:
  assumes "log_ok l rs" "r \<in> set rs" "rq_status r = decides_from d"
  shows "log_ok (l @ [(rq_id r, d)]) (map (review_of d uid now remark (rq_id r)) rs)"
proof -
  have same: "r' = r" if "r' \<in> set rs" "rq_id r' = rq_id r" for r'
    using assms(1,2) that by (auto simp: log_ok_def distinct_map inj_on_def)
  have "decisions (l @ [(rq_id r, d)]) (rq_id r') = path_to (rq_status (review_of d uid now remark (rq_id r) r'))"
    if r': "r' \<in> set rs" for r'
    using assms r' same [OF r'] by (auto simp: log_ok_def decisions_snoc review_of_def)
  moreover have "map rq_id (map (review_of d uid now remark (rq_id r)) rs) = map rq_id rs"
    by (simp add: review_of_def)
  moreover have "rq_id ` review_of d uid now remark (rq_id r) ` set rs = rq_id ` set rs"
    by (simp add: image_image)
  ultimately show ?thesis
    using assms(1,2) by (auto simp: log_ok_def decisions_snoc simp del: map_map)
qed

lemma server_log: "server_reach uuid_of url_host org_of evs s \<Longrightarrow> log_ok (se_log s) (se_requests s)"
proof (induction rule: server_reach.induct)
  case (Asks s i seen now emp a)
  then show ?case
    by (cases rule: create_cases [of uuid_of url_host i now "org_of emp" emp seen a "se_requests s"])
       (auto intro!: log_ok_same [OF Asks.IH] elim!: create_check_Inr simp: insert_request_def log_ok_def)
next
  case (Withdraws s emp i)
  have "log_ok (se_log s) (snd (withdraw emp i (se_requests s)))"
    by (rule log_ok_same [OF Withdraws.IH])
       (use Withdraws.IH in \<open>auto simp: withdraw_def Let_def log_ok_def distinct_map inj_on_def\<close>)
  then show ?case by simp
next
  case (Writes s d uid remark ar now ans rs')
  note w = resolve_write_cases [OF Writes.hyps(3) server_reads [OF Writes.hyps(1,2)]]
  then show ?case
    using Writes.IH by (cases "is_answer ans") (auto dest: log_ok_write [where uid = uid and now = now and remark = remark])
qed (simp_all add: log_ok_def decisions_def)

text \<open>
  C7: Decisions act as if made in one step, however the calls of administrators overlap: the requests
  are those of some calls served one after the other, and the decisions that succeeded for a
  request are one approval, one refusal, or an approval and then its revocation, as its state says.
\<close>

theorem decisions_act_at_once:
  assumes "server_reach uuid_of url_host org_of evs s"
  shows "requests_reach uuid_of url_host org_of evs (se_requests s) \<and>
    decisions (se_log s) i \<in> {[], [Approve], [Deny], [Approve, Revoke]} \<and>
    (\<forall>r \<in> set (se_requests s). decisions (se_log s) (rq_id r) = path_to (rq_status r))"
proof -
  note l = server_log [OF assms]
  have "path_to st \<in> {[], [Approve], [Deny], [Approve, Revoke]}" for st
    by (cases st) simp_all
  then have "decisions (se_log s) i \<in> {[], [Approve], [Deny], [Approve, Revoke]}"
    using l by (cases "i \<in> rq_id ` set (se_requests s)") (force simp: log_ok_def)+
  then show ?thesis
    using l server_serial [OF assms] by (simp add: log_ok_def)
qed

definition one_request :: access_server where
  "one_request = \<lparr>se_requests = [payroll_request], se_reads = [], se_log = []\<rparr>"

definition both_read :: access_server where
  "both_read = one_request\<lparr>se_reads := [(Deny, ''bob'', ''No'', payroll_request), (Approve, ''ada'', [], payroll_request)]\<rparr>"

definition both_done :: access_server where
  "both_done =
     \<lparr>se_requests = [decided ''ada'' 6 [] Approved payroll_request], se_reads = [], se_log = [(''r1'', Approve)]\<rparr>"

text \<open>Two administrators read the request before either writes.\<close>

lemma both_done_reach: "server_reach Some (\<lambda>_. None) (\<lambda>_. ''acme'') {payroll_event} both_done"
proof -
  let ?reach = "server_reach Some (\<lambda>_. None) (\<lambda>_. ''acme'') {payroll_event}"
  have "?reach one_request"
    using Asks [OF Started, of "''r1''" "[payroll_event]" "{payroll_event}" Some "\<lambda>_. None" "\<lambda>_. ''acme''" 5
      "''riya''" payroll_asking]
    by (simp add: create_def payroll_check insert_request_def payroll_request_def one_request_def)
  then have "?reach (one_request\<lparr>se_reads := [(Approve, ''ada'', [], payroll_request)]\<rparr>)"
    using Reads [of Some "\<lambda>_. None" "\<lambda>_. ''acme''" "{payroll_event}" one_request "''acme''" "''r1''" Approve payroll_request "''ada''" "[]"]
    by (simp add: one_request_def resolve_read_def find_request_def payroll_request_def)
  then have "?reach both_read"
    using Reads [of Some "\<lambda>_. None" "\<lambda>_. ''acme''" "{payroll_event}"
      "one_request\<lparr>se_reads := [(Approve, ''ada'', [], payroll_request)]\<rparr>" "''acme''" "''r1''" Deny payroll_request "''bob''" "''No''"]
    by (simp add: one_request_def both_read_def resolve_read_def find_request_def payroll_request_def)
  then have "?reach (both_done\<lparr>se_reads := [(Deny, ''bob'', ''No'', payroll_request)]\<rparr>)"
    using Writes [of Some "\<lambda>_. None" "\<lambda>_. ''acme''" "{payroll_event}" both_read Approve "''ada''" "[]" payroll_request 6]
    by (simp add: both_read_def both_done_def one_request_def resolve_write_def payroll_request_def decided_def go_trim_def)
  then show ?thesis
    using Writes [of Some "\<lambda>_. None" "\<lambda>_. ''acme''" "{payroll_event}"
      "both_done\<lparr>se_reads := [(Deny, ''bob'', ''No'', payroll_request)]\<rparr>" Deny "''bob''" "''No''" payroll_request 7]
    by (simp add: both_done_def resolve_write_def payroll_request_def decided_def)
qed

lemma decisions_act_at_once_witness:
  "decisions (se_log both_done) ''r1'' \<in> {[], [Approve], [Deny], [Approve, Revoke]} \<and>
   requests_reach Some (\<lambda>_. None) (\<lambda>_. ''acme'') {payroll_event} (se_requests both_done)"
  using decisions_act_at_once [OF both_done_reach] by blast

section \<open>What stays open\<close>

lemma decide_answered:
  assumes "decide d org uid now i remark rs = (Answer n r, rs')" "distinct (map rq_id rs)"
  obtains r0 where "r0 \<in> set rs" "rq_id r0 = i" "rq_org r0 = org" "rq_status r0 = decides_from d"
    "r = decided uid now (go_trim remark) (decides_to d) r0" "rs' = map (review_of d uid now remark i) rs"
proof -
  obtain r0 where r0: "find_request org i rs = Some r0" "rq_status r0 = decides_from d"
    "resolve_write uid now remark r0 (decides_to d) rs = (Answer n r, rs')"
    using assms(1) by (auto simp: decide_eq split: option.splits if_splits)
  note m = find_request_SomeD [OF r0(1)]
  have rs': "rs' = map (review_of d uid now remark i) rs"
    using resolve_write_cases [OF r0(3,2)] conjunct1 [OF conjunct2 [OF m]] by auto
  have "find (\<lambda>r. rq_id r = i) rs' = Some (review_of d uid now remark i r0)"
    unfolding rs' using m assms(2) by (induction rs) (auto simp: review_of_def image_iff)
  moreover have "map (\<lambda>q. if rq_id q = i \<and> rq_status q = decides_from d
      then decided uid now (go_trim remark) (decides_to d) q else q) rs = rs'"
    unfolding rs' by (simp add: review_of_def)
  ultimately have "r = review_of d uid now remark i r0"
    using r0(2,3) m by (auto simp: resolve_write_def Let_def split: if_splits)
  then show thesis
    using m r0(2) rs' by (intro that [of r0]) (simp_all add: review_of_def)
qed

lemma filter_map_same:
  "\<forall>q \<in> set xs. P (f q) = P q \<and> (P q \<longrightarrow> f q = q) \<Longrightarrow> filter P (map f xs) = filter P xs"
  by (induction xs) auto

lemma approved_of_other:
  assumes "distinct (map rq_id rs)" "r0 \<in> set rs" "e \<noteq> rq_employee r0"
  shows "approved_of e k (map (review_of d uid now remark (rq_id r0)) rs) = approved_of e k rs"
proof -
  have same: "review_of d uid now remark (rq_id r0) q = q" if "q \<in> set rs" "rq_employee q = e" for q
    using assms that by (auto simp: review_of_def distinct_map inj_on_def)
  show ?thesis
    unfolding approved_of_def
    by (rule filter_map_same) (use same in auto)
qed


definition granted_payroll :: "request list" where
  "granted_payroll = [decided ''ada'' 6 [] Approved payroll_request]"

lemma granted_reach: "requests_reach Some (\<lambda>_. None) (\<lambda>_. ''acme'') {payroll_event} granted_payroll"
  using server_serial [OF both_done_reach] by (simp add: both_done_def granted_payroll_def)


lemma insert_request_set: "set (insert_request i now r rs) = insert (r\<lparr>rq_id := i, rq_created := now\<rparr>) (set rs)"
  by (simp add: insert_request_def)

text \<open>
  C11: The check for an open request and the insertion are two statements: two calls that are served
  together both insert. With both approved, revoking one leaves the site open, although the page
  says that the block applies again.
\<close>

theorem two_asks_open_twice:
  assumes "distinct (map rq_id rs)" "create_check uuid_of url_host org emp evs a rs = Inr r"
    "i \<notin> rq_id ` set rs" "j \<notin> rq_id ` set rs" "i \<noteq> j"
    "both = insert_request j t2 r (insert_request i t1 r rs)"
    "granted = snd (decide Approve org uid t4 j remark (snd (decide Approve org uid t3 i remark both)))"
  shows "\<exists>q \<in> set (snd (decide Revoke org uid t5 i remark granted)). thing q = thing r \<and> rq_status q = Approved"
proof -
  let ?ri = "r\<lparr>rq_id := i, rq_created := t1\<rparr>" and ?rj = "r\<lparr>rq_id := j, rq_created := t2\<rparr>"
  have st: "rq_status r = Pending" "rq_org r = org"
    using assms(2) by (auto elim: create_check_Inr)
  have ids: "distinct (map rq_id both)"
    using assms(1,3,4,5,6) by (simp add: insert_request_def)
  have mem: "?ri \<in> set both" "?rj \<in> set both"
    by (simp_all add: assms(6) insert_request_set)
  let ?one = "map (review_of Approve uid t3 remark i) both"
  have one: "snd (decide Approve org uid t3 i remark both) = ?one"
    using written_alone [OF ids mem(1), of Approve uid t3 remark] st by simp
  have ids1: "distinct (map rq_id ?one)"
    using ids by (simp add: comp_def)
  have mem1: "?rj \<in> set ?one" "review_of Approve uid t3 remark i ?ri \<in> set ?one"
    using mem assms(5) by (force simp: review_of_def)+
  let ?two = "map (review_of Approve uid t4 remark j) ?one"
  have two: "granted = ?two"
    using written_alone [OF ids1 mem1(1), of Approve uid t4 remark] st by (simp add: assms(7) one)
  have "review_of Approve uid t4 remark j ?rj \<in> set ?two"
    using mem1(1) by (simp del: map_map)
  moreover have "review_of Approve uid t4 remark j ?rj = decided uid t4 (go_trim remark) Approved ?rj"
    using st by (simp add: review_of_def)
  ultimately have mem2: "decided uid t4 (go_trim remark) Approved ?rj \<in> set granted"
    by (simp only: two)
  show ?thesis
    using decide_store [of Revoke org uid t5 i remark granted] mem2 assms(5)
    by (auto simp: review_of_def thing_def decided_def intro!: bexI [of _ "decided uid t4 (go_trim remark) Approved ?rj"])
qed

lemma two_asks_open_twice_witness:
  "let both = insert_request ''r2'' 6 (payroll_request\<lparr>rq_id := [], rq_created := 0\<rparr>) [payroll_request];
       granted = snd (decide Approve ''acme'' ''ada'' 8 ''r2'' [] (snd (decide Approve ''acme'' ''ada'' 7 ''r1'' [] both)))
   in \<exists>q \<in> set (snd (decide Revoke ''acme'' ''ada'' 9 ''r1'' [] granted)).
        thing q = thing payroll_request \<and> rq_status q = Approved"
  using two_asks_open_twice [OF _ payroll_check _ _ _ refl refl, of "''r1''" "''r2''" "''ada''" 9 "[]" 8 7 6 5]
  by (simp add: insert_request_def payroll_request_def thing_def)

section \<open>What reaches the devices\<close>

lemma set_allowed_hosts_Nil: "g_websites g = [] \<Longrightarrow> set (allowed_hosts apps org g) = {}"
  by (simp add: allowed_hosts_def)

lemma filter_kept:
  "\<forall>x \<in> set xs. P x \<longrightarrow> K x \<Longrightarrow> \<forall>y \<in> set ys. \<not> P y \<Longrightarrow> filter P (filter K xs @ ys) = filter P xs"
  by (induction xs) auto


definition linkedin :: managed_app where
  "linkedin = \<lparr>ma_org = None, ma_domains = [''linkedin.com'', ''www.licdn.com'']\<rparr>"

definition linkedin_request :: request where
  "linkedin_request = (decided ''ada'' 6 [] Approved payroll_request)
     \<lparr>rq_resource := ''linkedin.com'', rq_label := ''linkedin.com'', rq_domain := ''linkedin.com''\<rparr>"

definition block_rule :: "string option \<Rightarrow> string \<Rightarrow> domain_rule" where
  "block_rule org host =
     \<lparr>ru_org = org, ru_domain = host, ru_action = Block, ru_category = ''url_category'', ru_reason = [], ru_enabled = True\<rparr>"

text \<open>A site opens together with all hosts of the application the catalog files it under.\<close>

lemma linkedin_hosts:
  "set (allowed_hosts [linkedin] ''acme'' (approved_grants Some (Some ''riya'') [linkedin_request])) =
     {''linkedin.com'', ''licdn.com''}"
proof -
  have "allowed_hosts [linkedin] ''acme'' (approved_grants Some (Some ''riya'') [linkedin_request]) = [''licdn.com'', ''linkedin.com''] \<or>
    allowed_hosts [linkedin] ''acme'' (approved_grants Some (Some ''riya'') [linkedin_request]) = [''linkedin.com'', ''licdn.com'']"
    by code_simp
  then show ?thesis by auto
qed


text \<open>A host whose name starts with \<open>www.\<close> twice opens another one.\<close>

lemma approved_host_differs:
  "requestable_from Some (\<lambda>_. None) (payroll_event\<lparr>ae_domain := ''www.www.example.com''\<rparr>) =
     Some (Website, ''www.example.com'', ''www.example.com'') \<and>
   website_host (payroll_request\<lparr>rq_resource := ''www.example.com''\<rparr>) = ''example.com''"
  by code_simp

end
