(* ===== verification/Access_Pages.thy ===== *)
theory Access_Pages
  imports Access_Requests
begin

text \<open>
  The two pages around requests for access: the activity page of the employee portal
  (\<^verbatim>\<open>employee-portal/src/app/dashboard/activity/page.tsx\<close>), where an employee asks, and the page of the
  company dashboard where an administrator decides
  (\<^verbatim>\<open>company-dashboard/src/app/dashboard/access-requests/page.tsx\<close>). Both are related to the API of
  \<^verbatim>\<open>Access_Requests\<close>: what a page offers is what the API then does.
\<close>

section \<open>The employee's words\<close>

fun kind_noun :: "req_kind \<Rightarrow> string" where
  "kind_noun Website = ''Website''"
| "kind_noun Application = ''Application''"
| "kind_noun Extension = ''Browser extension''"
| "kind_noun Download = ''Download''"
| "kind_noun Dlp = ''Data sharing''"

fun kind_button :: "req_kind \<Rightarrow> string" where
  "kind_button Website = ''Request access''"
| "kind_button Application = ''Request access''"
| "kind_button Extension = ''Request approval''"
| "kind_button Download = ''Request release''"
| "kind_button Dlp = ''Explain''"

fun status_label :: "req_status \<Rightarrow> string" where
  "status_label Pending = ''Waiting for review''"
| "status_label Approved = ''Access granted''"
| "status_label Denied = ''Declined''"
| "status_label Revoked = ''Revoked''"

text \<open>\<open>AccessCell\<close>: what the employee can do about a row.\<close>

datatype cell = Nothing_To_Do | Fix_On_Device | Badge string | Ask "string option" string

definition access_cell :: "string \<Rightarrow> portal_access option \<Rightarrow> cell" where
  "access_cell category a =
     (case a of
        None \<Rightarrow> if category = ''device_posture'' then Fix_On_Device else Nothing_To_Do
      | Some pa \<Rightarrow>
          (case pa_request pa of
             None \<Rightarrow> Ask None (kind_button (pa_kind pa))
           | Some (st, i, remark) \<Rightarrow>
               if st = Pending \<or> st = Approved
               then Badge (if pa_kind pa = Dlp \<and> st = Approved then ''Approved'' else status_label st)
               else Ask (Some (status_label st)) ''Ask again''))"

text \<open>\<open>describe\<close>: the symbol, the name and the second line of a row; the API sends objects.\<close>

definition filled :: "jsval list \<Rightarrow> jsval" where
  "filled vs = foldr or_falsy (butlast vs) (last vs)"

definition js_one_of :: "jsval \<Rightarrow> string list \<Rightarrow> bool" where
  "js_one_of v xs = (\<exists>x \<in> set xs. v = JStr x)"

definition describe :: "jsval \<Rightarrow> string \<times> jsval \<times> jsval" where
  "describe ev =
     (let cat = to_lower (js_to_string (or_nullish (jget ev ''category'') (JStr [])));
          meta = or_nullish (jget ev ''metadata'') (JObj []);
          domain = or_falsy (jget ev ''target_domain'') (jget ev ''target'');
          app = jget ev ''target_app''
      in if cat = ''malware'' \<or> cat = ''malware_detection'' then
           (''Bug'', or_falsy (jget ev ''target'') (JStr ''Downloaded file''), jget ev ''target_domain'')
         else if cat = ''dlp'' then
           (''FileWarning'',
            JStr (js_to_string (or_falsy (jget ev ''operation'') (JStr ''Data sent'')) @ '' to '' @
              js_to_string (filled [jget meta ''service'', jget meta ''destination'', jget meta ''app_name'', app,
                jget ev ''target_domain'', JStr ''Unknown destination''])),
            or_falsy (jget ev ''target'') (jget meta ''site''))
         else if cat = ''device_posture'' then
           (''Laptop'', JStr ''Device security check'', jget ev ''policy_name'')
         else if jget meta ''kind'' = JStr ''browser_extension'' then
           (''Puzzle'', or_falsy (jget ev ''target'') (JStr ''Browser extension''),
            JStr (join '' . '' (map js_to_string (filter truthy
              [jget meta ''browser'',
               if is_array (jget meta ''profiles'')
               then JStr (show_nat (length (arr_items (jget meta ''profiles''))) @ '' profiles'')
               else jget meta ''profile'']))))
         else if js_one_of (jget ev ''event_type'') [''process_start'', ''app_launch'', ''app_install''] then
           (''AppWindow'', filled [jget ev ''target'', jget ev ''process_name'', JStr ''Application''], jget ev ''operation'')
         else if js_one_of (jget ev ''event_type'') [''device_connect'', ''device_disconnect'', ''device_uninstall''] then
           (''Laptop'', or_falsy (jget ev ''target'') (JStr ''Device''), jget ev ''operation'')
         else (''Globe'', filled [app, domain, JStr ''-''], if truthy app \<and> app \<noteq> domain then domain else JUndef))"

text \<open>\<open>reasonOf\<close>\<close>

definition strip_policy :: "string \<Rightarrow> string" where
  "strip_policy s = (if starts_with s ''Policy:'' then dropWhile is_ws (drop 7 s) else s)"

definition reason_of :: "jsval \<Rightarrow> jsval" where
  "reason_of ev =
     (let pol = jget ev ''policy_name''
      in if jget ev ''category'' = JStr ''dlp''
         then (let ms = arr_items (jget (jget ev ''metadata'') ''matches'')
               in filled [case ms of [] \<Rightarrow> JUndef | m # _ \<Rightarrow> m, pol, JStr ''Sensitive data detected''])
         else JStr (strip_policy (js_to_string (or_falsy pol (JStr ''Company policy'')))))"

section \<open>The activity page of the portal\<close>

definition portal_sources :: "string list" where
  "portal_sources = [[], ''web_gateway'', ''application'', ''dlp'', ''malware'', ''device_posture'', ''device'']"

definition portal_actions :: "string list" where
  "portal_actions = [[], ''blocked'', ''alerted'']"

definition portal_days :: "int list" where
  "portal_days = [1, 7, 30]"

text \<open>
  A dialog has a number, since the answer to its request can come when it is closed; \<open>pp_waiting\<close>
  are the requests under way with the number of their dialog.
\<close>

record request_dialog =
  rd_number :: nat
  rd_event :: string
  rd_reason :: string

record asking_page =
  pp_requests_view :: bool
  pp_page :: int
  pp_limit :: int
  pp_days :: int
  pp_search :: string
  pp_action :: string
  pp_source :: string
  pp_dialog :: "request_dialog option"
  pp_opened :: nat
  pp_waiting :: "nat list"
  pp_asked :: "(string \<times> string) list"
  pp_withdrawing :: bool
  pp_withdrawn :: "string list"

definition known_or_all :: "string list \<Rightarrow> string option \<Rightarrow> string" where
  "known_or_all xs v = (case v of None \<Rightarrow> [] | Some x \<Rightarrow> if x \<in> set xs then x else [])"

text \<open>The page as its address opens it: \<open>?view\<close>, \<open>?action\<close> and \<open>?source\<close>.\<close>

definition open_portal :: "string option \<Rightarrow> string option \<Rightarrow> string option \<Rightarrow> asking_page" where
  "open_portal view action source =
     \<lparr>pp_requests_view = (view = Some ''requests''), pp_page = 1, pp_limit = 25, pp_days = 7, pp_search = [],
      pp_action = known_or_all portal_actions action, pp_source = known_or_all portal_sources source,
      pp_dialog = None, pp_opened = 0, pp_waiting = [], pp_asked = [], pp_withdrawing = False, pp_withdrawn = []\<rparr>"

datatype asking_event =
    Show_Requests bool
  | Choose_Source string
  | Choose_Action string
  | Choose_Days int
  | Type_Search string
  | Go_To int
  | Choose_Limit int
  | Open_Dialog string
  | Close_Dialog
  | Type_Reason string
  | Send
  | Sent nat bool
  | Withdraw string
  | Withdrawn

definition sending :: "asking_page \<Rightarrow> bool" where
  "sending s = (case pp_dialog s of None \<Rightarrow> False | Some d \<Rightarrow> rd_number d \<in> set (pp_waiting s))"

definition can_send :: "asking_page \<Rightarrow> bool" where
  "can_send s =
     (case pp_dialog s of None \<Rightarrow> False
      | Some d \<Rightarrow> 5 \<le> length (trim (rd_reason d)) \<and> rd_number d \<notin> set (pp_waiting s))"

text \<open>
  Choices are those the page offers. The dialog covers the page: a row's button opens it only
  while none is open. \<open>Sent k ok\<close> is the answer to the request of dialog \<open>k\<close>; with success it
  closes whichever dialog is open.
\<close>

fun asking_step :: "asking_event \<Rightarrow> asking_page \<Rightarrow> asking_page" where
  "asking_step (Show_Requests b) s = s\<lparr>pp_requests_view := b\<rparr>"
| "asking_step (Choose_Source v) s =
     (if v \<in> set portal_sources then s\<lparr>pp_source := v, pp_page := 1\<rparr> else s)"
| "asking_step (Choose_Action v) s =
     (if v \<in> set portal_actions then s\<lparr>pp_action := v, pp_page := 1\<rparr> else s)"
| "asking_step (Choose_Days n) s = (if n \<in> set portal_days then s\<lparr>pp_days := n, pp_page := 1\<rparr> else s)"
| "asking_step (Type_Search t) s = s\<lparr>pp_search := t, pp_page := 1\<rparr>"
| "asking_step (Go_To p) s = s\<lparr>pp_page := p\<rparr>"
| "asking_step (Choose_Limit n) s = s\<lparr>pp_limit := n, pp_page := 1\<rparr>"
| "asking_step (Open_Dialog i) s =
     (if pp_dialog s \<noteq> None then s
      else s\<lparr>pp_dialog := Some \<lparr>rd_number = pp_opened s, rd_event = i, rd_reason = []\<rparr>, pp_opened := Suc (pp_opened s)\<rparr>)"
| "asking_step Close_Dialog s = s\<lparr>pp_dialog := None\<rparr>"
| "asking_step (Type_Reason t) s =
     (case pp_dialog s of None \<Rightarrow> s | Some d \<Rightarrow> s\<lparr>pp_dialog := Some (d\<lparr>rd_reason := take 1000 t\<rparr>)\<rparr>)"
| "asking_step Send s =
     (case pp_dialog s of None \<Rightarrow> s
      | Some d \<Rightarrow>
          if can_send s
          then s\<lparr>pp_waiting := rd_number d # pp_waiting s, pp_asked := pp_asked s @ [(rd_event d, trim (rd_reason d))]\<rparr>
          else s)"
| "asking_step (Sent k ok) s =
     (if k \<in> set (pp_waiting s)
      then s\<lparr>pp_waiting := remove1 k (pp_waiting s), pp_dialog := (if ok then None else pp_dialog s)\<rparr>
      else s)"
| "asking_step (Withdraw i) s =
     (if pp_withdrawing s then s else s\<lparr>pp_withdrawing := True, pp_withdrawn := pp_withdrawn s @ [i]\<rparr>)"
| "asking_step Withdrawn s = s\<lparr>pp_withdrawing := False\<rparr>"

definition asking_run :: "asking_event list \<Rightarrow> asking_page \<Rightarrow> asking_page" where
  "asking_run es s = fold asking_step es s"

text \<open>The query the page sends, and how often it sends it again without a live connection.\<close>

definition activity_query :: "asking_page \<Rightarrow> (string \<times> jsval) list" where
  "activity_query s =
     [(''page'', JNum (pp_page s)), (''limit'', JNum (pp_limit s)), (''days'', JNum (pp_days s))] @
     (if pp_action s \<noteq> [] then [(''action'', JStr (pp_action s))] else []) @
     (if pp_source s \<noteq> [] then [(''source'', JStr (pp_source s))] else []) @
     (if pp_search s \<noteq> [] then [(''search'', JStr (pp_search s))] else [])"

definition refetch_interval :: "bool \<Rightarrow> int" where
  "refetch_interval live = (if live then 60000 else 15000)"

text \<open>A live message asks for the list again when it is about an activity of this employee.\<close>

definition asks_again :: "jsval \<Rightarrow> jsval option \<Rightarrow> bool" where
  "asks_again employee m =
     (case m of None \<Rightarrow> False
      | Some msg \<Rightarrow> jget msg ''type'' = JStr ''activity_event'' \<and> jget (jget msg ''payload'') ''employee_id'' = employee)"

section \<open>What the portal sends\<close>

lemma asking_run_snoc: "asking_run (es @ [e]) s = asking_step e (asking_run es s)"
  by (simp add: asking_run_def)

definition asking_ok :: "asking_page \<Rightarrow> bool" where
  "asking_ok s =
     (pp_action s \<in> set portal_actions \<and> pp_source s \<in> set portal_sources \<and> pp_days s \<in> set portal_days \<and>
      distinct (pp_waiting s) \<and> (\<forall>k \<in> set (pp_waiting s). k < pp_opened s) \<and>
      (\<forall>d. pp_dialog s = Some d \<longrightarrow> rd_number d < pp_opened s \<and> length (rd_reason d) \<le> 1000) \<and>
      (\<forall>q \<in> set (pp_asked s). 5 \<le> length (snd q) \<and> length (snd q) \<le> 1000 \<and> trim (snd q) = snd q))"

lemma known_or_all_in: "known_or_all xs v \<in> insert [] (set xs)"
  by (simp add: known_or_all_def split: option.split)

lemma asking_ok_open: "asking_ok (open_portal view action source)"
  using known_or_all_in [of portal_actions action] known_or_all_in [of portal_sources source]
  by (auto simp: asking_ok_def open_portal_def portal_actions_def portal_sources_def portal_days_def)

lemma asking_ok_step: "asking_ok s \<Longrightarrow> asking_ok (asking_step e s)"
proof (cases e)
  case Send
  assume ok: "asking_ok s"
  show ?thesis
  proof (cases "pp_dialog s")
    case (Some d)
    have "length (trim (rd_reason d)) \<le> 1000"
      using ok Some length_trim [of "rd_reason d"] by (auto simp: asking_ok_def)
    then show ?thesis
      using ok Some Send by (auto simp: asking_ok_def can_send_def trim_trim)
  qed (use ok Send in simp)
next
  case (Sent k b)
  assume "asking_ok s"
  then show ?thesis
    using Sent set_remove1_subset [of k "pp_waiting s"] by (auto simp: asking_ok_def)
next
  case (Open_Dialog i)
  assume "asking_ok s"
  then show ?thesis using Open_Dialog by (auto simp: asking_ok_def less_SucI)
next
  case (Type_Reason t)
  assume "asking_ok s"
  then show ?thesis using Type_Reason by (auto simp: asking_ok_def split: option.split)
qed (auto simp: asking_ok_def)

lemma asking_ok_run: "asking_ok (asking_run es (open_portal view action source))"
  by (induction es rule: rev_induct)
     (simp_all add: asking_run_snoc asking_ok_step asking_ok_open, simp add: asking_run_def asking_ok_open)

lemma create_check_reason:
  assumes "create_check uuid_of url_host org emp evs a rs = Inr q"
  shows "rq_reason q = take 1000 (go_trim (as_reason a))"
  using assms unfolding create_check_def Let_def
  by (auto split: if_splits sum.splits option.splits prod.splits)

text \<open>
  Whatever the address says and the employee types, every request the page sends has a reason that
  the API takes as it is, with one exception: the next-line character, which only the API cuts off.
\<close>

theorem sent_reasons_accepted:
  assumes "(i, reason) \<in> set (pp_asked (asking_run es (open_portal view action source)))"
    "CHR 0x85 \<notin> set reason"
  shows "create_check uuid_of url_host org emp evs \<lparr>as_event = i, as_domain = [], as_reason = reason\<rparr> rs \<noteq>
      Inl (Refusal 400 ''Tell your company why you need this (a few words at least)'') \<and>
    (\<forall>q. create_check uuid_of url_host org emp evs \<lparr>as_event = i, as_domain = [], as_reason = reason\<rparr> rs = Inr q \<longrightarrow>
       rq_reason q = reason)"
proof -
  have r: "5 \<le> length reason" "length reason \<le> 1000" "go_trim reason = reason"
    using assms asking_ok_run [of es view action source] by (auto simp: asking_ok_def go_trim_trim)
  have "create_check uuid_of url_host org emp evs \<lparr>as_event = i, as_domain = [], as_reason = reason\<rparr> rs \<noteq>
      Inl (Refusal 400 ''Tell your company why you need this (a few words at least)'')"
    using r by (auto simp: create_check_def asked_event_def Let_def
        split: if_splits sum.splits option.splits prod.splits list.splits)
  then show ?thesis
    using r create_check_reason by fastforce
qed

lemma sent_reasons_accepted_witness:
  "create_check Some (\<lambda>_. None) ''acme'' ''riya'' [payroll_event] \<lparr>as_event = ''e1'', as_domain = [], as_reason = ''Salary''\<rparr> [] \<noteq>
     Inl (Refusal 400 ''Tell your company why you need this (a few words at least)'')"
proof -
  have "(''e1'', ''Salary'') \<in> set (pp_asked (asking_run [Open_Dialog ''e1'', Type_Reason '' Salary '', Send]
      (open_portal None None None)))" "CHR 0x85 \<notin> set ''Salary''"
    by code_simp+
  from sent_reasons_accepted [OF this] show ?thesis by blast
qed

text \<open>The address opens known filters only, and every change of a filter shows the first page.\<close>

lemma portal_filters_known:
  "let s = asking_run es (open_portal view action source)
   in pp_action s \<in> set portal_actions \<and> pp_source s \<in> set portal_sources \<and> pp_days s \<in> set portal_days"
  using asking_ok_run [of es view action source] by (simp add: asking_ok_def Let_def)

lemma portal_first_page:
  assumes "\<forall>p. e \<noteq> Go_To p"
  shows "activity_query (asking_step e s) = activity_query s \<or> pp_page (asking_step e s) = 1"
  using assms by (cases e) (auto simp: activity_query_def split: option.split)

text \<open>The answer to a request closes the dialog that is open then, with what was typed into it.\<close>

lemma late_answer_closes_dialog:
  "pp_dialog (asking_run [Open_Dialog a, Type_Reason ''first one'', Send, Close_Dialog, Open_Dialog b, Type_Reason t, Sent 0 True]
     (open_portal None None None)) = None"
proof -
  have "5 \<le> length (trim ''first one'')" "take 1000 ''first one'' = ''first one''"
    by code_simp+
  then show ?thesis
    by (simp add: asking_run_def open_portal_def can_send_def)
qed

section \<open>A button means a new request\<close>

lemma kind_key_inject:
  "kind_name k @ ''|'' @ res = kind_name k' @ ''|'' @ res' \<longleftrightarrow> k = k' \<and> res = res'"
  by (cases k; cases k') auto

lemma latest_request_eq:
  "latest_request emp k res rs = find (\<lambda>r. thing r = (emp, k, res)) (rev rs)"
  unfolding latest_request_def kind_key_inject thing_def
  by (rule find_cong) auto

lemma find_SomeD: "find P xs = Some x \<Longrightarrow> x \<in> set xs \<and> P x"
  by (induction xs) (auto split: if_splits)

lemma find_append: "find P (xs @ ys) = (case find P xs of None \<Rightarrow> find P ys | Some x \<Rightarrow> Some x)"
  by (induction xs) auto

text \<open>An open request for a thing is always the latest one.\<close>

lemma latest_open:
  assumes "sorted_wrt closed_before rs"
  shows "open_request emp k res rs =
    (case latest_request emp k res rs of
       None \<Rightarrow> None
     | Some r \<Rightarrow> if open_status (rq_status r) then Some r else None)"
  using assms
proof (induction rs rule: rev_induct)
  case Nil
  then show ?case by (simp add: open_request_def latest_request_eq)
next
  case (snoc r rs)
  have sorted: "sorted_wrt closed_before rs" "\<forall>q \<in> set rs. closed_before q r"
    using snoc.prems by (auto simp: sorted_wrt_append)
  show ?case
  proof (cases "thing r = (emp, k, res)")
    case True
    have "open_request emp k res rs = None"
      using sorted(2) True by (auto simp: open_request_None closed_before_def)
    then show ?thesis
      using True by (auto simp: open_request_def find_append latest_request_eq thing_def)
  next
    case False
    then have "open_request emp k res (rs @ [r]) = open_request emp k res rs"
      by (auto simp: open_request_def find_append thing_def split: option.split)
    then show ?thesis
      using snoc.IH [OF sorted(1)] False by (simp add: latest_request_eq)
  qed
qed

lemma create_on_own_event:
  assumes "uuid_of (ae_id ev) = Some (ae_id ev)" "ae_id ev \<noteq> []" "ev \<in> set evs" "ae_employee ev = Some emp"
    "\<forall>e \<in> set evs. ae_id e = ae_id ev \<longrightarrow> e = ev" "5 \<le> length (go_trim reason)"
  shows "create_check uuid_of url_host org emp evs \<lparr>as_event = ae_id ev, as_domain = [], as_reason = reason\<rparr> rs =
    (case requestable_from uuid_of url_host ev of
       None \<Rightarrow> Inl (Refusal 422 ''There is nothing to request for this activity'')
     | Some (k, res, label) \<Rightarrow>
         (case open_request emp k res rs of
            Some r \<Rightarrow> Inl (Answer 200 r)
          | None \<Rightarrow>
              if length (pending_of emp rs) \<ge> max_pending_per_employee
              then Inl (Refusal 429 ''You have too many requests waiting. Wait for your company to review them first.'')
              else Inr \<lparr>rq_id = [], rq_org = org, rq_employee = emp, rq_kind = k, rq_resource = res,
                     rq_label = label, rq_event = ae_id ev, rq_policy = ae_policy ev,
                     rq_domain = (if k = Website then res else []), rq_reason = take 1000 (go_trim reason), rq_status = Pending,
                     rq_created = 0, rq_reviewer = None, rq_reviewed = None, rq_note = []\<rparr>))"
proof -
  let ?own = "filter (\<lambda>e. ae_id e = ae_id ev) (own_events emp evs)"
  have "ev \<in> set ?own" "\<forall>e \<in> set ?own. e = ev"
    using assms(3-5) by (auto simp: own_events_def)
  then obtain es where "?own = ev # es"
    by (cases ?own) auto
  then have "asked_event uuid_of emp evs \<lparr>as_event = ae_id ev, as_domain = [], as_reason = reason\<rparr> = Inr ev"
    using assms(1,2) by (simp add: asked_event_def)
  then show ?thesis
    using assms(6) by (simp add: create_check_def Let_def)
qed

text \<open>
  C9: What a row of the portal shows is what asking for it does: with a button a new request is made,
  unless 25 are waiting; with a badge the API gives back the open request; otherwise there is
  nothing to ask for.
\<close>

theorem button_means_new_request:
  assumes "requests_reach uuid_of url_host org_of evs rs" "set seen \<subseteq> evs"
    "uuid_of (ae_id ev) = Some (ae_id ev)" "ae_id ev \<noteq> []" "ev \<in> set seen" "ae_employee ev = Some emp"
    "\<forall>e \<in> set seen. ae_id e = ae_id ev \<longrightarrow> e = ev" "5 \<le> length (go_trim reason)"
    "ans = fst (create uuid_of url_host i now (org_of emp) emp seen \<lparr>as_event = ae_id ev, as_domain = [], as_reason = reason\<rparr> rs)"
  shows "case access_cell (ae_category ev) (with_access uuid_of url_host emp rs ev) of
      Ask st label \<Rightarrow>
        (if length (pending_of emp rs) \<ge> 25
         then ans = Refusal 429 ''You have too many requests waiting. Wait for your company to review them first.''
         else \<exists>r. ans = Answer 201 r \<and> rq_status r = Pending \<and> rq_employee r = emp \<and> rq_event r = ae_id ev)
    | Badge b \<Rightarrow> \<exists>r. ans = Answer 200 r \<and> r \<in> set rs \<and> open_status (rq_status r) \<and> rq_employee r = emp
    | _ \<Rightarrow> ans = Refusal 422 ''There is nothing to request for this activity''"
proof (cases "requestable_from uuid_of url_host ev")
  case None
  then show ?thesis
    using assms(9) create_on_own_event [of uuid_of ev seen emp reason url_host "org_of emp" rs, OF assms(3-8)]
    by (simp add: create_def with_access_def access_cell_def)
next
  case (Some t)
  obtain k res label where t: "t = (k, res, label)" by (cases t) auto
  have "sorted_wrt closed_before rs"
    using reach_requests_ok [OF assms(1)] by (simp add: requests_ok_def)
  note latest = latest_open [OF this, of emp k res]
  have found: "r \<in> set rs \<and> rq_employee r = emp" if "latest_request emp k res rs = Some r" for r
    using find_SomeD that unfolding latest_request_def by fastforce
  show ?thesis
    using Some t assms(9) create_on_own_event [of uuid_of ev seen emp reason url_host "org_of emp" rs, OF assms(3-8)] latest found
    by (auto simp: create_def with_access_def access_cell_def open_status_def max_pending_per_employee_def
        split: option.splits)
qed

lemma button_means_new_request_witness:
  "access_cell (ae_category payroll_event) (with_access Some (\<lambda>_. None) ''riya'' [payroll_request] payroll_event) =
     Badge ''Waiting for review'' \<and>
   (\<exists>r. fst (create Some (\<lambda>_. None) ''r2'' 9 ''acme'' ''riya'' [payroll_event]
        \<lparr>as_event = ae_id payroll_event, as_domain = [], as_reason = ''Salary slips''\<rparr> [payroll_request]) = Answer 200 r \<and>
      open_status (rq_status r))"
proof -
  have e: "Some (ae_id payroll_event) = Some (ae_id payroll_event)" "ae_id payroll_event \<noteq> []"
    "payroll_event \<in> set [payroll_event]" "ae_employee payroll_event = Some ''riya''"
    "\<forall>e \<in> set [payroll_event]. ae_id e = ae_id payroll_event \<longrightarrow> e = payroll_event"
    "5 \<le> length (go_trim ''Salary slips'')" "set [payroll_event] \<subseteq> {payroll_event}"
    and cell: "access_cell (ae_category payroll_event)
      (with_access Some (\<lambda>_. None) ''riya'' [payroll_request] payroll_event) = Badge ''Waiting for review''"
    by (simp, simp add: payroll_event_def, simp, simp add: payroll_event_def, simp, code_simp, simp, code_simp)
  show ?thesis
    using button_means_new_request [OF payroll_reach e(7) e(1-6) refl, of "''r2''" 9] cell by auto
qed

section \<open>The page of the company\<close>

fun approve_label :: "req_kind \<Rightarrow> string" where
  "approve_label Download = ''Release file''"
| "approve_label Dlp = ''Mark justified''"
| "approve_label _ = ''Approve''"

text \<open>The buttons of a row, and the word in its badge.\<close>

definition offered :: "request \<Rightarrow> decision list" where
  "offered r =
     (if rq_status r = Pending then [Approve, Deny]
      else if rq_status r = Approved \<and> rq_kind r \<noteq> Dlp then [Revoke] else [])"

definition badge_word :: "request \<Rightarrow> string" where
  "badge_word r = (if rq_kind r = Dlp \<and> rq_status r = Approved then ''justified'' else status_name (rq_status r))"

definition status_tabs :: "req_status option list" where
  "status_tabs = [Some Pending, Some Approved, Some Denied, Some Revoked, None]"

record decision_dialog =
  dd_number :: nat
  dd_request :: request
  dd_action :: decision
  dd_note :: string

record review_page =
  rv_tab :: "req_status option"
  rv_kind :: "req_kind option"
  rv_search :: string
  rv_debounced :: string
  rv_timer :: bool
  rv_page :: int
  rv_limit :: int
  rv_rows :: "request list"
  rv_dialog :: "decision_dialog option"
  rv_opened :: nat
  rv_waiting :: "nat list"
  rv_calls :: "(decision \<times> string \<times> string option) list"

definition open_review :: review_page where
  "open_review =
     \<lparr>rv_tab = Some Pending, rv_kind = None, rv_search = [], rv_debounced = [], rv_timer = True, rv_page = 1, rv_limit = 25,
      rv_rows = [], rv_dialog = None, rv_opened = 0, rv_waiting = [], rv_calls = []\<rparr>"

datatype review_event =
    Pick_Tab "req_status option"
  | Pick_Kind "req_kind option"
  | Type_Filter string
  | Timer_Fires
  | Pick_Page int
  | Pick_Limit int
  | Listed "request list"
  | Press request decision
  | Dismiss
  | Type_Note string
  | Confirm
  | Decision_Answer nat bool

definition note_of :: "string \<Rightarrow> string option" where
  "note_of t = (if trim t = [] then None else Some (trim t))"

fun review_step :: "review_event \<Rightarrow> review_page \<Rightarrow> review_page" where
  "review_step (Pick_Tab t) s = s\<lparr>rv_tab := t, rv_page := 1\<rparr>"
| "review_step (Pick_Kind k) s = s\<lparr>rv_kind := k, rv_page := 1\<rparr>"
| "review_step (Type_Filter t) s = s\<lparr>rv_search := t, rv_page := 1, rv_timer := True\<rparr>"
| "review_step Timer_Fires s =
     (if rv_timer s then s\<lparr>rv_debounced := trim (rv_search s), rv_timer := False\<rparr> else s)"
| "review_step (Pick_Page p) s = s\<lparr>rv_page := p\<rparr>"
| "review_step (Pick_Limit n) s = s\<lparr>rv_limit := n, rv_page := 1\<rparr>"
| "review_step (Listed rs) s = s\<lparr>rv_rows := rs\<rparr>"
| "review_step (Press r d) s =
     (if rv_dialog s = None \<and> r \<in> set (rv_rows s) \<and> d \<in> set (offered r)
      then s\<lparr>rv_dialog := Some \<lparr>dd_number = rv_opened s, dd_request = r, dd_action = d, dd_note = []\<rparr>,
             rv_opened := Suc (rv_opened s)\<rparr>
      else s)"
| "review_step Dismiss s = s\<lparr>rv_dialog := None\<rparr>"
| "review_step (Type_Note t) s =
     (case rv_dialog s of None \<Rightarrow> s | Some d \<Rightarrow> s\<lparr>rv_dialog := Some (d\<lparr>dd_note := take 500 t\<rparr>)\<rparr>)"
| "review_step Confirm s =
     (case rv_dialog s of None \<Rightarrow> s
      | Some d \<Rightarrow>
          if dd_number d \<in> set (rv_waiting s) then s
          else s\<lparr>rv_waiting := dd_number d # rv_waiting s,
                 rv_calls := rv_calls s @ [(dd_action d, rq_id (dd_request d), note_of (dd_note d))]\<rparr>)"
| "review_step (Decision_Answer k ok) s =
     (if k \<in> set (rv_waiting s)
      then s\<lparr>rv_waiting := remove1 k (rv_waiting s), rv_dialog := (if ok then None else rv_dialog s)\<rparr>
      else s)"

definition review_run :: "review_event list \<Rightarrow> review_page \<Rightarrow> review_page" where
  "review_run es s = fold review_step es s"

text \<open>The number on a tab, from the counts of the answer.\<close>

definition tab_count :: "(req_status \<Rightarrow> nat) \<Rightarrow> req_status option \<Rightarrow> nat" where
  "tab_count counts t =
     (case t of Some st \<Rightarrow> counts st
      | None \<Rightarrow> counts Pending + counts Approved + counts Denied + counts Revoked)"

definition tab_statuses :: "req_status option \<Rightarrow> req_status list" where
  "tab_statuses t = (case t of None \<Rightarrow> [] | Some st \<Rightarrow> [st])"

section \<open>What the company decides\<close>

lemma review_run_snoc: "review_run (es @ [e]) s = review_step e (review_run es s)"
  by (simp add: review_run_def)

definition was_offered :: "review_event list \<Rightarrow> decision \<Rightarrow> request \<Rightarrow> bool" where
  "was_offered es d r = (d \<in> set (offered r) \<and> (\<exists>rs. Listed rs \<in> set es \<and> r \<in> set rs))"

definition decisions_ok :: "review_event list \<Rightarrow> review_page \<Rightarrow> bool" where
  "decisions_ok es s =
     ((\<forall>r \<in> set (rv_rows s). \<exists>rs. Listed rs \<in> set es \<and> r \<in> set rs) \<and>
      (\<forall>d. rv_dialog s = Some d \<longrightarrow>
         was_offered es (dd_action d) (dd_request d) \<and> length (dd_note d) \<le> 500 \<and> dd_number d < rv_opened s) \<and>
      (\<forall>(d, i, n) \<in> set (rv_calls s).
         (\<exists>r. rq_id r = i \<and> was_offered es d r) \<and>
         (\<forall>t. n = Some t \<longrightarrow> t \<noteq> [] \<and> trim t = t \<and> length t \<le> 500)))"

lemma was_offered_mono: "was_offered es d r \<Longrightarrow> was_offered (es @ [e]) d r"
  by (auto simp: was_offered_def)

lemma decisions_ok_mono: "decisions_ok es s \<Longrightarrow> decisions_ok (es @ [e]) s"
  by (fastforce simp: decisions_ok_def intro: was_offered_mono)

lemma note_of_ok: "length t \<le> 500 \<Longrightarrow> note_of t = Some u \<Longrightarrow> u \<noteq> [] \<and> trim u = u \<and> length u \<le> 500"
  using length_trim [of t] by (auto simp: note_of_def trim_trim split: if_splits)

lemma decisions_ok_step: "decisions_ok es s \<Longrightarrow> decisions_ok (es @ [e]) (review_step e s)"
proof -
  assume "decisions_ok es s"
  then have ok: "decisions_ok (es @ [e]) s"
    by (rule decisions_ok_mono)
  show ?thesis
  proof (cases e)
    case (Press r d)
    then show ?thesis using ok by (auto simp: decisions_ok_def was_offered_def less_SucI)
  next
    case (Type_Note t)
    then show ?thesis using ok by (auto simp: decisions_ok_def split: option.split)
  next
    case Confirm
    then show ?thesis using ok by (auto simp: decisions_ok_def dest: note_of_ok split: option.split)
  qed (use ok in \<open>auto simp: decisions_ok_def\<close>)
qed

lemma decisions_ok_run: "decisions_ok es (review_run es open_review)"
proof (induction es rule: rev_induct)
  case Nil
  show ?case by (simp add: review_run_def open_review_def decisions_ok_def)
next
  case (snoc e es)
  then show ?case by (simp add: review_run_snoc decisions_ok_step)
qed



text \<open>
  In every run of the page each call is one that a listed row offered, for that row's request, and
  its note is missing or a text of at most 500 characters without space around it.
\<close>

theorem calls_were_offered:
  assumes "(d, i, n) \<in> set (rv_calls (review_run es open_review))"
  shows "(\<exists>rs r. Listed rs \<in> set es \<and> r \<in> set rs \<and> rq_id r = i \<and> d \<in> set (offered r)) \<and>
    (\<forall>t. n = Some t \<longrightarrow> t \<noteq> [] \<and> trim t = t \<and> length t \<le> 500)"
  using decisions_ok_run [of es] assms by (fastforce simp: decisions_ok_def was_offered_def)

lemma calls_were_offered_witness:
  "\<exists>rs r. Listed rs \<in> set [Listed [payroll_request], Press payroll_request Deny, Type_Note '' No '', Confirm] \<and> r \<in> set rs \<and>
     rq_id r = ''r1'' \<and> Deny \<in> set (offered r)"
proof -
  have "note_of (take 500 '' No '') = Some ''No''"
    by code_simp
  then have "(Deny, ''r1'', Some ''No'') \<in> set (rv_calls (review_run
      [Listed [payroll_request], Press payroll_request Deny, Type_Note '' No '', Confirm] open_review))"
    by (simp add: review_run_def open_review_def offered_def payroll_request_def)
  from calls_were_offered [OF this] show ?thesis by blast
qed

text \<open>
  The number on a tab is the number of requests that choosing the tab lists, over all its pages,
  under the same type and search.
\<close>

theorem tab_counts_rows:
  "tab_count (li_counts (list_requests matches org sts kind search pg lim rs)) t =
     li_total (list_requests matches org (tab_statuses t) kind search pg' lim' rs)"
proof -
  have "length (filter (\<lambda>r. rq_status r = Pending) xs) + length (filter (\<lambda>r. rq_status r = Approved) xs) +
      length (filter (\<lambda>r. rq_status r = Denied) xs) + length (filter (\<lambda>r. rq_status r = Revoked) xs) = length xs" for xs
    by (induction xs) (auto, metis req_status.exhaust)
  then show ?thesis
    by (cases t) (simp_all add: list_requests_def tab_count_def tab_statuses_def Let_def del: filter_filter)
qed

text \<open>An answer that comes late closes the dialog of another request.\<close>

lemma late_decision_closes_dialog:
  assumes "a \<in> set rs" "b \<in> set rs" "rq_status a = Pending" "rq_status b = Pending"
  shows "rv_dialog (review_run [Listed rs, Press a Approve, Confirm, Dismiss, Press b Deny, Type_Note t, Decision_Answer 0 True]
     open_review) = None"
  using assms by (simp add: review_run_def open_review_def offered_def)

end
