(* ===== verification/Screenshots.thy ===== *)
theory Screenshots
  imports Prelude Js_Sort Access_Requests
begin

text \<open>
  The screenshots of a day. The API (\<^verbatim>\<open>handlers/monitoring.go\<close>, \<^verbatim>\<open>handlers/portal_screenshots.go\<close>)
  cuts the day, groups the screenshots by session and collapses their intervals into a timeline; the
  page of the company (\<^verbatim>\<open>company-dashboard/src/app/dashboard/screenshots/page.tsx\<close>) and the page of
  the employee (\<^verbatim>\<open>employee-portal/src/app/dashboard/screenshots/page.tsx\<close>) show it.

  Times are milliseconds and dates are numbers of days, in whose order the texts \<open>YYYY-MM-DD\<close> are
  compared. The midnight of a date in a time zone is an argument. Signed links, image data and
  storage failures are not modelled.
\<close>

section \<open>The day\<close>

record screenshot =
  sh_id :: string
  sh_session :: "string option"
  sh_captured :: int
  sh_start :: int
  sh_end :: int
  sh_state :: string
  sh_active_seconds :: int
  sh_seconds :: int
  sh_note :: string

record work_session =
  ws_id :: string
  ws_started :: int
  ws_ended :: "int option"

definition day_start :: "(int \<Rightarrow> int) \<Rightarrow> int \<Rightarrow> int \<Rightarrow> int" where
  "day_start midnight reset date = midnight date + (if reset < 0 \<or> reset > 23 then 0 else reset) * 3600000"

definition day_window :: "(int \<Rightarrow> int) \<Rightarrow> int \<Rightarrow> int \<Rightarrow> int \<times> int" where
  "day_window midnight reset date =
     (let begin = day_start midnight reset date in (begin, begin + 24 * 3600000))"

definition in_window :: "int \<times> int \<Rightarrow> screenshot \<Rightarrow> bool" where
  "in_window w s = (fst w \<le> sh_captured s \<and> sh_captured s < snd w)"

definition by_captured :: "'a screenshot_scheme \<Rightarrow> 'a screenshot_scheme \<Rightarrow> int" where
  "by_captured a b = sh_captured a - sh_captured b"

text \<open>The screenshots of the window by their time, and the sessions that touch it.\<close>

definition day_shots :: "int \<times> int \<Rightarrow> screenshot list \<Rightarrow> screenshot list" where
  "day_shots w shots = sort_by by_captured (filter (in_window w) shots)"

definition day_sessions :: "int \<times> int \<Rightarrow> work_session list \<Rightarrow> work_session list" where
  "day_sessions w ss =
     sort_by (\<lambda>a b. ws_started a - ws_started b)
       (filter (\<lambda>s. ws_started s < snd w \<and> (case ws_ended s of None \<Rightarrow> True | Some e \<Rightarrow> fst w \<le> e)) ss)"

section \<open>The timeline\<close>

record segment =
  sg_start :: int
  sg_end :: int
  sg_state :: string

text \<open>One turn of the loop of \<open>buildTimeline\<close>.\<close>

definition add_interval :: "screenshot \<Rightarrow> segment list \<Rightarrow> segment list" where
  "add_interval s segs =
     (if sh_end s \<le> sh_start s then segs
      else if segs \<noteq> [] \<and> sg_state (last segs) = sh_state s \<and> sh_start s - sg_end (last segs) \<le> 90000
        then (if sg_end (last segs) < sh_end s
              then butlast segs @ [(last segs)\<lparr>sg_end := sh_end s\<rparr>] else segs)
      else segs @ [\<lparr>sg_start = sh_start s, sg_end = sh_end s, sg_state = sh_state s\<rparr>])"

definition build_timeline :: "screenshot list \<Rightarrow> segment list" where
  "build_timeline shots = fold add_interval shots []"

definition clamp_percent :: "int \<Rightarrow> int" where
  "clamp_percent p = (if p < 0 then 0 else if p > 100 then 100 else p)"

record day_totals =
  dt_screenshots :: nat
  dt_active :: int
  dt_tracked :: int
  dt_avg :: int

text \<open>Division of Go integers rounds towards zero.\<close>

definition go_div :: "int \<Rightarrow> int \<Rightarrow> int" where
  "go_div a b = (if (a < 0) = (b < 0) then \<bar>a\<bar> div \<bar>b\<bar> else - (\<bar>a\<bar> div \<bar>b\<bar>))"

definition totals_of :: "screenshot list \<Rightarrow> day_totals" where
  "totals_of shots =
     (let active = sum_list (map sh_active_seconds shots); tracked = sum_list (map sh_seconds shots)
      in \<lparr>dt_screenshots = length shots, dt_active = active, dt_tracked = tracked,
          dt_avg = (if tracked > 0 then clamp_percent (go_div (active * 100) tracked) else 0)\<rparr>)"

record day =
  dy_window :: "int \<times> int"
  dy_sessions :: "(work_session \<times> screenshot list) list"
  dy_orphans :: "screenshot list"
  dy_timeline :: "segment list"
  dy_totals :: day_totals

definition screenshot_day :: "(int \<Rightarrow> int) \<Rightarrow> int \<Rightarrow> int \<Rightarrow> work_session list \<Rightarrow> screenshot list \<Rightarrow> day" where
  "screenshot_day midnight reset date ss shots =
     (let w = day_window midnight reset date; xs = day_shots w shots
      in \<lparr>dy_window = w,
          dy_sessions = map (\<lambda>s. (s, filter (\<lambda>x. sh_session x = Some (ws_id s)) xs)) (day_sessions w ss),
          dy_orphans = filter (\<lambda>x. sh_session x = None) xs,
          dy_timeline = build_timeline xs, dy_totals = totals_of xs\<rparr>)"

section \<open>The two pages\<close>

definition seconds_to_hm :: "int \<Rightarrow> string" where
  "seconds_to_hm s =
     (let h = s div 3600; m = (s mod 3600) div 60
      in if h > 0 then show_int h @ ''h '' @ show_int m @ ''m'' else show_int m @ ''m'')"

text \<open>The thumbnails of the company's page, and the list the employee's page steps through.\<close>

definition company_shots :: "day \<Rightarrow> screenshot list" where
  "company_shots d = concat (map snd (dy_sessions d))"

definition all_shots :: "day \<Rightarrow> screenshot list" where
  "all_shots d = sort_by by_captured (concat (map snd (dy_sessions d)) @ dy_orphans d)"

text \<open>\<open>pct\<close> colours: green from 50, yellow from 20, else red.\<close>

definition bar_colour :: "int \<Rightarrow> string" where
  "bar_colour pct = (if pct \<ge> 50 then ''green'' else if pct \<ge> 20 then ''yellow'' else ''red'')"

text \<open>The first date of the company's page is that of \<open>toISOString\<close>, the date in UTC.\<close>

definition utc_date :: "int \<Rightarrow> int" where
  "utc_date now = now div 86400000"

definition open_apps_shown :: "nat option \<Rightarrow> string list \<Rightarrow> string list \<times> nat" where
  "open_apps_shown max_apps apps =
     (let limit = (case max_apps of None \<Rightarrow> length apps | Some n \<Rightarrow> n)
      in (take limit apps, length apps - length (take limit apps)))"

section \<open>The employee's page\<close>

text \<open>
  \<open>my_viewer\<close> numbers the viewers and \<open>my_editor\<close> the editors of a reason that were opened; a save
  under way remembers both, since its answer can come when they are gone.
\<close>

record my_page =
  my_today :: int
  my_date :: int
  my_shots :: "screenshot list"
  my_can_add :: bool
  my_zoom :: "string option"
  my_viewer :: nat
  my_editing :: bool
  my_editor :: nat
  my_text :: string
  my_saving :: "(nat \<times> nat) list"
  my_sent :: "(string \<times> string) list"

definition open_my_page :: "int \<Rightarrow> my_page" where
  "open_my_page today =
     \<lparr>my_today = today, my_date = today, my_shots = [], my_can_add = False, my_zoom = None, my_viewer = 0,
      my_editing = False, my_editor = 0, my_text = [], my_saving = [], my_sent = []\<rparr>"

fun index_of :: "string \<Rightarrow> screenshot list \<Rightarrow> nat option" where
  "index_of i [] = None"
| "index_of i (s # ss) = (if sh_id s = i then Some 0 else map_option Suc (index_of i ss))"

definition zoom_index :: "my_page \<Rightarrow> nat option" where
  "zoom_index s = (case my_zoom s of None \<Rightarrow> None | Some i \<Rightarrow> index_of i (my_shots s))"

definition min_reason :: nat where "min_reason = 3"
definition max_reason :: nat where "max_reason = 500"

definition reason_valid :: "string \<Rightarrow> bool" where
  "reason_valid t = (min_reason \<le> length (trim t) \<and> length (trim t) \<le> max_reason)"

datatype my_event =
    Day_Before
  | Day_After
  | Pick_Date int
  | To_Today
  | Arrived "screenshot list" bool
  | Zoom string
  | Step_Back
  | Step_On
  | Close_Viewer
  | Edit_Reason
  | Write string
  | Cancel_Edit
  | Save_Reason
  | Reason_Saved nat nat bool

text \<open>
  \<open>Arrived\<close> is what the query of the shown date holds from then on: nothing while a day is loading.
  Another screenshot in the viewer ends the editing; a viewer that closes takes its editor along.
\<close>

definition show_shot :: "string \<Rightarrow> my_page \<Rightarrow> my_page" where
  "show_shot i s = s\<lparr>my_zoom := Some i, my_editing := (my_editing s \<and> my_zoom s = Some i)\<rparr>"

definition settle_viewer :: "my_page \<Rightarrow> my_page" where
  "settle_viewer s =
     (if zoom_index s = None \<and> my_zoom s \<noteq> None then s\<lparr>my_editing := False, my_viewer := Suc (my_viewer s)\<rparr> else s)"

fun my_step :: "my_event \<Rightarrow> my_page \<Rightarrow> my_page" where
  "my_step Day_Before s = s\<lparr>my_date := my_date s - 1\<rparr>"
| "my_step Day_After s = (if my_date s \<ge> my_today s then s else s\<lparr>my_date := my_date s + 1\<rparr>)"
| "my_step (Pick_Date d) s = s\<lparr>my_date := (if d > my_today s then my_today s else d)\<rparr>"
| "my_step To_Today s = s\<lparr>my_date := my_today s\<rparr>"
| "my_step (Arrived xs b) s = settle_viewer (s\<lparr>my_shots := xs, my_can_add := b\<rparr>)"
| "my_step (Zoom i) s =
     (if zoom_index s \<noteq> None \<or> index_of i (my_shots s) = None then s
      else s\<lparr>my_zoom := Some i, my_viewer := Suc (my_viewer s), my_editing := False\<rparr>)"
| "my_step Step_Back s =
     (case zoom_index s of None \<Rightarrow> s
      | Some n \<Rightarrow> if n > 0 then show_shot (sh_id (my_shots s ! (n - 1))) s else s)"
| "my_step Step_On s =
     (case zoom_index s of None \<Rightarrow> s
      | Some n \<Rightarrow> if Suc n < length (my_shots s) then show_shot (sh_id (my_shots s ! Suc n)) s else s)"
| "my_step Close_Viewer s =
     s\<lparr>my_zoom := None, my_editing := False, my_viewer := Suc (my_viewer s)\<rparr>"
| "my_step Edit_Reason s =
     (case zoom_index s of None \<Rightarrow> s
      | Some n \<Rightarrow>
          if my_can_add s \<and> \<not> my_editing s
          then s\<lparr>my_editing := True, my_editor := Suc (my_editor s), my_text := sh_note (my_shots s ! n)\<rparr>
          else s)"
| "my_step (Write t) s = (if my_editing s then s\<lparr>my_text := take max_reason t\<rparr> else s)"
| "my_step Cancel_Edit s = s\<lparr>my_editing := False\<rparr>"
| "my_step Save_Reason s =
     (case zoom_index s of None \<Rightarrow> s
      | Some n \<Rightarrow>
          if my_editing s \<and> reason_valid (my_text s) \<and> trim (my_text s) \<noteq> sh_note (my_shots s ! n) \<and>
             my_editor s \<notin> snd ` set (my_saving s)
          then s\<lparr>my_saving := (my_viewer s, my_editor s) # my_saving s,
                 my_sent := my_sent s @ [(sh_id (my_shots s ! n), trim (my_text s))]\<rparr>
          else s)"
| "my_step (Reason_Saved v k ok) s =
     (if (v, k) \<in> set (my_saving s)
      then s\<lparr>my_saving := remove1 (v, k) (my_saving s),
             my_editing := (my_editing s \<and> \<not> (ok \<and> v = my_viewer s))\<rparr>
      else s)"

definition my_run :: "my_event list \<Rightarrow> my_page \<Rightarrow> my_page" where
  "my_run es s = fold my_step es s"

section \<open>The reason in the API\<close>

definition is_control :: "char \<Rightarrow> bool" where
  "is_control c = (let n = of_char c :: nat in n < 32 \<or> 127 \<le> n \<and> n < 160)"

definition clean_reason :: "string \<Rightarrow> string" where
  "clean_reason t = go_trim (filter (\<lambda>c. c = CHR 0x0A \<or> \<not> is_control c) t)"

text \<open>\<open>owns\<close> is whether the screenshot exists and is the employee's own.\<close>

definition set_reason ::
  "bool \<Rightarrow> string \<Rightarrow> string \<Rightarrow> 'a screenshot_scheme list \<Rightarrow> (nat \<times> string) option \<times> 'a screenshot_scheme list" where
  "set_reason owns i t shots =
     (let reason = clean_reason t
      in if length reason < min_reason then (Some (400, ''Write a short reason (at least 3 characters)''), shots)
         else if length reason > max_reason then (Some (400, ''Keep the reason under 500 characters''), shots)
         else if \<not> owns then (Some (404, ''Screenshot not found''), shots)
         else (None, map (\<lambda>s. if sh_id s = i then s\<lparr>sh_note := reason\<rparr> else s) shots))"

section \<open>What the timeline shows\<close>

definition proper :: "screenshot \<Rightarrow> bool" where
  "proper s = (sh_start s < sh_end s)"

definition covered :: "segment list \<Rightarrow> screenshot \<Rightarrow> bool" where
  "covered segs s = (\<exists>g \<in> set segs. sg_state g = sh_state s \<and> sg_start g \<le> sh_start s \<and> sh_end s \<le> sg_end g)"

text \<open>A moment is accounted for by an interval that contains it or ended at most 90 seconds before.\<close>

definition accounted :: "screenshot list \<Rightarrow> string \<Rightarrow> int \<Rightarrow> bool" where
  "accounted shots st t = (\<exists>s \<in> set shots. sh_state s = st \<and> sh_start s \<le> t \<and> t \<le> sh_end s + 90000)"

definition kept_apart :: "segment \<Rightarrow> segment \<Rightarrow> bool" where
  "kept_apart a b = (sg_start a \<le> sg_start b \<and> (sg_state a \<noteq> sg_state b \<or> sg_end a + 90000 < sg_start b))"

definition segment_ok :: "screenshot list \<Rightarrow> segment \<Rightarrow> bool" where
  "segment_ok shots g =
     (sg_start g < sg_end g \<and> (\<forall>t. sg_start g \<le> t \<and> t < sg_end g \<longrightarrow> accounted shots (sg_state g) t) \<and>
      (\<exists>s \<in> set shots. sh_state s = sg_state g \<and> sh_end s = sg_end g \<and> proper s) \<and>
      (\<exists>s \<in> set shots. sh_start s = sg_start g))"

definition timeline_ok :: "screenshot list \<Rightarrow> segment list \<Rightarrow> bool" where
  "timeline_ok shots segs =
     (list_all (segment_ok shots) segs \<and> successively kept_apart segs \<and>
      (\<forall>s \<in> set shots. proper s \<longrightarrow> covered segs s))"

lemma accounted_mono: "accounted shots st t \<Longrightarrow> accounted (shots @ [s]) st t"
  by (auto simp: accounted_def)

lemma segment_ok_mono: "segment_ok shots g \<Longrightarrow> segment_ok (shots @ [s]) g"
  unfolding segment_ok_def by (auto intro: accounted_mono)

lemma covered_snoc: "covered segs s \<Longrightarrow> covered (segs @ [g]) s"
  by (auto simp: covered_def)

lemma covered_longer: "covered (segs @ [g]) s \<Longrightarrow> sg_end g \<le> e \<Longrightarrow> covered (segs @ [g\<lparr>sg_end := e\<rparr>]) s"
  by (fastforce simp: covered_def)

lemma segment_ok_new: "proper s \<Longrightarrow> segment_ok (shots @ [s]) \<lparr>sg_start = sh_start s, sg_end = sh_end s, sg_state = sh_state s\<rparr>"
  by (fastforce simp: segment_ok_def accounted_def proper_def)

lemma segment_ok_longer:
  assumes "segment_ok shots g" "proper s" "sh_state s = sg_state g" "sh_start s - sg_end g \<le> 90000" "sg_end g < sh_end s"
  shows "segment_ok (shots @ [s]) (g\<lparr>sg_end := sh_end s\<rparr>)"
proof -
  have "accounted (shots @ [s]) (sg_state g) t" if t: "sg_start g \<le> t" "t < sh_end s" for t
  proof (cases "t < sg_end g")
    case True
    then show ?thesis using assms(1) t by (auto simp: segment_ok_def intro: accounted_mono)
  next
    case False
    obtain s' where s': "s' \<in> set shots" "sh_state s' = sg_state g" "sh_end s' = sg_end g" "proper s'"
      using assms(1) by (auto simp: segment_ok_def)
    show ?thesis
    proof (cases "sh_start s \<le> t")
      case True
      then show ?thesis using assms(3) t by (auto simp: accounted_def intro!: bexI [of _ s])
    next
      case early: False
      then show ?thesis
        using s' False assms(4) by (auto simp: accounted_def proper_def intro!: bexI [of _ s'])
    qed
  qed
  then show ?thesis
    using assms by (auto simp: segment_ok_def)
qed

lemma add_interval_ok:
  assumes "timeline_ok shots segs" "\<forall>x \<in> set shots. sh_start x \<le> sh_start s"
  shows "timeline_ok (shots @ [s]) (add_interval s segs)"
proof (cases "proper s")
  case False
  then show ?thesis
    using assms(1) by (auto simp: add_interval_def proper_def timeline_ok_def list_all_iff intro: segment_ok_mono)
next
  case True
  have mono: "list_all (segment_ok (shots @ [s])) segs"
    using assms(1) by (auto simp: timeline_ok_def list_all_iff intro: segment_ok_mono)
  have apart: "successively kept_apart segs" and cov: "\<forall>s \<in> set shots. proper s \<longrightarrow> covered segs s"
    using assms(1) by (auto simp: timeline_ok_def)
  show ?thesis
  proof (cases "segs = [] \<or> \<not> (sg_state (last segs) = sh_state s \<and> sh_start s - sg_end (last segs) \<le> 90000)")
    case new: True
    let ?g = "\<lparr>sg_start = sh_start s, sg_end = sh_end s, sg_state = sh_state s\<rparr>"
    have "segs \<noteq> [] \<Longrightarrow> \<exists>x \<in> set shots. sh_start x = sg_start (last segs)"
      using assms(1) by (auto simp: timeline_ok_def segment_ok_def list_all_iff)
    then have "segs \<noteq> [] \<Longrightarrow> sg_start (last segs) \<le> sh_start s"
      using assms(2) by force
    then have "successively kept_apart (segs @ [?g])"
      using new apart by (auto simp: successively_append_iff kept_apart_def)
    moreover have "\<forall>x \<in> set (shots @ [s]). proper x \<longrightarrow> covered (segs @ [?g]) x"
      using cov by (auto intro: covered_snoc simp: covered_def)
    moreover have "add_interval s segs = segs @ [?g]"
      using True new by (auto simp: add_interval_def proper_def)
    ultimately show ?thesis
      using mono segment_ok_new [OF True] by (simp add: timeline_ok_def)
  next
    case False
    obtain ini g where segs: "segs = ini @ [g]"
      using False by (cases segs rule: rev_cases) auto
    have g: "segment_ok shots g" "sg_state g = sh_state s" "sh_start s - sg_end g \<le> 90000"
      using assms(1) False by (simp_all add: timeline_ok_def segs)
    obtain x where "x \<in> set shots" "sh_start x = sg_start g"
      using g(1) by (auto simp: segment_ok_def)
    then have early: "sg_start g \<le> sh_start s"
      using assms(2) by force
    show ?thesis
    proof (cases "sg_end g < sh_end s")
      case longer: True
      let ?g = "g\<lparr>sg_end := sh_end s\<rparr>"
      have "add_interval s segs = ini @ [?g]"
        using True g longer by (simp add: add_interval_def proper_def segs)
      moreover have "successively kept_apart (ini @ [?g])"
        using apart by (auto simp: segs successively_append_iff kept_apart_def)
      moreover have "covered (ini @ [?g]) x" if "x \<in> set (shots @ [s])" "proper x" for x
        using that cov covered_longer [of ini g x "sh_end s"] longer g(2) early
        by (auto simp: segs) (simp add: covered_def)
      moreover have "segment_ok (shots @ [s]) ?g"
        using g True longer by (intro segment_ok_longer) auto
      ultimately show ?thesis
        using mono by (simp add: timeline_ok_def segs)
    next
      case False
      then have "add_interval s segs = segs" "covered segs s"
        using True g early by (auto simp: add_interval_def proper_def segs covered_def)
      then show ?thesis
        using mono apart cov by (simp add: timeline_ok_def)
    qed
  qed
qed


definition shot_at :: "string \<Rightarrow> string option \<Rightarrow> int \<Rightarrow> int \<Rightarrow> screenshot" where
  "shot_at i sess from dur =
     \<lparr>sh_id = i, sh_session = sess, sh_captured = from + dur, sh_start = from, sh_end = from + dur, sh_state = ''active'',
      sh_active_seconds = dur div 2000, sh_seconds = dur div 1000, sh_note = []\<rparr>"


section \<open>What the pages show of a day\<close>

interpretation capture_order: comparison by_captured
  by unfold_locales (auto simp: by_captured_def)

lemma mset_day_parts:
  assumes "distinct (map ws_id ss)"
  shows "mset (concat (map (\<lambda>s. filter (\<lambda>x. sh_session x = Some (ws_id s)) xs) ss) @ filter (\<lambda>x. sh_session x = None) xs) =
    mset (filter (\<lambda>x. sh_session x \<in> set (None # map (Some \<circ> ws_id) ss)) xs)"
proof -
  let ?ns = "None # map (Some \<circ> ws_id) ss"
  let ?xs = "filter (\<lambda>x. sh_session x \<in> set ?ns) xs"
  have "distinct ?ns"
    using assms by (auto simp: distinct_map inj_on_def)
  moreover have "set (map sh_session ?xs) \<subseteq> set ?ns" by auto
  ultimately have all: "mset (concat (map (\<lambda>n. filter (\<lambda>x. sh_session x = n) ?xs) ?ns)) = mset ?xs"
    by (rule mset_concat_filters)
  have "filter (\<lambda>x. sh_session x = n) ?xs = filter (\<lambda>x. sh_session x = n) xs" if "n \<in> set ?ns" for n
    using that by (auto intro!: filter_cong)
  then have same: "map (\<lambda>n. filter (\<lambda>x. sh_session x = n) ?xs) ?ns = map (\<lambda>n. filter (\<lambda>x. sh_session x = n) xs) ?ns"
    by (intro map_cong) simp_all
  from all [unfolded same] show ?thesis
    by (simp add: comp_def add.commute)
qed

text \<open>The pages show the screenshots without a session and those of a session of the day.\<close>

definition placed :: "day \<Rightarrow> screenshot \<Rightarrow> bool" where
  "placed d x = (case sh_session x of None \<Rightarrow> True | Some i \<Rightarrow> i \<in> ws_id ` fst ` set (dy_sessions d))"

lemma mset_all_shots:
  assumes "d = screenshot_day midnight reset date ss shots" "distinct (map ws_id ss)"
  shows "mset (company_shots d @ dy_orphans d) = mset (filter (placed d) (day_shots (dy_window d) shots))"
    "mset (all_shots d) = mset (filter (placed d) (day_shots (dy_window d) shots))"
proof -
  let ?ss = "day_sessions (dy_window d) ss"
  have "distinct (map ws_id ?ss)"
    using assms(2) by (simp add: day_sessions_def distinct_map_filter)
  moreover have "placed d x = (sh_session x \<in> set (None # map (Some \<circ> ws_id) ?ss))" for x
    by (auto simp: placed_def assms(1) screenshot_day_def Let_def image_image split: option.split)
  ultimately show "mset (company_shots d @ dy_orphans d) = mset (filter (placed d) (day_shots (dy_window d) shots))"
    using mset_day_parts by (simp add: assms(1) screenshot_day_def company_shots_def Let_def comp_def)
  then show "mset (all_shots d) = mset (filter (placed d) (day_shots (dy_window d) shots))"
    by (simp add: all_shots_def company_shots_def)
qed

text \<open>
  C17: When every screenshot with a session has it among the sessions of the day, the employee's page
  steps through each screenshot of the day exactly once, in the order in which they were taken,
  and as many as the totals say. The company's page leaves out those without a session, which its
  totals count.
\<close>

theorem employee_sees_every_shot:
  assumes "d = screenshot_day midnight reset date ss shots"
    "distinct (map ws_id ss)"
    "\<forall>x \<in> set shots. \<forall>i. sh_session x = Some i \<longrightarrow> i \<in> ws_id ` set (day_sessions (dy_window d) ss)"
  shows "mset (all_shots d) = filter_mset (in_window (dy_window d)) (mset shots) \<and>
    sorted_wrt (\<lambda>a b. sh_captured a \<le> sh_captured b) (all_shots d) \<and>
    length (all_shots d) = dt_screenshots (dy_totals d) \<and>
    length (company_shots d) + length (dy_orphans d) = dt_screenshots (dy_totals d)"
proof -
  let ?xs = "day_shots (dy_window d) shots"
  have placed: "placed d x" if "x \<in> set ?xs" for x
    using assms(3) that by (auto simp: placed_def assms(1) screenshot_day_def day_shots_def Let_def image_image split: option.split)
  then have parts: "mset (company_shots d @ dy_orphans d) = mset ?xs" "mset (all_shots d) = mset ?xs"
    using mset_all_shots [OF assms(1,2)] by (simp_all add: filter_True)
  moreover have "mset ?xs = filter_mset (in_window (dy_window d)) (mset shots)"
    by (simp add: day_shots_def)
  moreover have "sorted_wrt (\<lambda>a b. sh_captured a \<le> sh_captured b) (all_shots d)"
    using capture_order.sorted_sort_by unfolding all_shots_def by_captured_def by simp
  moreover have "dt_screenshots (dy_totals d) = length ?xs"
    by (simp add: assms(1) screenshot_day_def totals_of_def Let_def)
  moreover have "length (company_shots d @ dy_orphans d) = length ?xs" "length (all_shots d) = length ?xs"
    using parts by (metis size_mset)+
  ultimately show ?thesis
    by simp
qed

definition loose_shot :: screenshot where
  "loose_shot = shot_at ''a'' None 3600000 60000"

lemma employee_sees_every_shot_witness:
  "let d = screenshot_day (\<lambda>n. n * 86400000) 0 0 [] [loose_shot]
   in length (all_shots d) = dt_screenshots (dy_totals d) \<and> length (company_shots d) + length (dy_orphans d) = dt_screenshots (dy_totals d)"
  using employee_sees_every_shot [OF refl, of "[]" "[loose_shot]" "\<lambda>n. n * 86400000" 0 0]
  by (simp add: loose_shot_def shot_at_def)

text \<open>On the company's page a day with a screenshot can look empty.\<close>

lemma company_day_empty:
  "let d = screenshot_day (\<lambda>n. n * 86400000) 0 0 [] [loose_shot]
   in dy_sessions d = [] \<and> company_shots d = [] \<and> dt_screenshots (dy_totals d) = 1"
  by code_simp

text \<open>
  On the day a clock is set back the window of 24 hours ends an hour before the next day's begins:
  a screenshot of that hour is in the window of no date.
\<close>

lemma midnights_grow:
  assumes "\<forall>d. midnight d + 23 * 3600000 \<le> midnight (d + 1)" "a \<le> b"
  shows "midnight a + 23 * 3600000 * (b - a) \<le> midnight (b :: int)"
  using assms(2)
proof (induction b rule: int_ge_induct)
  case (step i)
  then show ?case
    using assms(1) [rule_format, of i] by (simp add: algebra_simps)
qed simp

theorem long_day_hides_hour:
  assumes "\<forall>d. midnight d + 23 * 3600000 \<le> midnight (d + 1)" "midnight (n + 1) = midnight n + 25 * 3600000"
    "day_start midnight reset n + 24 * 3600000 \<le> sh_captured s" "sh_captured s < day_start midnight reset (n + 1)"
  shows "\<not> in_window (day_window midnight reset date) s"
proof (cases "date \<le> n")
  case True
  then have "day_start midnight reset date \<le> day_start midnight reset n"
    using midnights_grow [OF assms(1) True] by (simp add: day_start_def)
  then show ?thesis
    using assms(3) by (simp add: in_window_def day_window_def Let_def)
next
  case False
  then have "day_start midnight reset (n + 1) \<le> day_start midnight reset date"
    using midnights_grow [OF assms(1), of "n + 1" date] by (simp add: day_start_def)
  then show ?thesis
    using assms(4) by (simp add: in_window_def day_window_def Let_def)
qed

definition autumn :: "int \<Rightarrow> int" where
  "autumn d = d * 86400000 + (if d > 0 then 3600000 else 0)"

lemma long_day_hides_hour_witness:
  "\<not> in_window (day_window autumn 0 0) (shot_at ''late'' None (86400000 + 600000) 60000)"
proof (rule long_day_hides_hour)
  show "\<forall>d. autumn d + 23 * 3600000 \<le> autumn (d + 1)" "autumn (0 + 1) = autumn 0 + 25 * 3600000"
    by (simp_all add: autumn_def)
  show "day_start autumn 0 0 + 24 * 3600000 \<le> sh_captured (shot_at ''late'' None (86400000 + 600000) 60000)"
    "sh_captured (shot_at ''late'' None (86400000 + 600000) 60000) < day_start autumn 0 (0 + 1)"
    by (simp_all add: autumn_def day_start_def shot_at_def)
qed

section \<open>What the employee's page can do\<close>

lemma my_run_simps [simp]:
  "my_run [] s = s" "my_run (e # es) s = my_run es (my_step e s)" "my_run (es @ fs) s = my_run fs (my_run es s)"
  by (simp_all add: my_run_def)

text \<open>The shown date never lies after today, and every reason that was sent passes the checks of the form.\<close>

definition my_ok :: "int \<Rightarrow> my_page \<Rightarrow> bool" where
  "my_ok today s =
     (my_today s = today \<and> my_date s \<le> today \<and>
      (\<forall>q \<in> set (my_sent s). min_reason \<le> length (snd q) \<and> length (snd q) \<le> max_reason \<and> trim (snd q) = snd q))"

lemma settle_viewer_same [simp]:
  "my_today (settle_viewer s) = my_today s" "my_date (settle_viewer s) = my_date s"
  "my_saving (settle_viewer s) = my_saving s" "my_editor (settle_viewer s) = my_editor s" "my_sent (settle_viewer s) = my_sent s"
  by (simp_all add: settle_viewer_def)

lemma my_ok_settle [simp]: "my_ok today (settle_viewer s) = my_ok today s"
  by (simp add: my_ok_def)

lemma my_ok_show [simp]: "my_ok today (show_shot i s) = my_ok today s"
  by (simp add: my_ok_def show_shot_def)

lemma my_ok_step: "my_ok today s \<Longrightarrow> my_ok today (my_step e s)"
proof (cases e)
  case Save_Reason
  assume "my_ok today s"
  then show ?thesis
    using Save_Reason by (auto simp: my_ok_def reason_valid_def split: option.split)
next
  case (Arrived xs b)
  assume "my_ok today s"
  then have "my_ok today (s\<lparr>my_shots := xs, my_can_add := b\<rparr>)" by (simp add: my_ok_def)
  then show ?thesis using Arrived by simp
next
  case Step_Back
  assume "my_ok today s"
  then show ?thesis using Step_Back by (simp split: option.split)
next
  case Step_On
  assume "my_ok today s"
  then show ?thesis using Step_On by (simp split: option.split)
qed (auto simp: my_ok_def split: option.split)

lemma my_ok_run: "my_ok today (my_run es (open_my_page today))"
proof (induction es rule: rev_induct)
  case Nil
  show ?case by (simp add: my_ok_def open_my_page_def)
next
  case (snoc e es)
  then show ?case by (simp add: my_ok_step)
qed

text \<open>
  Every reason the page sends has 3 to 500 characters without white space around them, and one without
  control characters other than line breaks is stored as it was sent: the API accepts it, and the
  screenshot, and only it, carries it.
\<close>

theorem sent_reasons_stored:
  assumes "(i, r) \<in> set (my_sent (my_run es (open_my_page today)))" "\<forall>c \<in> set r. is_control c \<longrightarrow> c = CHR 0x0A"
  shows "3 \<le> length r \<and> length r \<le> 500 \<and>
    set_reason True i r shots = (None, map (\<lambda>s. if sh_id s = i then s\<lparr>sh_note := r\<rparr> else s) shots)"
proof -
  have r: "3 \<le> length r" "length r \<le> 500" "trim r = r"
    using assms(1) my_ok_run [of today es] by (auto simp: my_ok_def min_reason_def max_reason_def)
  have "filter (\<lambda>c. c = CHR 0x0A \<or> \<not> is_control c) r = r"
    using assms(2) by (auto simp: filter_id_conv)
  moreover have "is_control CHR 0x85"
    by code_simp
  then have "CHR 0x85 \<notin> set r"
    using assms(2) by auto
  ultimately have "clean_reason r = r"
    using r(3) by (simp add: clean_reason_def go_trim_trim)
  with r show ?thesis
    by (simp add: set_reason_def min_reason_def max_reason_def)
qed

definition reason_events :: "my_event list" where
  "reason_events = [Arrived [loose_shot] True, Zoom ''a'', Edit_Reason, Write ''  lunch call '', Save_Reason]"

lemma sent_reasons_stored_witness:
  "set_reason True ''a'' ''lunch call'' [loose_shot] = (None, [loose_shot\<lparr>sh_note := ''lunch call''\<rparr>])"
proof -
  have "(''a'', ''lunch call'') \<in> set (my_sent (my_run reason_events (open_my_page 0)))"
    "\<forall>c \<in> set ''lunch call''. is_control c \<longrightarrow> c = CHR 0x0A"
    by code_simp+
  from sent_reasons_stored [OF this, of "[loose_shot]"] show ?thesis
    by (simp add: loose_shot_def shot_at_def)
qed

lemma date_never_ahead: "my_date (my_run es (open_my_page today)) \<le> today"
  using my_ok_run [of today es] by (simp add: my_ok_def)

text \<open>The viewer, opened at the first screenshot and stepped on, shows one after the other.\<close>

definition shown_shot :: "my_page \<Rightarrow> screenshot option" where
  "shown_shot s = map_option (\<lambda>n. my_shots s ! n) (zoom_index s)"

lemma index_of_nth: "distinct (map sh_id xs) \<Longrightarrow> n < length xs \<Longrightarrow> index_of (sh_id (xs ! n)) xs = Some n"
proof (induction xs arbitrary: n)
  case (Cons x xs)
  then show ?case
    by (cases n) (auto simp: nth_mem)
qed simp

lemma step_on_shows:
  assumes "distinct (map sh_id (my_shots s))" "zoom_index s = Some n" "Suc n < length (my_shots s)"
  shows "zoom_index (my_step Step_On s) = Some (Suc n) \<and> my_shots (my_step Step_On s) = my_shots s"
  using assms by (simp add: show_shot_def zoom_index_def index_of_nth)

lemma steps_on_show:
  assumes "distinct (map sh_id (my_shots s))" "zoom_index s = Some n" "n + k < length (my_shots s)"
  shows "zoom_index (my_run (replicate k Step_On) s) = Some (n + k) \<and> my_shots (my_run (replicate k Step_On) s) = my_shots s"
  using assms
proof (induction k arbitrary: s n)
  case (Suc k)
  then show ?case
    using step_on_shows [of s n] Suc.IH [of "my_step Step_On s" "Suc n"] by simp
qed simp

text \<open>
  Whatever was done on the page before: a day arrives with distinct screenshots, the employee opens
  the first of them and steps on \<open>k\<close> times, and the viewer shows screenshot number \<open>k\<close> of the day in the
  order in which they were taken.
\<close>

theorem viewer_walks_day:
  assumes "s0 = my_run es (open_my_page today)" "my_zoom s0 = None" "distinct (map sh_id (all_shots d))" "k < length (all_shots d)"
  shows "shown_shot (my_run (Arrived (all_shots d) b # Zoom (sh_id (all_shots d ! 0)) # replicate k Step_On) s0) = Some (all_shots d ! k)"
proof -
  let ?s = "my_step (Zoom (sh_id (all_shots d ! 0))) (my_step (Arrived (all_shots d) b) s0)"
  have "index_of (sh_id (all_shots d ! 0)) (all_shots d) = Some 0"
    using assms(3,4) by (intro index_of_nth) auto
  then have "zoom_index ?s = Some 0 \<and> my_shots ?s = all_shots d"
    using assms(2) by (simp add: settle_viewer_def zoom_index_def)
  then have "zoom_index (my_run (replicate k Step_On) ?s) = Some (0 + k) \<and> my_shots (my_run (replicate k Step_On) ?s) = my_shots ?s"
    using assms(3,4) by (intro steps_on_show) auto
  then show ?thesis
    using \<open>zoom_index ?s = Some 0 \<and> my_shots ?s = all_shots d\<close> by (simp add: shown_shot_def)
qed

lemma viewer_walks_day_witness:
  "let d = screenshot_day (\<lambda>n. n * 86400000) 0 0 [] [shot_at ''b'' None 120000 60000, loose_shot]
   in shown_shot (my_run [Arrived (all_shots d) True, Zoom (sh_id (all_shots d ! 0)), Step_On] (open_my_page 0)) =
     Some loose_shot"
proof -
  let ?d = "screenshot_day (\<lambda>n. n * 86400000) 0 0 [] [shot_at ''b'' None 120000 60000, loose_shot]"
  have "my_zoom (open_my_page 0) = None" "distinct (map sh_id (all_shots ?d))" "1 < length (all_shots ?d)"
    "all_shots ?d ! 1 = loose_shot"
    by code_simp+
  with viewer_walks_day [of "open_my_page 0" "[]" 0 ?d 1 True] show ?thesis
    by simp
qed

text \<open>
  The answer to a save closes the editor of whichever screenshot the viewer shows by then, with what
  was typed there.
\<close>

lemma late_save_closes_editor:
  "let s = my_run [Arrived [loose_shot, shot_at ''b'' None 7200000 60000] True, Zoom ''a'', Edit_Reason,
       Write ''lunch call'', Save_Reason, Step_On, Edit_Reason, Write ''customer visit''] (open_my_page 0)
   in my_editing s \<and> my_text s = ''customer visit'' \<and> map_option sh_id (shown_shot s) = Some ''b'' \<and>
      my_saving s = [(1, 1)] \<and> \<not> my_editing (my_step (Reason_Saved 1 1 True) s)"
  by code_simp

end
