(* ===== verification/Monitoring.thy ===== *)
theory Monitoring
  imports Complex_Main Screenshots
begin

text \<open>
  The store behind the screenshots (\<^verbatim>\<open>handlers/monitoring_ingest.go\<close>, \<^verbatim>\<open>handlers/monitoring.go\<close>):
  the sessions and screenshots that the agents of one organisation report, what the pages delete and
  explain, the sweeps that enforce the retention and close abandoned sessions, and the settings.

  Parsed query values are options, \<open>None\<close> where the text is missing or malformed. Images, signed
  links and failures of the store are not modelled. New identifiers are arguments.
\<close>

section \<open>The rows\<close>

record stored_shot = screenshot +
  st_employee :: "string option"
  st_percent :: int

record session_row = work_session +
  sr_device :: string
  sr_employee :: "string option"
  sr_updated :: int
  sr_count :: nat
  sr_active :: int
  sr_tracked :: int
  sr_avg :: rat

record monitor_settings =
  mt_enabled :: bool
  mt_min :: int
  mt_max :: int
  mt_idle :: int
  mt_blur :: bool
  mt_retention :: int

record monitor =
  mo_settings :: monitor_settings
  mo_sessions :: "session_row list"
  mo_shots :: "stored_shot list"

definition default_settings :: monitor_settings where
  "default_settings =
     \<lparr>mt_enabled = True, mt_min = 60, mt_max = 420, mt_idle = 1, mt_blur = False, mt_retention = 90\<rparr>"

definition empty_monitor :: monitor where
  "empty_monitor = \<lparr>mo_settings = default_settings, mo_sessions = [], mo_shots = []\<rparr>"

definition given :: "'a \<Rightarrow> 'a option \<Rightarrow> 'a" where
  "given d x = (case x of None \<Rightarrow> d | Some v \<Rightarrow> v)"

definition stale_after :: int where
  "stale_after = 15 * 60000"

section \<open>Sessions\<close>

definition shots_of :: "string \<Rightarrow> 'a screenshot_scheme list \<Rightarrow> 'a screenshot_scheme list" where
  "shots_of i shots = filter (\<lambda>x. sh_session x = Some i) shots"

text \<open>\<open>SessionRollup\<close>: an average over no rows is 0, as is a quotient by 0.\<close>

definition rollup :: "int \<Rightarrow> stored_shot list \<Rightarrow> session_row \<Rightarrow> session_row" where
  "rollup now shots r =
     (let xs = shots_of (ws_id r) shots
      in r\<lparr>sr_count := length xs, sr_active := sum_list (map sh_active_seconds xs),
           sr_tracked := sum_list (map sh_seconds xs),
           sr_avg := of_int (sum_list (map st_percent xs)) / of_nat (length xs), sr_updated := now\<rparr>)"

definition refresh_rollup :: "int \<Rightarrow> string \<Rightarrow> monitor \<Rightarrow> monitor" where
  "refresh_rollup now i m =
     m\<lparr>mo_sessions := map (\<lambda>r. if ws_id r = i then rollup now (mo_shots m) r else r) (mo_sessions m)\<rparr>"

text \<open>A device with an open session that was written to within 15 minutes goes on with it.\<close>

definition resumable :: "int \<Rightarrow> string \<Rightarrow> session_row \<Rightarrow> bool" where
  "resumable now dev r = (sr_device r = dev \<and> ws_ended r = None \<and> now - stale_after \<le> sr_updated r)"

definition start_session ::
  "int \<Rightarrow> string \<Rightarrow> string option \<Rightarrow> int option \<Rightarrow> string \<Rightarrow> monitor \<Rightarrow> (string \<times> bool) \<times> monitor" where
  "start_session now dev emp started i m =
     (case sort_by (\<lambda>a b. sr_updated b - sr_updated a) (filter (resumable now dev) (mo_sessions m)) of
        r # _ \<Rightarrow> ((ws_id r, True), m)
      | [] \<Rightarrow> ((i, False),
          m\<lparr>mo_sessions := mo_sessions m @
             [\<lparr>ws_id = i, ws_started = given now started, ws_ended = None, sr_device = dev, sr_employee = emp,
               sr_updated = now, sr_count = 0, sr_active = 0, sr_tracked = 0, sr_avg = 0\<rparr>]\<rparr>))"

definition end_session :: "int \<Rightarrow> string \<Rightarrow> int option \<Rightarrow> monitor \<Rightarrow> monitor" where
  "end_session now i ended m =
     m\<lparr>mo_sessions := map (\<lambda>r. if ws_id r = i \<and> ws_ended r = None
                                then r\<lparr>ws_ended := Some (given now ended), sr_updated := now\<rparr> else r) (mo_sessions m)\<rparr>"

section \<open>Screenshots\<close>

record upload =
  up_bytes :: nat
  up_session :: "string option"
  up_captured :: "int option"
  up_start :: "int option"
  up_end :: "int option"
  up_seconds :: "int option"
  up_active :: "int option"
  up_percent :: "int option"

definition max_bytes :: nat where
  "max_bytes = 8 * 1024 * 1024"

definition shot_of :: "int \<Rightarrow> int \<Rightarrow> string \<Rightarrow> string option \<Rightarrow> upload \<Rightarrow> stored_shot" where
  "shot_of idle now i emp u =
     (let captured = given now (up_captured u); start = given captured (up_start u);
          stop = given captured (up_end u); seconds = given (go_div (stop - start) 1000) (up_seconds u);
          active = given 0 (up_active u); sent = given 0 (up_percent u);
          percent = (if sent = 0 \<and> seconds > 0 then clamp_percent (go_div (active * 100) seconds) else sent)
      in \<lparr>sh_id = i, sh_session = up_session u, sh_captured = captured, sh_start = start, sh_end = stop,
          sh_state = (if percent < idle then ''idle'' else ''active''), sh_active_seconds = active,
          sh_seconds = seconds, sh_note = [], st_employee = emp, st_percent = percent\<rparr>)"

definition upload_shot ::
  "int \<Rightarrow> string \<Rightarrow> string option \<Rightarrow> upload \<Rightarrow> monitor \<Rightarrow> (nat \<times> string) option \<times> monitor" where
  "upload_shot now i emp u m =
     (if \<not> mt_enabled (mo_settings m) then (Some (403, ''Screenshot capture is disabled for this organization''), m)
      else if up_bytes u > max_bytes then (Some (413, ''Image too large''), m)
      else if up_bytes u = 0 then (Some (400, ''Empty image''), m)
      else let m' = m\<lparr>mo_shots := mo_shots m @ [shot_of (mt_idle (mo_settings m)) now i emp u]\<rparr>
           in (None, (case up_session u of None \<Rightarrow> m' | Some s \<Rightarrow> refresh_rollup now s m')))"

definition delete_session :: "string \<Rightarrow> monitor \<Rightarrow> (nat \<times> string) option \<times> monitor" where
  "delete_session i m =
     (if i \<notin> ws_id ` set (mo_sessions m) then (Some (404, ''Session not found''), m)
      else (None, m\<lparr>mo_shots := filter (\<lambda>x. sh_session x \<noteq> Some i) (mo_shots m),
                    mo_sessions := filter (\<lambda>r. ws_id r \<noteq> i) (mo_sessions m)\<rparr>))"

definition delete_shot :: "int \<Rightarrow> string \<Rightarrow> monitor \<Rightarrow> (nat \<times> string) option \<times> monitor" where
  "delete_shot now i m =
     (case filter (\<lambda>x. sh_id x = i) (mo_shots m) of
        [] \<Rightarrow> (Some (404, ''Screenshot not found''), m)
      | x # _ \<Rightarrow>
          let m' = m\<lparr>mo_shots := filter (\<lambda>x. sh_id x \<noteq> i) (mo_shots m)\<rparr>
          in (None, (case sh_session x of None \<Rightarrow> m' | Some s \<Rightarrow> refresh_rollup now s m')))"

definition explain_shot :: "string \<Rightarrow> string \<Rightarrow> string \<Rightarrow> monitor \<Rightarrow> (nat \<times> string) option \<times> monitor" where
  "explain_shot emp i text m =
     (let (e, xs) = set_reason (list_ex (\<lambda>x. sh_id x = i \<and> st_employee x = Some emp) (mo_shots m)) i text (mo_shots m)
      in (e, m\<lparr>mo_shots := xs\<rparr>))"

section \<open>Settings and sweeps\<close>

record settings_change =
  sc_enabled :: "bool option"
  sc_min :: "int option"
  sc_max :: "int option"
  sc_idle :: "int option"
  sc_blur :: "bool option"
  sc_retention :: "int option"

definition update_settings :: "settings_change \<Rightarrow> monitor_settings \<Rightarrow> monitor_settings" where
  "update_settings c t =
     (let low = max 20 (given (mt_min t) (sc_min c))
      in \<lparr>mt_enabled = given (mt_enabled t) (sc_enabled c), mt_min = low,
          mt_max = max low (given (mt_max t) (sc_max c)),
          mt_idle = (case sc_idle c of None \<Rightarrow> mt_idle t | Some p \<Rightarrow> clamp_percent p),
          mt_blur = given (mt_blur t) (sc_blur c), mt_retention = given (mt_retention t) (sc_retention c)\<rparr>)"

definition day_length :: int where
  "day_length = 24 * 3600000"

text \<open>At most so many screenshots are deleted, and so many sessions closed, in one turn.\<close>

definition sweep_limit :: nat where "sweep_limit = 2000"
definition close_limit :: nat where "close_limit = 1000"

definition past_retention :: "int \<Rightarrow> monitor \<Rightarrow> stored_shot \<Rightarrow> bool" where
  "past_retention now m x = (0 < mt_retention (mo_settings m) \<and> sh_captured x < now - mt_retention (mo_settings m) * day_length)"

definition retention_sweep :: "int \<Rightarrow> monitor \<Rightarrow> monitor" where
  "retention_sweep now m =
     (let cutoff = now - mt_retention (mo_settings m) * day_length;
          old = take sweep_limit (sort_by by_captured (filter (past_retention now m) (mo_shots m)))
      in if old = [] then m
         else m\<lparr>mo_shots := filter (\<lambda>x. sh_id x \<notin> sh_id ` set old) (mo_shots m),
                mo_sessions := filter (\<lambda>r. \<not> ((case ws_ended r of None \<Rightarrow> False | Some e \<Rightarrow> e < cutoff) \<and> sr_count r = 0))
                                 (mo_sessions m)\<rparr>)"

definition abandoned :: "int \<Rightarrow> session_row \<Rightarrow> bool" where
  "abandoned now r = (ws_ended r = None \<and> sr_updated r < now - stale_after)"

definition stale_sessions :: "int \<Rightarrow> monitor \<Rightarrow> session_row list" where
  "stale_sessions now m =
     take close_limit (sort_by (\<lambda>a b. ws_started a - ws_started b) (filter (abandoned now) (mo_sessions m)))"

definition stale_sweep :: "int \<Rightarrow> monitor \<Rightarrow> monitor" where
  "stale_sweep now m =
     m\<lparr>mo_sessions := map (\<lambda>r. if ws_id r \<in> ws_id ` set (stale_sessions now m) \<and> ws_ended r = None
                                then r\<lparr>ws_ended := Some (sr_updated r), sr_updated := now\<rparr> else r) (mo_sessions m)\<rparr>"

text \<open>What the API answers about the day of an employee.\<close>

definition day_of :: "(int \<Rightarrow> int) \<Rightarrow> int \<Rightarrow> int \<Rightarrow> string \<Rightarrow> monitor \<Rightarrow> day" where
  "day_of midnight reset date emp m =
     screenshot_day midnight reset date
       (map work_session.truncate (filter (\<lambda>r. sr_employee r = Some emp) (mo_sessions m)))
       (map screenshot.truncate (filter (\<lambda>x. st_employee x = Some emp) (mo_shots m)))"

section \<open>What can happen\<close>

datatype monitor_event =
    Start_Session int string "string option" "int option" string
  | End_Session int string "int option"
  | Upload int string "string option" upload
  | Remove_Session string
  | Remove_Shot int string
  | Explain string string string
  | Set_Settings settings_change
  | Retention_Sweep int
  | Stale_Sweep int

fun monitor_step :: "monitor_event \<Rightarrow> monitor \<Rightarrow> monitor" where
  "monitor_step (Start_Session now dev emp started i) m = snd (start_session now dev emp started i m)"
| "monitor_step (End_Session now i ended) m = end_session now i ended m"
| "monitor_step (Upload now i emp u) m = snd (upload_shot now i emp u m)"
| "monitor_step (Remove_Session i) m = snd (delete_session i m)"
| "monitor_step (Remove_Shot now i) m = snd (delete_shot now i m)"
| "monitor_step (Explain emp i text) m = snd (explain_shot emp i text m)"
| "monitor_step (Set_Settings c) m = m\<lparr>mo_settings := update_settings c (mo_settings m)\<rparr>"
| "monitor_step (Retention_Sweep now) m = retention_sweep now m"
| "monitor_step (Stale_Sweep now) m = stale_sweep now m"

text \<open>New identifiers are in use nowhere.\<close>

fun fresh_event :: "monitor_event \<Rightarrow> monitor \<Rightarrow> bool" where
  "fresh_event (Start_Session now dev emp started i) m =
     (i \<notin> ws_id ` set (mo_sessions m) \<and> shots_of i (mo_shots m) = [])"
| "fresh_event (Upload now i emp u) m = (i \<notin> sh_id ` set (mo_shots m))"
| "fresh_event _ _ = True"

fun is_sweep :: "monitor_event \<Rightarrow> bool" where
  "is_sweep (Retention_Sweep now) = True"
| "is_sweep _ = False"

text \<open>\<open>swept\<close> says whether the retention was enforced meanwhile.\<close>

inductive monitor_reach :: "bool \<Rightarrow> monitor \<Rightarrow> bool" where
  start: "monitor_reach swept empty_monitor"
| step: "monitor_reach swept m \<Longrightarrow> fresh_event e m \<Longrightarrow> \<not> is_sweep e \<or> swept \<Longrightarrow> monitor_reach swept (monitor_step e m)"

section \<open>Roll-ups\<close>

definition exact :: "stored_shot list \<Rightarrow> session_row \<Rightarrow> bool" where
  "exact shots r =
     (let xs = shots_of (ws_id r) shots
      in sr_count r = length xs \<and> sr_active r = sum_list (map sh_active_seconds xs) \<and>
         sr_tracked r = sum_list (map sh_seconds xs) \<and>
         sr_avg r = of_int (sum_list (map st_percent xs)) / of_nat (length xs))"

text \<open>After a sweep of the retention a roll-up may count more screenshots than there are, never fewer.\<close>

definition row_ok :: "bool \<Rightarrow> stored_shot list \<Rightarrow> session_row \<Rightarrow> bool" where
  "row_ok swept shots r = (length (shots_of (ws_id r) shots) \<le> sr_count r \<and> (swept \<or> exact shots r))"

definition settings_ok :: "monitor_settings \<Rightarrow> bool" where
  "settings_ok t = (20 \<le> mt_min t \<and> mt_min t \<le> mt_max t \<and> 0 \<le> mt_idle t \<and> mt_idle t \<le> 100)"

definition monitor_ok :: "bool \<Rightarrow> monitor \<Rightarrow> bool" where
  "monitor_ok swept m =
     (distinct (map ws_id (mo_sessions m)) \<and> distinct (map sh_id (mo_shots m)) \<and>
      (\<forall>r \<in> set (mo_sessions m). row_ok swept (mo_shots m) r) \<and> settings_ok (mo_settings m))"

lemma rollup_keeps [simp]:
  "ws_id (rollup now shots r) = ws_id r" "ws_ended (rollup now shots r) = ws_ended r"
  "ws_started (rollup now shots r) = ws_started r" "sr_device (rollup now shots r) = sr_device r"
  "sr_employee (rollup now shots r) = sr_employee r"
  by (simp_all add: rollup_def Let_def)

lemma row_ok_rollup [simp]: "row_ok swept shots (rollup now shots r)"
  by (simp add: row_ok_def exact_def rollup_def Let_def)

lemma row_ok_times [simp]:
  "row_ok swept shots (r\<lparr>ws_ended := e, sr_updated := u\<rparr>) = row_ok swept shots r"
  by (simp add: row_ok_def exact_def)

lemma row_ok_cong: "shots_of (ws_id r) xs = shots_of (ws_id r) ys \<Longrightarrow> row_ok swept xs r = row_ok swept ys r"
  by (simp add: row_ok_def exact_def)

lemma map_ws_id_if: "(\<And>r. ws_id (f r) = ws_id r) \<Longrightarrow> map (ws_id \<circ> (\<lambda>r. if P r then f r else r)) rs = map ws_id rs"
  by simp

lemma refresh_ok:
  assumes "distinct (map ws_id (mo_sessions m))" "distinct (map sh_id (mo_shots m))" "settings_ok (mo_settings m)"
    "\<forall>r \<in> set (mo_sessions m). ws_id r \<noteq> i \<longrightarrow> row_ok swept (mo_shots m) r"
  shows "monitor_ok swept (refresh_rollup now i m)"
  using assms by (auto simp: monitor_ok_def refresh_rollup_def map_ws_id_if)

lemma monitor_ok_start:
  "monitor_ok swept m \<Longrightarrow> fresh_event (Start_Session now dev emp started i) m \<Longrightarrow>
    monitor_ok swept (snd (start_session now dev emp started i m))"
  by (auto simp: monitor_ok_def start_session_def row_ok_def exact_def split: list.split)

lemma monitor_ok_upload:
  assumes "monitor_ok swept m" "i \<notin> sh_id ` set (mo_shots m)"
  shows "monitor_ok swept (snd (upload_shot now i emp u m))"
proof -
  let ?x = "shot_of (mt_idle (mo_settings m)) now i emp u"
  let ?m = "m\<lparr>mo_shots := mo_shots m @ [?x]\<rparr>"
  have x: "sh_id ?x = i" "sh_session ?x = up_session u"
    by (simp_all add: shot_of_def Let_def)
  have rows: "row_ok swept (mo_shots ?m) r" if "r \<in> set (mo_sessions m)" "up_session u \<noteq> Some (ws_id r)" for r
    using assms(1) that x row_ok_cong [of r "mo_shots m" "mo_shots ?m"] by (auto simp: monitor_ok_def shots_of_def)
  have "monitor_ok swept (case up_session u of None \<Rightarrow> ?m | Some s \<Rightarrow> refresh_rollup now s ?m)"
  proof (cases "up_session u")
    case None
    then show ?thesis
      using assms rows x by (auto simp: monitor_ok_def)
  next
    case (Some s)
    have "monitor_ok swept (refresh_rollup now s ?m)"
      using assms rows x Some by (intro refresh_ok) (auto simp: monitor_ok_def)
    then show ?thesis using Some by simp
  qed
  then show ?thesis
    using assms(1) by (simp add: upload_shot_def Let_def)
qed

lemma shots_of_filter: "shots_of j (filter P xs) = filter P (shots_of j xs)"
  by (simp add: shots_of_def conj_commute)

lemma monitor_ok_delete_session: "monitor_ok swept m \<Longrightarrow> monitor_ok swept (snd (delete_session i m))"
proof -
  assume m: "monitor_ok swept m"
  have "row_ok swept (filter (\<lambda>x. sh_session x \<noteq> Some i) (mo_shots m)) r"
    if "r \<in> set (mo_sessions m)" "ws_id r \<noteq> i" for r
  proof -
    have "shots_of (ws_id r) (filter (\<lambda>x. sh_session x \<noteq> Some i) (mo_shots m)) = shots_of (ws_id r) (mo_shots m)"
      using that(2) by (auto simp: shots_of_def intro!: filter_cong)
    from row_ok_cong [OF this] show ?thesis
      using m that(1) by (simp add: monitor_ok_def)
  qed
  then show ?thesis
    using m by (auto simp: monitor_ok_def delete_session_def distinct_map_filter)
qed

lemma monitor_ok_delete_shot: "monitor_ok swept m \<Longrightarrow> monitor_ok swept (snd (delete_shot now i m))"
proof (cases "filter (\<lambda>x. sh_id x = i) (mo_shots m)")
  case (Cons x xs)
  assume m: "monitor_ok swept m"
  let ?m = "m\<lparr>mo_shots := filter (\<lambda>x. sh_id x \<noteq> i) (mo_shots m)\<rparr>"
  have x: "x \<in> set (mo_shots m)" "sh_id x = i"
    using Cons by (auto dest: filter_eq_ConsD)
  have same: "y = x" if "y \<in> set (mo_shots m)" "sh_id y = i" for y
    using m x that by (auto simp: monitor_ok_def distinct_map inj_on_def)
  have rows: "row_ok swept (mo_shots ?m) r" if "r \<in> set (mo_sessions m)" "sh_session x \<noteq> Some (ws_id r)" for r
  proof -
    have "shots_of (ws_id r) (mo_shots ?m) = shots_of (ws_id r) (mo_shots m)"
      using that(2) same by (auto simp: shots_of_def intro!: filter_cong)
    from row_ok_cong [OF this] show ?thesis
      using m that(1) by (simp add: monitor_ok_def)
  qed
  have "monitor_ok swept (case sh_session x of None \<Rightarrow> ?m | Some s \<Rightarrow> refresh_rollup now s ?m)"
  proof (cases "sh_session x")
    case None
    then show ?thesis
      using m rows by (auto simp: monitor_ok_def distinct_map_filter)
  next
    case (Some s)
    have "monitor_ok swept (refresh_rollup now s ?m)"
      using m rows Some by (intro refresh_ok) (auto simp: monitor_ok_def distinct_map_filter)
    then show ?thesis using Some by simp
  qed
  then show ?thesis
    using Cons by (simp add: delete_shot_def Let_def)
qed (simp add: delete_shot_def)

lemma row_ok_note:
  "row_ok swept (map (\<lambda>x. if sh_id x = i then x\<lparr>sh_note := t\<rparr> else x) shots) r = row_ok swept shots r"
proof -
  let ?f = "\<lambda>x :: stored_shot. if sh_id x = i then x\<lparr>sh_note := t\<rparr> else x"
  have "shots_of (ws_id r) (map ?f shots) = map ?f (shots_of (ws_id r) shots)"
    by (induction shots) (auto simp: shots_of_def)
  moreover have "map sh_active_seconds (map ?f xs) = map sh_active_seconds xs" "map sh_seconds (map ?f xs) = map sh_seconds xs"
    "map st_percent (map ?f xs) = map st_percent xs" for xs
    by simp_all
  ultimately show ?thesis
    by (simp add: row_ok_def exact_def Let_def del: map_map)
qed

lemma monitor_ok_explain: "monitor_ok swept m \<Longrightarrow> monitor_ok swept (snd (explain_shot emp i text m))"
proof -
  assume m: "monitor_ok swept m"
  have "map sh_id (map (\<lambda>x. if sh_id x = i then x\<lparr>sh_note := t\<rparr> else x) xs) = map sh_id xs" for t and xs :: "stored_shot list"
    by simp
  then show ?thesis
    using m by (auto simp: monitor_ok_def explain_shot_def set_reason_def row_ok_note Let_def simp del: map_map)
qed

lemma monitor_ok_stale: "monitor_ok swept m \<Longrightarrow> monitor_ok swept (stale_sweep now m)"
  by (auto simp: monitor_ok_def stale_sweep_def map_ws_id_if)

lemma monitor_ok_end: "monitor_ok swept m \<Longrightarrow> monitor_ok swept (end_session now i ended m)"
  by (auto simp: monitor_ok_def end_session_def map_ws_id_if)

lemma row_ok_fewer: "row_ok True xs r \<Longrightarrow> row_ok True (filter P xs) r"
  by (auto simp: row_ok_def shots_of_filter intro: order_trans [OF length_filter_le])

lemma monitor_ok_retention: "monitor_ok True m \<Longrightarrow> monitor_ok True (retention_sweep now m)"
  by (auto simp: monitor_ok_def retention_sweep_def Let_def distinct_map_filter row_ok_fewer)

lemma settings_ok_update: "settings_ok t \<Longrightarrow> settings_ok (update_settings c t)"
  by (auto simp: settings_ok_def update_settings_def clamp_percent_def Let_def split: option.split)

lemma monitor_ok_settings: "monitor_ok swept m \<Longrightarrow> settings_ok t \<Longrightarrow> monitor_ok swept (m\<lparr>mo_settings := t\<rparr>)"
  by (simp add: monitor_ok_def)

lemmas monitor_steps = monitor_ok_start monitor_ok_upload monitor_ok_delete_session monitor_ok_delete_shot
  monitor_ok_explain monitor_ok_stale monitor_ok_end monitor_ok_retention monitor_ok_settings

lemma monitor_reach_ok: "monitor_reach swept m \<Longrightarrow> monitor_ok swept m"
proof (induction rule: monitor_reach.induct)
  case (start swept)
  show ?case by (simp add: monitor_ok_def settings_ok_def empty_monitor_def default_settings_def)
next
  case (step swept m e)
  then have "settings_ok (mo_settings m)" by (simp add: monitor_ok_def)
  then show ?case
    using step by (cases e) (simp_all add: monitor_steps settings_ok_update)
qed

text \<open>
  C18: Whatever agents, administrators and employees do, each session counts and averages exactly the
  screenshots that are stored for it, until the retention is enforced, and no fewer than that ever.
\<close>

theorem rollups_exact:
  assumes "monitor_reach swept m" "r \<in> set (mo_sessions m)"
  shows "length (shots_of (ws_id r) (mo_shots m)) \<le> sr_count r \<and>
    (\<not> swept \<longrightarrow>
      sr_count r = length (shots_of (ws_id r) (mo_shots m)) \<and>
      sr_active r = sum_list (map sh_active_seconds (shots_of (ws_id r) (mo_shots m))) \<and>
      sr_tracked r = sum_list (map sh_seconds (shots_of (ws_id r) (mo_shots m))) \<and>
      sr_avg r = of_int (sum_list (map st_percent (shots_of (ws_id r) (mo_shots m)))) / of_nat (length (shots_of (ws_id r) (mo_shots m))))"
  using monitor_reach_ok [OF assms(1)] assms(2) by (auto simp: monitor_ok_def row_ok_def exact_def Let_def)

definition an_upload :: "string option \<Rightarrow> int \<Rightarrow> upload" where
  "an_upload s t =
     \<lparr>up_bytes = 1000, up_session = s, up_captured = Some t, up_start = Some (t - 60000), up_end = None, up_seconds = None,
      up_active = Some 30, up_percent = None\<rparr>"

definition one_shot :: monitor where
  "one_shot = monitor_step (Upload 3600000 ''a'' (Some ''riya'') (an_upload (Some ''s1'') 3600000))
     (monitor_step (Start_Session 0 ''pc'' (Some ''riya'') None ''s1'') empty_monitor)"

lemma one_shot_value:
  "mo_settings one_shot = default_settings"
  "mo_shots one_shot =
     [\<lparr>sh_id = ''a'', sh_session = Some ''s1'', sh_captured = 3600000, sh_start = 3540000, sh_end = 3600000,
       sh_state = ''active'', sh_active_seconds = 30, sh_seconds = 60, sh_note = [], st_employee = Some ''riya'', st_percent = 50\<rparr>]"
  "mo_sessions one_shot =
     [\<lparr>ws_id = ''s1'', ws_started = 0, ws_ended = None, sr_device = ''pc'', sr_employee = Some ''riya'', sr_updated = 3600000,
       sr_count = 1, sr_active = 30, sr_tracked = 60, sr_avg = 50\<rparr>]"
  by (simp_all add: one_shot_def start_session_def upload_shot_def empty_monitor_def default_settings_def an_upload_def
      max_bytes_def sort_by_def refresh_rollup_def shot_of_def given_def go_div_def clamp_percent_def rollup_def shots_of_def)

lemma one_shot_reached: "monitor_reach swept one_shot"
  unfolding one_shot_def
  by (intro monitor_reach.intros)
     (simp_all add: empty_monitor_def shots_of_def start_session_def sort_by_def)

lemma rollups_exact_witness:
  "let r = hd (mo_sessions one_shot) in sr_count r = 1 \<and> sr_active r = 30 \<and> sr_tracked r = 60 \<and> sr_avg r = 50"
proof -
  have "hd (mo_sessions one_shot) \<in> set (mo_sessions one_shot)" by (simp add: one_shot_value)
  from rollups_exact [OF one_shot_reached [of False] this] show ?thesis
    by (simp add: one_shot_value shots_of_def)
qed

section \<open>The sweeps\<close>

lemma distinct_take_filter:
  assumes "distinct (map f xs)"
  shows "filter (\<lambda>x. f x \<notin> f ` set (take n xs)) xs = drop n xs"
proof -
  have d: "f ` set (take n xs) \<inter> f ` set (drop n xs) = {}"
    using assms by (metis append_take_drop_id distinct_append map_append set_map)
  have "filter (\<lambda>x. f x \<notin> f ` set (take n xs)) (take n xs @ drop n xs) = drop n xs"
    using d unfolding filter_append by (auto simp: filter_empty_conv filter_id_conv)
  then show ?thesis by simp
qed

lemma past_left:
  assumes "distinct (map sh_id shots)"
  shows "length (filter P (filter (\<lambda>x. sh_id x \<notin> sh_id ` set (take n (sort_by by_captured (filter P shots)))) shots)) =
    length (filter P shots) - n"
proof -
  let ?s = "sort_by by_captured (filter P shots)"
  let ?Q = "\<lambda>x. sh_id x \<notin> sh_id ` set (take n ?s)"
  have "mset (filter P (filter ?Q shots)) = mset (filter ?Q ?s)"
    by (simp add: filter_filter_mset conj_commute)
  then have "length (filter P (filter ?Q shots)) = length (filter ?Q ?s)"
    by (rule mset_eq_length)
  also have "\<dots> = length (filter P shots) - n"
    using distinct_take_filter [of sh_id ?s n] assms by (simp add: distinct_map_filter)
  finally show ?thesis .
qed

lemma counts_some: "row_ok swept shots r \<Longrightarrow> shots_of (ws_id r) shots \<noteq> [] \<Longrightarrow> 0 < sr_count r"
  unfolding row_ok_def by (metis length_greater_0_conv less_le_trans)

text \<open>
  C19: Enforcing the retention deletes screenshots that are older than it and no others, at most 2000 at
  once, the rest in later turns; sessions that have a screenshot stay.
\<close>

theorem retention_keeps_recent:
  assumes "monitor_reach swept m"
  shows "(\<forall>x \<in> set (mo_shots m). \<not> past_retention now m x \<longrightarrow> x \<in> set (mo_shots (retention_sweep now m))) \<and>
    (\<forall>r \<in> set (mo_sessions m). shots_of (ws_id r) (mo_shots m) \<noteq> [] \<longrightarrow> r \<in> set (mo_sessions (retention_sweep now m))) \<and>
    length (filter (past_retention now m) (mo_shots (retention_sweep now m))) = length (filter (past_retention now m) (mo_shots m)) - sweep_limit"
proof -
  have m: "monitor_ok swept m" by (rule monitor_reach_ok [OF assms])
  let ?old = "take sweep_limit (sort_by by_captured (filter (past_retention now m) (mo_shots m)))"
  have old: "x \<in> set ?old \<Longrightarrow> x \<in> set (mo_shots m) \<and> past_retention now m x" for x
    by (auto dest: in_set_takeD)
  have kept: "x \<in> set (mo_shots (retention_sweep now m))" if "x \<in> set (mo_shots m)" "\<not> past_retention now m x" for x
  proof -
    have "inj_on sh_id (set (mo_shots m))"
      using m by (simp add: monitor_ok_def distinct_map)
    then have "sh_id x \<noteq> sh_id y" if "y \<in> set ?old" for y
      using old [OF that] \<open>x \<in> set (mo_shots m)\<close> \<open>\<not> past_retention now m x\<close> inj_onD by metis
    then have "sh_id x \<notin> sh_id ` set ?old" by blast
    then show ?thesis using that(1) by (auto simp: retention_sweep_def Let_def)
  qed
  have rows: "r \<in> set (mo_sessions (retention_sweep now m))"
    if "r \<in> set (mo_sessions m)" "shots_of (ws_id r) (mo_shots m) \<noteq> []" for r
    using m that counts_some [of swept "mo_shots m" r] by (auto simp: retention_sweep_def monitor_ok_def Let_def)
  have "length (filter (past_retention now m) (mo_shots (retention_sweep now m))) = length (filter (past_retention now m) (mo_shots m)) - sweep_limit"
  proof (cases "?old = []")
    case True
    then have "filter (past_retention now m) (mo_shots m) = []"
      by (metis length_0_conv length_sort_by sweep_limit_def take_eq_Nil zero_neq_numeral)
    then show ?thesis using True by (simp add: retention_sweep_def)
  next
    case False
    then show ?thesis
      using past_left [of "mo_shots m" "past_retention now m" sweep_limit] m by (simp add: retention_sweep_def Let_def monitor_ok_def)
  qed
  with kept rows show ?thesis by blast
qed

lemma retention_keeps_recent_witness:
  "mo_shots one_shot \<noteq> [] \<and> set (mo_shots one_shot) \<subseteq> set (mo_shots (retention_sweep (80 * day_length) one_shot))"
proof -
  have "\<forall>x \<in> set (mo_shots one_shot). \<not> past_retention (80 * day_length) one_shot x"
    by (simp add: one_shot_value past_retention_def default_settings_def day_length_def)
  then show ?thesis
    using retention_keeps_recent [OF one_shot_reached [of False], of "80 * day_length"] by (auto simp: one_shot_value)
qed

text \<open>
  A session that ever lost its screenshots to the retention stays for ever, since the sweep looks at
  a count that it does not bring up to date.
\<close>

theorem emptied_session_stays:
  assumes "monitor_reach swept m" "r \<in> set (mo_sessions m)" "shots_of (ws_id r) (mo_shots m) \<noteq> []"
  shows "r \<in> set (mo_sessions (fold retention_sweep ts m))"
proof -
  have "0 < sr_count r"
    using monitor_reach_ok [OF assms(1)] assms(2,3) counts_some by (auto simp: monitor_ok_def)
  with assms(2) show ?thesis
  proof (induction ts arbitrary: m)
    case (Cons t ts)
    then have "r \<in> set (mo_sessions (retention_sweep t m))"
      by (auto simp: retention_sweep_def Let_def)
    with Cons show ?case by simp
  qed simp
qed

lemma emptied_session_stays_witness:
  "let m = fold retention_sweep [100 * day_length, 101 * day_length]
     (monitor_step (End_Session 7200000 ''s1'' None) one_shot)
   in mo_shots m = [] \<and> ''s1'' \<in> ws_id ` set (mo_sessions m)"
proof -
  let ?m = "monitor_step (End_Session 7200000 ''s1'' None) one_shot"
  have reach: "monitor_reach True ?m"
    by (intro monitor_reach.step one_shot_reached) simp_all
  obtain r where r: "mo_sessions ?m = [r]" "ws_id r = ''s1''" "shots_of (ws_id r) (mo_shots ?m) \<noteq> []"
    by (simp add: one_shot_value end_session_def shots_of_def)
  then have "r \<in> set (mo_sessions (fold retention_sweep [100 * day_length, 101 * day_length] ?m))"
    by (intro emptied_session_stays [OF reach]) simp_all
  moreover have "mo_shots (fold retention_sweep [100 * day_length, 101 * day_length] ?m) = []"
    by (simp add: one_shot_value end_session_def retention_sweep_def past_retention_def default_settings_def day_length_def
        sort_by_def sweep_limit_def)
  ultimately show ?thesis
    using r(2) unfolding Let_def by (metis image_eqI)
qed

interpretation last_written: comparison "\<lambda>a b. sr_updated b - sr_updated a"
  by unfold_locales auto

text \<open>
  A device with an open session goes on with the one written to last, if that was within 15 minutes;
  otherwise it gets a new one. What is returned is always an open session of the device.
\<close>

theorem restart_resumes:
  assumes "start_session now dev emp started i m = ((j, resumed), m')"
  shows "(\<exists>r \<in> set (mo_sessions m'). ws_id r = j \<and> sr_device r = dev \<and> ws_ended r = None \<and>
      (\<forall>r' \<in> set (mo_sessions m). resumable now dev r' \<longrightarrow> sr_updated r' \<le> sr_updated r)) \<and>
    resumed = (\<exists>r \<in> set (mo_sessions m). resumable now dev r) \<and> (resumed \<longrightarrow> m' = m)"
proof (cases "sort_by (\<lambda>a b. sr_updated b - sr_updated a) (filter (resumable now dev) (mo_sessions m))")
  case Nil
  then have none: "\<forall>r \<in> set (mo_sessions m). \<not> resumable now dev r"
    by (metis length_0_conv length_sort_by filter_empty_conv)
  then show ?thesis
    using assms Nil by (auto simp: start_session_def)
next
  case (Cons r rs)
  have mem: "set (r # rs) = set (filter (resumable now dev) (mo_sessions m))"
    by (metis Cons set_sort_by)
  have "sorted_wrt (\<lambda>a b. sr_updated b - sr_updated a \<le> 0) (r # rs)"
    using last_written.sorted_sort_by by (metis Cons)
  then have "\<forall>r' \<in> set (r # rs). sr_updated r' \<le> sr_updated r"
    by auto
  then have newest: "\<forall>r' \<in> set (mo_sessions m). resumable now dev r' \<longrightarrow> sr_updated r' \<le> sr_updated r"
    unfolding mem by simp
  have r: "r \<in> set (mo_sessions m)" "resumable now dev r"
    using mem by auto
  have "j = ws_id r" "resumed" "m' = m"
    using assms Cons by (simp_all add: start_session_def)
  then show ?thesis
    using r newest by (auto simp: resumable_def)
qed

text \<open>
  While no more than 1000 sessions are abandoned, the sweep closes exactly those that nothing was
  written to for 15 minutes, at the time of the last writing, and leaves the others as they are.
\<close>

theorem quiet_sessions_close:
  assumes "monitor_reach swept m" "length (filter (abandoned now) (mo_sessions m)) \<le> close_limit"
  shows "(\<forall>r \<in> set (mo_sessions m).
      (if abandoned now r then r\<lparr>ws_ended := Some (sr_updated r), sr_updated := now\<rparr> else r) \<in> set (mo_sessions (stale_sweep now m))) \<and>
    (\<forall>r \<in> set (mo_sessions (stale_sweep now m)). ws_ended r = None \<longrightarrow> now - stale_after \<le> sr_updated r)"
proof -
  have inj: "inj_on ws_id (set (mo_sessions m))"
    using monitor_reach_ok [OF assms(1)] by (simp add: monitor_ok_def distinct_map)
  have "set (stale_sessions now m) = set (filter (abandoned now) (mo_sessions m))"
    using assms(2) by (simp add: stale_sessions_def)
  then have "(ws_id r \<in> ws_id ` set (stale_sessions now m) \<and> ws_ended r = None) = abandoned now r" if "r \<in> set (mo_sessions m)" for r
    using inj_onD [OF inj] that by (auto simp: abandoned_def)
  then have "mo_sessions (stale_sweep now m) =
      map (\<lambda>r. if abandoned now r then r\<lparr>ws_ended := Some (sr_updated r), sr_updated := now\<rparr> else r) (mo_sessions m)"
    by (auto simp: stale_sweep_def)
  then show ?thesis
    by (auto simp: abandoned_def)
qed

lemma quiet_sessions_close_witness:
  "list_all (\<lambda>r. ws_ended r \<noteq> None \<or> 7200000 - stale_after \<le> sr_updated r) (mo_sessions (stale_sweep 7200000 one_shot))"
proof -
  have "length (filter (abandoned 7200000) (mo_sessions one_shot)) \<le> close_limit"
    by (simp add: one_shot_value close_limit_def)
  from quiet_sessions_close [OF one_shot_reached [of False] this] show ?thesis
    by (auto simp: list_all_iff)
qed

text \<open>
  An agent that uploaded into its open session and starts again within 15 minutes is given a session
  that was there before: a restart does not open another one.
\<close>

theorem restart_after_upload_resumes:
  assumes "upload_shot now i emp u m = (None, m1)" "up_session u = Some j"
    "r \<in> set (mo_sessions m)" "ws_id r = j" "sr_device r = dev" "ws_ended r = None" "later \<le> now + stale_after"
  shows "\<exists>k. start_session later dev emp started n m1 = ((k, True), m1) \<and> k \<in> ws_id ` set (mo_sessions m)"
proof -
  have "m1 = refresh_rollup now j (m\<lparr>mo_shots := mo_shots m @ [shot_of (mt_idle (mo_settings m)) now i emp u]\<rparr>)"
    using assms(1,2) by (auto simp: upload_shot_def Let_def split: if_splits)
  then obtain shots where m1: "mo_sessions m1 = map (\<lambda>r. if ws_id r = j then rollup now shots r else r) (mo_sessions m)"
    by (auto simp: refresh_rollup_def)
  have "rollup now shots r \<in> set (mo_sessions m1)"
    using assms(3,4) by (auto simp: m1)
  moreover have "resumable later dev (rollup now shots r)"
    using assms(4-7) by (simp add: resumable_def) (simp add: rollup_def Let_def)
  ultimately have "sort_by (\<lambda>a b. sr_updated b - sr_updated a) (filter (resumable later dev) (mo_sessions m1)) \<noteq> []"
    by (metis filter_empty_conv length_0_conv length_sort_by)
  then obtain q qs where q: "sort_by (\<lambda>a b. sr_updated b - sr_updated a) (filter (resumable later dev) (mo_sessions m1)) = q # qs"
    by (cases "sort_by (\<lambda>a b. sr_updated b - sr_updated a) (filter (resumable later dev) (mo_sessions m1))") auto
  then have "q \<in> set (filter (resumable later dev) (mo_sessions m1))"
    by (metis list.set_intros(1) set_sort_by)
  then have "ws_id q \<in> ws_id ` set (mo_sessions m)"
    by (auto simp: m1)
  then show ?thesis
    using q by (simp add: start_session_def)
qed

lemma restart_after_upload_resumes_witness:
  "\<exists>k. start_session 4000000 ''pc'' (Some ''riya'') None ''s2'' one_shot = ((k, True), one_shot) \<and> k = ''s1''"
proof -
  let ?m = "monitor_step (Start_Session 0 ''pc'' (Some ''riya'') None ''s1'') empty_monitor"
  obtain r where r: "mo_sessions ?m = [r]" "ws_id r = ''s1''" "sr_device r = ''pc''" "ws_ended r = None"
    by (simp add: start_session_def empty_monitor_def sort_by_def)
  have "fst (upload_shot 3600000 ''a'' (Some ''riya'') (an_upload (Some ''s1'') 3600000) ?m) = None"
    by (simp add: upload_shot_def start_session_def empty_monitor_def sort_by_def default_settings_def an_upload_def max_bytes_def)
  then have "upload_shot 3600000 ''a'' (Some ''riya'') (an_upload (Some ''s1'') 3600000) ?m = (None, one_shot)"
    by (simp add: one_shot_def prod_eq_iff)
  from restart_after_upload_resumes [OF this, of "''s1''" r "''pc''" 4000000 None "''s2''"] r show ?thesis
    by (simp add: an_upload_def stale_after_def)
qed

section \<open>Screenshots nobody sees\<close>

lemma unplaced_hidden:
  assumes "d = day_of midnight reset date emp m" "distinct (map ws_id (mo_sessions m))" "distinct (map sh_id (mo_shots m))"
    "x \<in> set (mo_shots m)" "st_employee x = Some emp" "sh_session x = Some s"
    "fst (dy_window d) \<le> sh_captured x" "sh_captured x < snd (dy_window d)"
    "\<forall>r \<in> set (mo_sessions m). ws_id r = s \<longrightarrow> (\<exists>e. ws_ended r = Some e \<and> e < fst (dy_window d))"
  shows "sh_id x \<notin> sh_id ` set (all_shots d) \<and> sh_id x \<notin> sh_id ` set (company_shots d) \<and>
    length (all_shots d) < dt_screenshots (dy_totals d)"
proof -
  let ?ss = "map work_session.truncate (filter (\<lambda>r. sr_employee r = Some emp) (mo_sessions m))"
  let ?xs = "map screenshot.truncate (filter (\<lambda>x. st_employee x = Some emp) (mo_shots m))"
  let ?day = "day_shots (dy_window d) ?xs" and ?x = "screenshot.truncate x"
  have d: "d = screenshot_day midnight reset date ?ss ?xs"
    using assms(1) by (simp add: day_of_def)
  have trunc: "map ws_id ?ss = map ws_id (filter (\<lambda>r. sr_employee r = Some emp) (mo_sessions m))"
    "map sh_id ?xs = map sh_id (filter (\<lambda>x. st_employee x = Some emp) (mo_shots m))"
    by (simp_all add: work_session.truncate_def screenshot.truncate_def)
  have ids: "distinct (map ws_id ?ss)" "distinct (map sh_id ?xs)"
    unfolding trunc using assms(2,3) by (simp_all add: distinct_map_filter)
  have x: "?x \<in> set ?day" "sh_id ?x = sh_id x"
    using assms(4,5,7,8) by (auto simp: day_shots_def in_window_def screenshot.truncate_def)
  have unplaced: "\<not> placed d ?x"
    using assms(6,9)
    by (fastforce simp: placed_def d screenshot_day_def Let_def day_sessions_def screenshot.truncate_def
        work_session.truncate_def day_window_def)
  have shown: "set (all_shots d) = set (filter (placed d) ?day)" "set (company_shots d) \<subseteq> set (filter (placed d) ?day)"
    "length (all_shots d) = length (filter (placed d) ?day)"
    using mset_all_shots [OF d ids(1)] by (metis mset_eq_setD, metis Un_upper1 mset_eq_setD set_append, metis mset_eq_length)
  have "inj_on sh_id (set ?day)"
    using ids(2) by (auto simp: day_shots_def distinct_map inj_on_def)
  then have "sh_id ?x \<notin> sh_id ` set (filter (placed d) ?day)"
    using x(1) unplaced by (auto dest: inj_onD)
  moreover have "length (filter (placed d) ?day) < length ?day"
    using x(1) unplaced by (rule length_filter_less)
  moreover have "dt_screenshots (dy_totals d) = length ?day"
    by (simp add: d screenshot_day_def totals_of_def Let_def)
  ultimately show ?thesis
    using shown x(2) by auto
qed

text \<open>What an accepted upload leaves behind.\<close>

lemma refresh_shots [simp]: "mo_shots (refresh_rollup now s m) = mo_shots m"
  by (simp add: refresh_rollup_def)

lemma refresh_rows:
  "r' \<in> set (mo_sessions (refresh_rollup now s m)) \<Longrightarrow> \<exists>r \<in> set (mo_sessions m). ws_id r' = ws_id r \<and> ws_ended r' = ws_ended r"
  by (auto simp: refresh_rollup_def)

lemma uploaded:
  assumes "monitor_reach swept m" "fresh_event (Upload now i emp u) m" "upload_shot now i emp u m = (None, m')"
  shows "monitor_reach swept m'" "shot_of (mt_idle (mo_settings m)) now i emp u \<in> set (mo_shots m')"
    "\<forall>r' \<in> set (mo_sessions m'). \<exists>r \<in> set (mo_sessions m). ws_id r' = ws_id r \<and> ws_ended r' = ws_ended r"
proof -
  show "monitor_reach swept m'"
    using monitor_reach.step [OF assms(1,2)] assms(3) by simp
  show "shot_of (mt_idle (mo_settings m)) now i emp u \<in> set (mo_shots m')"
    "\<forall>r' \<in> set (mo_sessions m'). \<exists>r \<in> set (mo_sessions m). ws_id r' = ws_id r \<and> ws_ended r' = ws_ended r"
    using assms(3) by (auto simp: upload_shot_def Let_def dest!: refresh_rows split: if_splits option.splits)
qed

lemma shot_of_simps [simp]:
  "sh_id (shot_of idle now i emp u) = i" "sh_session (shot_of idle now i emp u) = up_session u"
  "sh_captured (shot_of idle now i emp u) = given now (up_captured u)" "st_employee (shot_of idle now i emp u) = emp"
  by (simp_all add: shot_of_def Let_def)

lemma upload_hidden:
  assumes "monitor_reach swept m" "fresh_event (Upload now i (Some emp) u) m" "upload_shot now i (Some emp) u m = (None, m')"
    "up_session u = Some s" "d = day_of midnight reset date emp m'"
    "fst (dy_window d) \<le> given now (up_captured u)" "given now (up_captured u) < snd (dy_window d)"
    "\<forall>r \<in> set (mo_sessions m). ws_id r = s \<longrightarrow> (\<exists>e. ws_ended r = Some e \<and> e < fst (dy_window d))"
  shows "i \<in> sh_id ` set (mo_shots m') \<and> i \<notin> sh_id ` set (all_shots d) \<and> i \<notin> sh_id ` set (company_shots d) \<and>
    length (all_shots d) < dt_screenshots (dy_totals d)"
proof -
  let ?x = "shot_of (mt_idle (mo_settings m)) now i (Some emp) u"
  note up = uploaded [OF assms(1-3)]
  have ok: "monitor_ok swept m'" by (rule monitor_reach_ok [OF up(1)])
  have "\<forall>r \<in> set (mo_sessions m'). ws_id r = s \<longrightarrow> (\<exists>e. ws_ended r = Some e \<and> e < fst (dy_window d))"
    using up(3) assms(8) by fastforce
  then have "sh_id ?x \<notin> sh_id ` set (all_shots d) \<and> sh_id ?x \<notin> sh_id ` set (company_shots d) \<and>
      length (all_shots d) < dt_screenshots (dy_totals d)"
    using ok up(2) assms(4-7) by (intro unplaced_hidden [of d midnight reset date emp m' ?x s]) (simp_all add: monitor_ok_def)
  then show ?thesis
    using up(2) by (auto intro: image_eqI [of _ _ ?x])
qed

text \<open>
  An agent keeps its session. When an administrator deletes that session, everything the agent uploads
  from then on is stored, and counted in the totals of the day, but on neither page.
\<close>

theorem deleted_session_hides_later:
  assumes "monitor_reach swept m" "delete_session s m = (None, m1)"
    "fresh_event (Upload now i (Some emp) u) m1" "upload_shot now i (Some emp) u m1 = (None, m2)" "up_session u = Some s"
    "d = day_of midnight reset date emp m2"
    "fst (dy_window d) \<le> given now (up_captured u)" "given now (up_captured u) < snd (dy_window d)"
  shows "i \<in> sh_id ` set (mo_shots m2) \<and> i \<notin> sh_id ` set (all_shots d) \<and> i \<notin> sh_id ` set (company_shots d) \<and>
    length (all_shots d) < dt_screenshots (dy_totals d)"
proof -
  have "monitor_reach swept m1"
    using monitor_reach.step [OF assms(1), of "Remove_Session s"] assms(2) by simp
  moreover have "\<forall>r \<in> set (mo_sessions m1). ws_id r \<noteq> s"
    using assms(2) by (auto simp: delete_session_def split: if_splits)
  ultimately show ?thesis
    using assms(3-8) by (intro upload_hidden [of swept m1]) auto
qed

definition day_midnight :: "int \<Rightarrow> int" where
  "day_midnight n = n * 86400000"

lemma deleted_session_hides_later_witness:
  "let m = monitor_step (Upload 7200000 ''b'' (Some ''riya'') (an_upload (Some ''s1'') 7200000)) (snd (delete_session ''s1'' one_shot));
       d = day_of day_midnight 0 0 ''riya'' m
   in ''b'' \<in> sh_id ` set (mo_shots m) \<and> ''b'' \<notin> sh_id ` set (all_shots d) \<and> length (all_shots d) < dt_screenshots (dy_totals d)"
proof -
  let ?u = "an_upload (Some ''s1'') 7200000" and ?m1 = "snd (delete_session ''s1'' one_shot)"
  let ?m2 = "monitor_step (Upload 7200000 ''b'' (Some ''riya'') ?u) ?m1"
  let ?d = "day_of day_midnight 0 0 ''riya'' ?m2"
  have del: "delete_session ''s1'' one_shot = (None, ?m1)"
    by (simp add: delete_session_def one_shot_value)
  have fresh: "fresh_event (Upload 7200000 ''b'' (Some ''riya'') ?u) ?m1"
    by (simp add: delete_session_def one_shot_value)
  have up: "upload_shot 7200000 ''b'' (Some ''riya'') ?u ?m1 = (None, ?m2)"
    by (simp add: upload_shot_def delete_session_def one_shot_value default_settings_def an_upload_def max_bytes_def)
  have win: "dy_window ?d = (0, 86400000)"
    by (simp add: day_of_def screenshot_day_def day_window_def day_start_def day_midnight_def Let_def)
  show ?thesis
    using deleted_session_hides_later [OF one_shot_reached [of False] del fresh up _ refl, of day_midnight 0 0] win
    by (simp add: an_upload_def given_def Let_def)
qed

text \<open>
  C20: A session that was closed for want of activity, as when a computer sleeps, is not opened again: what
  its agent uploads on a later day is counted on that day and shown on none of the pages.
\<close>

theorem abandoned_session_hides_later:
  assumes "monitor_reach swept m" "r \<in> set (mo_sessions m)" "abandoned t r" "length (filter (abandoned t) (mo_sessions m)) \<le> close_limit"
    "m1 = stale_sweep t m" "fresh_event (Upload now i (Some emp) u) m1" "upload_shot now i (Some emp) u m1 = (None, m2)"
    "up_session u = Some (ws_id r)" "d = day_of midnight reset date emp m2" "sr_updated r < fst (dy_window d)"
    "fst (dy_window d) \<le> given now (up_captured u)" "given now (up_captured u) < snd (dy_window d)"
  shows "i \<in> sh_id ` set (mo_shots m2) \<and> i \<notin> sh_id ` set (all_shots d) \<and> i \<notin> sh_id ` set (company_shots d) \<and>
    length (all_shots d) < dt_screenshots (dy_totals d)"
proof -
  have reach: "monitor_reach swept m1"
    using monitor_reach.step [OF assms(1), of "Stale_Sweep t"] assms(5) by simp
  have inj: "inj_on ws_id (set (mo_sessions m1))"
    using monitor_reach_ok [OF reach] by (simp add: monitor_ok_def distinct_map)
  have set: "set (stale_sessions t m) = set (filter (abandoned t) (mo_sessions m))"
    using assms(4) by (simp add: stale_sessions_def)
  have closed: "r\<lparr>ws_ended := Some (sr_updated r), sr_updated := t\<rparr> \<in> set (mo_sessions m1)"
    using assms(2,3) set by (force simp: assms(5) stale_sweep_def abandoned_def)
  have "\<forall>q \<in> set (mo_sessions m1). ws_id q = ws_id r \<longrightarrow> (\<exists>e. ws_ended q = Some e \<and> e < fst (dy_window d))"
    using inj_onD [OF inj, of _ "r\<lparr>ws_ended := Some (sr_updated r), sr_updated := t\<rparr>"] closed assms(10) by force
  then show ?thesis
    using reach assms(6-9,11,12) by (intro upload_hidden [of swept m1]) auto
qed

lemma abandoned_session_hides_later_witness:
  "let m = monitor_step (Upload 90000000 ''b'' (Some ''riya'') (an_upload (Some ''s1'') 90000000)) (stale_sweep 7200000 one_shot);
       d = day_of day_midnight 0 1 ''riya'' m
   in ''b'' \<in> sh_id ` set (mo_shots m) \<and> ''b'' \<notin> sh_id ` set (all_shots d) \<and> length (all_shots d) < dt_screenshots (dy_totals d)"
proof -
  let ?u = "an_upload (Some ''s1'') 90000000" and ?m1 = "stale_sweep 7200000 one_shot"
  let ?m2 = "monitor_step (Upload 90000000 ''b'' (Some ''riya'') ?u) ?m1"
  let ?d = "day_of day_midnight 0 1 ''riya'' ?m2"
  obtain r where r: "mo_sessions one_shot = [r]" "ws_id r = ''s1''" "sr_updated r = 3600000" "ws_ended r = None"
    by (simp add: one_shot_value)
  have fresh: "fresh_event (Upload 90000000 ''b'' (Some ''riya'') ?u) ?m1"
    by (simp add: stale_sweep_def one_shot_value)
  have up: "upload_shot 90000000 ''b'' (Some ''riya'') ?u ?m1 = (None, ?m2)"
    by (simp add: upload_shot_def stale_sweep_def one_shot_value default_settings_def an_upload_def max_bytes_def)
  have win: "dy_window ?d = (86400000, 172800000)"
    by (simp add: day_of_def screenshot_day_def day_window_def day_start_def day_midnight_def Let_def)
  show ?thesis
    using abandoned_session_hides_later [OF one_shot_reached [of False] _ _ _ refl fresh up _ refl, of r day_midnight 0 1] r win
    by (simp add: an_upload_def given_def abandoned_def stale_after_def close_limit_def Let_def)
qed

end
