(* ===== verification/Company_Screenshots.thy ===== *)
theory Company_Screenshots
  imports Monitoring
begin

text \<open>
  The page on which a company reviews the screenshots of an employee
  (\<^verbatim>\<open>company-dashboard/src/app/dashboard/screenshots/page.tsx\<close>): what it asks for, what it shows of the
  answer, and what it deletes. The rows behind it are in \<^verbatim>\<open>Monitoring\<close>.

  \<open>Day_Arrived\<close> is an answer to the current query, from the server or from the cache; the dialogs of
  the browser that ask for a confirmation are arguments of the events.
\<close>

section \<open>The page\<close>

definition time_zones :: "string list" where
  "time_zones =
     [''Asia/Kolkata'', ''UTC'', ''America/New_York'', ''America/Los_Angeles'', ''Europe/London'', ''Europe/Berlin'',
      ''Asia/Dubai'', ''Asia/Singapore'', ''Australia/Sydney'']"

type_synonym day_query = "string \<times> int option \<times> nat \<times> string"

datatype removal = Of_Session string | Of_Shot string

record shots_page =
  cp_employees :: "string list"
  cp_employee :: string
  cp_date :: "int option"
  cp_reset :: nat
  cp_tz :: string
  cp_zoom :: "screenshot option"
  cp_day :: "day option"
  cp_may_session :: bool
  cp_may_shot :: bool
  cp_asked :: "day_query list"
  cp_calls :: "removal list"
  cp_waiting :: nat

definition first_zone :: "string option \<Rightarrow> string" where
  "first_zone browser =
     (case browser of None \<Rightarrow> ''Asia/Kolkata'' | Some z \<Rightarrow> if z \<in> set time_zones then z else ''Asia/Kolkata'')"

definition open_shots_page :: "int \<Rightarrow> string option \<Rightarrow> shots_page" where
  "open_shots_page now browser =
     \<lparr>cp_employees = [], cp_employee = [], cp_date = Some (utc_date now), cp_reset = 4, cp_tz = first_zone browser,
      cp_zoom = None, cp_day = None, cp_may_session = False, cp_may_shot = False, cp_asked = [], cp_calls = [], cp_waiting = 0\<rparr>"

text \<open>The choices of the select of time zones.\<close>

definition zone_choices :: "shots_page \<Rightarrow> string list" where
  "zone_choices s = first_of_each (\<lambda>z. z) [] (cp_tz s # time_zones)"

definition ask_day :: "shots_page \<Rightarrow> shots_page" where
  "ask_day s =
     (if cp_employee s = [] then s
      else s\<lparr>cp_asked := cp_asked s @ [(cp_employee s, cp_date s, cp_reset s, cp_tz s)]\<rparr>)"

text \<open>Another query starts without an answer, and without the permissions that come with one.\<close>

definition other_query :: "shots_page \<Rightarrow> shots_page" where
  "other_query s = ask_day (s\<lparr>cp_day := None, cp_may_session := False, cp_may_shot := False\<rparr>)"

datatype shots_event =
    Employees_Arrived "string list"
  | Choose_Employee string
  | Choose_Date "int option"
  | Choose_Reset nat
  | Choose_Zone string
  | Latest_Screens
  | Day_Arrived day bool bool
  | Zoom_In screenshot
  | Close_Zoom
  | Delete_Session_Pressed string bool
  | Delete_Shot_Pressed bool
  | Session_Deleted bool
  | Shot_Deleted bool

definition sessions_shown :: "shots_page \<Rightarrow> (work_session \<times> screenshot list) list" where
  "sessions_shown s = (case cp_day s of None \<Rightarrow> [] | Some d \<Rightarrow> dy_sessions d)"

definition thumbnails :: "shots_page \<Rightarrow> screenshot list" where
  "thumbnails s = (case cp_day s of None \<Rightarrow> [] | Some d \<Rightarrow> company_shots d)"

fun shots_step :: "shots_event \<Rightarrow> shots_page \<Rightarrow> shots_page" where
  "shots_step (Employees_Arrived es) s =
     (let s' = s\<lparr>cp_employees := es\<rparr>
      in if cp_employee s = [] \<and> es \<noteq> [] then other_query (s'\<lparr>cp_employee := hd es\<rparr>) else s')"
| "shots_step (Choose_Employee e) s =
     (if e \<in> set (cp_employees s) \<and> e \<noteq> cp_employee s then other_query (s\<lparr>cp_employee := e\<rparr>) else s)"
| "shots_step (Choose_Date d) s = (if d = cp_date s then s else other_query (s\<lparr>cp_date := d\<rparr>))"
| "shots_step (Choose_Reset h) s = (if h < 24 \<and> h \<noteq> cp_reset s then other_query (s\<lparr>cp_reset := h\<rparr>) else s)"
| "shots_step (Choose_Zone z) s =
     (if z \<in> set (zone_choices s) \<and> z \<noteq> cp_tz s then other_query (s\<lparr>cp_tz := z\<rparr>) else s)"
| "shots_step Latest_Screens s = ask_day s"
| "shots_step (Day_Arrived d b c) s = s\<lparr>cp_day := Some d, cp_may_session := b, cp_may_shot := c\<rparr>"
| "shots_step (Zoom_In x) s = (if cp_zoom s = None \<and> x \<in> set (thumbnails s) then s\<lparr>cp_zoom := Some x\<rparr> else s)"
| "shots_step Close_Zoom s = s\<lparr>cp_zoom := None\<rparr>"
| "shots_step (Delete_Session_Pressed i confirmed) s =
     (if cp_may_session s \<and> i \<in> ws_id ` fst ` set (sessions_shown s) \<and> confirmed
      then s\<lparr>cp_calls := cp_calls s @ [Of_Session i]\<rparr> else s)"
| "shots_step (Delete_Shot_Pressed confirmed) s =
     (case cp_zoom s of None \<Rightarrow> s
      | Some x \<Rightarrow>
          if cp_may_shot s \<and> confirmed
          then s\<lparr>cp_calls := cp_calls s @ [Of_Shot (sh_id x)], cp_waiting := Suc (cp_waiting s)\<rparr> else s)"
| "shots_step (Session_Deleted ok) s = (if ok then ask_day s else s)"
| "shots_step (Shot_Deleted ok) s =
     (if cp_waiting s = 0 then s
      else let s' = s\<lparr>cp_waiting := cp_waiting s - 1\<rparr> in if ok then (ask_day s')\<lparr>cp_zoom := None\<rparr> else s')"

definition shots_run :: "shots_event list \<Rightarrow> shots_page \<Rightarrow> shots_page" where
  "shots_run es s = fold shots_step es s"

section \<open>What the page asks for\<close>

definition known_query :: "string set \<Rightarrow> day_query \<Rightarrow> bool" where
  "known_query es q = (case q of (e, _, h, z) \<Rightarrow> e \<in> es \<and> e \<noteq> [] \<and> h < 24 \<and> z \<in> set time_zones)"

text \<open>\<open>es\<close> are the identifiers that answers listed.\<close>

definition shots_page_ok :: "string set \<Rightarrow> shots_page \<Rightarrow> bool" where
  "shots_page_ok es s =
     (set (cp_employees s) \<subseteq> es \<and> (cp_employee s = [] \<or> cp_employee s \<in> es) \<and> cp_reset s < 24 \<and> cp_tz s \<in> set time_zones \<and>
      list_all (known_query es) (cp_asked s))"

lemma shots_page_ok_ask [simp]: "shots_page_ok es s \<Longrightarrow> shots_page_ok es (ask_day s)"
  by (auto simp: shots_page_ok_def ask_day_def known_query_def)

lemma shots_page_ok_other: "shots_page_ok es s \<Longrightarrow> shots_page_ok es (other_query s)"
  by (simp add: other_query_def shots_page_ok_ask shots_page_ok_def del: shots_page_ok_ask) (auto simp: ask_day_def known_query_def)

lemma shots_page_ok_fields [simp]:
  "shots_page_ok es s \<Longrightarrow> set xs \<subseteq> es \<Longrightarrow> shots_page_ok es (s\<lparr>cp_employees := xs\<rparr>)"
  "shots_page_ok es s \<Longrightarrow> e \<in> es \<Longrightarrow> shots_page_ok es (s\<lparr>cp_employee := e\<rparr>)"
  "shots_page_ok es s \<Longrightarrow> shots_page_ok es (s\<lparr>cp_date := d\<rparr>)"
  "shots_page_ok es s \<Longrightarrow> h < 24 \<Longrightarrow> shots_page_ok es (s\<lparr>cp_reset := h\<rparr>)"
  "shots_page_ok es s \<Longrightarrow> z \<in> set time_zones \<Longrightarrow> shots_page_ok es (s\<lparr>cp_tz := z\<rparr>)"
  "shots_page_ok es s \<Longrightarrow> shots_page_ok es (s\<lparr>cp_zoom := x\<rparr>)"
  "shots_page_ok es s \<Longrightarrow> shots_page_ok es (s\<lparr>cp_waiting := n\<rparr>)"
  "shots_page_ok es s \<Longrightarrow> shots_page_ok es (s\<lparr>cp_calls := cs\<rparr>)"
  "shots_page_ok es s \<Longrightarrow> shots_page_ok es (s\<lparr>cp_calls := cs, cp_waiting := n\<rparr>)"
  "shots_page_ok es s \<Longrightarrow> shots_page_ok es (s\<lparr>cp_day := dd, cp_may_session := b, cp_may_shot := c\<rparr>)"
  by (auto simp: shots_page_ok_def)

lemma zone_choices_set: "set (zone_choices s) = insert (cp_tz s) (set time_zones)"
  using first_of_each_keys [of "\<lambda>z. z" "[]" "cp_tz s # time_zones"] by (simp add: zone_choices_def)

lemma shots_page_ok_step:
  assumes "shots_page_ok es s" "\<forall>xs. e = Employees_Arrived xs \<longrightarrow> set xs \<subseteq> es"
  shows "shots_page_ok es (shots_step e s)"
proof (cases e)
  case (Employees_Arrived xs)
  then have "xs \<noteq> [] \<Longrightarrow> shots_page_ok es (s\<lparr>cp_employees := xs, cp_employee := hd xs\<rparr>)"
    using assms hd_in_set [of xs] by (intro shots_page_ok_fields) auto
  then show ?thesis
    using assms Employees_Arrived by (simp add: Let_def shots_page_ok_other)
next
  case (Choose_Employee e')
  have "set (cp_employees s) \<subseteq> es" using assms(1) by (simp add: shots_page_ok_def)
  then show ?thesis
    using assms(1) Choose_Employee by (auto intro!: shots_page_ok_other shots_page_ok_fields)
next
  case (Delete_Shot_Pressed b)
  then show ?thesis using assms(1) by (simp split: option.split)
qed (use assms(1) in \<open>auto simp: zone_choices_set Let_def intro!: shots_page_ok_other\<close>)

fun listed :: "shots_event list \<Rightarrow> string list" where
  "listed [] = []"
| "listed (Employees_Arrived xs # es) = xs @ listed es"
| "listed (_ # es) = listed es"

lemma listed_mem: "Employees_Arrived xs \<in> set es \<Longrightarrow> set xs \<subseteq> set (listed es)"
  by (induction es rule: listed.induct) auto

lemma shots_page_ok_run: "set (listed evs) \<subseteq> es \<Longrightarrow> shots_page_ok es s \<Longrightarrow> shots_page_ok es (shots_run evs s)"
proof (induction evs arbitrary: s)
  case (Cons e evs)
  then have "\<forall>xs. e = Employees_Arrived xs \<longrightarrow> set xs \<subseteq> es" "set (listed evs) \<subseteq> es"
    using listed_mem [of _ "e # evs"] by (auto, cases e, auto)
  then show ?case
    using Cons shots_page_ok_step [of es s e] by (simp add: shots_run_def)
qed (simp add: shots_run_def)

text \<open>
  Every query of the page, whatever is chosen in whatever order, names an employee that an answer
  listed, an hour of the day and one of the nine zones of the page: the API uses each as it is.
\<close>

theorem day_queries_known:
  "list_all (\<lambda>(e, _, h, z). e \<in> set (listed evs) \<and> e \<noteq> [] \<and> z \<in> set time_zones \<and>
      day_start midnight (int h) d = midnight d + int h * 3600000)
    (cp_asked (shots_run evs (open_shots_page now browser)))"
proof -
  have "first_zone browser \<in> set time_zones"
    by (simp add: first_zone_def time_zones_def split: option.split)
  then have "shots_page_ok (set (listed evs)) (open_shots_page now browser)"
    by (simp add: shots_page_ok_def open_shots_page_def)
  then have "list_all (known_query (set (listed evs))) (cp_asked (shots_run evs (open_shots_page now browser)))"
    using shots_page_ok_run [OF subset_refl] by (auto simp: shots_page_ok_def)
  then show ?thesis
    by (rule list.pred_mono_strong) (auto simp: known_query_def day_start_def)
qed

text \<open>A browser in another zone starts in that of Kolkata, and its own is not among the choices.\<close>

lemma own_zone_missing:
  "z \<notin> set time_zones \<Longrightarrow>
    cp_tz (open_shots_page now (Some z)) = ''Asia/Kolkata'' \<and> z \<notin> set (zone_choices (open_shots_page now (Some z)))"
  by (auto simp: zone_choices_set) (simp_all add: open_shots_page_def first_zone_def time_zones_def)

section \<open>Deleting\<close>

fun allowed_removal :: "bool \<Rightarrow> bool \<Rightarrow> removal \<Rightarrow> bool" where
  "allowed_removal p q (Of_Session i) = p"
| "allowed_removal p q (Of_Shot i) = q"

lemma ask_keeps [simp]:
  "cp_calls (ask_day s) = cp_calls s" "cp_may_session (ask_day s) = cp_may_session s" "cp_may_shot (ask_day s) = cp_may_shot s"
  "cp_calls (other_query s) = cp_calls s" "\<not> cp_may_session (other_query s)" "\<not> cp_may_shot (other_query s)"
  by (simp_all add: other_query_def ask_day_def)

text \<open>
  Where the answers do not carry the permission, the page never sends the deletion of a session or of
  a screenshot, and it sends none that was not confirmed.
\<close>

theorem deletions_permitted:
  assumes "\<forall>d b c. Day_Arrived d b c \<in> set evs \<longrightarrow> (b \<longrightarrow> p) \<and> (c \<longrightarrow> q)"
    "\<forall>i. Delete_Session_Pressed i True \<notin> set evs \<or> x" "Delete_Shot_Pressed True \<notin> set evs \<or> y"
  shows "list_all (allowed_removal (p \<and> x) (q \<and> y)) (cp_calls (shots_run evs (open_shots_page now browser)))"
proof -
  let ?ok = "\<lambda>s. (cp_may_session s \<longrightarrow> p) \<and> (cp_may_shot s \<longrightarrow> q) \<and> list_all (allowed_removal (p \<and> x) (q \<and> y)) (cp_calls s)"
  have step: "?ok (shots_step e s)" if "?ok s" "e \<in> set evs" for e s
  proof (cases e)
    case (Day_Arrived d b c)
    then show ?thesis using that assms(1) by simp
  next
    case (Delete_Session_Pressed i b)
    then show ?thesis using that assms(2) by (cases b) auto
  next
    case (Delete_Shot_Pressed b)
    then show ?thesis using that assms(3) by (cases b) (auto split: option.split)
  qed (use that in \<open>simp_all add: Let_def\<close>)
  have "?ok (fold shots_step es s)" if "?ok s" "set es \<subseteq> set evs" for es s
    using that
  proof (induction es arbitrary: s)
    case (Cons e es)
    have "?ok (shots_step e s)" by (rule step) (use Cons.prems in auto)
    then show ?case using Cons.IH [of "shots_step e s"] Cons.prems(2) by simp
  qed simp
  then show ?thesis
    by (simp add: shots_run_def open_shots_page_def)
qed

definition a_day :: day where
  "a_day = day_of day_midnight 0 0 ''riya'' one_shot"

lemma deletions_permitted_witness:
  "list_all (allowed_removal True False) (cp_calls (shots_run
     [Employees_Arrived [''riya''], Day_Arrived a_day True False, Delete_Session_Pressed ''s1'' True] (open_shots_page 0 None)))"
  using deletions_permitted [of "[Employees_Arrived [''riya''], Day_Arrived a_day True False, Delete_Session_Pressed ''s1'' True]"
      True False True False 0 None] by simp

lemma truncate_simps [simp]:
  "ws_id (work_session.truncate r) = ws_id r" "ws_started (work_session.truncate r) = ws_started r"
  "ws_ended (work_session.truncate r) = ws_ended r" "sh_id (screenshot.truncate y) = sh_id y"
  "sh_session (screenshot.truncate y) = sh_session y" "sh_captured (screenshot.truncate y) = sh_captured y"
  by (simp_all add: work_session.truncate_def screenshot.truncate_def)

lemma day_shots_filter: "day_shots w (filter P xs) = filter P (day_shots w xs)"
  by (simp add: day_shots_def capture_order.filter_sort_by conj_commute)

interpretation start_order: comparison "\<lambda>a b :: work_session. ws_started a - ws_started b"
  by unfold_locales auto

lemma day_sessions_filter: "day_sessions w (filter P ss) = filter P (day_sessions w ss)"
  by (simp add: day_sessions_def start_order.filter_sort_by conj_commute)

lemma day_of_parts:
  fixes midnight reset date emp
  defines "w \<equiv> day_window midnight reset date"
  defines "rows m \<equiv> day_sessions w (map work_session.truncate (filter (\<lambda>r. sr_employee r = Some emp) (mo_sessions m)))"
  defines "xs m \<equiv> day_shots w (map screenshot.truncate (filter (\<lambda>x. st_employee x = Some emp) (mo_shots m)))"
  shows "map fst (dy_sessions (day_of midnight reset date emp m)) = rows m"
    "company_shots (day_of midnight reset date emp m) = concat (map (\<lambda>s. filter (\<lambda>x. sh_session x = Some (ws_id s)) (xs m)) (rows m))"
    "dy_orphans (day_of midnight reset date emp m) = filter (\<lambda>x. sh_session x = None) (xs m)"
  by (simp_all add: day_of_def screenshot_day_def company_shots_def w_def rows_def xs_def Let_def comp_def)

lemma a_day_value:
  "map fst (dy_sessions a_day) = [\<lparr>ws_id = ''s1'', ws_started = 0, ws_ended = None\<rparr>]"
  "company_shots a_day =
     [\<lparr>sh_id = ''a'', sh_session = Some ''s1'', sh_captured = 3600000, sh_start = 3540000, sh_end = 3600000,
       sh_state = ''active'', sh_active_seconds = 30, sh_seconds = 60, sh_note = []\<rparr>]"
  by (simp_all add: a_day_def day_of_parts one_shot_value day_sessions_def day_shots_def work_session.truncate_def
      screenshot.truncate_def day_window_def day_start_def day_midnight_def in_window_def)

lemma concat_without_session:
  "concat (map (\<lambda>s. filter (\<lambda>x. sh_session x = Some (ws_id s)) (filter (\<lambda>x. sh_session x \<noteq> Some i) xs)) (filter (\<lambda>s. ws_id s \<noteq> i) ss)) =
    filter (\<lambda>x. sh_session x \<noteq> Some i) (concat (map (\<lambda>s. filter (\<lambda>x. sh_session x = Some (ws_id s)) xs) ss))"
  by (induction ss) (auto simp: filter_empty_conv intro!: filter_cong)

lemma map_truncate_filter:
  "map screenshot.truncate (filter P (filter (\<lambda>x. Q (sh_id x) (sh_session x)) ys)) =
    filter (\<lambda>x. Q (sh_id x) (sh_session x)) (map screenshot.truncate (filter P ys))"
  "map work_session.truncate (filter R (filter (\<lambda>r. ws_id r \<noteq> i) rs)) =
    filter (\<lambda>r. ws_id r \<noteq> i) (map work_session.truncate (filter R rs))"
  by (simp_all add: filter_map comp_def conj_commute)



lemma refresh_seen:
  "map work_session.truncate (filter (\<lambda>r. sr_employee r = Some emp) (mo_sessions (refresh_rollup now s m))) =
    map work_session.truncate (filter (\<lambda>r. sr_employee r = Some emp) (mo_sessions m))"
proof -
  have "map work_session.truncate (filter (\<lambda>r. sr_employee r = Some emp)
        (map (\<lambda>r. if ws_id r = s then rollup now shots r else r) rs)) =
      map work_session.truncate (filter (\<lambda>r. sr_employee r = Some emp) rs)" for shots rs
    by (induction rs) (auto simp: work_session.truncate_def)
  then show ?thesis by (simp add: refresh_rollup_def)
qed

text \<open>A deleted screenshot is gone, and nothing else of the day.\<close>

theorem shot_removal_shows:
  assumes "delete_shot now i m = (None, m')"
    "d = day_of midnight reset date emp m" "d' = day_of midnight reset date emp m'"
  shows "map fst (dy_sessions d') = map fst (dy_sessions d) \<and>
    company_shots d' = filter (\<lambda>x. sh_id x \<noteq> i) (company_shots d) \<and> dy_orphans d' = filter (\<lambda>x. sh_id x \<noteq> i) (dy_orphans d)"
proof -
  have m': "mo_shots m' = filter (\<lambda>x. sh_id x \<noteq> i) (mo_shots m)"
    "map work_session.truncate (filter (\<lambda>r. sr_employee r = Some emp) (mo_sessions m')) =
      map work_session.truncate (filter (\<lambda>r. sr_employee r = Some emp) (mo_sessions m))"
    using assms(1) by (auto simp: delete_shot_def Let_def refresh_seen split: list.splits option.splits)
  note cut = map_truncate_filter(1) [of _ "\<lambda>j _. j \<noteq> i"]
  show ?thesis
    unfolding assms(2,3) day_of_parts m' cut day_shots_filter
    by (simp add: filter_concat comp_def conj_commute)
qed

lemma shot_removal_shows_witness:
  "let d' = day_of day_midnight 0 0 ''riya'' (snd (delete_shot 7200000 ''a'' one_shot))
   in company_shots d' = [] \<and> map fst (dy_sessions d') = map fst (dy_sessions a_day)"
proof -
  have "delete_shot 7200000 ''a'' one_shot = (None, snd (delete_shot 7200000 ''a'' one_shot))"
    by (simp add: delete_shot_def one_shot_value Let_def)
  from shot_removal_shows [OF this refl refl, of day_midnight 0 0 "''riya''"] show ?thesis
    by (simp add: Let_def a_day_value flip: a_day_def)
qed

text \<open>The answer to a deletion closes whichever screenshot is open by then.\<close>

lemma late_deletion_closes_zoom:
  "let x = loose_shot\<lparr>sh_session := Some ''s1''\<rparr>; y = x\<lparr>sh_id := ''b''\<rparr>;
       d = screenshot_day day_midnight 0 0 [\<lparr>ws_id = ''s1'', ws_started = 0, ws_ended = None\<rparr>] [x, y];
       s = shots_run [Employees_Arrived [''riya''], Day_Arrived d False True, Zoom_In x, Delete_Shot_Pressed True, Close_Zoom, Zoom_In y]
             (open_shots_page 0 None)
   in cp_calls s = [Of_Shot ''a''] \<and> map_option sh_id (cp_zoom s) = Some ''b'' \<and> cp_zoom (shots_step (Shot_Deleted True) s) = None"
  by code_simp

end
