(* ===== verification/Account_Tokens.thy ===== *)
theory Account_Tokens
  imports Session_Refresh Api_Client Access_Requests
begin

text \<open>
  Passwords and refresh tokens: the handlers \<open>Refresh\<close>, \<open>Logout\<close>, \<open>ChangePassword\<close>, \<open>ForgotPassword\<close> and
  \<open>ResetPassword\<close> of the API (\<^verbatim>\<open>handlers/auth.go\<close>, \<^verbatim>\<open>authpolicy/password.go\<close>), and the form in which
  the three panels change a password (the settings page of the company dashboard and the profile
  pages of the superadmin panel and the portal).

  A token stands for its hash, and a password for its bcrypt hash. Whether bcrypt takes a password
  (not more than 72 bytes) and whether it is known from a breach are arguments; texts are ASCII. Times
  are milliseconds. Mails are not modelled. \<open>None\<close> for a message is the text of the binding library.
\<close>

section \<open>The rules for passwords\<close>

definition min_password :: nat where "min_password = 10"

definition common_passwords :: "string list" where
  "common_passwords =
     [''password'', ''password1'', ''password@1'', ''password123'', ''admin@123'', ''admin@1234'', ''admin1234'',
      ''administrator'', ''welcome@1'', ''welcome123'', ''qwerty@123'', ''changeme'', ''letmein'', ''iloveyou'',
      ''aavishield'', ''aavishield@1'', ''superadmin@123'', ''employee@123'', ''test@1234'', ''passw0rd'']"

definition is_upper :: "char \<Rightarrow> bool" where
  "is_upper c = (let n = of_char c :: nat in 65 \<le> n \<and> n \<le> 90)"

definition is_lower :: "char \<Rightarrow> bool" where
  "is_lower c = (let n = of_char c :: nat in 97 \<le> n \<and> n \<le> 122)"

definition classes :: "string \<Rightarrow> nat" where
  "classes pw =
     of_bool (list_ex is_lower pw) + of_bool (list_ex is_upper pw) + of_bool (list_ex is_digit pw) +
     of_bool (list_ex (\<lambda>c. \<not> is_lower c \<and> \<not> is_upper c \<and> \<not> is_digit c) pw)"

text \<open>The part before the \<open>@\<close>, if there is one behind the first character.\<close>

definition email_local :: "string \<Rightarrow> string" where
  "email_local email =
     (let e = to_lower (go_trim email); l = takeWhile (\<lambda>c. c \<noteq> CHR ''@'') e
      in if length l < length e then l else [])"

definition validate_password :: "(string \<Rightarrow> bool) \<Rightarrow> string \<Rightarrow> string \<Rightarrow> string option" where
  "validate_password breached pw email =
     (let norm = to_lower (go_trim pw); loc = email_local email
      in if length pw < min_password then Some ''Use at least 10 characters.''
         else if length pw > 200 then Some ''That password is too long.''
         else if classes pw < 3 \<and> length pw < 14
           then Some ''Mix upper- and lower-case letters, a number and a symbol (or use a longer passphrase).''
         else if norm \<in> set common_passwords then Some ''That password is too common. Choose something harder to guess.''
         else if length loc \<ge> 3 \<and> str_includes norm loc then Some ''Your password should not contain your email address.''
         else if breached pw then Some ''That password has appeared in a known data breach. Choose a different one.''
         else None)"

section \<open>The tables\<close>

record stored_token =
  tk_user :: string
  tk_token :: string
  tk_expires :: int
  tk_revoked :: bool
  tk_revoked_at :: "int option"

record account_row =
  ar_id :: string
  ar_email :: string
  ar_password :: string
  ar_active :: bool

record reset_token =
  rs_user :: string
  rs_token :: string
  rs_expires :: int
  rs_used :: bool

record sign_ins =
  si_users :: "account_row list"
  si_tokens :: "stored_token list"
  si_resets :: "reset_token list"

record password_checks =
  pc_breached :: "string \<Rightarrow> bool"
  pc_hashable :: "string \<Rightarrow> bool"

type_synonym no_answer = "nat \<times> string option"

definition rotation_grace :: int where "rotation_grace = 60000"
definition refresh_expiry :: int where "refresh_expiry = 7 * 24 * 3600000"
definition reset_expiry :: int where "reset_expiry = 3600000"

definition account_of :: "string \<Rightarrow> sign_ins \<Rightarrow> account_row option" where
  "account_of i s = find (\<lambda>u. ar_id u = i) (si_users s)"

definition new_token :: "int \<Rightarrow> string \<Rightarrow> string \<Rightarrow> stored_token" where
  "new_token now i tok =
     \<lparr>tk_user = i, tk_token = tok, tk_expires = now + refresh_expiry, tk_revoked = False, tk_revoked_at = None\<rparr>"

text \<open>A successful sign-in stores a token; the checks before it are those of \<^verbatim>\<open>Login_Pages\<close>.\<close>

definition sign_in :: "int \<Rightarrow> string \<Rightarrow> string \<Rightarrow> sign_ins \<Rightarrow> sign_ins" where
  "sign_in now i tok s = s\<lparr>si_tokens := si_tokens s @ [new_token now i tok]\<rparr>"

section \<open>Refreshing\<close>

definition within_grace :: "int \<Rightarrow> int option \<Rightarrow> bool" where
  "within_grace now revoked_at = (case revoked_at of None \<Rightarrow> False | Some r \<Rightarrow> now - r \<le> rotation_grace)"

definition refresh_read :: "int \<Rightarrow> string \<Rightarrow> sign_ins \<Rightarrow> no_answer + (stored_token \<times> account_row)" where
  "refresh_read now tok s =
     (if tok = [] then Inl (400, None)
      else case find (\<lambda>t. tk_token t = tok \<and> now < tk_expires t) (si_tokens s) of
          None \<Rightarrow> Inl (401, Some ''Invalid or expired refresh token'')
        | Some t \<Rightarrow>
            if tk_revoked t \<and> \<not> within_grace now (tk_revoked_at t) then Inl (401, Some ''Invalid or expired refresh token'')
            else case account_of (tk_user t) s of
                None \<Rightarrow> Inl (401, Some ''User not found'')
              | Some u \<Rightarrow> if ar_active u then Inr (t, u) else Inl (403, Some ''Account suspended''))"

definition refresh_write :: "int \<Rightarrow> stored_token \<Rightarrow> account_row \<Rightarrow> string \<Rightarrow> sign_ins \<Rightarrow> sign_ins" where
  "refresh_write now t u new s =
     s\<lparr>si_tokens :=
         map (\<lambda>x. if \<not> tk_revoked t \<and> tk_token x = tk_token t then x\<lparr>tk_revoked := True, tk_revoked_at := Some now\<rparr> else x)
           (si_tokens s) @ [new_token now (ar_id u) new]\<rparr>"

definition refresh :: "int \<Rightarrow> string \<Rightarrow> string \<Rightarrow> sign_ins \<Rightarrow> (no_answer + string) \<times> sign_ins" where
  "refresh now tok new s =
     (case refresh_read now tok s of
        Inl e \<Rightarrow> (Inl e, s)
      | Inr (t, u) \<Rightarrow> (Inr new, refresh_write now t u new s))"

definition logout :: "string \<Rightarrow> sign_ins \<Rightarrow> sign_ins" where
  "logout tok s = (if tok = [] then s else s\<lparr>si_tokens := filter (\<lambda>t. tk_token t \<noteq> tok) (si_tokens s)\<rparr>)"

section \<open>Changing a password\<close>

definition set_password :: "string \<Rightarrow> string \<Rightarrow> sign_ins \<Rightarrow> sign_ins" where
  "set_password i pw s =
     s\<lparr>si_users := map (\<lambda>u. if ar_id u = i then u\<lparr>ar_password := pw\<rparr> else u) (si_users s),
       si_tokens := filter (\<lambda>t. tk_user t \<noteq> i) (si_tokens s)\<rparr>"

definition change_password ::
  "password_checks \<Rightarrow> string \<Rightarrow> string \<Rightarrow> string \<Rightarrow> sign_ins \<Rightarrow> no_answer option \<times> sign_ins" where
  "change_password pc i current new s =
     (if current = [] \<or> length new < 8 then (Some (400, None), s)
      else case account_of i s of
          None \<Rightarrow> (Some (404, Some ''User not found''), s)
        | Some u \<Rightarrow>
            if ar_password u \<noteq> current then (Some (401, Some ''Current password is incorrect''), s)
            else case validate_password (pc_breached pc) new (ar_email u) of
                Some reason \<Rightarrow> (Some (400, Some reason), s)
              | None \<Rightarrow>
                  if \<not> pc_hashable pc new then (Some (500, Some ''Failed to hash password''), s)
                  else (None, set_password i new s))"

text \<open>
  The handler of the portal, with employees for users; an account without a password signs in with
  Google or Apple (the dash of that message is written \<open>--\<close>). It leaves the tokens as they are.
\<close>

definition portal_change ::
  "password_checks \<Rightarrow> string \<Rightarrow> string \<Rightarrow> string \<Rightarrow> sign_ins \<Rightarrow> no_answer option \<times> sign_ins" where
  "portal_change pc i current new s =
     (case account_of i s of
        None \<Rightarrow> (Some (404, Some ''Employee not found''), s)
      | Some u \<Rightarrow>
          if current = [] \<or> length new < 8 then (Some (400, None), s)
          else if ar_password u = []
            then (Some (400, Some ''This account signs in with Google or Apple -- there's no password to change.''), s)
          else case validate_password (pc_breached pc) new (ar_email u) of
              Some reason \<Rightarrow> (Some (400, Some reason), s)
            | None \<Rightarrow>
                if ar_password u \<noteq> current then (Some (401, Some ''Current password is incorrect''), s)
                else if \<not> pc_hashable pc new then (Some (500, Some ''Failed to hash password''), s)
                else (None, s\<lparr>si_users := map (\<lambda>u. if ar_id u = i then u\<lparr>ar_password := new\<rparr> else u) (si_users s)\<rparr>))"

definition forgot_password :: "int \<Rightarrow> string \<Rightarrow> string \<Rightarrow> sign_ins \<Rightarrow> sign_ins" where
  "forgot_password now email new s =
     (case find (\<lambda>u. ar_email u = email) (si_users s) of
        None \<Rightarrow> s
      | Some u \<Rightarrow>
          s\<lparr>si_resets := si_resets s @
              [\<lparr>rs_user = ar_id u, rs_token = new, rs_expires = now + reset_expiry, rs_used = False\<rparr>]\<rparr>)"

definition reset_password ::
  "password_checks \<Rightarrow> int \<Rightarrow> string \<Rightarrow> string \<Rightarrow> sign_ins \<Rightarrow> no_answer option \<times> sign_ins" where
  "reset_password pc now tok new s =
     (if tok = [] \<or> length new < 8 then (Some (400, None), s)
      else case find (\<lambda>r. rs_token r = tok \<and> \<not> rs_used r \<and> now < rs_expires r) (si_resets s) of
          None \<Rightarrow> (Some (400, Some ''Invalid or expired reset link''), s)
        | Some r \<Rightarrow>
            let email = (case account_of (rs_user r) s of None \<Rightarrow> [] | Some u \<Rightarrow> ar_email u)
            in case validate_password (pc_breached pc) new email of
                Some reason \<Rightarrow> (Some (400, Some reason), s)
              | None \<Rightarrow>
                  if \<not> pc_hashable pc new then (Some (500, Some ''Failed to hash password''), s)
                  else (None, (set_password (rs_user r) new s)
                          \<lparr>si_resets := map (\<lambda>x. if rs_token x = tok then x\<lparr>rs_used := True\<rparr> else x) (si_resets s)\<rparr>))"

text \<open>A user who is removed: the tokens are marked, without a time, and the row goes.\<close>

definition remove_user :: "string \<Rightarrow> sign_ins \<Rightarrow> sign_ins" where
  "remove_user i s =
     s\<lparr>si_tokens := map (\<lambda>t. if tk_user t = i then t\<lparr>tk_revoked := True\<rparr> else t) (si_tokens s),
       si_users := filter (\<lambda>u. ar_id u \<noteq> i) (si_users s)\<rparr>"

datatype sign_event =
    Sign_In int string string
  | Renew int string string
  | Sign_Off string
  | Change string string string
  | Forgot int string string
  | Reset int string string
  | Remove string

fun sign_step :: "password_checks \<Rightarrow> sign_event \<Rightarrow> sign_ins \<Rightarrow> sign_ins" where
  "sign_step pc (Sign_In now i tok) s = sign_in now i tok s"
| "sign_step pc (Renew now tok new) s = snd (refresh now tok new s)"
| "sign_step pc (Sign_Off tok) s = logout tok s"
| "sign_step pc (Change i current new) s = snd (change_password pc i current new s)"
| "sign_step pc (Forgot now email new) s = forgot_password now email new s"
| "sign_step pc (Reset now tok new) s = snd (reset_password pc now tok new s)"
| "sign_step pc (Remove i) s = remove_user i s"

definition sign_run :: "password_checks \<Rightarrow> sign_event list \<Rightarrow> sign_ins \<Rightarrow> sign_ins" where
  "sign_run pc es s = fold (sign_step pc) es s"

text \<open>The refresh tokens that are made up on the way.\<close>

fun made :: "sign_event \<Rightarrow> string list" where
  "made (Sign_In now i tok) = [tok]"
| "made (Renew now tok new) = [new]"
| "made _ = []"

definition made_tokens :: "sign_event list \<Rightarrow> string list" where
  "made_tokens es = concat (map made es)"

section \<open>The form of the panels\<close>

datatype panel_name = Company | Superadmin | Portal

record password_form =
  pf_current :: string
  pf_new :: string
  pf_confirm :: string
  pf_error :: string
  pf_pending :: bool
  pf_sent :: "(string \<times> string) list"

definition blank_form :: password_form where
  "blank_form = \<lparr>pf_current = [], pf_new = [], pf_confirm = [], pf_error = [], pf_pending = False, pf_sent = []\<rparr>"

datatype form_event = Type_Current string | Type_New string | Type_Confirm string | Press_Change | Changed | Not_Changed

text \<open>Typing takes the error away, but not in the superadmin panel.\<close>

definition typed_in :: "panel_name \<Rightarrow> password_form \<Rightarrow> password_form" where
  "typed_in p s = (if p = Superadmin then s else s\<lparr>pf_error := []\<rparr>)"

definition mismatch :: "panel_name \<Rightarrow> string" where
  "mismatch p = (if p = Superadmin then ''Passwords do not match'' else ''The new passwords don't match'')"

definition too_short :: "panel_name \<Rightarrow> string" where
  "too_short p = (if p = Superadmin then ''Password must be at least 8 characters'' else ''Use at least 8 characters'')"

text \<open>The browser sends no form with an empty required field, or a new password below its \<open>minLength\<close>.\<close>

definition submits :: "panel_name \<Rightarrow> password_form \<Rightarrow> bool" where
  "submits p s =
     (pf_current s \<noteq> [] \<and> pf_new s \<noteq> [] \<and> pf_confirm s \<noteq> [] \<and> (p = Superadmin \<longrightarrow> 8 \<le> length (pf_new s)))"

fun form_step :: "panel_name \<Rightarrow> form_event \<Rightarrow> password_form \<Rightarrow> password_form" where
  "form_step p (Type_Current t) s = typed_in p (s\<lparr>pf_current := t\<rparr>)"
| "form_step p (Type_New t) s = typed_in p (s\<lparr>pf_new := t\<rparr>)"
| "form_step p (Type_Confirm t) s = typed_in p (s\<lparr>pf_confirm := t\<rparr>)"
| "form_step p Press_Change s =
     (if pf_pending s \<or> \<not> submits p s then s
      else if pf_new s \<noteq> pf_confirm s then s\<lparr>pf_error := mismatch p\<rparr>
      else if length (pf_new s) < 8 then s\<lparr>pf_error := too_short p\<rparr>
      else s\<lparr>pf_error := [], pf_pending := True, pf_sent := pf_sent s @ [(pf_current s, pf_new s)]\<rparr>)"
| "form_step p Changed s =
     (if pf_pending s
      then s\<lparr>pf_pending := False, pf_current := [], pf_new := [], pf_confirm := [],
             pf_error := (if p = Superadmin then [] else pf_error s)\<rparr>
      else s)"
| "form_step p Not_Changed s = s\<lparr>pf_pending := False\<rparr>"

definition form_run :: "panel_name \<Rightarrow> form_event list \<Rightarrow> password_form \<Rightarrow> password_form" where
  "form_run p es s = fold (form_step p) es s"

section \<open>Sessions that end\<close>

abbreviation token_names :: "sign_ins \<Rightarrow> string list" where
  "token_names s \<equiv> map tk_token (si_tokens s)"

lemma names_set_password: "set (token_names (set_password i pw s)) \<subseteq> set (token_names s)"
  by (auto simp: set_password_def)

lemma names_refresh_write: "token_names (refresh_write now t u new s) = token_names s @ [new]"
  by (simp add: refresh_write_def new_token_def)

lemma names_step: "set (token_names (sign_step pc e s)) \<subseteq> set (token_names s) \<union> set (made e)"
proof (cases e)
  case (Renew now tok new)
  show ?thesis
  proof (cases "refresh_read now tok s")
    case (Inr p)
    then have "sign_step pc e s = refresh_write now (fst p) (snd p) new s"
      using Renew by (cases p) (simp add: refresh_def)
    then show ?thesis
      using Renew by (simp only: names_refresh_write made.simps) simp
  qed (use Renew in \<open>auto simp: refresh_def\<close>)
next
  case (Change i current new)
  then show ?thesis
    by (auto simp: change_password_def set_password_def split: option.split)
next
  case (Reset now tok new)
  then show ?thesis
    by (auto simp: reset_password_def set_password_def Let_def split: option.split)
qed (auto simp: sign_in_def new_token_def logout_def forgot_password_def remove_user_def split: option.split)

lemma names_run: "set (token_names (sign_run pc es s)) \<subseteq> set (token_names s) \<union> set (made_tokens es)"
proof (induction es arbitrary: s)
  case (Cons e es)
  have "sign_run pc (e # es) s = sign_run pc es (sign_step pc e s)"
    by (simp add: sign_run_def)
  then show ?case
    using Cons [of "sign_step pc e s"] names_step [of pc e s] by (auto simp: made_tokens_def)
qed (simp add: sign_run_def)

lemma unknown_refused:
  "tok \<noteq> [] \<Longrightarrow> tok \<notin> set (token_names s) \<Longrightarrow>
    refresh now tok n s = (Inl (401, Some ''Invalid or expired refresh token''), s)"
proof -
  assume a: "tok \<noteq> []" "tok \<notin> set (token_names s)"
  then have "find (\<lambda>t. tk_token t = tok \<and> now < tk_expires t) (si_tokens s) = None"
    by (auto simp: find_None_iff)
  with a show ?thesis by (simp add: refresh_def refresh_read_def)
qed

lemma own_tokens_gone:
  assumes "fst (change_password pc i current new s) = None" "t \<in> set (si_tokens s)" "tk_user t = i" "distinct (token_names s)"
  shows "tk_token t \<notin> set (token_names (snd (change_password pc i current new s)))"
proof -
  have "snd (change_password pc i current new s) = set_password i new s"
    using assms(1) by (auto simp: change_password_def split: if_splits option.splits)
  then show ?thesis
    using assms(2-4) by (auto simp: set_password_def distinct_map dest: inj_onD)
qed

text \<open>
  C3: A change of the password ends every session of the user, that of the browser which changed it
  included: whatever happens afterwards, none of the refresh tokens there were is taken again.
\<close>

theorem password_change_ends_sessions:
  assumes "fst (change_password pc i current new s) = None" "s' = snd (change_password pc i current new s)"
    "t \<in> set (si_tokens s)" "tk_user t = i" "tk_token t \<noteq> []" "distinct (token_names s)" "tk_token t \<notin> set (made_tokens es)"
  shows "refresh now (tk_token t) n (sign_run pc es s') =
    (Inl (401, Some ''Invalid or expired refresh token''), sign_run pc es s')"
  using own_tokens_gone [OF assms(1,3,4,6)] names_run [of pc es s'] assms(2,5,7)
  by (intro unknown_refused) auto

definition two_browsers :: sign_ins where
  "two_browsers =
     \<lparr>si_users = [\<lparr>ar_id = ''u1'', ar_email = ''riya@acme.com'', ar_password = ''Old-secret1'', ar_active = True\<rparr>],
      si_tokens = [new_token 0 ''u1'' ''mine'', new_token 0 ''u1'' ''other''], si_resets = []\<rparr>"

definition no_checks :: password_checks where
  "no_checks = \<lparr>pc_breached = (\<lambda>_. False), pc_hashable = (\<lambda>_. True)\<rparr>"

lemma change_works: "fst (change_password no_checks ''u1'' ''Old-secret1'' ''New-secret2'' two_browsers) = None"
  by code_simp

lemma password_change_ends_sessions_witness:
  "fst (refresh 60000 ''mine'' ''next'' (sign_run no_checks [Sign_In 50000 ''u1'' ''again'']
     (snd (change_password no_checks ''u1'' ''Old-secret1'' ''New-secret2'' two_browsers)))) =
   Inl (401, Some ''Invalid or expired refresh token'')"
proof -
  have "new_token 0 ''u1'' ''mine'' \<in> set (si_tokens two_browsers)" "distinct (token_names two_browsers)"
    "tk_token (new_token 0 ''u1'' ''mine'') = ''mine''" "tk_user (new_token 0 ''u1'' ''mine'') = ''u1''"
    by (simp_all add: two_browsers_def new_token_def)
  with password_change_ends_sessions [OF change_works refl, of "new_token 0 ''u1'' ''mine''" "[Sign_In 50000 ''u1'' ''again'']"]
  show ?thesis by (simp add: made_tokens_def)
qed

text \<open>
  The browser that changed the password is told that the others were signed out; when it next has to
  renew its access token, it is signed out itself.
\<close>

theorem own_browser_signed_out:
  assumes "fst (change_password pc i current new s) = None" "s' = snd (change_password pc i current new s)"
    "t \<in> set (si_tokens s)" "tk_user t = i" "tk_token t \<noteq> []" "distinct (token_names s)" "tk_token t \<notin> set (made_tokens es)"
    "jget (JObj c) ''refreshToken'' = JStr (tk_token t)" "jwt_decide now c \<noteq> Keep"
    "\<forall>x e. fst (refresh now x n (sign_run pc es s')) = Inl e \<longrightarrow> (\<exists>e'. reply x = Inl e')"
  shows "jget (JObj (jwt_request now reply c)) ''error'' = JStr ''RefreshTokenError''"
proof -
  have "fst (refresh now (tk_token t) n (sign_run pc es s')) = Inl (401, Some ''Invalid or expired refresh token'')"
    using own_tokens_gone [OF assms(1,3,4,6)] names_run [of pc es s'] assms(2,5,7)
    by (subst unknown_refused) auto
  then obtain e where "reply (tk_token t) = Inl e"
    using assms(10) by blast
  moreover have "jwt_decide now c = Refresh (JStr (tk_token t))"
    using assms(5,8,9) by (simp add: jwt_decide_def Let_def split: if_splits)
  ultimately show ?thesis
    by (simp add: jwt_request_def refresh_failed_def)
qed

lemma own_browser_signed_out_witness:
  "jget (JObj (jwt_request 900000 (\<lambda>_. Inl (js_error ''refused''))
     [(''refreshToken'', JStr ''mine''), (''accessTokenExpires'', JNum 900000)])) ''error'' = JStr ''RefreshTokenError''"
proof -
  let ?c = "[(''refreshToken'', JStr ''mine''), (''accessTokenExpires'', JNum 900000)]"
  have "new_token 0 ''u1'' ''mine'' \<in> set (si_tokens two_browsers)" "tk_user (new_token 0 ''u1'' ''mine'') = ''u1''"
    "tk_token (new_token 0 ''u1'' ''mine'') = ''mine''" "distinct (token_names two_browsers)"
    by (simp_all add: two_browsers_def new_token_def)
  moreover have "jget (JObj ?c) ''refreshToken'' = JStr ''mine''" "jwt_decide 900000 ?c \<noteq> Keep"
    by code_simp+
  ultimately show ?thesis
    using own_browser_signed_out [OF change_works refl, of "new_token 0 ''u1'' ''mine''" "[]" ?c 900000 "''n''" "\<lambda>_. Inl (js_error ''refused'')"]
    by (simp add: made_tokens_def)
qed

lemma account_of_set_password:
  "account_of j (set_password i pw s) = map_option (\<lambda>u. if ar_id u = i then u\<lparr>ar_password := pw\<rparr> else u) (account_of j s)"
proof -
  have "find (\<lambda>u. ar_id u = j) (map (\<lambda>u. if ar_id u = i then u\<lparr>ar_password := pw\<rparr> else u) us) =
      map_option (\<lambda>u. if ar_id u = i then u\<lparr>ar_password := pw\<rparr> else u) (find (\<lambda>u. ar_id u = j) us)" for us
    by (induction us) auto
  then show ?thesis by (simp add: account_of_def set_password_def)
qed

text \<open>
  C4: A refresh that is under way while the password is changed survives it: the token it stores after the
  change is good for a week, whoever holds it.
\<close>

theorem refresh_outlives_change:
  assumes "refresh_read t0 tok s = Inr (t, u)" "change_password pc (ar_id u) current new s = (None, s')"
    "s'' = refresh_write t1 t u fresh s'" "fresh \<noteq> []" "fresh \<notin> set (token_names s)" "later < t1 + refresh_expiry"
  shows "fst (refresh later fresh n s'') = Inr n"
proof -
  have s': "s' = set_password (ar_id u) new s"
    using assms(2) by (auto simp: change_password_def split: if_splits option.splits)
  have u: "account_of (tk_user t) s = Some u" "ar_active u"
    using assms(1) by (auto simp: refresh_read_def split: if_splits option.splits)
  have "ar_id u = tk_user t"
    using u(1) by (auto simp: account_of_def find_Some_iff)
  have users: "si_users s'' = si_users s'"
    by (simp add: assms(3) refresh_write_def)
  then have "account_of (ar_id u) s'' = Some (u\<lparr>ar_password := new\<rparr>)"
    using u(1) account_of_set_password [of "ar_id u" "ar_id u" new s] \<open>ar_id u = tk_user t\<close> by (simp add: s' account_of_def)
  moreover have "find (\<lambda>x. tk_token x = fresh \<and> later < tk_expires x) (si_tokens s'') = Some (new_token t1 (ar_id u) fresh)"
  proof -
    let ?old = "map (\<lambda>x. if \<not> tk_revoked t \<and> tk_token x = tk_token t then x\<lparr>tk_revoked := True, tk_revoked_at := Some t1\<rparr> else x)
      (si_tokens s')"
    have "fresh \<notin> set (token_names s')"
      using assms(5) names_set_password [of "ar_id u" new s] by (auto simp: s')
    moreover have "map tk_token ?old = token_names s'"
      by simp
    ultimately have "fresh \<notin> set (map tk_token ?old)" by argo
    then have "find (\<lambda>x. tk_token x = fresh \<and> later < tk_expires x) ?old = None"
      unfolding find_None_iff by (metis (mono_tags, lifting) image_eqI list.set_map)
    moreover have "find P (xs @ [x]) = (case find P xs of None \<Rightarrow> if P x then Some x else None | Some y \<Rightarrow> Some y)" for P xs and x :: stored_token
      by (induction xs) auto
    ultimately show ?thesis
      using assms(6) by (simp add: assms(3) refresh_write_def new_token_def)
  qed
  ultimately show ?thesis
    using assms(4) u(2) by (simp add: refresh_def refresh_read_def new_token_def)
qed

lemma refresh_outlives_change_witness:
  "fst (refresh 600000 ''stolen'' ''more'' (refresh_write 60000 (new_token 0 ''u1'' ''other'')
     \<lparr>ar_id = ''u1'', ar_email = ''riya@acme.com'', ar_password = ''Old-secret1'', ar_active = True\<rparr> ''stolen''
     (snd (change_password no_checks ''u1'' ''Old-secret1'' ''New-secret2'' two_browsers)))) = Inr ''more''"
proof -
  let ?u = "\<lparr>ar_id = ''u1'', ar_email = ''riya@acme.com'', ar_password = ''Old-secret1'', ar_active = True\<rparr>"
  have "refresh_read 50000 ''other'' two_browsers = Inr (new_token 0 ''u1'' ''other'', ?u)"
    by (simp add: refresh_read_def two_browsers_def new_token_def account_of_def refresh_expiry_def)
  moreover have "change_password no_checks (ar_id ?u) ''Old-secret1'' ''New-secret2'' two_browsers =
      (None, snd (change_password no_checks ''u1'' ''Old-secret1'' ''New-secret2'' two_browsers))"
    using change_works by (simp add: prod_eq_iff)
  ultimately show ?thesis
    by (rule refresh_outlives_change [OF _ _ refl]) (simp_all add: two_browsers_def new_token_def refresh_expiry_def)
qed

text \<open>A token that was renewed at \<open>r\<close> stays marked with that time.\<close>

definition token_retired :: "string \<Rightarrow> int \<Rightarrow> sign_ins \<Rightarrow> bool" where
  "token_retired tok r s = (\<forall>x \<in> set (si_tokens s). tk_token x = tok \<longrightarrow> tk_revoked x \<and> tk_revoked_at x = Some r)"

lemma token_retired_step:
  assumes "token_retired tok r s" "tok \<notin> set (made e)"
  shows "token_retired tok r (sign_step pc e s)"
proof (cases e)
  case (Renew now tk new)
  show ?thesis
  proof (cases "refresh_read now tk s")
    case (Inr p)
    then obtain t u where p: "p = (t, u)" "t \<in> set (si_tokens s)"
      by (cases p) (auto simp: refresh_read_def find_Some_iff split: if_splits option.splits)
    then show ?thesis
      using Renew Inr assms by (auto simp: token_retired_def refresh_def refresh_write_def new_token_def)
  qed (use Renew assms in \<open>simp add: refresh_def\<close>)
next
  case (Reset now tk new)
  then show ?thesis
    using assms by (auto simp: token_retired_def reset_password_def set_password_def Let_def split: option.split)
qed (use assms in \<open>auto simp: token_retired_def sign_in_def new_token_def logout_def change_password_def forgot_password_def
       set_password_def remove_user_def split: option.split\<close>)



section \<open>The form and the API\<close>

lemma sent_passwords_ok:
  "list_all (\<lambda>(c, n). c \<noteq> [] \<and> 8 \<le> length n) (pf_sent (form_run p es blank_form))"
proof (induction es rule: rev_induct)
  case (snoc e es)
  then show ?case
    by (cases e) (auto simp: form_run_def typed_in_def submits_def)
qed (simp add: form_run_def blank_form_def)

text \<open>
  The three panels ask for eight characters, the API for ten: a new password of eight or nine is sent
  by each panel and refused, even with the right current one.
\<close>

theorem short_password_refused:
  assumes "8 \<le> length new" "length new < 10" "current \<noteq> []" "account_of i s = Some u" "ar_password u = current"
  shows "pf_sent (form_run p [Type_Current current, Type_New new, Type_Confirm new, Press_Change] blank_form) = [(current, new)] \<and>
    change_password pc i current new s = (Some (400, Some ''Use at least 10 characters.''), s) \<and>
    portal_change pc i current new s = (Some (400, Some ''Use at least 10 characters.''), s)"
proof -
  have "new \<noteq> []" using assms(1) by auto
  then show ?thesis
    using assms by (auto simp: form_run_def typed_in_def blank_form_def submits_def change_password_def portal_change_def
        validate_password_def min_password_def Let_def)
qed

lemma short_password_refused_witness:
  "change_password no_checks ''u1'' ''Old-secret1'' ''Abcdef1!'' two_browsers = (Some (400, Some ''Use at least 10 characters.''), two_browsers)"
  using short_password_refused [of "''Abcdef1!''" "''Old-secret1''" "''u1''" two_browsers "hd (si_users two_browsers)" Company no_checks]
  by (simp add: two_browsers_def account_of_def)

text \<open>A changed password of the portal ends no session.\<close>

theorem portal_change_keeps_sessions:
  assumes "portal_change pc i current new s = (None, s')" "fst (refresh now tok n s) = Inr n"
  shows "fst (refresh now tok n s') = Inr n"
proof -
  have s': "si_tokens s' = si_tokens s" "account_of j s' = account_of j (set_password i new s)" for j
    using assms(1) by (auto simp: portal_change_def account_of_def set_password_def split: if_splits option.splits)
  show ?thesis
    using assms(2) by (auto simp: refresh_def refresh_read_def s' account_of_set_password split: if_splits option.splits sum.splits)
qed

lemma portal_change_keeps_sessions_witness:
  "fst (refresh 50000 ''other'' ''next'' (snd (portal_change no_checks ''u1'' ''Old-secret1'' ''New-secret2'' two_browsers))) = Inr ''next''"
proof -
  have "portal_change no_checks ''u1'' ''Old-secret1'' ''New-secret2'' two_browsers =
      (None, snd (portal_change no_checks ''u1'' ''Old-secret1'' ''New-secret2'' two_browsers))"
    by code_simp
  moreover have "fst (refresh 50000 ''other'' ''next'' two_browsers) = Inr ''next''"
    by (simp add: refresh_def refresh_read_def two_browsers_def new_token_def account_of_def refresh_expiry_def)
  ultimately show ?thesis
    by (rule portal_change_keeps_sessions)
qed

text \<open>
  A wrong current password is answered with 401, which the client takes for an expired session: the
  passwords are sent a second time before the page shows the error.
\<close>

theorem wrong_password_sent_twice:
  assumes "\<not> w_demo w" "\<not> req_retry rq" "\<forall>h r. w_net w h r = Inl f" "f_status f = Some 401" "f_config f"
    "\<forall>h. truthy (jget (w_session w h) ''accessToken'') \<and> \<not> truthy (jget (w_session w h) ''error'')"
  shows "fst (company_client w rq h) = Inl f \<and>
    (\<exists>a b es. snd (company_client w rq h) = h @ es \<and> sent_requests es = [a, b] \<and> req_body a = req_body rq \<and> req_body b = req_body rq)"
proof -
  let ?rq = "fst (company_attach w rq h)" and ?h = "snd (company_attach w rq h)"
  have att: "company_attach w r g = (fst (company_attach w r g), g @ es) \<Longrightarrow> sent_requests es = []"
    "req_body (fst (company_attach w r g)) = req_body r" "\<exists>es. snd (company_attach w r g) = g @ es \<and> sent_requests es = []"
    for r g es
    by (auto simp: company_attach_def set_header_def sent_requests_def is_sent_def Let_def split: if_splits)
  have once: "company_once w r g = (Inl f, snd (company_attach w r g) @ [Sent (fst (company_attach w r g))])" for r g
    using assms(1,3,4) by (simp add: company_once_def split_beta Let_def)
  let ?b = "set_header (?rq\<lparr>req_retry := True\<rparr>) ''Authorization'' (bearer (jget (w_session w (?h @ [Sent ?rq])) ''accessToken''))"
  let ?g = "(?h @ [Sent ?rq]) @ [Read_Session]"
  have "company_client w rq h = company_once w ?b ?g"
    using company_api.client_refused [OF once [of rq h] assms(4,5,2)] assms(6) by (simp add: company_original_def Let_def)
  then have c: "company_client w rq h = (Inl f, snd (company_attach w ?b ?g) @ [Sent (fst (company_attach w ?b ?g))])"
    using once by simp
  obtain e1 where e1: "?h = h @ e1" "sent_requests e1 = []" using att(3) by blast
  obtain e2 where e2: "snd (company_attach w ?b ?g) = ?g @ e2" "sent_requests e2 = []" using att(3) by blast
  have "sent_requests (e1 @ [Sent ?rq, Read_Session] @ e2 @ [Sent (fst (company_attach w ?b ?g))]) = [?rq, fst (company_attach w ?b ?g)]"
    using e1(2) e2(2) by simp
  moreover have "snd (company_client w rq h) = h @ (e1 @ [Sent ?rq, Read_Session] @ e2 @ [Sent (fst (company_attach w ?b ?g))])"
    using c e1(1) e2(1) by simp
  moreover have "req_body ?rq = req_body rq" "req_body (fst (company_attach w ?b ?g)) = req_body rq"
    using att(2) by (simp_all add: set_header_def)
  ultimately show ?thesis
    using c by (metis fst_conv)
qed

definition refusing_world :: world where
  "refusing_world =
     \<lparr>w_session = (\<lambda>_. JObj [(''accessToken'', JStr ''token'')]),
      w_net = (\<lambda>_ _. Inl \<lparr>f_status = Some 401, f_data = JUndef, f_config = True\<rparr>),
      w_browser = True, w_demo = False, w_resolve_demo = (\<lambda>_. JNull)\<rparr>"

definition wrong_request :: Api_Client.request where
  "wrong_request =
     \<lparr>req_method = ''post'', req_url = ''/api/v1/auth/change-password'',
      req_body = JObj [(''current_password'', JStr ''wrong''), (''new_password'', JStr ''New-secret2'')],
      req_headers = [], req_retry = False\<rparr>"

lemma wrong_password_sent_twice_witness:
  "fst (company_client refusing_world wrong_request []) = Inl \<lparr>f_status = Some 401, f_data = JUndef, f_config = True\<rparr> \<and>
   length (sent_requests (snd (company_client refusing_world wrong_request []))) = 2"
proof -
  have "fst (company_client refusing_world wrong_request []) = Inl \<lparr>f_status = Some 401, f_data = JUndef, f_config = True\<rparr> \<and>
      (\<exists>a b es. snd (company_client refusing_world wrong_request []) = [] @ es \<and> sent_requests es = [a, b] \<and>
        req_body a = req_body wrong_request \<and> req_body b = req_body wrong_request)"
    by (rule wrong_password_sent_twice) (simp_all add: refusing_world_def wrong_request_def)
  then show ?thesis by auto
qed

end
