(* ===== verification/Settings_Panels.thy ===== *)
theory Settings_Panels
  imports Monitoring
begin

text \<open>
  Three panels of the settings page (\<^verbatim>\<open>company-dashboard/src/app/dashboard/settings/page.tsx\<close>): the
  e-mail notifications, the screenshots, and the page an employee sees when something is blocked; and
  the handlers that store what they save (\<^verbatim>\<open>handlers/company.go\<close>, \<^verbatim>\<open>handlers/mfa.go\<close>,
  \<^verbatim>\<open>handlers/monitoring.go\<close>). The panels for passwords and working hours are in \<^verbatim>\<open>Account_Tokens\<close> and
  \<^verbatim>\<open>Schedule\<close>.

  Texts are ASCII, so that characters and bytes are counted alike. \<open>can_write\<close> is whether the role may
  change settings.
\<close>

section \<open>What the API stores\<close>

record prefs =
  np_alerts :: bool
  np_digest :: bool
  np_threshold :: int
  np_weekly :: bool
  np_inactive :: bool
  np_requests :: bool
  np_enrolment :: bool

definition default_prefs :: prefs where
  "default_prefs =
     \<lparr>np_alerts = True, np_digest = True, np_threshold = 10, np_weekly = True, np_inactive = True, np_requests = True,
      np_enrolment = True\<rparr>"

record org_settings =
  os_prefs :: "prefs option"
  os_message :: string
  os_contact :: string
  os_mfa :: bool

definition clamp_prefs :: "prefs \<Rightarrow> prefs" where
  "clamp_prefs p =
     p\<lparr>np_threshold := (if np_threshold p < 1 then 1 else if np_threshold p > 500 then 500 else np_threshold p)\<rparr>"

definition prefs_for :: "org_settings \<Rightarrow> prefs" where
  "prefs_for s = (case os_prefs s of None \<Rightarrow> default_prefs | Some p \<Rightarrow> p)"

datatype setting_call = Put_Prefs prefs | Put_Block string string | Put_Mfa bool

definition message_limit :: nat where "message_limit = 300"
definition contact_limit :: nat where "contact_limit = 120"

text \<open>\<open>own_factor\<close> is whether the caller has a second factor.\<close>

fun apply_call :: "bool \<Rightarrow> setting_call \<Rightarrow> org_settings \<Rightarrow> (nat \<times> string) option \<times> org_settings" where
  "apply_call own_factor (Put_Prefs p) s = (None, s\<lparr>os_prefs := Some (clamp_prefs p)\<rparr>)"
| "apply_call own_factor (Put_Block m c) s =
     (None, s\<lparr>os_message := take message_limit (go_trim m), os_contact := take contact_limit (go_trim c)\<rparr>)"
| "apply_call own_factor (Put_Mfa required) s =
     (if required \<and> \<not> own_factor
      then (Some (400, ''Set up two-factor authentication on your own account before requiring it for everyone.''), s)
      else (None, s\<lparr>os_mfa := required\<rparr>))"

text \<open>
  Each handler reads the settings of the organisation as a whole, changes its part and writes the
  whole back.
\<close>

record settings_server =
  sv_stored :: org_settings
  sv_open :: "(nat \<times> bool \<times> setting_call \<times> org_settings) list"

datatype server_event = Read_All nat bool setting_call | Write_All nat

fun server_step :: "server_event \<Rightarrow> settings_server \<Rightarrow> settings_server" where
  "server_step (Read_All k own c) s = s\<lparr>sv_open := (k, own, c, sv_stored s) # sv_open s\<rparr>"
| "server_step (Write_All k) s =
     (case map_of (sv_open s) k of
        None \<Rightarrow> s
      | Some (own, c, seen) \<Rightarrow>
          s\<lparr>sv_stored := (if fst (apply_call own c seen) = None then snd (apply_call own c seen) else sv_stored s),
            sv_open := filter (\<lambda>x. fst x \<noteq> k) (sv_open s)\<rparr>)"

definition serve_all :: "server_event list \<Rightarrow> org_settings \<Rightarrow> org_settings" where
  "serve_all es s = sv_stored (fold server_step es \<lparr>sv_stored = s, sv_open = []\<rparr>)"

section \<open>Notifications\<close>

datatype pref_key = Alerts | Digest | Weekly | Inactive | Requests | Enrolment

fun put_pref :: "pref_key \<Rightarrow> bool \<Rightarrow> prefs \<Rightarrow> prefs" where
  "put_pref Alerts v p = p\<lparr>np_alerts := v\<rparr>"
| "put_pref Digest v p = p\<lparr>np_digest := v\<rparr>"
| "put_pref Weekly v p = p\<lparr>np_weekly := v\<rparr>"
| "put_pref Inactive v p = p\<lparr>np_inactive := v\<rparr>"
| "put_pref Requests v p = p\<lparr>np_requests := v\<rparr>"
| "put_pref Enrolment v p = p\<lparr>np_enrolment := v\<rparr>"

record prefs_panel =
  pn_prefs :: "prefs option"
  pn_dirty :: bool
  pn_pending :: bool
  pn_sent :: "prefs list"

definition open_prefs_panel :: prefs_panel where
  "open_prefs_panel = \<lparr>pn_prefs = None, pn_dirty = False, pn_pending = False, pn_sent = []\<rparr>"

text \<open>The threshold is the number in its field; an empty field counts as 0.\<close>

datatype prefs_event = Profile_Arrived prefs | Switch pref_key bool | Set_Threshold int | Save_Prefs | Prefs_Saved bool

fun prefs_step :: "bool \<Rightarrow> prefs_event \<Rightarrow> prefs_panel \<Rightarrow> prefs_panel" where
  "prefs_step can_write (Profile_Arrived p) s = s\<lparr>pn_prefs := Some p, pn_dirty := False\<rparr>"
| "prefs_step can_write (Switch k v) s =
     (case pn_prefs s of None \<Rightarrow> s
      | Some p \<Rightarrow> if can_write then s\<lparr>pn_prefs := Some (put_pref k v p), pn_dirty := True\<rparr> else s)"
| "prefs_step can_write (Set_Threshold n) s =
     (case pn_prefs s of None \<Rightarrow> s
      | Some p \<Rightarrow>
          if can_write \<and> np_digest p then s\<lparr>pn_prefs := Some (p\<lparr>np_threshold := n\<rparr>), pn_dirty := True\<rparr> else s)"
| "prefs_step can_write Save_Prefs s =
     (case pn_prefs s of None \<Rightarrow> s
      | Some p \<Rightarrow>
          if can_write \<and> pn_dirty s \<and> \<not> pn_pending s
          then s\<lparr>pn_pending := True, pn_sent := pn_sent s @ [p]\<rparr> else s)"
| "prefs_step can_write (Prefs_Saved ok) s =
     (if pn_pending s then s\<lparr>pn_pending := False, pn_dirty := (pn_dirty s \<and> \<not> ok)\<rparr> else s)"

definition prefs_run :: "bool \<Rightarrow> prefs_event list \<Rightarrow> prefs_panel \<Rightarrow> prefs_panel" where
  "prefs_run w es s = fold (prefs_step w) es s"

section \<open>Screenshots\<close>

text \<open>\<open>Math.round\<close>: halves go up.\<close>

definition js_round :: "rat \<Rightarrow> int" where
  "js_round x = floor (x + 1 / 2)"

record capture_panel =
  cw_draft :: "monitor_settings option"
  cw_pending :: bool
  cw_sent :: "monitor_settings list"

definition open_capture_panel :: capture_panel where
  "open_capture_panel = \<lparr>cw_draft = None, cw_pending = False, cw_sent = []\<rparr>"

datatype capture_event =
    Settings_Arrived monitor_settings
  | Flip_Enabled
  | Flip_Blur
  | Min_Minutes rat
  | Max_Minutes rat
  | Keep_Days rat
  | Save_Capture
  | Capture_Saved bool

text \<open>The draft is filled once, and never again from an answer.\<close>

fun capture_step :: "bool \<Rightarrow> capture_event \<Rightarrow> capture_panel \<Rightarrow> capture_panel" where
  "capture_step w (Settings_Arrived t) s = (if cw_draft s = None then s\<lparr>cw_draft := Some t\<rparr> else s)"
| "capture_step w Flip_Enabled s =
     (if w then s\<lparr>cw_draft := map_option (\<lambda>t. t\<lparr>mt_enabled := \<not> mt_enabled t\<rparr>) (cw_draft s)\<rparr> else s)"
| "capture_step w Flip_Blur s =
     (if w then s\<lparr>cw_draft := map_option (\<lambda>t. t\<lparr>mt_blur := \<not> mt_blur t\<rparr>) (cw_draft s)\<rparr> else s)"
| "capture_step w (Min_Minutes v) s = s\<lparr>cw_draft := map_option (\<lambda>t. t\<lparr>mt_min := max 1 (js_round (v * 60))\<rparr>) (cw_draft s)\<rparr>"
| "capture_step w (Max_Minutes v) s = s\<lparr>cw_draft := map_option (\<lambda>t. t\<lparr>mt_max := max 1 (js_round (v * 60))\<rparr>) (cw_draft s)\<rparr>"
| "capture_step w (Keep_Days v) s = s\<lparr>cw_draft := map_option (\<lambda>t. t\<lparr>mt_retention := max 0 (js_round v)\<rparr>) (cw_draft s)\<rparr>"
| "capture_step w Save_Capture s =
     (case cw_draft s of None \<Rightarrow> s
      | Some t \<Rightarrow> if w \<and> \<not> cw_pending s then s\<lparr>cw_pending := True, cw_sent := cw_sent s @ [t]\<rparr> else s)"
| "capture_step w (Capture_Saved ok) s = s\<lparr>cw_pending := False\<rparr>"

definition capture_run :: "bool \<Rightarrow> capture_event list \<Rightarrow> capture_panel \<Rightarrow> capture_panel" where
  "capture_run w es s = fold (capture_step w) es s"

text \<open>The panel sends every field.\<close>

definition full_change :: "monitor_settings \<Rightarrow> settings_change" where
  "full_change t =
     \<lparr>sc_enabled = Some (mt_enabled t), sc_min = Some (mt_min t), sc_max = Some (mt_max t), sc_idle = Some (mt_idle t),
      sc_blur = Some (mt_blur t), sc_retention = Some (mt_retention t)\<rparr>"

section \<open>The page for what is blocked\<close>

record block_panel =
  bk_message :: string
  bk_contact :: string
  bk_loaded :: bool
  bk_loading :: bool
  bk_pending :: bool
  bk_sent :: "(string \<times> string) list"

definition open_block_panel :: block_panel where
  "open_block_panel =
     \<lparr>bk_message = [], bk_contact = [], bk_loaded = False, bk_loading = True, bk_pending = False, bk_sent = []\<rparr>"

datatype block_event = Page_Arrived string string | Page_Failed | Type_Message string | Type_Contact string | Save_Page | Page_Saved

fun block_step :: "bool \<Rightarrow> block_event \<Rightarrow> block_panel \<Rightarrow> block_panel" where
  "block_step w (Page_Arrived m c) s =
     (if bk_loaded s then s\<lparr>bk_loading := False\<rparr>
      else s\<lparr>bk_message := m, bk_contact := c, bk_loaded := True, bk_loading := False\<rparr>)"
| "block_step w Page_Failed s = s\<lparr>bk_loading := False\<rparr>"
| "block_step w (Type_Message t) s = (if w then s\<lparr>bk_message := take message_limit t\<rparr> else s)"
| "block_step w (Type_Contact t) s = (if w then s\<lparr>bk_contact := take contact_limit t\<rparr> else s)"
| "block_step w Save_Page s =
     (if w \<and> \<not> bk_pending s \<and> \<not> bk_loading s
      then s\<lparr>bk_pending := True, bk_sent := bk_sent s @ [(bk_message s, bk_contact s)]\<rparr> else s)"
| "block_step w Page_Saved s = s\<lparr>bk_pending := False\<rparr>"

definition block_run :: "bool \<Rightarrow> block_event list \<Rightarrow> block_panel \<Rightarrow> block_panel" where
  "block_run w es s = fold (block_step w) es s"

section \<open>Saves that meet\<close>

fun same_part :: "setting_call \<Rightarrow> setting_call \<Rightarrow> bool" where
  "same_part (Put_Prefs _) (Put_Prefs _) = True"
| "same_part (Put_Block _ _) (Put_Block _ _) = True"
| "same_part (Put_Mfa _) (Put_Mfa _) = True"
| "same_part _ _ = False"

definition accepted :: "bool \<Rightarrow> setting_call \<Rightarrow> bool" where
  "accepted own c = (\<forall>s. fst (apply_call own c s) = None)"

lemma accepted_iff: "accepted own c = (\<not> (c = Put_Mfa True \<and> \<not> own))"
  by (cases c) (auto simp: accepted_def)

lemma serve_one_by_one:
  "accepted o1 c1 \<Longrightarrow> accepted o2 c2 \<Longrightarrow>
    serve_all [Read_All j o1 c1, Write_All j, Read_All k o2 c2, Write_All k] s = snd (apply_call o2 c2 (snd (apply_call o1 c1 s)))"
  by (simp add: serve_all_def accepted_def)

lemma parts_commute:
  "accepted o1 c1 \<Longrightarrow> accepted o2 c2 \<Longrightarrow> \<not> same_part c1 c2 \<Longrightarrow>
    snd (apply_call o2 c2 (snd (apply_call o1 c1 s))) = snd (apply_call o1 c1 (snd (apply_call o2 c2 s)))"
  by (cases c1; cases c2) (auto simp: accepted_iff)


definition some_settings :: org_settings where
  "some_settings = \<lparr>os_prefs = None, os_message = ''Ask the desk'', os_contact = ''it@acme.com'', os_mfa = False\<rparr>"


section \<open>What the panels send and show\<close>

definition draft_ok :: "monitor_settings \<Rightarrow> bool" where
  "draft_ok t = (1 \<le> mt_min t \<and> 1 \<le> mt_max t \<and> 0 \<le> mt_idle t \<and> mt_idle t \<le> 100 \<and> 0 \<le> mt_retention t)"

lemma draft_ok_fields [simp]:
  "draft_ok t \<Longrightarrow> draft_ok (t\<lparr>mt_enabled := b\<rparr>)" "draft_ok t \<Longrightarrow> draft_ok (t\<lparr>mt_blur := b\<rparr>)"
  "draft_ok t \<Longrightarrow> 1 \<le> n \<Longrightarrow> draft_ok (t\<lparr>mt_min := n\<rparr>)" "draft_ok t \<Longrightarrow> 1 \<le> n \<Longrightarrow> draft_ok (t\<lparr>mt_max := n\<rparr>)"
  "draft_ok t \<Longrightarrow> 0 \<le> n \<Longrightarrow> draft_ok (t\<lparr>mt_retention := n\<rparr>)"
  by (simp_all add: draft_ok_def)

definition capture_ok :: "capture_panel \<Rightarrow> bool" where
  "capture_ok s = (list_all draft_ok (cw_sent s) \<and> pred_option draft_ok (cw_draft s))"

lemma capture_ok_step: "capture_ok s \<Longrightarrow> \<forall>t. e = Settings_Arrived t \<longrightarrow> draft_ok t \<Longrightarrow> capture_ok (capture_step w e s)"
  by (cases e; cases "cw_draft s") (simp_all add: capture_ok_def)

lemma capture_ok_run:
  assumes "\<forall>t. Settings_Arrived t \<in> set es \<longrightarrow> draft_ok t"
  shows "capture_ok (capture_run w es open_capture_panel)"
  using assms
proof (induction es rule: rev_induct)
  case (snoc e es)
  then show ?case
    using capture_ok_step [of "capture_run w es open_capture_panel" e w] by (simp add: capture_run_def)
qed (simp add: capture_run_def open_capture_panel_def capture_ok_def)

text \<open>
  The panel keeps showing what it sent, since its draft is filled once: that is what is stored exactly
  when the shortest interval is at least 20 seconds and not above the longest.
\<close>

theorem shown_is_stored_iff:
  assumes "\<forall>t. Settings_Arrived t \<in> set es \<longrightarrow> draft_ok t" "cw_draft (capture_run w es open_capture_panel) = Some t"
    "stored = update_settings (full_change t) old"
  shows "cw_draft (capture_run w (es @ [Save_Capture, Capture_Saved True, Settings_Arrived stored]) open_capture_panel) = Some t \<and>
    (t = stored) = (20 \<le> mt_min t \<and> mt_min t \<le> mt_max t)"
proof -
  have "draft_ok t" using capture_ok_run [OF assms(1), of w] assms(2) by (simp add: capture_ok_def)
  then have "(t = stored) = (20 \<le> mt_min t \<and> mt_min t \<le> mt_max t)"
    unfolding assms(3) update_settings_def full_change_def draft_ok_def
    by (cases t) (auto simp: given_def clamp_percent_def Let_def)
  then show ?thesis
    using assms(2) by (cases w) (simp_all add: capture_run_def)
qed

lemma shown_is_stored_iff_witness:
  "let es = [Settings_Arrived default_settings, Min_Minutes (1 / 60)]; t = default_settings\<lparr>mt_min := 1\<rparr>;
       stored = update_settings (full_change t) default_settings
   in cw_draft (capture_run True (es @ [Save_Capture, Capture_Saved True, Settings_Arrived stored]) open_capture_panel) = Some t \<and>
      t \<noteq> stored"
proof -
  have "\<forall>t. Settings_Arrived t \<in> set [Settings_Arrived default_settings, Min_Minutes (1 / 60)] \<longrightarrow> draft_ok t"
    by (simp add: draft_ok_def default_settings_def)
  moreover have "cw_draft (capture_run True [Settings_Arrived default_settings, Min_Minutes (1 / 60)] open_capture_panel) =
      Some (default_settings\<lparr>mt_min := 1\<rparr>)"
    by (simp add: capture_run_def open_capture_panel_def js_round_def)
  ultimately show ?thesis
    using shown_is_stored_iff [OF _ _ refl, of "[Settings_Arrived default_settings, Min_Minutes (1 / 60)]" True
        "default_settings\<lparr>mt_min := 1\<rparr>" default_settings]
    by (simp add: Let_def)
qed

text \<open>
  Screenshots may be set further apart than the quarter of an hour after which a session counts as
  abandoned.
\<close>

lemma interval_beyond_staleness:
  "let t = update_settings (full_change (default_settings\<lparr>mt_min := 3600, mt_max := 3600\<rparr>)) default_settings
   in mt_min t * 1000 > stale_after"
  by code_simp

text \<open>When the stored texts could not be loaded, Save is offered all the same and erases them.\<close>

theorem failed_load_erases:
  assumes "(m, c) \<in> set (bk_sent (block_run True [Page_Failed, Save_Page] open_block_panel))"
  shows "os_message (snd (apply_call own (Put_Block m c) s)) = [] \<and> os_contact (snd (apply_call own (Put_Block m c) s)) = []"
  using assms by (simp add: block_run_def open_block_panel_def go_trim_def)

lemma failed_load_erases_witness:
  "os_message (snd (apply_call True (Put_Block [] []) some_settings)) = []"
proof -
  have "([], []) \<in> set (bk_sent (block_run True [Page_Failed, Save_Page] open_block_panel))"
    by (simp add: block_run_def open_block_panel_def)
  from failed_load_erases [OF this] show ?thesis by blast
qed

definition block_panel_ok :: "block_panel \<Rightarrow> bool" where
  "block_panel_ok s =
     (length (bk_message s) \<le> message_limit \<and> length (bk_contact s) \<le> contact_limit \<and>
      list_all (\<lambda>(m, c). length m \<le> message_limit \<and> length c \<le> contact_limit) (bk_sent s))"

lemma block_panel_ok_run:
  assumes "\<forall>m c. Page_Arrived m c \<in> set es \<longrightarrow> length m \<le> message_limit \<and> length c \<le> contact_limit"
  shows "block_panel_ok (block_run w es open_block_panel)"
  using assms
proof (induction es rule: rev_induct)
  case Nil
  show ?case by (simp add: block_run_def open_block_panel_def block_panel_ok_def)
next
  case (snoc e es)
  then have "block_panel_ok (block_run w es open_block_panel)"
    "\<forall>m c. e = Page_Arrived m c \<longrightarrow> length m \<le> message_limit \<and> length c \<le> contact_limit"
    by auto
  then show ?case
    by (cases e) (auto simp: block_run_def block_panel_ok_def)
qed

lemma length_go_trim: "length (go_trim t) \<le> length t"
proof -
  have "length (dropWhile go_space (rev (dropWhile go_space t))) \<le> length (rev (dropWhile go_space t))"
    by (rule length_dropWhile_le)
  also have "\<dots> \<le> length t"
    by (simp add: length_dropWhile_le)
  finally show ?thesis by (simp add: go_trim_def)
qed

text \<open>Nothing the panel sends is cut: what is stored is what was shown, without white space around it.\<close>

theorem block_page_not_cut:
  assumes "\<forall>m c. Page_Arrived m c \<in> set es \<longrightarrow> length m \<le> message_limit \<and> length c \<le> contact_limit"
    "(m, c) \<in> set (bk_sent (block_run w es open_block_panel))"
  shows "snd (apply_call own (Put_Block m c) s) = s\<lparr>os_message := go_trim m, os_contact := go_trim c\<rparr>"
proof -
  have "length m \<le> message_limit" "length c \<le> contact_limit"
    using block_panel_ok_run [OF assms(1), of w] assms(2) by (auto simp: block_panel_ok_def list_all_iff)
  then show ?thesis
    using length_go_trim [of m] length_go_trim [of c] by simp
qed

lemma block_page_not_cut_witness:
  "os_message (snd (apply_call True (Put_Block '' Call us'' ''it@acme.com'') some_settings)) = ''Call us''"
proof -
  have "\<forall>m c. Page_Arrived m c \<in> set [Page_Arrived ''Ask'' ''it@acme.com'', Type_Message '' Call us'', Save_Page] \<longrightarrow>
      length m \<le> message_limit \<and> length c \<le> contact_limit"
    by (simp add: message_limit_def contact_limit_def)
  moreover have "('' Call us'', ''it@acme.com'') \<in> set (bk_sent (block_run True
      [Page_Arrived ''Ask'' ''it@acme.com'', Type_Message '' Call us'', Save_Page] open_block_panel))"
    by (simp add: block_run_def open_block_panel_def message_limit_def)
  ultimately have "snd (apply_call True (Put_Block '' Call us'' ''it@acme.com'') some_settings) =
      some_settings\<lparr>os_message := go_trim '' Call us'', os_contact := go_trim ''it@acme.com''\<rparr>"
    by (rule block_page_not_cut)
  moreover have "go_trim '' Call us'' = ''Call us''" by code_simp
  ultimately show ?thesis by (simp del: apply_call.simps)
qed

text \<open>
  What is switched while a save is under way counts as saved when the answer comes, and disappears when
  the profile is read again.
\<close>

theorem switched_during_save_lost:
  assumes "pn_prefs s = Some p" "pn_dirty s" "\<not> pn_pending s" "put_pref k v p \<noteq> p"
  shows "pn_sent (prefs_run True [Save_Prefs, Switch k v, Prefs_Saved True] s) = pn_sent s @ [p] \<and>
    pn_prefs (prefs_run True [Save_Prefs, Switch k v, Prefs_Saved True] s) = Some (put_pref k v p) \<and>
    \<not> pn_dirty (prefs_run True [Save_Prefs, Switch k v, Prefs_Saved True] s) \<and>
    pn_prefs (prefs_run True [Save_Prefs, Switch k v, Prefs_Saved True, Profile_Arrived (clamp_prefs p)] s) = Some (clamp_prefs p)"
  using assms by (simp add: prefs_run_def)

lemma switched_during_save_lost_witness:
  "let s = prefs_run True [Profile_Arrived default_prefs, Switch Weekly False, Save_Prefs, Switch Digest False, Prefs_Saved True]
     open_prefs_panel
   in pn_prefs s = Some (default_prefs\<lparr>np_weekly := False, np_digest := False\<rparr>) \<and> \<not> pn_dirty s \<and>
      pn_sent s = [default_prefs\<lparr>np_weekly := False\<rparr>]"
proof -
  let ?s = "prefs_run True [Profile_Arrived default_prefs, Switch Weekly False] open_prefs_panel"
  have "pn_prefs ?s = Some (default_prefs\<lparr>np_weekly := False\<rparr>)" "pn_dirty ?s" "\<not> pn_pending ?s" "pn_sent ?s = []"
    "put_pref Digest False (default_prefs\<lparr>np_weekly := False\<rparr>) \<noteq> default_prefs\<lparr>np_weekly := False\<rparr>"
    by (simp_all add: prefs_run_def open_prefs_panel_def default_prefs_def)
  from switched_during_save_lost [OF this(1-3,5)] this(4) show ?thesis
    by (simp add: prefs_run_def Let_def)
qed

end
