(* ===== verification/Spec2Isabelle.thy ===== *)
theory Spec2Isabelle
  imports Prelude Js_Date Report_Period Authorize Session_Refresh Api_Client Stream_Chat Login_Pages
    Schedule Website_Forms Markdown Cms Endpoints Router Api_Contract Assistant Typewriter
    Data_Residency Enrollment Pagination Web_Gateway Support Access_Control Js_Sort Live_Feed
    Notifications Activity_Feed Mfa_Card Selection Employees Markdown_Loop Report_Table
    Teams_Access Content_Editor Access_Requests Access_Pages Screenshots
    Monitoring Company_Screenshots Account_Tokens Settings_Panels
begin

text \<open>
  The TypeScript front ends of Aavishield: the company dashboard, the superadmin panel, the
  employee portal and the website, below \<^verbatim>\<open>src/frontend\<close>. All of them talk to the admin API
  (\<^verbatim>\<open>src/services/admin-api\<close>, Go); of that service the routes, the permissions and the handlers behind
  the pages that are modelled here are modelled too. A page is a record of its state and a step function with one
  event for each handler; what it asks of the world is a list of effects; the network, the
  browser and third-party libraries are arguments.

  \<^bold>\<open>Theories\<close>, in the order in which they build on each other:

  \<^item> \<^verbatim>\<open>Prelude\<close>: JavaScript values and strings, errors as values, services as functions of the
    calls made before, and the shared lemmas. \<^verbatim>\<open>Js_Date\<close>: calendar dates as ECMAScript computes
    them.
  \<^item> \<^verbatim>\<open>Report_Period\<close>: \<^verbatim>\<open>lib/report-period.ts\<close>, the presets, the range picker and the period a page
    keeps in its address. Periods have the length their name says, and survive printing and
    parsing; across a change of the clock a year-long range is refused.
  \<^item> \<^verbatim>\<open>Authorize\<close>, \<^verbatim>\<open>Session_Refresh\<close>: \<^verbatim>\<open>lib/auth.ts\<close> of the three panels. A session comes only from
    an answer of the API for the credentials given, the superadmin panel admits its own roles
    only, and a refresh token is never sent twice: the refresh in flight is shared. The map of
    refreshes is one locale, interpreted for each panel.
  \<^item> \<^verbatim>\<open>Api_Client\<close>, \<^verbatim>\<open>Endpoints\<close>, \<^verbatim>\<open>Router\<close>, \<^verbatim>\<open>Api_Contract\<close>: \<^verbatim>\<open>lib/api.ts\<close> with its interceptors, each
    call it offers as a constructor, the routes of \<^verbatim>\<open>internal/router/router.go\<close>, and that every call
    reaches its handler, with two exceptions.
  \<^item> \<^verbatim>\<open>Access_Control\<close>: \<^verbatim>\<open>lib/permissions.ts\<close>, the sidebar, the settings sections and the reads of every
    page, against \<^verbatim>\<open>models/permissions.go\<close> and the permission of each route. It rests on the
    contract of the theories before it.
  \<^item> \<^verbatim>\<open>Stream_Chat\<close>, \<^verbatim>\<open>Assistant\<close>, \<^verbatim>\<open>Typewriter\<close>: the streamed replies, the conversation of the
    assistant and the effect that types them. How the network cuts a reply does not matter, the
    items of a stream refine the reply they spell, and typing ends.
  \<^item> \<^verbatim>\<open>Login_Pages\<close>, \<^verbatim>\<open>Enrollment\<close>: the sign-in and registration pages and the enrolment of a device,
    whose token goes to a loopback address only. The pause before a code is sent again is one
    locale, interpreted for three pages.
  \<^item> \<^verbatim>\<open>Schedule\<close>, \<^verbatim>\<open>Data_Residency\<close>, \<^verbatim>\<open>Web_Gateway\<close>, \<^verbatim>\<open>Support\<close>, \<^verbatim>\<open>Pagination\<close>, \<^verbatim>\<open>Selection\<close>,
    \<^verbatim>\<open>Report_Table\<close>: editors and tables of the company dashboard. What is sent is well formed,
    editing keeps what was stored, destructive actions need their word typed, and the pages of a
    table show each row once.
  \<^item> \<^verbatim>\<open>Employees\<close>, \<^verbatim>\<open>Teams_Access\<close>, \<^verbatim>\<open>Mfa_Card\<close>: people, teams and roles with the handlers that keep them,
    and the card of the second factor. Addresses stay distinct, an administrator remains, and the
    card can never turn the factor on.
  \<^item> \<^verbatim>\<open>Js_Sort\<close>, \<^verbatim>\<open>Live_Feed\<close>, \<^verbatim>\<open>Notifications\<close>, \<^verbatim>\<open>Activity_Feed\<close>: sorting as JavaScript does it, for any
    consistent comparison (a locale with one interpretation for each order), and what arrives over
    a web socket: the connection, the bell and the live rows of the activity page.
  \<^item> \<^verbatim>\<open>Access_Requests\<close>, \<^verbatim>\<open>Access_Pages\<close>: asking for what is blocked and deciding it, in the API and on the
    two pages. Decisions that overlap act one after the other; a page offers what the API does.
  \<^item> \<^verbatim>\<open>Screenshots\<close>, \<^verbatim>\<open>Monitoring\<close>, \<^verbatim>\<open>Company_Screenshots\<close>: the day of screenshots as the API cuts it and the
    employee sees it, the sessions and screenshots behind it with their sweeps, and the page of the
    company. Totals are those of the stored rows; some rows are counted and shown on no page.
  \<^item> \<^verbatim>\<open>Account_Tokens\<close>, \<^verbatim>\<open>Settings_Panels\<close>: refresh tokens and passwords, which rest on the session and the
    client of the theories above, and the panels of the settings page with the handlers that store
    what they save.
  \<^item> \<^verbatim>\<open>Website_Forms\<close>, \<^verbatim>\<open>Markdown\<close>, \<^verbatim>\<open>Markdown_Loop\<close>, \<^verbatim>\<open>Cms\<close>, \<^verbatim>\<open>Content_Editor\<close>: the public forms with their rate
    limit and proxy, the renderer of articles, whose links are harmless, its loops as written, the
    choice and order of articles, and the editor that writes them.

  \<^bold>\<open>Parameters and bounds.\<close> No definition uses fuel: loops over text recurse on its length or have
  a termination proof, and a retry recurses on a flag of its request. Strings are lists of
  characters, so code units above 255 are outside the model. Numbers are integers where the code
  computes with integers. Times are milliseconds given as arguments. JSON parsing, URL parsing,
  \<^verbatim>\<open>encodeURIComponent\<close>, next-auth, axios and the answers of the API are arguments of the
  definitions that use them; where a theorem needs a law of one of them, the law is a premise.

  \<^bold>\<open>Not modelled.\<close> Markup, class names, charts and animations; the texts of the website and the
  documentation site; the demo data apart from its paging; \<^verbatim>\<open>lib/policies.ts\<close>, which no page
  imports; and the PDF export, which draws with a third-party library. The remaining pages (devices,
  categories, applications, data transfers, the overview and the profile of the company dashboard,
  the tables of organisations, agent versions, the waiting list and the catalog in the superadmin
  panel, the overview, downloads and profile of the employee portal) appear only through their
  reads and calls: they show what the API answers. Of the admin API the engines for risk and
  classification, the data planes, mails and the ingestion of events are left out, and so are the
  endpoint agent (Rust) and the inspection services (Python, Go, Rust).
\<close>

end
